(* ===== verification/Prelude.thy ===== *)
theory Prelude
  imports Main
begin

text \<open>
  Shared vocabulary of the development: the types that name the values the TypeScript code
  passes around (identifiers, timestamps, results of fallible operations), the collections of
  rewrite rules the component proofs use, and generic lemmas on lists, options and maps.

  A JavaScript \<open>Map\<close> keeps insertion order, and several components iterate over one, so it is an
  association list with distinct keys here: \<open>amap_set\<close> keeps the position of an existing key and
  appends a new one, as \<open>Map.prototype.set\<close> does.
\<close>

named_theorems sim_simps \<open>rewrite rules for state updates of the models\<close>
named_theorems inv_intros \<open>introduction rules for the invariants of the models\<close>

type_synonym ident = string
type_synonym timestamp = nat

section \<open>Insertion-ordered maps\<close>

type_synonym ('k, 'v) amap = "('k \<times> 'v) list"

definition amap_get :: "('k, 'v) amap \<Rightarrow> 'k \<Rightarrow> 'v option" where
  "amap_get m k = map_of m k"

definition amap_has :: "('k, 'v) amap \<Rightarrow> 'k \<Rightarrow> bool" where
  "amap_has m k = (k \<in> fst ` set m)"

fun amap_set :: "('k, 'v) amap \<Rightarrow> 'k \<Rightarrow> 'v \<Rightarrow> ('k, 'v) amap" where
  "amap_set [] k v = [(k, v)]"
| "amap_set ((k', v') # m) k v = (if k' = k then (k, v) # m else (k', v') # amap_set m k v)"

definition amap_delete :: "('k, 'v) amap \<Rightarrow> 'k \<Rightarrow> ('k, 'v) amap" where
  "amap_delete m k = filter (\<lambda>e. fst e \<noteq> k) m"

definition amap_wf :: "('k, 'v) amap \<Rightarrow> bool" where
  "amap_wf m = distinct (map fst m)"

lemma amap_get_set [simp]: "amap_get (amap_set m k v) j = (if j = k then Some v else amap_get m j)"
  by (induction m k v rule: amap_set.induct) (auto simp: amap_get_def)

lemma amap_get_delete [simp]: "amap_get (amap_delete m k) j = (if j = k then None else amap_get m j)"
  by (induction m) (auto simp: amap_get_def amap_delete_def)

lemma amap_get_Nil [simp]: "amap_get [] k = None"
  by (simp add: amap_get_def)

lemma amap_keys_set: "fst ` set (amap_set m k v) = insert k (fst ` set m)"
  by (induction m k v rule: amap_set.induct) auto

lemma amap_wf_Nil [simp, inv_intros]: "amap_wf []"
  by (simp add: amap_wf_def)

lemma amap_wf_set [inv_intros]: "amap_wf m \<Longrightarrow> amap_wf (amap_set m k v)"
proof (induction m k v rule: amap_set.induct)
  case (2 k' v' m k v)
  have "fst ` set (amap_set m k v) = insert k (fst ` set m)" by (rule amap_keys_set)
  with 2 show ?case by (auto simp: amap_wf_def)
qed (simp add: amap_wf_def)

lemma amap_wf_filter [inv_intros]: "amap_wf m \<Longrightarrow> amap_wf (filter P m)"
  by (induction m) (auto simp: amap_wf_def)

lemma amap_wf_delete [inv_intros]: "amap_wf m \<Longrightarrow> amap_wf (amap_delete m k)"
  by (simp add: amap_delete_def amap_wf_filter)

lemma amap_has_iff: "amap_has m k \<longleftrightarrow> amap_get m k \<noteq> None"
  by (induction m) (auto simp: amap_has_def amap_get_def)

lemma amap_get_iff_mem: "amap_wf m \<Longrightarrow> amap_get m k = Some v \<longleftrightarrow> (k, v) \<in> set m"
  by (simp add: amap_wf_def amap_get_def)

lemma amap_delete_fresh: "amap_get m k = None \<Longrightarrow> amap_delete m k = m"
  by (induction m) (auto simp: amap_get_def amap_delete_def split: if_splits)

section \<open>Lists\<close>

text \<open>\<open>j\<close> stands directly behind \<open>i\<close>, or is already the first element.\<close>

definition directly_behind :: "'a \<Rightarrow> 'a \<Rightarrow> 'a list \<Rightarrow> bool" where
  "directly_behind i j xs \<longleftrightarrow> (\<exists>us vs. xs = us @ i # j # vs) \<or> (\<exists>vs. xs = j # vs)"

lemma directly_behind_append: "directly_behind i j xs \<Longrightarrow> directly_behind i j (xs @ ys)"
  unfolding directly_behind_def by (metis append_Cons append_assoc)

lemma directly_behind_tl:
  "directly_behind i j (h # xs) \<Longrightarrow> j \<in> set xs \<Longrightarrow> h \<notin> set xs \<Longrightarrow> directly_behind i j xs"
  by (auto simp: directly_behind_def Cons_eq_append_conv)

lemma directly_behind_head: "directly_behind i j xs \<Longrightarrow> i \<notin> set xs \<Longrightarrow> hd xs = j"
  by (auto simp: directly_behind_def)

lemma filter_filter_comm: "filter P (filter Q xs) = filter Q (filter P xs)"
  by (simp add: conj_commute)

section \<open>Strings\<close>

text \<open>\<open>String.prototype.startsWith\<close>.\<close>

definition starts_with :: "string \<Rightarrow> string \<Rightarrow> bool" where
  "starts_with p s = (take (length p) s = p)"

section \<open>Operations that may throw\<close>

text \<open>
  An operation is a function from a state to a thrown error or a result, and the state it leaves: a
  thrown error keeps the changes made before it.
\<close>

type_synonym ('s, 'e, 'a) op = "'s \<Rightarrow> ('e + 'a) \<times> 's"

definition ret :: "'a \<Rightarrow> ('s, 'e, 'a) op" where "ret x e = (Inr x, e)"
definition throw :: "'e \<Rightarrow> ('s, 'e, 'a) op" where "throw x e = (Inl x, e)"
definition bind :: "('s, 'e, 'a) op \<Rightarrow> ('a \<Rightarrow> ('s, 'e, 'b) op) \<Rightarrow> ('s, 'e, 'b) op" where
  "bind m f e = (case m e of (Inl x, e') \<Rightarrow> (Inl x, e') | (Inr y, e') \<Rightarrow> f y e')"
definition seq :: "('s, 'e, unit) op \<Rightarrow> ('s, 'e, 'b) op \<Rightarrow> ('s, 'e, 'b) op" where "seq m n = bind m (\<lambda>_. n)"
definition modify :: "('s \<Rightarrow> 's) \<Rightarrow> ('s, 'e, unit) op" where "modify f e = (Inr (), f e)"
definition whenever :: "bool \<Rightarrow> ('s, 'e, unit) op \<Rightarrow> ('s, 'e, unit) op" where
  "whenever b m = (if b then m else ret ())"

text \<open>\<open>try m catch h\<close>, and \<open>try m finally f\<close> for a clean-up that does not throw.\<close>

definition catching :: "('s, 'e, 'a) op \<Rightarrow> ('e \<Rightarrow> ('s, 'e, 'a) op) \<Rightarrow> ('s, 'e, 'a) op" where
  "catching m h e = (case m e of (Inl x, e') \<Rightarrow> h x e' | (Inr y, e') \<Rightarrow> (Inr y, e'))"
definition ensuring :: "('s, 'e, 'a) op \<Rightarrow> ('s \<Rightarrow> 's) \<Rightarrow> ('s, 'e, 'a) op" where
  "ensuring m f e = (let (r, e') = m e in (r, f e'))"

lemma seq_run: "seq m n e = (Inr y, e') \<Longrightarrow> \<exists>e1. m e = (Inr (), e1) \<and> n e1 = (Inr y, e')"
  by (auto simp: seq_def bind_def split: prod.splits sum.splits)

lemma bind_run: "bind m f e = (Inr y, e') \<Longrightarrow> \<exists>x e1. m e = (Inr x, e1) \<and> f x e1 = (Inr y, e')"
  by (auto simp: bind_def split: prod.splits sum.splits)

text \<open>\<open>P\<close> before, \<open>Q\<close> after a result, \<open>E\<close> after an error.\<close>

definition triple ::
  "('s \<Rightarrow> bool) \<Rightarrow> ('s, 'e, 'a) op \<Rightarrow> ('a \<Rightarrow> 's \<Rightarrow> bool) \<Rightarrow> ('s \<Rightarrow> bool) \<Rightarrow> bool" where
  "triple P m Q E \<longleftrightarrow> (\<forall>s. P s \<longrightarrow> (case m s of (Inl _, s') \<Rightarrow> E s' | (Inr y, s') \<Rightarrow> Q y s'))"

lemma triple_ret: "(\<And>s. P s \<Longrightarrow> Q x s) \<Longrightarrow> triple P (ret x) Q E"
  and triple_throw: "(\<And>s. P s \<Longrightarrow> E s) \<Longrightarrow> triple P (throw y) Q E"
  by (simp_all add: triple_def ret_def throw_def)

lemma triple_bind: "triple P m R E \<Longrightarrow> (\<And>x. triple (R x) (f x) Q E) \<Longrightarrow> triple P (bind m f) Q E"
  by (fastforce simp: triple_def bind_def split: prod.splits sum.splits)

lemma triple_seq: "triple P m (\<lambda>_. R) E \<Longrightarrow> triple R n Q E \<Longrightarrow> triple P (seq m n) Q E"
  unfolding seq_def by (rule triple_bind)

lemma triple_catching: "triple P m Q R \<Longrightarrow> (\<And>x. triple R (h x) Q E) \<Longrightarrow> triple P (catching m h) Q E"
  by (fastforce simp: triple_def catching_def split: prod.splits sum.splits)

lemma triple_if: "(b \<Longrightarrow> triple P m Q E) \<Longrightarrow> (\<not> b \<Longrightarrow> triple P n Q E) \<Longrightarrow> triple P (if b then m else n) Q E"
  by simp

lemma triple_conseq: "triple P m Q E \<Longrightarrow> (\<And>s. P' s \<Longrightarrow> P s) \<Longrightarrow> (\<And>x s. Q x s \<Longrightarrow> Q' x s) \<Longrightarrow> (\<And>s. E s \<Longrightarrow> E' s) \<Longrightarrow> triple P' m Q' E'"
  by (fastforce simp: triple_def split: prod.splits sum.splits)

lemma triple_fact: "(\<And>s. P s \<Longrightarrow> F) \<Longrightarrow> (F \<Longrightarrow> triple P m Q E) \<Longrightarrow> triple P m Q E"
  by (auto simp: triple_def)

text \<open>
  The relations between the state before and the state after an operation, however it ends: an operation
  respects a reflexive and transitive relation when its parts do.
\<close>

locale op_relation =
  fixes R :: "'s \<Rightarrow> 's \<Rightarrow> bool"
  assumes refl: "R e e"
    and trans: "R a b \<Longrightarrow> R b c \<Longrightarrow> R a c"
begin

definition keeps :: "('s, 'e, 'a) op \<Rightarrow> bool" where
  "keeps m \<longleftrightarrow> (\<forall>e. R e (snd (m e)))"

lemma keepsI: "(\<And>e. R e (snd (m e))) \<Longrightarrow> keeps m"
  by (simp add: keeps_def)

lemma keepsD: "keeps m \<Longrightarrow> m e = (x, e') \<Longrightarrow> R e e'"
  by (metis keeps_def snd_conv)

lemma keeps_at: "keeps m \<Longrightarrow> R e (snd (m e))"
  by (simp add: keeps_def)

lemma keeps_ret: "keeps (ret x)" and keeps_throw: "keeps (throw y)"
  by (simp_all add: keeps_def ret_def throw_def refl)

lemma at_bind:
  assumes "R e (snd (m e))" "\<And>x. keeps (f x)"
  shows "R e (snd (bind m f e))"
proof (cases "m e")
  case (Pair x e')
  with assms(1) have "R e e'" by simp
  then show ?thesis using Pair trans [OF _ keeps_at [OF assms(2)]]
    by (cases x) (simp_all add: bind_def)
qed

lemma at_seq: "R e (snd (m e)) \<Longrightarrow> keeps n \<Longrightarrow> R e (snd (seq m n e))"
  unfolding seq_def by (rule at_bind)

lemma at_catching:
  assumes "R e (snd (m e))" "\<And>x. keeps (h x)"
  shows "R e (snd (catching m h e))"
proof (cases "m e")
  case (Pair x e')
  with assms(1) have "R e e'" by simp
  then show ?thesis using Pair trans [OF _ keeps_at [OF assms(2)]]
    by (cases x) (simp_all add: catching_def)
qed

lemma keeps_bind: "keeps m \<Longrightarrow> (\<And>x. keeps (f x)) \<Longrightarrow> keeps (bind m f)"
  by (rule keepsI, rule at_bind, rule keeps_at, assumption) blast

lemma keeps_seq: "keeps m \<Longrightarrow> keeps n \<Longrightarrow> keeps (seq m n)"
  by (rule keepsI, rule at_seq, rule keeps_at)

lemma keeps_catching: "keeps m \<Longrightarrow> (\<And>x. keeps (h x)) \<Longrightarrow> keeps (catching m h)"
  by (rule keepsI, rule at_catching, rule keeps_at, assumption) blast

lemma keeps_modify: "(\<And>e. R e (f e)) \<Longrightarrow> keeps (modify f)"
  by (simp add: keeps_def modify_def)

lemma keeps_whenever: "keeps m \<Longrightarrow> keeps (whenever b m)"
  by (simp add: whenever_def keeps_ret)

lemma at_ensuring: "R e (snd (m e)) \<Longrightarrow> (\<And>e. R e (f e)) \<Longrightarrow> R e (snd (ensuring m f e))"
  by (cases "m e") (simp add: ensuring_def, rule trans)

lemma keeps_ensuring: "keeps m \<Longrightarrow> (\<And>e. R e (f e)) \<Longrightarrow> keeps (ensuring m f)"
  by (rule keepsI, rule at_ensuring, rule keeps_at)

end

end
