(* ===== verification/TaskStatus.thy ===== *)
theory TaskStatus
  imports Prelude
begin

text \<open>
  The status machines. \<open>task_status\<close> and its transition table are those of
  \<open>src/shared/task.ts\<close> and \<open>src/core/task-state-machine.ts\<close>; the display predicates are those of
  \<open>src/utils/task-status.ts\<close>; the status classes of the persistence queries are those of
  \<open>src/persistence/tasks/queries.ts\<close>; the provisioning job machine is
  \<open>src/core/provisioning/state-machine.ts\<close>. A \<open>ReadonlySet\<close> is a HOL set, the
  functions keep the source's names, and a thrown error is the left side of a sum.
\<close>

section \<open>Task statuses and their transition table\<close>

datatype task_status =
    Idle | Draft | Planning | Starting | Running | Waiting | Completed | Stopped | Failed
  | MaxIterations | ResolvingConflicts | AcceptedLocal | Merged | Pushed | Deleted

fun transition_table :: "task_status \<Rightarrow> task_status set" where
  "transition_table Idle = {Starting, Planning, Draft, Deleted}"
| "transition_table Draft = {Idle, Starting, Planning, Deleted}"
| "transition_table Planning = {Starting, Completed, Stopped, Failed, Deleted}"
| "transition_table Starting = {Running, ResolvingConflicts, Failed, Stopped, Deleted}"
| "transition_table Running = {Completed, Stopped, Failed, MaxIterations, Deleted}"
| "transition_table Waiting = {Running, Completed, Stopped, Failed, MaxIterations, Deleted}"
| "transition_table Completed =
     {AcceptedLocal, Pushed, Deleted, ResolvingConflicts, Starting, Idle, Stopped, Planning}"
| "transition_table Stopped = {Starting, Planning, Completed, Deleted, Stopped}"
| "transition_table Failed = {Completed, Deleted, Stopped, Planning}"
| "transition_table MaxIterations =
     {AcceptedLocal, Pushed, Deleted, ResolvingConflicts, Stopped, Planning}"
| "transition_table ResolvingConflicts =
     {Starting, Stopped, Failed, Pushed, Completed, MaxIterations, Deleted}"
| "transition_table AcceptedLocal = {Pushed, Deleted, Idle, ResolvingConflicts, AcceptedLocal}"
| "transition_table Merged = {Deleted}"
| "transition_table Pushed = {Merged, Deleted, Idle, ResolvingConflicts, Pushed, Starting}"
| "transition_table Deleted = {Stopped, Planning}"

definition isValidTransition :: "task_status \<Rightarrow> task_status \<Rightarrow> bool" where
  "isValidTransition from to = (to \<in> transition_table from)"

text \<open>The error carries the two statuses of the message \<open>Invalid task status transition\<close>.\<close>

datatype transition_error = InvalidTransition task_status task_status

definition assertValidTransition ::
  "task_status \<Rightarrow> task_status \<Rightarrow> transition_error + unit" where
  "assertValidTransition from to =
     (if isValidTransition from to then Inr () else Inl (InvalidTransition from to))"

definition getValidTransitions :: "task_status \<Rightarrow> task_status set" where
  "getValidTransitions from = transition_table from"

definition isTerminalStatus :: "task_status \<Rightarrow> bool" where
  "isTerminalStatus s = (card (transition_table s) = 0)"

definition isActiveStatus :: "task_status \<Rightarrow> bool" where
  "isActiveStatus s = (s = Starting \<or> s = Running \<or> s = Planning \<or> s = ResolvingConflicts)"

section \<open>Status classes of the persistence queries\<close>

definition ACTIVE_TASK_STATUSES :: "task_status list" where
  "ACTIVE_TASK_STATUSES = [Idle, Planning, Starting, Running, Waiting]"

definition STALE_TASK_STATUSES :: "task_status list" where
  "STALE_TASK_STATUSES = [Idle, Starting, Running, Waiting]"

definition isStaleTaskStatus :: "task_status \<Rightarrow> bool" where
  "isStaleTaskStatus s = (s \<in> set STALE_TASK_STATUSES)"

definition POST_APPROVAL_FULLY_AUTONOMOUS_EDITABLE_STATUSES :: "task_status set" where
  "POST_APPROVAL_FULLY_AUTONOMOUS_EDITABLE_STATUSES = {Starting, Running, Waiting, Completed}"

section \<open>Display helpers\<close>

datatype pill_variant =
    VDefault | VSuccess | VWarning | VError | VIdle | VPlanning | VRunning | VCompleted
  | VStopped | VFailed | VMerged | VPushed | VDeleted | VPlanReady

datatype pill_key = KStatus task_status | KPlanReady | KUnknown

record task_status_pill =
  pill_key :: pill_key
  pill_label :: string
  pill_variant :: pill_variant

datatype sync_status = Syncing | SyncClean | SyncConflicts | SyncResolved

text \<open>The fields of the task state the pills read: \<open>planMode?.isPlanReady\<close> and \<open>syncState?.status\<close>
  are absent (\<open>None\<close>) when the optional object is.\<close>

record pill_state =
  ps_status :: task_status
  ps_plan_ready :: "bool option"
  ps_sync :: "sync_status option"

fun TASK_STATUS_PILLS :: "pill_key \<Rightarrow> (string \<times> pill_variant) option" where
  "TASK_STATUS_PILLS (KStatus Idle) = Some (''Idle'', VSuccess)"
| "TASK_STATUS_PILLS (KStatus Draft) = Some (''Draft'', VDefault)"
| "TASK_STATUS_PILLS (KStatus Planning) = Some (''Planning'', VPlanning)"
| "TASK_STATUS_PILLS KPlanReady = Some (''Plan Ready'', VPlanReady)"
| "TASK_STATUS_PILLS (KStatus Starting) = Some (''Starting'', VRunning)"
| "TASK_STATUS_PILLS (KStatus Running) = Some (''Running'', VRunning)"
| "TASK_STATUS_PILLS (KStatus Waiting) = Some (''Waiting'', VRunning)"
| "TASK_STATUS_PILLS (KStatus Completed) = Some (''Completed'', VCompleted)"
| "TASK_STATUS_PILLS (KStatus Stopped) = Some (''Stopped'', VWarning)"
| "TASK_STATUS_PILLS (KStatus Failed) = Some (''Failed'', VFailed)"
| "TASK_STATUS_PILLS (KStatus MaxIterations) = Some (''Max Iterations'', VError)"
| "TASK_STATUS_PILLS (KStatus ResolvingConflicts) = Some (''Resolving Conflicts'', VRunning)"
| "TASK_STATUS_PILLS (KStatus AcceptedLocal) = Some (''Accepted Locally'', VCompleted)"
| "TASK_STATUS_PILLS (KStatus Merged) = Some (''Merged'', VMerged)"
| "TASK_STATUS_PILLS (KStatus Pushed) = Some (''Pushed'', VSuccess)"
| "TASK_STATUS_PILLS (KStatus Deleted) = Some (''Deleted'', VDeleted)"
| "TASK_STATUS_PILLS KUnknown = None"

definition ACTIVE_SYNC_CONFLICT_STATUSES :: "task_status set" where
  "ACTIVE_SYNC_CONFLICT_STATUSES = {Starting, Running, Waiting}"

definition resolveTaskStatusPillKey :: "pill_state \<Rightarrow> pill_key" where
  "resolveTaskStatusPillKey st =
     (if ps_sync st = Some SyncConflicts \<and> ps_status st \<in> ACTIVE_SYNC_CONFLICT_STATUSES
      then KStatus ResolvingConflicts
      else if ps_status st = Planning \<and> ps_plan_ready st = Some True then KPlanReady
      else if TASK_STATUS_PILLS (KStatus (ps_status st)) \<noteq> None then KStatus (ps_status st)
      else KUnknown)"

fun status_text :: "task_status \<Rightarrow> string" where
  "status_text Idle = ''idle''"
| "status_text Draft = ''draft''"
| "status_text Planning = ''planning''"
| "status_text Starting = ''starting''"
| "status_text Running = ''running''"
| "status_text Waiting = ''waiting''"
| "status_text Completed = ''completed''"
| "status_text Stopped = ''stopped''"
| "status_text Failed = ''failed''"
| "status_text MaxIterations = ''max_iterations''"
| "status_text ResolvingConflicts = ''resolving_conflicts''"
| "status_text AcceptedLocal = ''accepted_local''"
| "status_text Merged = ''merged''"
| "status_text Pushed = ''pushed''"
| "status_text Deleted = ''deleted''"

definition buildTaskStatusPill :: "pill_state \<Rightarrow> task_status_pill" where
  "buildTaskStatusPill st =
     (let key = resolveTaskStatusPillKey st
      in case TASK_STATUS_PILLS key of
           None \<Rightarrow> \<lparr>pill_key = key, pill_label = status_text (ps_status st), pill_variant = VDefault\<rparr>
         | Some (l, v) \<Rightarrow> \<lparr>pill_key = key, pill_label = l, pill_variant = v\<rparr>)"

definition getStatusLabel :: "task_status \<Rightarrow> sync_status option \<Rightarrow> string" where
  "getStatusLabel s sync =
     pill_label (buildTaskStatusPill \<lparr>ps_status = s, ps_plan_ready = None, ps_sync = sync\<rparr>)"

definition canAccept :: "task_status \<Rightarrow> bool" where
  "canAccept s = (s = Completed \<or> s = MaxIterations)"

definition isFinalState :: "task_status \<Rightarrow> bool" where
  "isFinalState s = (s = AcceptedLocal \<or> s = Merged \<or> s = Pushed \<or> s = Deleted)"

definition MARK_MERGED_UI_ELIGIBLE_STATUSES :: "task_status set" where
  "MARK_MERGED_UI_ELIGIBLE_STATUSES = {Pushed}"

definition MANUAL_COMPLETE_UI_ELIGIBLE_STATUSES :: "task_status set" where
  "MANUAL_COMPLETE_UI_ELIGIBLE_STATUSES = {Stopped, Failed}"

definition canMarkMerged :: "task_status \<Rightarrow> bool \<Rightarrow> bool" where
  "canMarkMerged s hasGit = (hasGit \<and> s \<in> MARK_MERGED_UI_ELIGIBLE_STATUSES)"

definition canManualComplete :: "task_status \<Rightarrow> bool \<Rightarrow> bool" where
  "canManualComplete s hasGit = (hasGit \<and> s \<in> MANUAL_COMPLETE_UI_ELIGIBLE_STATUSES)"

definition isTaskActive :: "task_status \<Rightarrow> bool" where
  "isTaskActive s = (s = Running \<or> s = Waiting \<or> s = Starting)"

definition isTaskInActiveSection :: "task_status \<Rightarrow> bool" where
  "isTaskInActiveSection s = (s = Stopped \<or> isTaskActive s)"

definition isTaskRunning :: "task_status \<Rightarrow> bool" where
  "isTaskRunning s = (s = Running \<or> s = Starting)"

definition isTaskGenerating :: "pill_state \<Rightarrow> bool" where
  "isTaskGenerating st =
     (ps_status st = Running \<or> ps_status st = Starting
      \<or> (ps_status st = Planning \<and> ps_plan_ready st \<noteq> Some True))"

definition canJumpstart :: "task_status \<Rightarrow> bool" where
  "canJumpstart s = (s = Completed \<or> s = Stopped \<or> s = Failed \<or> s = MaxIterations)"

definition isAwaitingFeedback :: "task_status \<Rightarrow> bool option \<Rightarrow> bool" where
  "isAwaitingFeedback s addressable = ((s = AcceptedLocal \<or> s = Pushed) \<and> addressable = Some True)"

definition canSendTerminalFollowUp :: "task_status \<Rightarrow> bool option \<Rightarrow> bool" where
  "canSendTerminalFollowUp s addressable =
     (canJumpstart s \<or> isAwaitingFeedback s addressable \<or> s = Deleted)"

definition isArchivedTask :: "task_status \<Rightarrow> bool option \<Rightarrow> bool" where
  "isArchivedTask s addressable =
     (s = Deleted
      \<or> ((s = AcceptedLocal \<or> s = Merged \<or> s = Pushed) \<and> \<not> isAwaitingFeedback s addressable))"

definition isWorkspaceHistoryTask :: "task_status \<Rightarrow> bool" where
  "isWorkspaceHistoryTask s = (s = Merged \<or> s = Deleted)"

definition isSidebarHistoryTask :: "task_status \<Rightarrow> bool" where
  "isSidebarHistoryTask s = (s = Merged)"

definition shouldShowInRecentActivity :: "task_status \<Rightarrow> bool" where
  "shouldShowInRecentActivity s =
     (\<not> isWorkspaceHistoryTask s \<and> s \<notin> MANUAL_COMPLETE_UI_ELIGIBLE_STATUSES
      \<and> s \<noteq> MaxIterations)"

definition getPlanningStatusLabel :: "bool \<Rightarrow> string" where
  "getPlanningStatusLabel isPlanReady =
     (case TASK_STATUS_PILLS (if isPlanReady then KPlanReady else KStatus Planning) of
        None \<Rightarrow> [] | Some (l, _) \<Rightarrow> l)"

definition isTaskPlanReady :: "pill_state \<Rightarrow> bool" where
  "isTaskPlanReady st = (ps_status st = Planning \<and> ps_plan_ready st = Some True)"

definition getTaskStatusPill :: "pill_state \<Rightarrow> task_status_pill" where
  "getTaskStatusPill st = buildTaskStatusPill st"

definition getTaskStatusLabel :: "pill_state \<Rightarrow> string" where
  "getTaskStatusLabel st = pill_label (getTaskStatusPill st)"

lemmas status_defs =
  isValidTransition_def assertValidTransition_def isActiveStatus_def
  ACTIVE_TASK_STATUSES_def STALE_TASK_STATUSES_def isStaleTaskStatus_def
  ACTIVE_SYNC_CONFLICT_STATUSES_def MARK_MERGED_UI_ELIGIBLE_STATUSES_def
  MANUAL_COMPLETE_UI_ELIGIBLE_STATUSES_def canAccept_def isFinalState_def canMarkMerged_def
  canManualComplete_def isTaskActive_def isTaskInActiveSection_def isTaskRunning_def
  isTaskGenerating_def canJumpstart_def isAwaitingFeedback_def canSendTerminalFollowUp_def
  isArchivedTask_def isWorkspaceHistoryTask_def isSidebarHistoryTask_def

section \<open>Provisioning job statuses\<close>

datatype provisioning_status =
    PPending | PRunning | PVerifying | PCompleted | PNotStarted | PConnectionFailed | PFailed
  | PCancelled | PInterrupted | PUnconfirmed

fun provisioning_table :: "provisioning_status \<Rightarrow> provisioning_status set" where
  "provisioning_table PPending =
     {PRunning, PNotStarted, PConnectionFailed, PFailed, PCancelled, PInterrupted, PUnconfirmed}"
| "provisioning_table PRunning =
     {PVerifying, PCompleted, PNotStarted, PConnectionFailed, PFailed, PCancelled, PInterrupted,
      PUnconfirmed}"
| "provisioning_table PVerifying = {PCompleted, PCancelled, PUnconfirmed}"
| "provisioning_table PCompleted = {}"
| "provisioning_table PNotStarted = {}"
| "provisioning_table PConnectionFailed = {}"
| "provisioning_table PFailed = {}"
| "provisioning_table PCancelled = {}"
| "provisioning_table PInterrupted = {}"
| "provisioning_table PUnconfirmed = {}"

definition isValidProvisioningTransition ::
  "provisioning_status \<Rightarrow> provisioning_status \<Rightarrow> bool" where
  "isValidProvisioningTransition from to = (from = to \<or> to \<in> provisioning_table from)"

definition assertValidProvisioningTransition ::
  "provisioning_status \<Rightarrow> provisioning_status
     \<Rightarrow> (provisioning_status \<times> provisioning_status) + unit" where
  "assertValidProvisioningTransition from to =
     (if isValidProvisioningTransition from to then Inr () else Inl (from, to))"

definition getValidProvisioningTransitions :: "provisioning_status \<Rightarrow> provisioning_status set" where
  "getValidProvisioningTransitions from = provisioning_table from"

section \<open>Runs of the machines\<close>

text \<open>
  A run is the list of statuses a task goes through after its current one, each accepted by
  \<open>assertValidTransition\<close>; the first rejected change stops the run, as the thrown error does.
\<close>

fun status_run :: "task_status \<Rightarrow> task_status list \<Rightarrow> transition_error + task_status" where
  "status_run s [] = Inr s"
| "status_run s (t # ts) =
     (case assertValidTransition s t of Inl e \<Rightarrow> Inl e | Inr _ \<Rightarrow> status_run t ts)"

fun provisioning_run :: "provisioning_status \<Rightarrow> provisioning_status list
    \<Rightarrow> (provisioning_status \<times> provisioning_status) + provisioning_status" where
  "provisioning_run s [] = Inr s"
| "provisioning_run s (t # ts) =
     (case assertValidProvisioningTransition s t of
        Inl e \<Rightarrow> Inl e | Inr _ \<Rightarrow> provisioning_run t ts)"

lemma status_run_append:
  "status_run s (xs @ ys) =
     (case status_run s xs of Inl e \<Rightarrow> Inl e | Inr t \<Rightarrow> status_run t ys)"
  by (induction xs arbitrary: s) (auto split: sum.splits)

lemma status_run_step: "status_run s (t # ts) = Inr u \<longleftrightarrow> isValidTransition s t \<and> status_run t ts = Inr u"
  by (simp add: assertValidTransition_def)

lemma waiting_has_no_predecessor: "\<not> isValidTransition s Waiting"
  by (cases s) (simp_all add: isValidTransition_def)

lemma merged_only_from_pushed: "isValidTransition s Merged \<longleftrightarrow> s = Pushed"
  by (cases s) (simp_all add: isValidTransition_def)

lemma status_run_reaches_merged:
  "status_run s ts = Inr Merged \<Longrightarrow> s \<noteq> Merged \<Longrightarrow> Pushed \<in> insert s (set ts)"
proof (induction ts arbitrary: s)
  case (Cons t ts)
  then have v: "isValidTransition s t" and r: "status_run t ts = Inr Merged"
    by (simp_all add: status_run_step del: status_run.simps)
  show ?case
  proof (cases "t = Merged")
    case True
    with v show ?thesis by (simp add: merged_only_from_pushed)
  next
    case False
    with Cons.IH [OF r] show ?thesis by auto
  qed
qed simp

text \<open>Every status has a run to \<open>Stopped\<close>, from which work resumes; the lists are the shortest ones.\<close>

fun path_to_stopped :: "task_status \<Rightarrow> task_status list" where
  "path_to_stopped Idle = [Starting, Stopped]"
| "path_to_stopped Draft = [Starting, Stopped]"
| "path_to_stopped AcceptedLocal = [Deleted, Stopped]"
| "path_to_stopped Merged = [Deleted, Stopped]"
| "path_to_stopped Pushed = [Deleted, Stopped]"
| "path_to_stopped s = [Stopped]"

lemma path_to_stopped_run: "status_run s (path_to_stopped s) = Inr Stopped"
  by (cases s) (simp_all add: assertValidTransition_def isValidTransition_def)

fun path_from_stopped :: "task_status \<Rightarrow> task_status list" where
  "path_from_stopped Idle = [Completed, Idle]"
| "path_from_stopped Draft = [Completed, Idle, Draft]"
| "path_from_stopped Planning = [Planning]"
| "path_from_stopped Starting = [Starting]"
| "path_from_stopped Running = [Starting, Running]"
| "path_from_stopped Waiting = []"
| "path_from_stopped Completed = [Completed]"
| "path_from_stopped Stopped = []"
| "path_from_stopped Failed = [Starting, Failed]"
| "path_from_stopped MaxIterations = [Starting, Running, MaxIterations]"
| "path_from_stopped ResolvingConflicts = [Starting, ResolvingConflicts]"
| "path_from_stopped AcceptedLocal = [Completed, AcceptedLocal]"
| "path_from_stopped Merged = [Completed, Pushed, Merged]"
| "path_from_stopped Pushed = [Completed, Pushed]"
| "path_from_stopped Deleted = [Deleted]"

lemma path_from_stopped_run: "s \<noteq> Waiting \<Longrightarrow> status_run Stopped (path_from_stopped s) = Inr s"
  by (cases s) (simp_all add: assertValidTransition_def isValidTransition_def)

lemma run_never_waiting: "status_run s ts = Inr t \<Longrightarrow> Waiting \<notin> set ts"
proof (induction ts arbitrary: s)
  case (Cons u us)
  then have "isValidTransition s u" and "status_run u us = Inr t"
    by (simp_all add: status_run_step del: status_run.simps)
  moreover from \<open>isValidTransition s u\<close> have "u \<noteq> Waiting"
    using waiting_has_no_predecessor by blast
  ultimately show ?case using Cons.IH by simp
qed simp

text \<open>The rank of a provisioning status: it drops with every change, so a job changes status at most
  three times.\<close>

fun provisioning_rank :: "provisioning_status \<Rightarrow> nat" where
  "provisioning_rank PPending = 3"
| "provisioning_rank PRunning = 2"
| "provisioning_rank PVerifying = 1"
| "provisioning_rank _ = 0"

lemma provisioning_rank_drops: "t \<in> provisioning_table s \<Longrightarrow> provisioning_rank t < provisioning_rank s"
  by (cases s) auto

fun changes :: "'a \<Rightarrow> 'a list \<Rightarrow> nat" where
  "changes s [] = 0"
| "changes s (t # ts) = (if s = t then changes t ts else Suc (changes t ts))"

lemma provisioning_changes_bounded:
  "provisioning_run s ts = Inr t \<Longrightarrow> changes s ts + provisioning_rank t \<le> provisioning_rank s"
proof (induction ts arbitrary: s)
  case (Cons u us)
  then have v: "isValidProvisioningTransition s u" and r: "provisioning_run u us = Inr t"
    by (auto simp: assertValidProvisioningTransition_def split: if_splits)
  from Cons.IH [OF r] v show ?case
    by (auto simp: isValidProvisioningTransition_def dest!: provisioning_rank_drops)
qed simp

section \<open>Properties\<close>

lemma status_run_exists:
  "(\<exists>ts. status_run s ts = Inr t) \<longleftrightarrow> (t = s \<or> t \<noteq> Waiting)"
proof
  assume "\<exists>ts. status_run s ts = Inr t"
  then obtain ts where ts: "status_run s ts = Inr t" by blast
  show "t = s \<or> t \<noteq> Waiting"
  proof (cases ts rule: rev_cases)
    case Nil
    with ts show ?thesis by simp
  next
    case (snoc us u)
    with ts have "u = t" by (auto simp: status_run_append split: sum.splits)
    with run_never_waiting [OF ts] snoc show ?thesis by auto
  qed
next
  assume "t = s \<or> t \<noteq> Waiting"
  then show "\<exists>ts. status_run s ts = Inr t"
  proof
    assume "t = s"
    then have "status_run s [] = Inr t" by simp
    then show ?thesis ..
  next
    assume "t \<noteq> Waiting"
    then have "status_run s (path_to_stopped s @ path_from_stopped t) = Inr t"
      by (simp add: status_run_append path_to_stopped_run path_from_stopped_run)
    then show ?thesis ..
  qed
qed

text \<open>
  C1. The status graph is connected apart from the reserved \<open>waiting\<close>: from every status there is
  a run of accepted transitions to every status other than \<open>waiting\<close>, so no task is ever stuck, and
  no accepted run ever enters \<open>waiting\<close>.
\<close>

theorem status_graph_connected:
  "(\<exists>ts. status_run s ts = Inr t) \<longleftrightarrow> \<not> (t = Waiting \<and> s \<noteq> Waiting)"
  unfolding status_run_exists by auto

text \<open>
  The conditions the user interface offers an action under are the ones the state machine accepts
  the action's transition under: accept, mark merged, manual completion, jumpstart and review
  feedback; and the final statuses are exactly the archived and the awaiting-feedback ones, which
  exclude each other.
\<close>

theorem ui_conditions_match_state_machine:
  "(canAccept s \<longleftrightarrow> s \<noteq> AcceptedLocal \<and> isValidTransition s AcceptedLocal)
   \<and> (canMarkMerged s g \<longleftrightarrow> g \<and> isValidTransition s Merged)
   \<and> (canManualComplete s g \<longleftrightarrow>
        g \<and> isValidTransition s Completed \<and> \<not> isActiveStatus s \<and> s \<noteq> Waiting)
   \<and> (canJumpstart s \<longleftrightarrow>
        s \<noteq> Deleted \<and> isValidTransition s Stopped \<and> isValidTransition s Planning)
   \<and> (isAwaitingFeedback s (Some True) \<longleftrightarrow> isFinalState s \<and> isValidTransition s Idle)
   \<and> (isFinalState s \<longleftrightarrow> isArchivedTask s a \<or> isAwaitingFeedback s a)
   \<and> \<not> (isArchivedTask s a \<and> isAwaitingFeedback s a)"
  by (cases s) (auto simp: status_defs)

text \<open>
  C2. A task reaches \<open>merged\<close> only by being pushed: an accepted run from another status that ends in
  \<open>merged\<close> starts in or goes through \<open>pushed\<close>.
\<close>

theorem merged_requires_push:
  assumes "status_run s ts = Inr Merged" and "s \<noteq> Merged"
  shows "s = Pushed \<or> Pushed \<in> set ts"
  using status_run_reaches_merged [OF assms] by auto

theorem merged_requires_push_witness:
  "status_run Completed [Pushed, Idle, Starting, Running, Completed, Pushed, Merged] = Inr Merged
   \<and> Pushed \<in> set [Pushed, Idle, Starting, Running, Completed, Pushed, Merged]"
proof -
  have r: "status_run Completed [Pushed, Idle, Starting, Running, Completed, Pushed, Merged] = Inr Merged"
    by (simp add: assertValidTransition_def isValidTransition_def)
  show ?thesis using r merged_requires_push [OF r] by simp
qed

text \<open>
  A provisioning job makes at most three status changes, whatever sequence of (possibly repeated)
  statuses is recorded, and it makes none once it has left the three working statuses.
\<close>

theorem provisioning_settles:
  assumes "provisioning_run s ts = Inr t"
  shows "changes s ts \<le> 3
    \<and> (s \<notin> {PPending, PRunning, PVerifying} \<longrightarrow> t = s \<and> changes s ts = 0)"
proof (intro conjI impI)
  have b: "changes s ts + provisioning_rank t \<le> provisioning_rank s"
    using assms by (rule provisioning_changes_bounded)
  also have "\<dots> \<le> 3" by (cases s) simp_all
  finally show "changes s ts \<le> 3" by simp
  assume "s \<notin> {PPending, PRunning, PVerifying}"
  then have "provisioning_rank s = 0" by (cases s) simp_all
  with b show z: "changes s ts = 0" by simp
  from assms z show "t = s"
    by (induction ts arbitrary: s)
      (auto simp: assertValidProvisioningTransition_def split: if_splits)
qed

theorem provisioning_settles_witness:
  "changes PPending [PRunning, PRunning, PVerifying, PCompleted] \<le> 3
   \<and> changes PFailed [PFailed, PFailed] = 0"
proof -
  have r: "provisioning_run PPending [PRunning, PRunning, PVerifying, PCompleted] = Inr PCompleted"
    and f: "provisioning_run PFailed [PFailed, PFailed] = Inr PFailed"
    by (simp_all add: assertValidProvisioningTransition_def isValidProvisioningTransition_def)
  show ?thesis using provisioning_settles [OF r] provisioning_settles [OF f] by simp
qed

lemma resolved_key_known: "\<exists>l v. TASK_STATUS_PILLS (resolveTaskStatusPillKey st) = Some (l, v)"
  by (cases "ps_status st") (auto simp: resolveTaskStatusPillKey_def)

definition pill_keys :: "pill_key list" where
  "pill_keys =
     KPlanReady # map KStatus
       [Idle, Draft, Planning, Starting, Running, Waiting, Completed, Stopped, Failed,
        MaxIterations, ResolvingConflicts, AcceptedLocal, Merged, Pushed, Deleted]"

definition label_of :: "pill_key \<Rightarrow> string" where
  "label_of k = (case TASK_STATUS_PILLS k of None \<Rightarrow> [] | Some (l, _) \<Rightarrow> l)"

lemma labels_distinct: "distinct (map label_of pill_keys)"
  by code_simp

lemma known_keys: "TASK_STATUS_PILLS k = Some (l, v) \<Longrightarrow> k \<in> set pill_keys"
  by (cases k rule: TASK_STATUS_PILLS.cases) (simp_all add: pill_keys_def)

lemma pill_labels_distinct:
  assumes "TASK_STATUS_PILLS a = Some (l, v)" and "TASK_STATUS_PILLS b = Some (l, w)"
  shows "a = b"
proof -
  have "inj_on label_of (set pill_keys)"
    using labels_distinct by (simp add: distinct_map)
  moreover have "label_of a = label_of b" using assms by (simp add: label_of_def)
  ultimately show ?thesis using assms by (blast dest: inj_onD known_keys)
qed

text \<open>
  Every task shows a known pill, and the label determines it: two task states show the same label
  exactly when they resolve to the same pill key, so no two distinct conditions look alike.
\<close>

theorem pills_known_and_distinct:
  "pill_key (getTaskStatusPill a) \<noteq> KUnknown
   \<and> (getTaskStatusLabel a = getTaskStatusLabel b
        \<longleftrightarrow> pill_key (getTaskStatusPill a) = pill_key (getTaskStatusPill b))"
proof -
  obtain la va where a: "TASK_STATUS_PILLS (resolveTaskStatusPillKey a) = Some (la, va)"
    using resolved_key_known by blast
  obtain lb vb where b: "TASK_STATUS_PILLS (resolveTaskStatusPillKey b) = Some (lb, vb)"
    using resolved_key_known by blast
  from a have "resolveTaskStatusPillKey a \<noteq> KUnknown" by auto
  with a b pill_labels_distinct show ?thesis
    by (auto simp: getTaskStatusPill_def getTaskStatusLabel_def buildTaskStatusPill_def Let_def)
qed

end
