(* ===== verification/OperationQueue.thy ===== *)
theory OperationQueue
  imports Prelude
begin

text \<open>
  The keyed operation queue of \<open>src/utils/keyed-operation-queue.ts\<close>, and the deferred-cleanup
  scheme of \<open>src/core/task/task-lifecycle-operations.ts\<close> built on it.

  Promises are numbers: \<open>0\<close> stands for \<open>Promise.resolve()\<close> and \<open>Suc i\<close> for the \<open>release\<close> promise of
  the \<open>i\<close>-th admitted call of \<open>run\<close>. A call is \<open>Blocked\<close> in \<open>await previous\<close>, then \<open>Executing\<close> its
  operation, then \<open>Settled\<close> when its \<open>finally\<close> block has run (after a normal result and after a throw
  alike). The three functions are the three synchronous pieces of \<open>run\<close> between its awaits.
\<close>

section \<open>The queue\<close>

datatype phase = Blocked | Executing | Settled

record queued_op =
  op_key :: ident
  op_previous :: nat
  op_phase :: phase

record queue_entry =
  tail :: nat
  pending :: nat

record op_queue =
  queues :: "ident \<Rightarrow> queue_entry option"
  total_pending :: nat
  resolved :: "nat set"
  ops :: "queued_op list"

datatype queue_error = CapacityReached

definition MAX_KEY_PENDING :: nat where
  "MAX_KEY_PENDING = 128"

definition MAX_TOTAL_PENDING :: nat where
  "MAX_TOTAL_PENDING = 1000"

definition empty_queue :: op_queue where
  "empty_queue = \<lparr>queues = (\<lambda>_. None), total_pending = 0, resolved = {0}, ops = []\<rparr>"

text \<open>\<open>run\<close> up to its first await: the result is the number of the admitted call.\<close>

definition queue_run :: "ident \<Rightarrow> op_queue \<Rightarrow> queue_error + (nat \<times> op_queue)" where
  "queue_run key q =
     (let queue = (case queues q key of None \<Rightarrow> \<lparr>tail = 0, pending = 0\<rparr> | Some e \<Rightarrow> e)
      in if MAX_KEY_PENDING \<le> pending queue \<or> MAX_TOTAL_PENDING \<le> total_pending q
         then Inl CapacityReached
         else
           let i = length (ops q);
               previous = tail queue;
               queue' = queue\<lparr>tail := Suc i, pending := pending queue + 1\<rparr>
           in Inr (i, q\<lparr>queues := (queues q)(key \<mapsto> queue'),
                        total_pending := total_pending q + 1,
                        ops := ops q @ [\<lparr>op_key = key, op_previous = previous, op_phase = Blocked\<rparr>]\<rparr>))"

text \<open>\<open>await previous\<close> continues once the promise it waits for is resolved.\<close>

definition queue_start :: "nat \<Rightarrow> op_queue \<Rightarrow> op_queue option" where
  "queue_start i q =
     (if i < length (ops q) \<and> op_phase (ops q ! i) = Blocked
         \<and> op_previous (ops q ! i) \<in> resolved q
      then Some (q\<lparr>ops := (ops q)[i := (ops q ! i)\<lparr>op_phase := Executing\<rparr>]\<rparr>)
      else None)"

text \<open>The \<open>finally\<close> block. The \<open>queue\<close> object of the closure is the entry in the map: an entry leaves
  the map only when no call of it is pending.\<close>

definition queue_settle :: "nat \<Rightarrow> op_queue \<Rightarrow> op_queue option" where
  "queue_settle i q =
     (if i < length (ops q) \<and> op_phase (ops q ! i) = Executing
      then let key = op_key (ops q ! i)
           in case queues q key of
                None \<Rightarrow> None
              | Some queue \<Rightarrow>
                  let queue' = queue\<lparr>pending := pending queue - 1\<rparr>
                  in Some (q\<lparr>queues := (queues q)
                               (key := (if pending queue' = 0 then None else Some queue')),
                             total_pending := total_pending q - 1,
                             resolved := insert (Suc i) (resolved q),
                             ops := (ops q)[i := (ops q ! i)\<lparr>op_phase := Settled\<rparr>]\<rparr>)
      else None)"

text \<open>The two calls \<open>runTaskLifecycleOperationWithDeferredCleanup\<close> makes in one synchronous stretch:
  the operation, then the call that reserves the place of its cleanup. Each is \<open>None\<close> where the queue
  refused it; a refused reservation only reaches \<open>onCleanupError\<close>.\<close>

definition run_with_deferred_cleanup ::
  "ident \<Rightarrow> op_queue \<Rightarrow> (nat option \<times> nat option) \<times> op_queue" where
  "run_with_deferred_cleanup key q =
     (case queue_run key q of
        Inl _ \<Rightarrow>
          (case queue_run key q of
             Inl _ \<Rightarrow> ((None, None), q)
           | Inr (j, q2) \<Rightarrow> ((None, Some j), q2))
      | Inr (i, q1) \<Rightarrow>
          (case queue_run key q1 of
             Inl _ \<Rightarrow> ((Some i, None), q1)
           | Inr (j, q2) \<Rightarrow> ((Some i, Some j), q2)))"

section \<open>Steps and reachable queues\<close>

inductive queue_step :: "op_queue \<Rightarrow> op_queue \<Rightarrow> bool" where
  run_step: "queue_run key q = Inr (i, q') \<Longrightarrow> queue_step q q'"
| start_step: "queue_start i q = Some q' \<Longrightarrow> queue_step q q'"
| settle_step: "queue_settle i q = Some q' \<Longrightarrow> queue_step q q'"

text \<open>A reachable queue is the result of any interleaving of calls of \<open>run\<close>, continuations and
  completions, over all keys, from the fresh queue.\<close>

definition queue_reachable :: "op_queue \<Rightarrow> bool" where
  "queue_reachable q = queue_step\<^sup>*\<^sup>* empty_queue q"

section \<open>The invariant\<close>

text \<open>The unsettled calls of a key, in the order they were admitted: the abstract queue.\<close>

definition live :: "op_queue \<Rightarrow> ident \<Rightarrow> nat list" where
  "live q key =
     filter (\<lambda>i. op_key (ops q ! i) = key \<and> op_phase (ops q ! i) \<noteq> Settled) [0..<length (ops q)]"

fun chained :: "queued_op list \<Rightarrow> nat list \<Rightarrow> bool" where
  "chained os [] = True"
| "chained os [i] = True"
| "chained os (i # j # is) = (op_previous (os ! j) = Suc i \<and> chained os (j # is))"

definition entry_ok :: "op_queue \<Rightarrow> ident \<Rightarrow> bool" where
  "entry_ok q key =
     (queues q key =
        (if live q key = [] then None
         else Some \<lparr>tail = Suc (last (live q key)), pending = length (live q key)\<rparr>))"

definition head_ok :: "op_queue \<Rightarrow> ident \<Rightarrow> bool" where
  "head_ok q key = (live q key \<noteq> [] \<longrightarrow> op_previous (ops q ! hd (live q key)) \<in> resolved q)"

definition settled_count :: "op_queue \<Rightarrow> nat" where
  "settled_count q = length (filter (\<lambda>oper. op_phase oper = Settled) (ops q))"

definition queue_inv :: "op_queue \<Rightarrow> bool" where
  "queue_inv q \<longleftrightarrow>
     resolved q = insert 0 {Suc i | i. i < length (ops q) \<and> op_phase (ops q ! i) = Settled}
     \<and> (\<forall>key. entry_ok q key \<and> head_ok q key \<and> chained (ops q) (live q key)
               \<and> length (live q key) \<le> MAX_KEY_PENDING)
     \<and> (\<forall>i < length (ops q). op_phase (ops q ! i) = Executing \<longrightarrow> op_previous (ops q ! i) \<in> resolved q)
     \<and> total_pending q + settled_count q = length (ops q)
     \<and> total_pending q \<le> MAX_TOTAL_PENDING"

section \<open>Lemmas\<close>

lemma queue_runE:
  assumes "queue_run key q = Inr (i, q')"
  obtains e where "e = (case queues q key of None \<Rightarrow> \<lparr>tail = 0, pending = 0\<rparr> | Some e \<Rightarrow> e)"
    and "pending e < MAX_KEY_PENDING" and "total_pending q < MAX_TOTAL_PENDING"
    and "i = length (ops q)"
    and "q' = q\<lparr>queues := (queues q)(key \<mapsto> e\<lparr>tail := Suc i, pending := pending e + 1\<rparr>),
               total_pending := total_pending q + 1,
               ops := ops q @ [\<lparr>op_key = key, op_previous = tail e, op_phase = Blocked\<rparr>]\<rparr>"
  using assms by (auto simp: queue_run_def Let_def split: if_splits)

lemma queue_startE:
  assumes "queue_start i q = Some q'"
  obtains "i < length (ops q)" and "op_phase (ops q ! i) = Blocked"
    and "op_previous (ops q ! i) \<in> resolved q"
    and "q' = q\<lparr>ops := (ops q)[i := (ops q ! i)\<lparr>op_phase := Executing\<rparr>]\<rparr>"
  using assms by (auto simp: queue_start_def split: if_splits)

lemma live_mem: "i \<in> set (live q key) \<longleftrightarrow>
    i < length (ops q) \<and> op_key (ops q ! i) = key \<and> op_phase (ops q ! i) \<noteq> Settled"
  by (auto simp: live_def)

lemma live_distinct: "distinct (live q key)"
  by (simp add: live_def)

lemma live_run:
  assumes "queue_run key q = Inr (i, q')"
  shows "live q' k = (if k = key then live q k @ [i] else live q k)"
proof -
  obtain e where i: "i = length (ops q)"
    and e: "q' = q\<lparr>queues := (queues q)(key \<mapsto> e\<lparr>tail := Suc i, pending := pending e + 1\<rparr>),
               total_pending := total_pending q + 1,
               ops := ops q @ [\<lparr>op_key = key, op_previous = tail e, op_phase = Blocked\<rparr>]\<rparr>"
    using assms by (rule queue_runE)
  then have q': "ops q' = ops q @ [\<lparr>op_key = key, op_previous = tail e, op_phase = Blocked\<rparr>]"
    by simp
  have "filter (\<lambda>j. op_key (ops q' ! j) = k \<and> op_phase (ops q' ! j) \<noteq> Settled) [0..<length (ops q)] = live q k"
    unfolding live_def by (rule filter_cong) (auto simp: q' nth_append)
  then show ?thesis
    by (simp add: live_def q' i)
qed

lemma phase_update_nth:
  "op_key (ops'[i := (ops' ! i)\<lparr>op_phase := p\<rparr>] ! j) = op_key (ops' ! j)"
  "op_previous (ops'[i := (ops' ! i)\<lparr>op_phase := p\<rparr>] ! j) = op_previous (ops' ! j)"
  by (cases "i < length ops'"; cases "j = i"; simp add: list_update_beyond)+

lemma live_start:
  assumes "queue_start i q = Some q'"
  shows "live q' k = live q k"
proof -
  from assms have b: "op_phase (ops q ! i) = Blocked" "i < length (ops q)"
    and q': "ops q' = (ops q)[i := (ops q ! i)\<lparr>op_phase := Executing\<rparr>]"
    by (auto elim!: queue_startE)
  show ?thesis
    unfolding live_def q' length_list_update
    by (rule filter_cong) (auto simp: phase_update_nth nth_list_update b)
qed

lemma queue_settleE:
  assumes "queue_settle i q = Some q'"
  obtains e where "i < length (ops q)" and "op_phase (ops q ! i) = Executing"
    and "queues q (op_key (ops q ! i)) = Some e"
    and "q' = q\<lparr>queues := (queues q)(op_key (ops q ! i) :=
                  (if pending e - 1 = 0 then None else Some (e\<lparr>pending := pending e - 1\<rparr>))),
               total_pending := total_pending q - 1,
               resolved := insert (Suc i) (resolved q),
               ops := (ops q)[i := (ops q ! i)\<lparr>op_phase := Settled\<rparr>]\<rparr>"
  using assms by (auto simp: queue_settle_def Let_def split: if_splits option.splits)

lemma live_settle:
  assumes "queue_settle i q = Some q'"
  shows "live q' k = filter (\<lambda>j. j \<noteq> i) (live q k)"
proof -
  from assms have i: "i < length (ops q)" "op_phase (ops q ! i) = Executing"
    and q': "ops q' = (ops q)[i := (ops q ! i)\<lparr>op_phase := Settled\<rparr>]"
    by (auto elim!: queue_settleE)
  show ?thesis
    unfolding live_def q' length_list_update filter_filter
    by (rule filter_cong) (auto simp: phase_update_nth nth_list_update i)
qed

lemma chained_cong:
  "(\<And>i. i \<in> set is \<Longrightarrow> op_previous (os ! i) = op_previous (os' ! i)) \<Longrightarrow> chained os is = chained os' is"
  by (induction os "is" rule: chained.induct) auto

lemma chained_tl: "chained os (i # is) \<Longrightarrow> chained os is"
  by (cases "is") auto

lemma chained_pred:
  "chained os (i # is) \<Longrightarrow> j \<in> set is \<Longrightarrow> \<exists>h \<in> set (i # is). op_previous (os ! j) = Suc h"
proof (induction "is" arbitrary: i)
  case (Cons h hs)
  then show ?case
  proof (cases "j = h")
    case False
    with Cons have "\<exists>g \<in> set (h # hs). op_previous (os ! j) = Suc g"
      by (intro Cons.IH) auto
    then show ?thesis by auto
  qed auto
qed simp

lemma chained_snoc:
  "chained os is \<Longrightarrow> (is \<noteq> [] \<Longrightarrow> op_previous (os ! i) = Suc (last is)) \<Longrightarrow> chained os (is @ [i])"
  by (induction os "is" rule: chained.induct) auto

lemma queue_inv_resolved:
  "queue_inv q \<Longrightarrow> resolved q = insert 0 {Suc i | i. i < length (ops q) \<and> op_phase (ops q ! i) = Settled}"
  by (simp add: queue_inv_def)

text \<open>The key fact: an executing call is the oldest unsettled call of its key, because the promise every
  younger one waits for belongs to an unsettled call.\<close>

lemma executing_is_head:
  assumes inv: "queue_inv q" and i: "i < length (ops q)" "op_phase (ops q ! i) = Executing"
  shows "\<exists>rest. live q (op_key (ops q ! i)) = i # rest"
proof -
  let ?L = "live q (op_key (ops q ! i))"
  have mem: "i \<in> set ?L" using i by (simp add: live_mem)
  then obtain h rest where L: "?L = h # rest" by (cases ?L) auto
  have ch: "chained (ops q) (h # rest)" using inv L by (metis queue_inv_def)
  show ?thesis
  proof (cases "i = h")
    case False
    with mem L have "i \<in> set rest" by simp
    with ch obtain g where g: "g \<in> set (h # rest)" "op_previous (ops q ! i) = Suc g"
      by (blast dest: chained_pred)
    have "op_previous (ops q ! i) \<in> resolved q" using inv i unfolding queue_inv_def by blast
    with g have "Suc g \<in> resolved q" by simp
    then have "op_phase (ops q ! g) = Settled" by (simp add: queue_inv_resolved [OF inv])
    moreover have "g \<in> set ?L" using g L by simp
    ultimately show ?thesis by (simp add: live_mem)
  qed (use L in auto)
qed

lemma settled_count_card:
  "settled_count q = card {i. i < length (ops q) \<and> op_phase (ops q ! i) = Settled}"
  by (simp add: settled_count_def length_filter_conv_card)

lemma queue_inv_empty: "queue_inv empty_queue"
  by (simp add: queue_inv_def empty_queue_def live_def entry_ok_def head_ok_def settled_count_def
      MAX_TOTAL_PENDING_def)

lemma queue_invD:
  assumes "queue_inv q"
  shows "entry_ok q key" and "head_ok q key" and "chained (ops q) (live q key)"
    and "length (live q key) \<le> MAX_KEY_PENDING"
    and "i < length (ops q) \<Longrightarrow> op_phase (ops q ! i) = Executing \<Longrightarrow> op_previous (ops q ! i) \<in> resolved q"
    and "total_pending q + settled_count q = length (ops q)" and "total_pending q \<le> MAX_TOTAL_PENDING"
  using assms unfolding queue_inv_def by blast+

lemma entry_of:
  assumes "queue_inv q"
  shows "(case queues q key of None \<Rightarrow> \<lparr>tail = 0, pending = 0\<rparr> | Some e \<Rightarrow> e) =
    \<lparr>tail = (if live q key = [] then 0 else Suc (last (live q key))), pending = length (live q key)\<rparr>"
  using queue_invD(1) [OF assms, of key] by (simp add: entry_ok_def)

lemma queue_inv_run:
  assumes inv: "queue_inv q" and run: "queue_run key q = Inr (i, q')"
  shows "queue_inv q'"
proof -
  obtain e where e: "e = \<lparr>tail = (if live q key = [] then 0 else Suc (last (live q key))),
                          pending = length (live q key)\<rparr>"
    and cap: "pending e < MAX_KEY_PENDING" "total_pending q < MAX_TOTAL_PENDING"
    and i: "i = length (ops q)"
    and q': "q' = q\<lparr>queues := (queues q)(key \<mapsto> e\<lparr>tail := Suc i, pending := pending e + 1\<rparr>),
               total_pending := total_pending q + 1,
               ops := ops q @ [\<lparr>op_key = key, op_previous = tail e, op_phase = Blocked\<rparr>]\<rparr>"
    using run entry_of [OF inv, of key] by (metis queue_runE)
  note lv = live_run [OF run]
  have old: "j < length (ops q) \<Longrightarrow> ops q' ! j = ops q ! j" for j by (simp add: q' nth_append)
  have new: "ops q' ! i = \<lparr>op_key = key, op_previous = tail e, op_phase = Blocked\<rparr>"
    by (simp add: q' i)
  have lt: "j \<in> set (live q k) \<Longrightarrow> j < length (ops q)" for j k by (simp add: live_mem)
  have chained_old: "chained (ops q') (live q k)" for k
    using queue_invD(3) [OF inv, of k] by (subst chained_cong [of _ _ "ops q"]) (auto simp: old lt)
  have keys: "entry_ok q' k \<and> head_ok q' k \<and> chained (ops q') (live q' k)
      \<and> length (live q' k) \<le> MAX_KEY_PENDING" for k
  proof (cases "k = key")
    case False
    then have "live q' k = live q k" by (simp add: lv)
    moreover have "queues q' k = queues q k" using False by (simp add: q')
    moreover have "resolved q' = resolved q" by (simp add: q')
    ultimately show ?thesis
      using queue_invD(1,2,4) [OF inv, of k] chained_old [of k] old lt [of "hd (live q k)" k]
      by (auto simp: entry_ok_def head_ok_def)
  next
    case True
    have L: "live q' key = live q key @ [i]" by (simp add: lv)
    have "entry_ok q' key" unfolding entry_ok_def L by (simp add: q' e)
    moreover have "head_ok q' key"
    proof (cases "live q key = []")
      case True
      then show ?thesis
        using inv by (simp add: head_ok_def L new e) (simp add: q' queue_inv_resolved)
    next
      case False
      then have "hd (live q key) < length (ops q)" using lt hd_in_set by blast
      with False show ?thesis
        using queue_invD(2) [OF inv, of key] by (simp add: head_ok_def L old) (simp add: q')
    qed
    moreover have "chained (ops q') (live q' key)"
      unfolding L by (rule chained_snoc [OF chained_old]) (simp add: new e)
    moreover have "length (live q' key) \<le> MAX_KEY_PENDING" using cap e by (simp add: L)
    ultimately show ?thesis using True by simp
  qed
  have len: "length (ops q') = Suc i" and res: "resolved q' = resolved q" by (simp_all add: q' i)
  have "{Suc j | j. j < length (ops q') \<and> op_phase (ops q' ! j) = Settled} =
      {Suc j | j. j < length (ops q) \<and> op_phase (ops q ! j) = Settled}"
    unfolding len using old new i by (auto simp: less_Suc_eq)
  then have "resolved q' = insert 0 {Suc j | j. j < length (ops q') \<and> op_phase (ops q' ! j) = Settled}"
    unfolding res queue_inv_resolved [OF inv] by simp
  moreover have "\<forall>j < length (ops q'). op_phase (ops q' ! j) = Executing \<longrightarrow> op_previous (ops q' ! j) \<in> resolved q'"
    unfolding len res using queue_invD(5) [OF inv] old new i by (auto simp: less_Suc_eq)
  moreover have "total_pending q' + settled_count q' = length (ops q')"
    using queue_invD(6) [OF inv] by (simp add: q' settled_count_def)
  moreover have "total_pending q' \<le> MAX_TOTAL_PENDING" using cap by (simp add: q')
  ultimately show ?thesis using keys by (simp add: queue_inv_def)
qed

lemma queue_inv_start:
  assumes inv: "queue_inv q" and start: "queue_start i q = Some q'"
  shows "queue_inv q'"
proof -
  from start have i: "i < length (ops q)" "op_phase (ops q ! i) = Blocked"
      "op_previous (ops q ! i) \<in> resolved q"
    and q': "q' = q\<lparr>ops := (ops q)[i := (ops q ! i)\<lparr>op_phase := Executing\<rparr>]\<rparr>"
    by (auto elim!: queue_startE)
  note lv = live_start [OF start]
  have prev: "op_previous (ops q' ! j) = op_previous (ops q ! j)" for j
    by (simp add: q' phase_update_nth)
  have ch: "chained (ops q') is = chained (ops q) is" for "is"
    by (rule chained_cong) (simp add: prev)
  have len: "length (ops q') = length (ops q)" and res: "resolved q' = resolved q"
    by (simp_all add: q')
  have ph: "(op_phase (ops q' ! j) = Settled) = (op_phase (ops q ! j) = Settled)"
      if "j < length (ops q)" for j
    using i that by (cases "j = i") (simp_all add: q')
  have "entry_ok q' k \<and> head_ok q' k" for k
    using queue_invD(1,2) [OF inv, of k]
    unfolding entry_ok_def head_ok_def lv prev by (simp add: q')
  moreover have "resolved q' = insert 0 {Suc j | j. j < length (ops q') \<and> op_phase (ops q' ! j) = Settled}"
    unfolding len res queue_inv_resolved [OF inv] by (auto simp: ph)
  moreover have "settled_count q' = settled_count q"
    unfolding settled_count_card len by (intro arg_cong [where f = card]) (auto simp: ph)
  moreover have "\<forall>j < length (ops q'). op_phase (ops q' ! j) = Executing \<longrightarrow> op_previous (ops q' ! j) \<in> resolved q'"
    unfolding prev using queue_invD(5) [OF inv] i by (auto simp: q' nth_list_update)
  ultimately show ?thesis
    using queue_invD(3,4,6,7) [OF inv] unfolding queue_inv_def lv ch
    by (simp add: q')
qed

lemma queue_inv_settle:
  assumes inv: "queue_inv q" and settle: "queue_settle i q = Some q'"
  shows "queue_inv q'"
proof -
  define key where "key = op_key (ops q ! i)"
  from settle obtain e where i: "i < length (ops q)" "op_phase (ops q ! i) = Executing"
    and e: "queues q key = Some e"
    and q': "q' = q\<lparr>queues := (queues q)(key :=
                  (if pending e - 1 = 0 then None else Some (e\<lparr>pending := pending e - 1\<rparr>))),
               total_pending := total_pending q - 1,
               resolved := insert (Suc i) (resolved q),
               ops := (ops q)[i := (ops q ! i)\<lparr>op_phase := Settled\<rparr>]\<rparr>"
    unfolding key_def by (rule queue_settleE)
  obtain rest where L: "live q key = i # rest"
    using executing_is_head [OF inv i] unfolding key_def by blast
  have "i \<notin> set rest" using live_distinct [of q key] L by simp
  then have L': "live q' key = rest"
    by (simp add: live_settle [OF settle] L) (rule filter_True, blast)
  have other: "live q' k = live q k" if "k \<noteq> key" for k
    using that by (subst live_settle [OF settle]) (rule filter_True, auto simp: live_mem key_def)
  have prev: "op_previous (ops q' ! j) = op_previous (ops q ! j)" for j
    by (simp add: q' phase_update_nth)
  have ch: "chained (ops q') is = chained (ops q) is" for "is"
    by (rule chained_cong) (simp add: prev)
  have len: "length (ops q') = length (ops q)" and res: "resolved q' = insert (Suc i) (resolved q)"
    by (simp_all add: q')
  have ph: "(op_phase (ops q' ! j) = Settled) = (j = i \<or> op_phase (ops q ! j) = Settled)"
      if "j < length (ops q)" for j
    using i that by (simp add: q' nth_list_update)
  have ep: "e = \<lparr>tail = Suc (last (i # rest)), pending = Suc (length rest)\<rparr>"
    using queue_invD(1) [OF inv, of key] L e by (simp add: entry_ok_def)
  have chL: "chained (ops q) (i # rest)" using queue_invD(3) [OF inv, of key] L by simp
  have keys: "entry_ok q' k \<and> head_ok q' k \<and> chained (ops q') (live q' k)
      \<and> length (live q' k) \<le> MAX_KEY_PENDING" for k
  proof (cases "k = key")
    case False
    moreover have "queues q' k = queues q k" using False by (simp add: q')
    ultimately show ?thesis using queue_invD(1-4) [OF inv, of k]
      by (auto simp: other entry_ok_def head_ok_def ch prev res)
  next
    case True
    have "entry_ok q' key" unfolding entry_ok_def L' by (simp add: q' ep)
    moreover have "head_ok q' key"
      unfolding head_ok_def L' prev res using chL by (cases rest) auto
    moreover have "chained (ops q') rest" unfolding ch by (rule chained_tl [OF chL])
    moreover have "length rest \<le> MAX_KEY_PENDING" using queue_invD(4) [OF inv, of key] L by simp
    ultimately show ?thesis using True by (simp add: L')
  qed
  have settled_set: "{j. j < length (ops q') \<and> op_phase (ops q' ! j) = Settled} =
      insert i {j. j < length (ops q) \<and> op_phase (ops q ! j) = Settled}"
    unfolding len using i ph by blast
  have "resolved q' = insert 0 {Suc j | j. j < length (ops q') \<and> op_phase (ops q' ! j) = Settled}"
    unfolding res queue_inv_resolved [OF inv] len using i ph by blast
  moreover have count: "settled_count q' = Suc (settled_count q)"
    unfolding settled_count_card settled_set using i by simp
  moreover have "total_pending q' + settled_count q' = length (ops q')"
  proof -
    have "settled_count q' \<le> length (ops q')" unfolding settled_count_def by (rule length_filter_le)
    then show ?thesis using queue_invD(6) [OF inv] unfolding count len by (simp add: q')
  qed
  moreover have "\<forall>j < length (ops q'). op_phase (ops q' ! j) = Executing \<longrightarrow> op_previous (ops q' ! j) \<in> resolved q'"
    unfolding prev len res using queue_invD(5) [OF inv] i by (auto simp: q' nth_list_update)
  moreover have "total_pending q' \<le> MAX_TOTAL_PENDING" using queue_invD(7) [OF inv] by (simp add: q')
  ultimately show ?thesis using keys unfolding queue_inv_def by blast
qed

lemma queue_inv_step: "queue_step q q' \<Longrightarrow> queue_inv q \<Longrightarrow> queue_inv q'"
  by (induction rule: queue_step.induct) (blast intro: queue_inv_run queue_inv_start queue_inv_settle)+

lemma queue_inv_steps: "queue_step\<^sup>*\<^sup>* q q' \<Longrightarrow> queue_inv q \<Longrightarrow> queue_inv q'"
  by (induction rule: rtranclp_induct) (blast intro: queue_inv_step)+

lemma queue_reachable_inv: "queue_reachable q \<Longrightarrow> queue_inv q"
  unfolding queue_reachable_def by (blast intro: queue_inv_steps queue_inv_empty)

section \<open>The interface: a queue that serves each key in order\<close>

text \<open>
  What the users of the queue rely on: every step appends a fresh call to the order of one key, or
  leaves the orders alone, or removes the oldest call of one key; and only the oldest call of a key
  executes.
\<close>

locale fifo_order =
  fixes step :: "'q \<Rightarrow> 'q \<Rightarrow> bool"
    and ok :: "'q \<Rightarrow> bool"
    and order :: "'q \<Rightarrow> 'k \<Rightarrow> nat list"
    and issued :: "'q \<Rightarrow> nat"
    and executing :: "'q \<Rightarrow> nat \<Rightarrow> bool"
  assumes ok_step: "ok q \<Longrightarrow> step q q' \<Longrightarrow> ok q'"
    and fifo_step: "ok q \<Longrightarrow> step q q' \<Longrightarrow>
      (\<exists>k. order q' = (order q)(k := order q k @ [issued q]) \<and> issued q' = Suc (issued q))
      \<or> (order q' = order q \<and> issued q' = issued q)
      \<or> (\<exists>k i rest. order q k = i # rest \<and> order q' = (order q)(k := rest) \<and> issued q' = issued q)"
    and order_issued: "ok q \<Longrightarrow> i \<in> set (order q k) \<Longrightarrow> i < issued q"
    and order_distinct: "ok q \<Longrightarrow> distinct (order q k)"
    and executing_hd: "ok q \<Longrightarrow> executing q i \<Longrightarrow> i \<in> set (order q k) \<Longrightarrow> i = hd (order q k)"
begin

lemma ok_steps: "step\<^sup>*\<^sup>* q q' \<Longrightarrow> ok q \<Longrightarrow> ok q'"
  by (induction rule: rtranclp_induct) (blast intro: ok_step)+

lemma exclusive:
  "ok q \<Longrightarrow> executing q i \<Longrightarrow> executing q j \<Longrightarrow> i \<in> set (order q k) \<Longrightarrow> j \<in> set (order q k) \<Longrightarrow> i = j"
  by (metis executing_hd)

text \<open>Two calls admitted one right after the other stay neighbours: until the second has settled, it is
  directly behind the first one or at the head of the queue.\<close>

definition follows :: "'q \<Rightarrow> 'k \<Rightarrow> nat \<Rightarrow> nat \<Rightarrow> bool" where
  "follows q k i j \<longleftrightarrow> j < issued q \<and> (j \<in> set (order q k) \<longrightarrow> directly_behind i j (order q k))"

lemma follows_step:
  assumes ok: "ok q" and st: "step q q'" and fo: "follows q k i j"
  shows "follows q' k i j"
  using fifo_step [OF ok st]
proof (elim disjE exE conjE)
  fix k' assume o: "order q' = (order q)(k' := order q k' @ [issued q])"
    and n: "issued q' = Suc (issued q)"
  from fo o n show ?thesis by (auto simp: follows_def intro: directly_behind_append)
next
  assume "order q' = order q" "issued q' = issued q"
  with fo show ?thesis by (simp add: follows_def)
next
  fix k' h rest assume h: "order q k' = h # rest" and o: "order q' = (order q)(k' := rest)"
    and n: "issued q' = issued q"
  have "distinct (h # rest)" using order_distinct [OF ok, of k'] h by simp
  with fo h o n show ?thesis by (auto simp: follows_def intro: directly_behind_tl)
qed

lemma follows_steps: "step\<^sup>*\<^sup>* q q' \<Longrightarrow> ok q \<Longrightarrow> follows q k i j \<Longrightarrow> follows q' k i j"
proof (induction rule: rtranclp_induct)
  case (step r s)
  then show ?case by (meson follows_step ok_steps)
qed

lemma successor_runs_next:
  assumes "ok q" and "follows q k i j" and "step\<^sup>*\<^sup>* q q'" and "j \<in> set (order q' k)"
    and "i \<notin> set (order q' k)" and "executing q' h" and "h \<in> set (order q' k)"
  shows "h = j"
proof -
  have "follows q' k i j" using assms(1,2,3) by (blast intro: follows_steps)
  with assms(4,5) have "hd (order q' k) = j" by (auto simp: follows_def intro: directly_behind_head)
  moreover have "ok q'" using assms(1,3) by (blast intro: ok_steps)
  ultimately show ?thesis using executing_hd assms(6,7) by metis
qed

end

definition is_executing :: "op_queue \<Rightarrow> nat \<Rightarrow> bool" where
  "is_executing q i = (i < length (ops q) \<and> op_phase (ops q ! i) = Executing)"

lemma live_run_fun: "queue_run key q = Inr (i, q') \<Longrightarrow> live q' = (live q)(key := live q key @ [i])"
  by (rule ext) (simp add: live_run)

lemma live_settle_fun:
  assumes inv: "queue_inv q" and settle: "queue_settle i q = Some q'"
  shows "\<exists>rest. live q (op_key (ops q ! i)) = i # rest
    \<and> live q' = (live q)(op_key (ops q ! i) := rest)"
proof -
  from settle have i: "i < length (ops q)" "op_phase (ops q ! i) = Executing"
    by (auto elim: queue_settleE)
  then obtain rest where L: "live q (op_key (ops q ! i)) = i # rest"
    using executing_is_head [OF inv] by blast
  have "i \<notin> set rest" using live_distinct [of q "op_key (ops q ! i)"] L by simp
  then have f: "filter (\<lambda>j. j \<noteq> i) rest = rest" by (intro filter_True) blast
  have "live q' k = ((live q)(op_key (ops q ! i) := rest)) k" for k
  proof (cases "k = op_key (ops q ! i)")
    case False
    have "filter (\<lambda>j. j \<noteq> i) (live q k) = live q k"
      using False by (intro filter_True) (auto simp: live_mem)
    with False show ?thesis by (simp add: live_settle [OF settle])
  qed (simp add: live_settle [OF settle] L f)
  with L show ?thesis by blast
qed

lemma ops_length_step:
  "queue_run key q = Inr (i, q') \<Longrightarrow> length (ops q') = Suc (length (ops q)) \<and> i = length (ops q)"
  "queue_start i q = Some q' \<Longrightarrow> length (ops q') = length (ops q)"
  "queue_settle i q = Some q' \<Longrightarrow> length (ops q') = length (ops q)"
  by (auto elim!: queue_runE queue_startE queue_settleE)

interpretation keyed: fifo_order queue_step queue_inv live "\<lambda>q. length (ops q)" is_executing
proof unfold_locales
  fix q q' assume inv: "queue_inv q" and st: "queue_step q q'"
  show "queue_inv q'" by (rule queue_inv_step [OF st inv])
  from st show "(\<exists>k. live q' = (live q)(k := live q k @ [length (ops q)]) \<and> length (ops q') = Suc (length (ops q)))
    \<or> (live q' = live q \<and> length (ops q') = length (ops q))
    \<or> (\<exists>k i rest. live q k = i # rest \<and> live q' = (live q)(k := rest) \<and> length (ops q') = length (ops q))"
  proof cases
    case (run_step key i)
    then show ?thesis by (metis live_run_fun ops_length_step(1))
  next
    case (start_step i)
    then have "live q' = live q" by (auto simp: live_start)
    with start_step show ?thesis by (simp add: ops_length_step(2))
  next
    case (settle_step i)
    then show ?thesis using live_settle_fun [OF inv] ops_length_step(3) by blast
  qed
next
  fix q i k assume inv: "queue_inv q" and ex: "is_executing q i" and "i \<in> set (live q k)"
  then have "k = op_key (ops q ! i)" by (simp add: live_mem)
  with executing_is_head [OF inv, of i] ex show "i = hd (live q k)"
    by (auto simp: is_executing_def)
qed (auto simp: live_mem live_distinct)

lemma unsettled_card:
  "card {i. i < length (ops q) \<and> op_phase (ops q ! i) \<noteq> Settled} = length (ops q) - settled_count q"
proof -
  have "{i. i < length (ops q) \<and> op_phase (ops q ! i) \<noteq> Settled} =
      {..<length (ops q)} - {i. i < length (ops q) \<and> op_phase (ops q ! i) = Settled}" by auto
  then show ?thesis
    unfolding settled_count_card by (simp, subst card_Diff_subset, auto)
qed

lemma queue_boundedness:
  assumes "queue_reachable q"
  shows "queue_run key q = Inl CapacityReached \<longleftrightarrow> length (live q key) = 128 \<or> total_pending q = 1000"
proof -
  have inv: "queue_inv q" using assms by (rule queue_reachable_inv)
  show ?thesis
    using queue_invD(4) [OF inv, of key] queue_invD(7) [OF inv] entry_of [OF inv, of key]
    by (auto simp: queue_run_def Let_def MAX_KEY_PENDING_def MAX_TOTAL_PENDING_def)
qed

section \<open>Properties\<close>

text \<open>
  C3. Operations with the same key never overlap, and they run in the order they were submitted: in
  every reachable state of the queue, under any interleaving of keys, an executing call is the oldest
  unsettled call of its key, hence two executing calls of one key are the same call.
\<close>

theorem queue_mutual_exclusion:
  assumes "queue_reachable q" and "is_executing q i" and "is_executing q j"
    and "op_key (ops q ! i) = op_key (ops q ! j)"
  shows "i = j \<and> i = hd (live q (op_key (ops q ! i)))"
proof -
  have inv: "queue_inv q" using assms(1) by (rule queue_reachable_inv)
  have "i \<in> set (live q (op_key (ops q ! i)))" and "j \<in> set (live q (op_key (ops q ! i)))"
    using assms(2-4) by (simp_all add: live_mem is_executing_def)
  then show ?thesis
    using keyed.exclusive [OF inv assms(2,3)] keyed.executing_hd [OF inv assms(2)] by blast
qed

definition example_queue :: op_queue where
  "example_queue =
     (case queue_run ''t'' empty_queue of Inl _ \<Rightarrow> empty_queue
      | Inr (i, q) \<Rightarrow> (case queue_start i q of None \<Rightarrow> q | Some q' \<Rightarrow> q'))"

lemma example_queue_eval:
  "example_queue = \<lparr>queues = [''t'' \<mapsto> \<lparr>tail = 1, pending = 1\<rparr>], total_pending = 1, resolved = {0},
     ops = [\<lparr>op_key = ''t'', op_previous = 0, op_phase = Executing\<rparr>]\<rparr>"
  by (simp add: example_queue_def queue_run_def queue_start_def empty_queue_def
      MAX_KEY_PENDING_def MAX_TOTAL_PENDING_def)

lemma example_queue_reachable: "queue_reachable example_queue"
proof -
  obtain q where r: "queue_run ''t'' empty_queue = Inr (0, q)" and s: "queue_start 0 q = Some example_queue"
    by (simp add: example_queue_def queue_run_def queue_start_def empty_queue_def
        MAX_KEY_PENDING_def MAX_TOTAL_PENDING_def)
  from r have "queue_step empty_queue q" by (rule run_step)
  moreover from s have "queue_step q example_queue" by (rule start_step)
  ultimately show ?thesis unfolding queue_reachable_def by simp
qed

theorem queue_mutual_exclusion_witness:
  "queue_reachable example_queue \<and> is_executing example_queue 0
   \<and> (0::nat) = hd (live example_queue ''t'')"
proof -
  have e: "is_executing example_queue 0" by (simp add: is_executing_def example_queue_eval)
  show ?thesis
    using example_queue_reachable e queue_mutual_exclusion [OF example_queue_reachable e e]
    by (simp add: example_queue_eval)
qed

text \<open>
  C4. The queue is bounded and its counters are exact: in every reachable state a key has an entry
  exactly when it has unsettled calls, the entry's \<open>pending\<close> is their number, at most 128 of a key and
  1000 in all are unsettled, and \<open>run\<close> refuses a call only at one of these bounds.
\<close>

theorem queue_bounded:
  assumes "queue_reachable q"
  shows "(queues q key = None \<longleftrightarrow> live q key = [])
    \<and> (\<forall>e. queues q key = Some e \<longrightarrow> pending e = length (live q key))
    \<and> length (live q key) \<le> 128
    \<and> total_pending q = card {i. i < length (ops q) \<and> op_phase (ops q ! i) \<noteq> Settled}
    \<and> total_pending q \<le> 1000
    \<and> (queue_run key q = Inl CapacityReached \<longleftrightarrow> length (live q key) = 128 \<or> total_pending q = 1000)"
proof -
  have inv: "queue_inv q" using assms by (rule queue_reachable_inv)
  then show ?thesis
    using queue_invD(1,4) [OF inv, of key] queue_invD(6,7) [OF inv] queue_boundedness [OF assms, of key]
    by (auto simp: unsettled_card entry_ok_def MAX_KEY_PENDING_def MAX_TOTAL_PENDING_def)
qed

theorem queue_bounded_witness:
  "queue_reachable example_queue \<and> total_pending example_queue \<le> 1000
   \<and> length (live example_queue ''t'') \<le> 128"
  using example_queue_reachable queue_bounded [OF example_queue_reachable, of "''t''"] by blast

text \<open>
  The queue never deadlocks: in every reachable state, the oldest unsettled call of a key is either
  executing, and then it can settle, or it can start.
\<close>

theorem queue_progress:
  assumes "queue_reachable q" and "live q key \<noteq> []"
  shows "let i = hd (live q key) in queue_start i q \<noteq> None \<or> queue_settle i q \<noteq> None"
proof -
  have inv: "queue_inv q" using assms(1) by (rule queue_reachable_inv)
  let ?i = "hd (live q key)"
  from assms(2) have "?i \<in> set (live q key)" by simp
  then have i: "?i < length (ops q)" "op_key (ops q ! ?i) = key" "op_phase (ops q ! ?i) \<noteq> Settled"
    by (simp_all add: live_mem)
  show ?thesis
  proof (cases "op_phase (ops q ! ?i)")
    case Blocked
    with i assms(2) queue_invD(2) [OF inv, of key] show ?thesis
      by (simp add: queue_start_def head_ok_def)
  next
    case Executing
    with i assms(2) queue_invD(1) [OF inv, of key] show ?thesis
      by (simp add: queue_settle_def Let_def entry_ok_def)
  qed (use i in simp)
qed

theorem queue_progress_witness:
  "live example_queue ''t'' = [0] \<and> queue_settle 0 example_queue \<noteq> None"
proof -
  have l: "live example_queue ''t'' = [0]" by (simp add: live_def example_queue_eval)
  then show ?thesis using queue_progress [OF example_queue_reachable, of "''t''"]
    by (simp add: queue_start_def example_queue_eval)
qed

text \<open>
  A deferred cleanup runs before any later operation of its task: once
  \<open>runTaskLifecycleOperationWithDeferredCleanup\<close> has admitted an operation and its cleanup, then whatever
  happens afterwards, from the moment the operation has settled until the cleanup has settled, no other
  call with that key can be executing.
\<close>

theorem cleanup_not_overtaken:
  assumes "queue_reachable q" and "run_with_deferred_cleanup key q = ((Some i, Some j), q2)"
    and "queue_step\<^sup>*\<^sup>* q2 q3" and "j \<in> set (live q3 key)" and "i \<notin> set (live q3 key)"
    and "is_executing q3 h" and "op_key (ops q3 ! h) = key"
  shows "h = j"
proof -
  from assms(2) obtain q1 where r1: "queue_run key q = Inr (i, q1)" and r2: "queue_run key q1 = Inr (j, q2)"
    by (auto simp: run_with_deferred_cleanup_def split: sum.splits prod.splits)
  have inv2: "queue_inv q2"
    using assms(1) r1 r2 by (blast intro: queue_reachable_inv queue_inv_run)
  have "live q2 key = live q key @ [i, j]" by (simp add: live_run [OF r1] live_run [OF r2])
  then have "directly_behind i j (live q2 key)"
    unfolding directly_behind_def by blast
  moreover have "j < length (ops q2)" using ops_length_step(1) [OF r2] by simp
  ultimately have "keyed.follows q2 key i j" by (simp add: keyed.follows_def)
  moreover have "h \<in> set (live q3 key)" using assms(6,7) by (simp add: live_mem is_executing_def)
  ultimately show ?thesis using keyed.successor_runs_next [OF inv2] assms(3-6) by blast
qed

text \<open>The example run: the operation starts and settles, then its cleanup starts.\<close>

definition deferred_state :: "phase \<Rightarrow> phase \<Rightarrow> op_queue" where
  "deferred_state p0 p1 =
     \<lparr>queues = [''t'' \<mapsto> \<lparr>tail = 2, pending = (if p0 = Settled then 1 else 2)\<rparr>],
      total_pending = (if p0 = Settled then 1 else 2),
      resolved = (if p0 = Settled then {0, 1} else {0}),
      ops = [\<lparr>op_key = ''t'', op_previous = 0, op_phase = p0\<rparr>,
             \<lparr>op_key = ''t'', op_previous = 1, op_phase = p1\<rparr>]\<rparr>"

lemma deferred_state_run:
  "run_with_deferred_cleanup ''t'' empty_queue = ((Some 0, Some 1), deferred_state Blocked Blocked)"
  by (simp add: run_with_deferred_cleanup_def queue_run_def empty_queue_def deferred_state_def
      MAX_KEY_PENDING_def MAX_TOTAL_PENDING_def numeral_2_eq_2)

lemma deferred_state_steps:
  "queue_step\<^sup>*\<^sup>* (deferred_state Blocked Blocked) (deferred_state Settled Executing)"
proof -
  have "queue_step (deferred_state Blocked Blocked) (deferred_state Executing Blocked)"
    by (rule start_step [of 0]) (simp add: queue_start_def deferred_state_def)
  moreover have "queue_step (deferred_state Executing Blocked) (deferred_state Settled Blocked)"
    by (rule settle_step [of 0])
      (simp add: queue_settle_def deferred_state_def Let_def insert_commute)
  moreover have "queue_step (deferred_state Settled Blocked) (deferred_state Settled Executing)"
    by (rule start_step [of 1]) (simp add: queue_start_def deferred_state_def)
  ultimately show ?thesis by simp
qed

theorem cleanup_not_overtaken_witness:
  "{h. is_executing (deferred_state Settled Executing) h
       \<and> op_key (ops (deferred_state Settled Executing) ! h) = ''t''} = {1}"
proof -
  let ?q = "deferred_state Settled Executing"
  have l: "live ?q ''t'' = [1]" by (simp add: live_def deferred_state_def)
  have r: "queue_reachable empty_queue" by (simp add: queue_reachable_def)
  have "h = 1" if "is_executing ?q h" "op_key (ops ?q ! h) = ''t''" for h
    using cleanup_not_overtaken [OF r deferred_state_run deferred_state_steps _ _ that] l by simp
  then show ?thesis by (auto simp: is_executing_def deferred_state_def)
qed

lemma queue_fill:
  "n \<le> 128 \<Longrightarrow> \<exists>q. queue_reachable q \<and> length (live q key) = n \<and> total_pending q = n"
proof (induction n)
  case 0
  show ?case
    by (rule exI [of _ empty_queue]) (simp add: queue_reachable_def live_def empty_queue_def)
next
  case (Suc n)
  then obtain q where q: "queue_reachable q" "length (live q key) = n" "total_pending q = n" by auto
  with Suc.prems obtain i q' where r: "queue_run key q = Inr (i, q')"
    using queue_boundedness [OF q(1), of key]
    by (cases "queue_run key q") (auto intro: queue_error.exhaust)
  have "queue_reachable q'"
    using q(1) run_step [OF r] unfolding queue_reachable_def by simp
  moreover have "total_pending q' = Suc n" using r q(3) by (auto elim!: queue_runE)
  ultimately show ?case using q(2) by (auto simp: live_run [OF r] intro!: exI [of _ q'])
qed

text \<open>
  The reservation of the cleanup can be refused although its operation is admitted: there is a
  reachable queue (127 unsettled calls of the task) in which
  \<open>runTaskLifecycleOperationWithDeferredCleanup\<close> admits the operation and the queue refuses the place of
  its cleanup, so that the engine, the sessions and the working tree of the deleted task are not
  cleaned up.
\<close>

theorem cleanup_reservation_can_be_refused:
  "\<exists>q i q'. queue_reachable q \<and> run_with_deferred_cleanup key q = ((Some i, None), q')
     \<and> is_executing q' i = False \<and> live q' key = live q key @ [i]"
proof -
  obtain q where q: "queue_reachable q" "length (live q key) = 127" "total_pending q = 127"
    using queue_fill [of 127 key] by auto
  then obtain i q1 where r: "queue_run key q = Inr (i, q1)"
    using queue_boundedness [OF q(1), of key]
    by (cases "queue_run key q") (auto intro: queue_error.exhaust)
  have "queue_reachable q1" using q(1) run_step [OF r] unfolding queue_reachable_def by simp
  moreover have L: "live q1 key = live q key @ [i]" by (simp add: live_run [OF r])
  ultimately have "queue_run key q1 = Inl CapacityReached"
    using queue_boundedness [of q1 key] q(2) by simp
  with r have "run_with_deferred_cleanup key q = ((Some i, None), q1)"
    by (simp add: run_with_deferred_cleanup_def)
  moreover have "is_executing q1 i = False"
    using r by (auto simp: is_executing_def elim!: queue_runE)
  ultimately show ?thesis using q(1) L by blast
qed

end
