(* ===== verification/TaskModel.thy ===== *)
theory TaskModel
  imports Prelude TaskStatus "HOL-Library.Extended_Nat"
begin

text \<open>
  The data model of a task (\<open>shared/task.ts\<close> and the records it refers to): the configuration, the
  runtime state, their constructors and the pure functions on them. A property that TypeScript
  declares optional or nullable is an \<open>option\<close>; \<open>undefined\<close> and \<open>null\<close> are told apart only where the
  code does (the session binding). Timestamps are ISO strings of fixed width in the code, compared
  as text; they are natural numbers here, which have the same order. The attachment bytes, the
  tool inputs and outputs and the parts of a harness state that no modelled code reads are strings
  that are carried along unchanged.
\<close>

section \<open>Models, attachments and transcript entries\<close>

record model_config =
  providerID :: string
  modelID :: string
  model_variant :: string

datatype cheap_model = SameAsTask | CustomModel model_config

record message_attachment =
  att_id :: ident
  att_filename :: string
  att_mimeType :: string
  att_data :: string
  att_size :: nat

datatype log_level = LevelAgent | LevelUser | LevelInfo | LevelWarn | LevelError | LevelDebug | LevelTrace

record task_log_entry =
  log_id :: ident
  log_level :: log_level
  log_message :: string
  log_details :: "string option"
  log_timestamp :: timestamp

datatype message_role = RoleUser | RoleAssistant

record persisted_message =
  msg_id :: ident
  msg_role :: message_role
  msg_content :: string
  msg_attachments :: "message_attachment list option"
  msg_timestamp :: timestamp
  msg_question :: "string option"

datatype tool_status = ToolPending | ToolRunning | ToolCompleted | ToolFailed

record tool_call_extra =
  extra_id :: ident
  extra_image :: message_attachment
  extra_sourcePath :: "string option"

record tool_call_record =
  tool_id :: ident
  tool_name :: string
  tool_input :: "string option"
  tool_output :: "string option"
  tool_status :: tool_status
  tool_timestamp :: timestamp
  tool_extras :: "tool_call_extra list option"
  tool_detailRevision :: "timestamp option"

section \<open>Configuration\<close>

record git_config =
  branchPrefix :: string
  commitScope :: string

datatype creator_kind = CreatorUser | CreatorGuest

record collaboration_creator =
  creator_kind :: creator_kind
  creator_id :: ident
  creator_name :: string

record task_config =
  cfg_id :: ident
  cfg_creator :: "collaboration_creator option"
  cfg_name :: string
  cfg_directory :: string
  cfg_prompt :: string
  cfg_issueNumber :: "nat option"
  cfg_createdAt :: timestamp
  cfg_updatedAt :: timestamp
  cfg_isPrivate :: "bool option"
  cfg_workspaceId :: ident
  cfg_model :: model_config
  cfg_cheapModel :: "cheap_model option"
  cfg_maxIterations :: enat
  cfg_maxConsecutiveErrors :: enat
  cfg_activityTimeoutSeconds :: "nat option"
  cfg_stopPattern :: string
  cfg_git :: git_config
  cfg_baseBranch :: "string option"
  cfg_useWorktree :: bool
  cfg_clearPlanningFolder :: bool
  cfg_autoAcceptPlan :: "bool option"
  cfg_fullyAutonomous :: "bool option"

definition DEFAULT_ACTIVITY_TIMEOUT_SECONDS :: nat where
  "DEFAULT_ACTIVITY_TIMEOUT_SECONDS = 330"

text \<open>The members of \<open>DEFAULT_TASK_CONFIG\<close>.\<close>

definition default_stopPattern :: string where
  "default_stopPattern = ''<promise>COMPLETE</promise>$''"

definition default_maxIterations :: enat where "default_maxIterations = \<infinity>"
definition default_maxConsecutiveErrors :: enat where "default_maxConsecutiveErrors = 10"
definition default_useWorktree :: bool where "default_useWorktree = True"
definition default_clearPlanningFolder :: bool where "default_clearPlanningFolder = False"
definition default_autoAcceptPlan :: bool where "default_autoAcceptPlan = True"
definition default_fullyAutonomous :: bool where "default_fullyAutonomous = False"
definition default_cheapModel :: cheap_model where "default_cheapModel = SameAsTask"
definition default_git :: git_config where "default_git = \<lparr>branchPrefix = [], commitScope = []\<rparr>"

section \<open>Runtime state\<close>

datatype harness_adapter = AdapterAcp | AdapterNative string

datatype question_policy = Interactive | Unattended

record host_binding =
  host_ref :: string
  host_targetKey :: string
  host_revision :: nat

record harness_binding =
  hb_adapter :: harness_adapter
  hb_nativeId :: ident
  hb_ownerId :: ident
  hb_contextId :: ident
  hb_directory :: string
  hb_executionHost :: "host_binding option"
  hb_questionPolicy :: "question_policy option"
  hb_secretFiles :: bool
  hb_controlTools :: "bool option"
  hb_controlChatId :: "ident option"

definition requireMatchingHarnessBindings :: "harness_binding \<Rightarrow> harness_binding \<Rightarrow> bool" where
  "requireMatchingHarnessBindings actual expected =
     (hb_adapter actual = hb_adapter expected \<and> hb_nativeId actual = hb_nativeId expected
      \<and> hb_ownerId actual = hb_ownerId expected \<and> hb_contextId actual = hb_contextId expected
      \<and> hb_directory actual = hb_directory expected
      \<and> hb_executionHost actual = hb_executionHost expected
      \<and> (hb_questionPolicy actual = None \<or> hb_questionPolicy actual = hb_questionPolicy expected))"

text \<open>
  \<open>session.binding\<close> is \<open>undefined\<close> for a legacy session, \<open>null\<close> for a stored binding that cannot be
  read (it must not be resumed), or a binding.
\<close>

datatype session_binding = NoBinding | CorruptBinding | Binding harness_binding

record session_info =
  session_id :: ident
  session_serverUrl :: "string option"
  session_binding :: session_binding

datatype harness_cleanup = CleanupSettled timestamp | CleanupPending "ident list" | CleanupUnavailable string

datatype harness_git_safety = GitSafe timestamp | GitBlocked string "ident list"

datatype git_outcome_status = OutcomePending | OutcomeSucceeded | OutcomeFailed

record native_ids =
  ni_messageId :: "ident option"
  ni_clientInputId :: "ident option"
  ni_turnId :: "ident option"

datatype rejection_code = NotRunning | TurnChanged | UnsupportedSteering

datatype input_admission =
  AdmissionAccepted ident native_ids
| AdmissionDelivered ident native_ids
| AdmissionRejected ident rejection_code
| AdmissionUnknown ident

record input_receipt =
  rc_conversation :: harness_binding
  rc_admission :: input_admission
  rc_submittedAt :: timestamp

record harness_state =
  hs_integrityInvalid :: bool
  hs_cleanup :: "harness_cleanup option"
  hs_gitSafety :: "harness_git_safety option"
  hs_gitOutcome :: "git_outcome_status option"
  hs_inputs :: "input_receipt list option"
  hs_other :: string

record task_error =
  err_message :: string
  err_iteration :: nat
  err_timestamp :: timestamp

record git_commit =
  commit_iteration :: nat
  commit_sha :: string
  commit_message :: string
  commit_timestamp :: timestamp
  commit_filesChanged :: nat

record git_state =
  originalBranch :: string
  workingBranch :: string
  worktreePath :: "string option"
  commits :: "git_commit list"

record consecutive_error_tracker =
  lastErrorMessage :: string
  lastErrorCode :: "string option"
  error_count :: nat

datatype task_prompt_intent = EngineContext | DirectUser

datatype iteration_outcome = OutcomeContinue | OutcomeComplete | OutcomeBlocked | OutcomeError | OutcomePlanReady

record iteration_summary =
  it_iteration :: nat
  it_startedAt :: timestamp
  it_completedAt :: timestamp
  it_messageCount :: nat
  it_toolCallCount :: nat
  it_outcome :: iteration_outcome

record plan_mode =
  pm_active :: bool
  pm_planSessionId :: "string option"
  pm_planServerUrl :: "string option"
  pm_feedbackRounds :: nat
  pm_planContent :: "string option"
  pm_planningFolderCleared :: bool
  pm_isPlanReady :: bool

datatype completion_action = ActionLocal | ActionPush

record review_mode =
  rm_addressable :: bool
  rm_completionAction :: completion_action
  rm_reviewCycles :: nat

datatype merge_state_status =
  MergeBehind | MergeBlocked | MergeClean | MergeDirty | MergeDraft | MergeHasHooks | MergeUnknown | MergeUnstable

datatype branch_update_status = UpdateRequired | UpdateRequested | UpdateConflicts | UpdateFailed

record branch_update_state =
  bu_status :: branch_update_status
  bu_lastDetectedAt :: timestamp
  bu_lastTriggeredAt :: "timestamp option"
  bu_lastError :: "string option"

datatype pr_monitoring_status = PrUnavailable | PrNone | PrOpen | PrClosed | PrMerged | PrError

record pr_monitoring_state =
  prm_status :: pr_monitoring_status
  prm_lastCheckedAt :: timestamp
  prm_pullRequestNumber :: "nat option"
  prm_pullRequestUrl :: "string option"
  prm_mergedAt :: "timestamp option"
  prm_mergeStateStatus :: "merge_state_status option"
  prm_viewerCanUpdateBranch :: "bool option"
  prm_branchUpdate :: "branch_update_state option"
  prm_lastError :: "string option"

datatype feedback_source = ReviewThread | ReviewComment | Review | Workflow
datatype feedback_outcome = FeedbackResolved | FeedbackIgnored | FeedbackManual

record handled_item =
  hi_id :: ident
  hi_source :: feedback_source
  hi_outcome :: feedback_outcome
  hi_handledAt :: timestamp

record active_batch =
  ab_batchId :: ident
  ab_items :: "(ident \<times> feedback_source \<times> ident option) list"
  ab_startedAt :: timestamp
  ab_reviewCycle :: "nat option"

datatype pr_flow_status = FlowStarting | FlowMonitoring | FlowProcessing | FlowFinalizing | FlowStopped | FlowError

record pr_flow_state =
  apf_enabled :: bool
  apf_status :: pr_flow_status
  apf_startedAt :: timestamp
  apf_updatedAt :: timestamp
  apf_lastCheckedAt :: "timestamp option"
  apf_pullRequestNumber :: "nat option"
  apf_pullRequestUrl :: "string option"
  apf_activeBatch :: "active_batch option"
  apf_handledItems :: "handled_item list"
  apf_lastError :: "string option"
  apf_stoppedAt :: "timestamp option"

datatype sync_status = Syncing | SyncClean | SyncConflicts | SyncResolved
datatype sync_phase = PhaseWorkingBranch | PhaseBaseBranch

record sync_state =
  sy_status :: sync_status
  sy_baseBranch :: string
  sy_autoPushOnComplete :: bool
  sy_syncPhase :: "sync_phase option"
  sy_mergeCommitMessage :: "string option"

record pending_input =
  pi_id :: ident
  pi_attachments :: "message_attachment list"

record task_state =
  st_id :: ident
  st_status :: task_status
  st_currentIteration :: nat
  st_startedAt :: "timestamp option"
  st_completedAt :: "timestamp option"
  st_lastActivityAt :: "timestamp option"
  st_lastUserMessageAt :: "timestamp option"
  st_session :: "session_info option"
  st_harness :: "harness_state option"
  st_usage :: "string option"
  st_error :: "task_error option"
  st_git :: "git_state option"
  st_recentIterations :: "iteration_summary list"
  st_logs :: "task_log_entry list"
  st_messages :: "persisted_message list"
  st_toolCalls :: "tool_call_record list"
  st_consecutiveErrors :: "consecutive_error_tracker option"
  st_pendingPrompt :: "string option"
  st_pendingPromptMode :: "task_prompt_intent option"
  st_pendingInput :: "pending_input option"
  st_initialPromptAttachments :: "message_attachment list option"
  st_pendingModel :: "model_config option"
  st_planMode :: "plan_mode option"
  st_reviewMode :: "review_mode option"
  st_pullRequestMonitoring :: "pr_monitoring_state option"
  st_automaticPrFlow :: "pr_flow_state option"
  st_fullyAutonomousPending :: bool
  st_syncState :: "sync_state option"

record task =
  task_config :: task_config
  task_state :: task_state

definition createInitialState :: "ident \<Rightarrow> task_state" where
  "createInitialState i = \<lparr>st_id = i, st_status = Idle, st_currentIteration = 0,
     st_startedAt = None, st_completedAt = None, st_lastActivityAt = None, st_lastUserMessageAt = None,
     st_session = None, st_harness = None, st_usage = None, st_error = None, st_git = None,
     st_recentIterations = [], st_logs = [], st_messages = [], st_toolCalls = [],
     st_consecutiveErrors = None, st_pendingPrompt = None, st_pendingPromptMode = None,
     st_pendingInput = None, st_initialPromptAttachments = None, st_pendingModel = None,
     st_planMode = None, st_reviewMode = None, st_pullRequestMonitoring = None,
     st_automaticPrFlow = None, st_fullyAutonomousPending = False, st_syncState = None\<rparr>"

text \<open>
  The working directory of a task: the checkout for a task without a worktree, otherwise the
  recorded worktree path, and none when it has not been recorded.
\<close>

definition getTaskWorkingDirectory :: "task \<Rightarrow> string option" where
  "getTaskWorkingDirectory t =
     (if cfg_useWorktree (task_config t)
      then Option.bind (st_git (task_state t)) worktreePath
      else Some (cfg_directory (task_config t)))"

text \<open>The snapshot of a list endpoint: the task without its transcript and its plan content.\<close>

definition createTaskListSnapshot :: "task \<Rightarrow> task" where
  "createTaskListSnapshot t = t\<lparr>task_state := (task_state t)\<lparr>
     st_initialPromptAttachments := None, st_logs := [], st_messages := [], st_toolCalls := [],
     st_planMode := map_option (\<lambda>p. p\<lparr>pm_planContent := None\<rparr>) (st_planMode (task_state t))\<rparr>\<rparr>"

lemma createTaskListSnapshot_idem [simp]:
  "createTaskListSnapshot (createTaskListSnapshot t) = createTaskListSnapshot t"
  by (cases "st_planMode (task_state t)") (simp_all add: createTaskListSnapshot_def)

text \<open>Trimming as \<open>String.prototype.trim\<close> does it on ASCII white space.\<close>

definition is_space :: "char \<Rightarrow> bool" where
  "is_space c = (c \<in> {CHR '' '', CHR 0x09, CHR 0x0A, CHR 0x0B, CHR 0x0C, CHR 0x0D})"

definition js_trim :: "string \<Rightarrow> string" where
  "js_trim s = rev (dropWhile is_space (rev (dropWhile is_space s)))"

definition to_lower :: "char \<Rightarrow> char" where
  "to_lower c = (let n = of_char c :: nat in if 65 \<le> n \<and> n \<le> 90 then char_of (n + 32) else c)"

definition normalizeCommitScope :: "string option \<Rightarrow> string option" where
  "normalizeCommitScope s = (case s of
     None \<Rightarrow> None
   | Some x \<Rightarrow> (let y = js_trim x in
       if y = [] then None
       else if map to_lower y = ''clanky'' then None
       else Some y))"

lemma dropWhile_idem: "dropWhile P (dropWhile P xs) = dropWhile P xs"
  by (induction xs) auto

lemma dropWhile_rev_dropWhile:
  "dropWhile P (rev (dropWhile P (rev (dropWhile P xs)))) = rev (dropWhile P (rev (dropWhile P xs)))"
proof (cases "dropWhile P xs")
  case Nil
  show ?thesis unfolding Nil by simp
next
  case (Cons a as)
  have na: "\<not> P a" using Cons by (metis dropWhile_eq_Cons_conv)
  have e: "dropWhile P (rev as @ [a]) = dropWhile P (rev as) @ [a]"
    using na by (induction "rev as" rule: rev_induct) (auto simp: dropWhile_append)
  show ?thesis unfolding Cons using na e by simp
qed

lemma js_trim_idem [simp]: "js_trim (js_trim s) = js_trim s"
  unfolding js_trim_def by (simp add: dropWhile_rev_dropWhile dropWhile_idem)

lemma normalizeCommitScope_idem:
  "normalizeCommitScope (Some (case normalizeCommitScope s of None \<Rightarrow> [] | Some x \<Rightarrow> x)) = normalizeCommitScope s"
  by (auto simp: normalizeCommitScope_def Let_def split: option.splits)
     (simp_all add: js_trim_def)

end
