(* ===== verification/TranscriptStore.thy ===== *)
theory TranscriptStore
  imports TaskModel "HOL-Library.Multiset" "HOL-Library.Product_Lexorder" "HOL-Library.List_Lexorder" "HOL-Library.Char_ord"
begin

text \<open>
  The SQL transcript store of one resource kind (\<open>persistence/transcripts/\<close>): the projection of a
  state's messages, tool calls and logs to entries, the rows of the entries table with their
  normalised tool columns, the upsert, replace, sync and change-set operations, and hydration.
  Rows are compared the way SQLite does it (\<open>ORDER BY\<close> over timestamp, sequence, kind and key).
  The two derived columns that only the attachment listing reads (\<open>message_has_files\<close>,
  \<open>tool_has_image_preview\<close>) are not modelled, and \<open>JSON.stringify\<close> is kept as the value it renders.
\<close>

section \<open>Lists sorted by a key\<close>

lemma insort_key_map: "map f (insort_key (\<lambda>x. k (f x)) x xs) = insort_key k (f x) (map f xs)"
  by (induction xs) auto

lemma sort_key_map: "map f (sort_key (\<lambda>x. k (f x)) xs) = sort_key k (map f xs)"
  by (induction xs) (auto simp: insort_key_map)

lemma insort_key_lex:
  "(\<And>y. y \<in> set ys \<Longrightarrow> o' x < (o' y :: nat)) \<Longrightarrow>
   insort_key (\<lambda>e. (k e :: nat, o' e)) x ys = insort_key k x ys"
proof (induction ys)
  case (Cons y ys)
  have "o' x < o' y" using Cons.prems by simp
  then have "((k x, o' x) \<le> (k y, o' y)) = (k x \<le> k y)" by auto
  with Cons show ?case by simp
qed simp

lemma sort_key_lex:
  assumes "sorted_wrt (\<lambda>a b. o' a < (o' b :: nat)) xs"
  shows "sort_key (\<lambda>e. (k e :: nat, o' e)) xs = sort_key k xs"
  using assms
proof (induction xs)
  case (Cons x xs)
  have "\<And>y. y \<in> set (sort_key k xs) \<Longrightarrow> o' x < o' y" using Cons.prems by simp
  then have "insort_key (\<lambda>e. (k e, o' e)) x (sort_key k xs) = insort_key k x (sort_key k xs)"
    by (rule insort_key_lex)
  with Cons show ?case by simp
qed simp

section \<open>Entries and rows\<close>

datatype transcript_kind = KindLog | KindMessage | KindTool

datatype transcript_payload =
  PMessage persisted_message
| PTool tool_call_record
| PLog task_log_entry

record transcript_state =
  ts_messages :: "persisted_message list"
  ts_logs :: "task_log_entry list"
  ts_toolCalls :: "tool_call_record list"

record transcript_state_entry =
  se_id :: ident
  se_timestamp :: timestamp
  se_kind :: transcript_kind
  se_order :: nat
  se_payload :: transcript_payload

datatype payload_text = PayloadText transcript_payload | EmptyObject | CorruptPayload

record tool_columns =
  tc_name :: string
  tc_status :: tool_status
  tc_input :: "string option"
  tc_output :: "string option"
  tc_extras :: "tool_call_extra list option"

record transcript_row =
  tr_resource :: ident
  tr_user :: ident
  tr_key :: string
  tr_kind :: transcript_kind
  tr_timestamp :: timestamp
  tr_sequence :: nat
  tr_payload :: payload_text
  tr_role :: "message_role option"
  tr_tool :: "tool_columns option"
  tr_createdAt :: timestamp
  tr_updatedAt :: timestamp

type_synonym transcript_table = "transcript_row list"

fun kind_name :: "transcript_kind \<Rightarrow> string" where
  "kind_name KindMessage = ''message''"
| "kind_name KindTool = ''tool''"
| "kind_name KindLog = ''log''"

definition getTranscriptEntryKey :: "transcript_kind \<Rightarrow> ident \<Rightarrow> string" where
  "getTranscriptEntryKey k i = kind_name k @ '':'' @ i"

lemma entry_key_inj [simp]:
  "getTranscriptEntryKey k i = getTranscriptEntryKey k' i' \<longleftrightarrow> k = k' \<and> i = i'"
  by (cases k; cases k') (auto simp: getTranscriptEntryKey_def)

definition message_entry :: "nat \<times> persisted_message \<Rightarrow> transcript_state_entry" where
  "message_entry p = \<lparr>se_id = msg_id (snd p), se_timestamp = msg_timestamp (snd p),
     se_kind = KindMessage, se_order = fst p, se_payload = PMessage (snd p)\<rparr>"

definition tool_entry :: "nat \<times> tool_call_record \<Rightarrow> transcript_state_entry" where
  "tool_entry p = \<lparr>se_id = tool_id (snd p), se_timestamp = tool_timestamp (snd p),
     se_kind = KindTool, se_order = fst p, se_payload = PTool (snd p)\<rparr>"

definition log_entry :: "nat \<times> task_log_entry \<Rightarrow> transcript_state_entry" where
  "log_entry p = \<lparr>se_id = log_id (snd p), se_timestamp = log_timestamp (snd p),
     se_kind = KindLog, se_order = fst p, se_payload = PLog (snd p)\<rparr>"

text \<open>\<open>order++\<close> counts through the messages, then the tool calls, then the included logs.\<close>

definition getTranscriptStateEntries ::
  "(task_log_entry \<Rightarrow> bool) \<Rightarrow> transcript_state \<Rightarrow> transcript_state_entry list" where
  "getTranscriptStateEntries inc s =
     (let ms = ts_messages s; tcs = ts_toolCalls s; ls = filter inc (ts_logs s) in
       map message_entry (List.enumerate 0 ms)
       @ map tool_entry (List.enumerate (length ms) tcs)
       @ map log_entry (List.enumerate (length ms + length tcs) ls))"

text \<open>
  The comparator is timestamp, then order, then kind and id; orders are distinct within one
  projection, so the last two never decide.
\<close>

definition sortTranscriptStateEntries :: "transcript_state_entry list \<Rightarrow> transcript_state_entry list" where
  "sortTranscriptStateEntries es = sort_key (\<lambda>e. (se_timestamp e, se_order e)) es"

section \<open>Encoding and decoding a row\<close>

definition getToolPayload :: "transcript_kind \<Rightarrow> transcript_payload \<Rightarrow> tool_call_record option" where
  "getToolPayload k p = (case p of PTool t \<Rightarrow> if k = KindTool then Some t else None | _ \<Rightarrow> None)"

definition message_of :: "transcript_kind \<Rightarrow> transcript_payload \<Rightarrow> persisted_message option" where
  "message_of k p = (case p of PMessage m \<Rightarrow> if k = KindMessage then Some m else None | _ \<Rightarrow> None)"

definition tool_cols :: "tool_call_record \<Rightarrow> tool_columns" where
  "tool_cols t = \<lparr>tc_name = tool_name t, tc_status = tool_status t, tc_input = tool_input t,
     tc_output = tool_output t, tc_extras = tool_extras t\<rparr>"

definition entry_row ::
  "ident \<Rightarrow> ident \<Rightarrow> ident \<Rightarrow> transcript_kind \<Rightarrow> timestamp \<Rightarrow> transcript_payload \<Rightarrow> nat \<Rightarrow> timestamp \<Rightarrow> transcript_row" where
  "entry_row r u i k t p sq now = \<lparr>tr_resource = r, tr_user = u, tr_key = getTranscriptEntryKey k i,
     tr_kind = k, tr_timestamp = t, tr_sequence = sq,
     tr_payload = (if getToolPayload k p = None then PayloadText p else EmptyObject),
     tr_role = map_option msg_role (message_of k p),
     tr_tool = map_option tool_cols (getToolPayload k p),
     tr_createdAt = now, tr_updatedAt = now\<rparr>"

text \<open>
  \<open>INSERT ... ON CONFLICT(resource, entry_id) DO UPDATE\<close>: every column but \<open>created_at\<close> is
  replaced.
\<close>

fun put_row :: "transcript_row \<Rightarrow> transcript_table \<Rightarrow> transcript_table" where
  "put_row n [] = [n]"
| "put_row n (r # rs) =
     (if tr_resource r = tr_resource n \<and> tr_key r = tr_key n
      then n\<lparr>tr_createdAt := tr_createdAt r\<rparr> # rs else r # put_row n rs)"

definition upsertEntry ::
  "transcript_table \<Rightarrow> ident \<Rightarrow> ident \<Rightarrow> ident \<Rightarrow> transcript_kind \<Rightarrow> timestamp \<Rightarrow> transcript_payload \<Rightarrow> nat \<Rightarrow> timestamp
   \<Rightarrow> transcript_table" where
  "upsertEntry tab r u i k t p sq now = put_row (entry_row r u i k t p sq now) tab"

definition decodePayload :: "transcript_row \<Rightarrow> transcript_payload option" where
  "decodePayload r = (case tr_payload r of
     PayloadText p \<Rightarrow> (case p of
         PMessage m \<Rightarrow> if tr_kind r = KindMessage then Some p else None
       | PLog l \<Rightarrow> if tr_kind r = KindLog then Some p else None
       | PTool t \<Rightarrow> if tr_kind r = KindTool then Some p else None)
   | _ \<Rightarrow> None)"

definition getEntryId :: "transcript_row \<Rightarrow> ident" where
  "getEntryId r = (let p = kind_name (tr_kind r) @ '':'' in
     if starts_with p (tr_key r) then drop (length p) (tr_key r) else tr_key r)"

definition createNormalizedTool :: "bool \<Rightarrow> transcript_row \<Rightarrow> tool_call_record option" where
  "createNormalizedTool full r = map_option (\<lambda>c. \<lparr>tool_id = getEntryId r, tool_name = tc_name c,
     tool_input = tc_input c, tool_output = (if full then tc_output c else None),
     tool_status = tc_status c, tool_timestamp = tr_timestamp r,
     tool_extras = (if full then tc_extras c else None),
     tool_detailRevision = Some (tr_updatedAt r)\<rparr>) (tr_tool r)"

record storage_entry =
  sg_id :: ident
  sg_kind :: transcript_kind
  sg_timestamp :: timestamp
  sg_sequence :: nat
  sg_payload :: "transcript_payload option"
  sg_tool :: "tool_call_record option"

definition rowToStorageEntry :: "bool \<Rightarrow> transcript_row \<Rightarrow> storage_entry option" where
  "rowToStorageEntry full r =
     (if tr_kind r \<noteq> KindTool then
        Some \<lparr>sg_id = getEntryId r, sg_kind = tr_kind r, sg_timestamp = tr_timestamp r,
          sg_sequence = tr_sequence r, sg_payload = decodePayload r, sg_tool = None\<rparr>
      else map_option (\<lambda>t. \<lparr>sg_id = getEntryId r, sg_kind = KindTool, sg_timestamp = tr_timestamp r,
          sg_sequence = tr_sequence r, sg_payload = (if full then Some (PTool t) else None),
          sg_tool = Some t\<rparr>) (createNormalizedTool full r))"

section \<open>Reading a transcript\<close>

definition rows_of :: "transcript_table \<Rightarrow> ident \<Rightarrow> ident \<Rightarrow> transcript_table" where
  "rows_of tab r u = filter (\<lambda>x. tr_resource x = r \<and> tr_user x = u) tab"

definition row_order :: "transcript_row \<Rightarrow> timestamp \<times> nat \<times> string \<times> string" where
  "row_order x = (tr_timestamp x, tr_sequence x, kind_name (tr_kind x), tr_key x)"

definition listTranscriptEntriesForUser ::
  "transcript_table \<Rightarrow> ident \<Rightarrow> ident \<Rightarrow> bool \<Rightarrow> storage_entry list" where
  "listTranscriptEntriesForUser tab r u full =
     List.map_filter (rowToStorageEntry full) (rev (sort_key row_order (rows_of tab r u)))"

definition payload_message :: "storage_entry \<Rightarrow> persisted_message option" where
  "payload_message e = (case sg_payload e of Some (PMessage m) \<Rightarrow> if sg_kind e = KindMessage then Some m else None | _ \<Rightarrow> None)"

definition payload_log :: "storage_entry \<Rightarrow> task_log_entry option" where
  "payload_log e = (case sg_payload e of Some (PLog l) \<Rightarrow> if sg_kind e = KindLog then Some l else None | _ \<Rightarrow> None)"

definition payload_tool :: "storage_entry \<Rightarrow> tool_call_record option" where
  "payload_tool e = (if sg_kind e = KindTool
     then map_option (\<lambda>t. t\<lparr>tool_detailRevision := None\<rparr>) (sg_tool e) else None)"

definition hydrateTranscriptStateForUser :: "transcript_table \<Rightarrow> ident \<Rightarrow> ident \<Rightarrow> transcript_state" where
  "hydrateTranscriptStateForUser tab r u =
     (let es = sort_key sg_sequence (listTranscriptEntriesForUser tab r u True) in
       \<lparr>ts_messages = List.map_filter payload_message es,
        ts_logs = List.map_filter payload_log es,
        ts_toolCalls = List.map_filter payload_tool es\<rparr>)"

section \<open>Writing a transcript\<close>

definition upsert_state_entry ::
  "ident \<Rightarrow> ident \<Rightarrow> timestamp \<Rightarrow> nat \<times> transcript_state_entry \<Rightarrow> transcript_table \<Rightarrow> transcript_table" where
  "upsert_state_entry r u now p tab =
     upsertEntry tab r u (se_id (snd p)) (se_kind (snd p)) (se_timestamp (snd p)) (se_payload (snd p)) (fst p) now"

definition replaceTranscriptEntries ::
  "transcript_table \<Rightarrow> ident \<Rightarrow> ident \<Rightarrow> transcript_state \<Rightarrow> (task_log_entry \<Rightarrow> bool) \<Rightarrow> timestamp \<Rightarrow> transcript_table" where
  "replaceTranscriptEntries tab r u s inc now =
     fold (upsert_state_entry r u now)
       (List.enumerate 0 (sortTranscriptStateEntries (getTranscriptStateEntries inc s)))
       (filter (\<lambda>x. \<not> (tr_resource x = r \<and> tr_user x = u)) tab)"

definition existing_sequences :: "transcript_table \<Rightarrow> ident \<Rightarrow> ident \<Rightarrow> string \<Rightarrow> nat option" where
  "existing_sequences tab r u k =
     map_of (map (\<lambda>x. (tr_key x, tr_sequence x)) (rows_of tab r u)) k"

definition next_sequence :: "transcript_table \<Rightarrow> ident \<Rightarrow> ident \<Rightarrow> nat" where
  "next_sequence tab r u = (case rows_of tab r u of [] \<Rightarrow> 0 | xs \<Rightarrow> Suc (Max (set (map tr_sequence xs))))"

definition entry_key :: "transcript_state_entry \<Rightarrow> string" where
  "entry_key e = getTranscriptEntryKey (se_kind e) (se_id e)"

text \<open>
  One round of the loop over the sorted next entries: an entry that the previous state already had
  with the same timestamp and payload, and that has a row, is skipped; the others are written
  under their existing sequence or the next free one. The state is the table and the next free
  sequence.
\<close>

definition sync_entry ::
  "(string \<Rightarrow> transcript_state_entry option) \<Rightarrow> (string \<Rightarrow> nat option) \<Rightarrow> ident \<Rightarrow> ident \<Rightarrow> timestamp
   \<Rightarrow> transcript_state_entry \<Rightarrow> transcript_table \<times> nat \<Rightarrow> transcript_table \<times> nat" where
  "sync_entry prev seqs r u now e st =
     (let k = entry_key e in
      case (prev k, seqs k) of
        (Some p, Some sq) \<Rightarrow>
          if se_timestamp p = se_timestamp e \<and> se_payload p = se_payload e then st
          else (upsert_state_entry r u now (sq, e) (fst st), snd st)
      | (None, Some sq) \<Rightarrow> (upsert_state_entry r u now (sq, e) (fst st), snd st)
      | (_, None) \<Rightarrow> (upsert_state_entry r u now (snd st, e) (fst st), Suc (snd st)))"

definition syncTranscriptEntries ::
  "transcript_table \<Rightarrow> ident \<Rightarrow> ident \<Rightarrow> transcript_state \<Rightarrow> transcript_state \<Rightarrow> (task_log_entry \<Rightarrow> bool) \<Rightarrow> timestamp
   \<Rightarrow> transcript_table" where
  "syncTranscriptEntries tab r u prev nxt inc now =
     (let pm = map_of (rev (map (\<lambda>e. (entry_key e, e)) (getTranscriptStateEntries inc prev)));
          es = sortTranscriptStateEntries (getTranscriptStateEntries inc nxt);
          tab' = fst (fold (sync_entry pm (existing_sequences tab r u) r u now) es (tab, next_sequence tab r u))
      in filter (\<lambda>x. \<not> (tr_resource x = r \<and> tr_user x = u
                      \<and> existing_sequences tab r u (tr_key x) \<noteq> None
                      \<and> tr_key x \<notin> entry_key ` set es)) tab')"

record entry_upsert =
  eu_id :: ident
  eu_kind :: transcript_kind
  eu_timestamp :: timestamp
  eu_payload :: transcript_payload
  eu_sequence :: "nat option"

record change_set =
  cs_upserts :: "entry_upsert list"
  cs_deletes :: "(transcript_kind \<times> ident) list"
  cs_entryCount :: nat
  cs_revision :: "string option"

definition createTranscriptChangeSet ::
  "transcript_state \<Rightarrow> entry_upsert list \<Rightarrow> (transcript_kind \<times> ident) list \<Rightarrow> change_set" where
  "createTranscriptChangeSet s ups dels = \<lparr>cs_upserts = ups, cs_deletes = dels,
     cs_entryCount = length (ts_messages s) + length (ts_logs s) + length (ts_toolCalls s),
     cs_revision = None\<rparr>"

text \<open>
  \<open>nextLiveTranscriptSequence\<close> is the second component of the state; it is incremented before it is
  used.
\<close>

definition apply_upsert ::
  "ident \<Rightarrow> ident \<Rightarrow> timestamp \<Rightarrow> entry_upsert \<Rightarrow> transcript_table \<times> nat \<Rightarrow> transcript_table \<times> nat" where
  "apply_upsert r u now e st =
     (let k = getTranscriptEntryKey (eu_kind e) (eu_id e);
          put = (\<lambda>sq. upsertEntry (fst st) r u (eu_id e) (eu_kind e) (eu_timestamp e) (eu_payload e) sq now)
      in case eu_sequence e of
           Some sq \<Rightarrow> (put sq, snd st)
         | None \<Rightarrow> (case existing_sequences (fst st) r u k of
             Some sq \<Rightarrow> (put sq, snd st)
           | None \<Rightarrow> (put (Suc (snd st)), Suc (snd st))))"

definition delete_entry :: "ident \<Rightarrow> ident \<Rightarrow> transcript_kind \<times> ident \<Rightarrow> transcript_table \<Rightarrow> transcript_table" where
  "delete_entry r u d tab = filter (\<lambda>x. \<not> (tr_resource x = r \<and> tr_user x = u
     \<and> tr_key x = getTranscriptEntryKey (fst d) (snd d))) tab"

definition applyTranscriptChangeSet ::
  "transcript_table \<Rightarrow> nat \<Rightarrow> ident \<Rightarrow> ident \<Rightarrow> change_set \<Rightarrow> timestamp \<Rightarrow> transcript_table \<times> nat" where
  "applyTranscriptChangeSet tab live r u cs now =
     fold (apply_upsert r u now) (cs_upserts cs) (fold (delete_entry r u) (cs_deletes cs) tab, live)"

section \<open>What the operations store\<close>

text \<open>The stored value of a key: the timestamp and the payload, without the read-back revision.\<close>

fun strip_payload :: "transcript_payload \<Rightarrow> transcript_payload" where
  "strip_payload (PTool t) = PTool (t\<lparr>tool_detailRevision := None\<rparr>)"
| "strip_payload p = p"

definition row_content :: "transcript_row \<Rightarrow> timestamp \<times> transcript_payload option" where
  "row_content x = (tr_timestamp x,
     Option.bind (rowToStorageEntry True x) (\<lambda>e. map_option strip_payload (sg_payload e)))"

definition row_lookup :: "transcript_table \<Rightarrow> ident \<Rightarrow> string \<Rightarrow> transcript_row option" where
  "row_lookup tab r k = find (\<lambda>x. tr_resource x = r \<and> tr_key x = k) tab"

definition contents :: "transcript_table \<Rightarrow> ident \<Rightarrow> string \<Rightarrow> (timestamp \<times> transcript_payload option) option" where
  "contents tab r k = map_option row_content (row_lookup tab r k)"

definition entry_content :: "transcript_state_entry \<Rightarrow> timestamp \<times> transcript_payload option" where
  "entry_content e = (se_timestamp e, Some (strip_payload (se_payload e)))"

text \<open>Entries of a projection carry the kind, the id and the timestamp of their payload.\<close>

fun kind_ok :: "transcript_state_entry \<Rightarrow> bool" where
  "kind_ok e = (case se_payload e of
     PMessage m \<Rightarrow> se_kind e = KindMessage \<and> se_id e = msg_id m \<and> se_timestamp e = msg_timestamp m
   | PTool t \<Rightarrow> se_kind e = KindTool \<and> se_id e = tool_id t \<and> se_timestamp e = tool_timestamp t
   | PLog l \<Rightarrow> se_kind e = KindLog \<and> se_id e = log_id l \<and> se_timestamp e = log_timestamp l)"

declare kind_ok.simps [simp del]

lemma kind_ok_entries: "e \<in> set (getTranscriptStateEntries inc s) \<Longrightarrow> kind_ok e"
  by (auto simp: getTranscriptStateEntries_def Let_def kind_ok.simps message_entry_def tool_entry_def log_entry_def)

lemma set_sort_entries [simp]: "set (sortTranscriptStateEntries es) = set es"
  by (simp add: sortTranscriptStateEntries_def)

definition row_at :: "ident \<Rightarrow> ident \<Rightarrow> timestamp \<Rightarrow> nat \<times> transcript_state_entry \<Rightarrow> transcript_row" where
  "row_at r u now p = entry_row r u (se_id (snd p)) (se_kind (snd p)) (se_timestamp (snd p)) (se_payload (snd p)) (fst p) now"

lemma upsert_state_entry_eq: "upsert_state_entry r u now p tab = put_row (row_at r u now p) tab"
  by (simp add: upsert_state_entry_def upsertEntry_def row_at_def)

lemma row_at_sel [simp]:
  "tr_resource (row_at r u now p) = r" "tr_user (row_at r u now p) = u"
  "tr_key (row_at r u now p) = entry_key (snd p)" "tr_kind (row_at r u now p) = se_kind (snd p)"
  "tr_sequence (row_at r u now p) = fst p" "tr_timestamp (row_at r u now p) = se_timestamp (snd p)"
  by (simp_all add: row_at_def entry_row_def entry_key_def)

lemma getEntryId_key: "tr_key x = getTranscriptEntryKey (tr_kind x) i \<Longrightarrow> getEntryId x = i"
  by (simp add: getEntryId_def getTranscriptEntryKey_def starts_with_def Let_def)

lemma rowToStorageEntry_row_at:
  assumes "kind_ok e"
  shows "\<exists>g. rowToStorageEntry True (row_at r u now (sq, e)) = Some g \<and> sg_sequence g = sq
           \<and> sg_kind g = se_kind e
           \<and> payload_message g = message_of KindMessage (se_payload e)
           \<and> payload_log g = (case se_payload e of PLog l \<Rightarrow> Some l | _ \<Rightarrow> None)
           \<and> payload_tool g = map_option (\<lambda>t. t\<lparr>tool_detailRevision := None\<rparr>) (getToolPayload KindTool (se_payload e))
           \<and> map_option strip_payload (sg_payload g) = Some (strip_payload (se_payload e))"
proof -
  have gid: "getEntryId (row_at r u now (sq, e)) = se_id e"
    by (rule getEntryId_key) (simp add: entry_key_def)
  show ?thesis
    using assms gid
    by (cases "se_payload e")
       (auto simp: kind_ok.simps rowToStorageEntry_def row_at_def entry_row_def getToolPayload_def message_of_def
          createNormalizedTool_def decodePayload_def payload_message_def payload_log_def payload_tool_def tool_cols_def)
qed

lemma row_content_row_at: "kind_ok e \<Longrightarrow> row_content (row_at r u now (sq, e)) = entry_content e"
  using rowToStorageEntry_row_at [of e r u now sq] by (auto simp: row_content_def entry_content_def)

lemma row_content_createdAt [simp]: "row_content (x\<lparr>tr_createdAt := t\<rparr>) = row_content x"
  by (simp add: row_content_def rowToStorageEntry_def getEntryId_def createNormalizedTool_def decodePayload_def Let_def
      split: payload_text.splits transcript_payload.splits)

lemma contents_put_row:
  "contents (put_row n tab) r k =
     (if tr_resource n = r \<and> tr_key n = k then Some (row_content n) else contents tab r k)"
  by (induction n tab rule: put_row.induct) (auto simp: contents_def row_lookup_def)

lemma contents_upsert:
  "kind_ok e \<Longrightarrow> contents (upsert_state_entry r u now (sq, e) tab) r' k =
     (if r = r' \<and> entry_key e = k then Some (entry_content e) else contents tab r' k)"
  by (simp add: upsert_state_entry_eq contents_put_row row_content_row_at)

lemma contents_filter:
  assumes "\<And>x. x \<in> set tab \<Longrightarrow> tr_resource x = r \<Longrightarrow> tr_key x = k \<Longrightarrow> P x = p"
  shows "contents (filter P tab) r k = (if p then contents tab r k else None)"
  using assms by (induction tab) (auto simp: contents_def row_lookup_def)

lemma contents_None_iff:
  "contents tab r k = None \<longleftrightarrow> (\<forall>x \<in> set tab. \<not> (tr_resource x = r \<and> tr_key x = k))"
  by (auto simp: contents_def row_lookup_def find_None_iff)

definition owned :: "transcript_table \<Rightarrow> ident \<Rightarrow> ident \<Rightarrow> bool" where
  "owned tab r u = list_all (\<lambda>x. tr_resource x = r \<longrightarrow> tr_user x = u) tab"

lemma owned_put_row: "owned tab r u \<Longrightarrow> (tr_resource n = r \<longrightarrow> tr_user n = u) \<Longrightarrow> owned (put_row n tab) r u"
  by (induction n tab rule: put_row.induct) (auto simp: owned_def)

lemma owned_upsert: "owned tab r u \<Longrightarrow> owned (upsert_state_entry r u now p tab) r u"
  by (simp add: upsert_state_entry_eq owned_put_row)

lemma existing_sequences_None_iff:
  "owned tab r u \<Longrightarrow> existing_sequences tab r u k = None \<longleftrightarrow> contents tab r k = None"
  by (auto simp: existing_sequences_def contents_None_iff map_of_eq_None_iff rows_of_def owned_def list_all_iff image_iff)

section \<open>Sync stores exactly the next state\<close>

definition consistent ::
  "(string \<Rightarrow> transcript_state_entry option) \<Rightarrow> transcript_table \<Rightarrow> ident \<Rightarrow> string \<Rightarrow> bool" where
  "consistent prev tab r k \<longleftrightarrow> (\<forall>p c. prev k = Some p \<longrightarrow> contents tab r k = Some c \<longrightarrow> c = entry_content p)"

lemma sync_entry_contents:
  assumes ok: "kind_ok e" and cons: "consistent prev (fst st) r (entry_key e)"
    and sq: "seqs (entry_key e) \<noteq> None \<Longrightarrow> contents (fst st) r (entry_key e) \<noteq> None"
  shows "contents (fst (sync_entry prev seqs r u now e st)) r' k =
     (if r' = r \<and> k = entry_key e then Some (entry_content e) else contents (fst st) r' k)"
proof (cases "\<exists>p sq. prev (entry_key e) = Some p \<and> seqs (entry_key e) = Some sq
    \<and> se_timestamp p = se_timestamp e \<and> se_payload p = se_payload e")
  case True
  then obtain p sq where p: "prev (entry_key e) = Some p" "seqs (entry_key e) = Some sq"
    "se_timestamp p = se_timestamp e" "se_payload p = se_payload e" by blast
  then obtain c where c: "contents (fst st) r (entry_key e) = Some c" using sq by auto
  then have "c = entry_content p" using cons p by (simp add: consistent_def)
  moreover have "entry_content p = entry_content e" using p by (simp add: entry_content_def)
  ultimately show ?thesis using c p by (simp add: sync_entry_def Let_def)
next
  case False
  then have "\<exists>sq. fst (sync_entry prev seqs r u now e st) = upsert_state_entry r u now (sq, e) (fst st)"
    by (auto simp: sync_entry_def Let_def split: option.splits)
  then show ?thesis using contents_upsert [OF ok] by auto
qed

lemma sync_entry_owned: "owned (fst st) r u \<Longrightarrow> owned (fst (sync_entry prev seqs r u now e st)) r u"
  by (auto simp: sync_entry_def Let_def owned_upsert split: option.splits)

lemma fold_sync_owned:
  "owned (fst st) r u \<Longrightarrow> owned (fst (fold (sync_entry prev seqs r u now) es st)) r u"
  by (induction es arbitrary: st) (simp_all add: sync_entry_owned)

lemma fold_sync_contents:
  assumes "distinct (map entry_key es)" and "\<forall>e \<in> set es. kind_ok e"
    and "\<forall>e \<in> set es. consistent prev (fst st) r (entry_key e)"
    and "\<forall>e \<in> set es. seqs (entry_key e) \<noteq> None \<longrightarrow> contents (fst st) r (entry_key e) \<noteq> None"
  shows "contents (fst (fold (sync_entry prev seqs r u now) es st)) r' k =
     (if r' = r then (case map_of (map (\<lambda>e. (entry_key e, entry_content e)) es) k of
         Some c \<Rightarrow> Some c | None \<Rightarrow> contents (fst st) r k) else contents (fst st) r' k)"
  using assms
proof (induction es arbitrary: st)
  case Nil
  then show ?case by simp
next
  case (Cons e es)
  let ?st = "sync_entry prev seqs r u now e st"
  have step: "\<And>r' k. contents (fst ?st) r' k =
      (if r' = r \<and> k = entry_key e then Some (entry_content e) else contents (fst st) r' k)"
    using sync_entry_contents [of e prev st r seqs u now] Cons.prems by simp
  have fresh: "e' \<in> set es \<Longrightarrow> entry_key e' \<noteq> entry_key e" for e'
    using Cons.prems(1) by (auto simp: rev_image_eqI)
  have "contents (fst (fold (sync_entry prev seqs r u now) es ?st)) r' k =
     (if r' = r then (case map_of (map (\<lambda>e. (entry_key e, entry_content e)) es) k of
         Some c \<Rightarrow> Some c | None \<Rightarrow> contents (fst ?st) r k) else contents (fst ?st) r' k)"
    using Cons.prems fresh by (intro Cons.IH) (simp_all add: step consistent_def)
  moreover have "map_of (map (\<lambda>e. (entry_key e, entry_content e)) es) (entry_key e) = None"
    using Cons.prems(1) by (auto simp: map_of_eq_None_iff image_iff)
  ultimately show ?case by (simp add: step split: option.splits)
qed

lemma map_of_mset_eq:
  assumes "distinct (map fst xs)" and "mset xs = mset ys"
  shows "map_of xs = map_of ys"
proof -
  have "mset (map fst xs) = mset (map fst ys)" using assms(2) by (metis mset_map)
  then have "distinct (map fst ys)" using assms(1) mset_eq_imp_distinct_iff by blast
  moreover have "set xs = set ys" using assms(2) by (rule mset_eq_setD)
  ultimately show ?thesis using assms(1) by (simp add: map_of_inject_set)
qed

lemma map_of_entries_sorted:
  assumes "distinct (map entry_key es)"
  shows "map_of (map (\<lambda>e. (entry_key e, entry_content e)) (sortTranscriptStateEntries es)) =
         map_of (map (\<lambda>e. (entry_key e, entry_content e)) es)"
proof (rule map_of_mset_eq)
  have m: "mset (sortTranscriptStateEntries es) = mset es" by (simp add: sortTranscriptStateEntries_def)
  then have "mset (map entry_key (sortTranscriptStateEntries es)) = mset (map entry_key es)" by (metis mset_map)
  then have "distinct (map entry_key (sortTranscriptStateEntries es))"
    using assms mset_eq_imp_distinct_iff by blast
  then show "distinct (map fst (map (\<lambda>e. (entry_key e, entry_content e)) (sortTranscriptStateEntries es)))"
    by (simp add: comp_def)
  show "mset (map (\<lambda>e. (entry_key e, entry_content e)) (sortTranscriptStateEntries es)) =
        mset (map (\<lambda>e. (entry_key e, entry_content e)) es)"
    using m by (metis mset_map)
qed

text \<open>What a state asks to be stored under each key.\<close>

definition wanted :: "(task_log_entry \<Rightarrow> bool) \<Rightarrow> transcript_state \<Rightarrow> string \<Rightarrow> (timestamp \<times> transcript_payload option) option" where
  "wanted inc s = map_of (map (\<lambda>e. (entry_key e, entry_content e)) (getTranscriptStateEntries inc s))"

definition distinct_ids :: "transcript_state \<Rightarrow> bool" where
  "distinct_ids s \<longleftrightarrow> distinct (map msg_id (ts_messages s)) \<and> distinct (map tool_id (ts_toolCalls s))
     \<and> distinct (map log_id (ts_logs s))"

lemma entry_keys_projection:
  "map entry_key (getTranscriptStateEntries inc s) =
     map (getTranscriptEntryKey KindMessage \<circ> msg_id) (ts_messages s)
     @ map (getTranscriptEntryKey KindTool \<circ> tool_id) (ts_toolCalls s)
     @ map (getTranscriptEntryKey KindLog \<circ> log_id) (filter inc (ts_logs s))"
proof -
  have "map (entry_key \<circ> message_entry) (List.enumerate n xs) = map (getTranscriptEntryKey KindMessage \<circ> msg_id) xs" for n xs
    by (induction xs arbitrary: n) (auto simp: entry_key_def message_entry_def)
  moreover have "map (entry_key \<circ> tool_entry) (List.enumerate n xs) = map (getTranscriptEntryKey KindTool \<circ> tool_id) xs" for n xs
    by (induction xs arbitrary: n) (auto simp: entry_key_def tool_entry_def)
  moreover have "map (entry_key \<circ> log_entry) (List.enumerate n xs) = map (getTranscriptEntryKey KindLog \<circ> log_id) xs" for n xs
    by (induction xs arbitrary: n) (auto simp: entry_key_def log_entry_def)
  ultimately show ?thesis by (simp add: getTranscriptStateEntries_def Let_def)
qed

lemma distinct_entry_keys:
  assumes "distinct_ids s"
  shows "distinct (map entry_key (getTranscriptStateEntries inc s))"
proof -
  have inj: "inj (getTranscriptEntryKey k)" for k by (simp add: inj_def)
  have d: "distinct (map (getTranscriptEntryKey k \<circ> f) xs) = distinct (map f xs)" for k f and xs :: "'a list"
    using inj by (metis distinct_map map_map inj_on_subset subset_UNIV)
  have "distinct (map log_id (filter inc (ts_logs s)))"
    using assms by (simp add: distinct_ids_def distinct_map_filter)
  then show ?thesis
    using assms by (auto simp: entry_keys_projection d distinct_ids_def)
qed

lemma sync_contents:
  assumes own: "owned tab r u" and d: "distinct (map entry_key (getTranscriptStateEntries inc nxt))"
    and cons: "\<And>k. consistent (map_of (rev (map (\<lambda>e. (entry_key e, e)) (getTranscriptStateEntries inc prev)))) tab r k"
  shows "contents (syncTranscriptEntries tab r u prev nxt inc now) r' k =
     (if r' = r then wanted inc nxt k else contents tab r' k)"
proof -
  let ?pm = "map_of (rev (map (\<lambda>e. (entry_key e, e)) (getTranscriptStateEntries inc prev)))"
  let ?es = "sortTranscriptStateEntries (getTranscriptStateEntries inc nxt)"
  let ?tab = "fst (fold (sync_entry ?pm (existing_sequences tab r u) r u now) ?es (tab, next_sequence tab r u))"
  have "mset (map entry_key ?es) = mset (map entry_key (getTranscriptStateEntries inc nxt))"
    by (simp add: sortTranscriptStateEntries_def)
  then have d': "distinct (map entry_key ?es)" using d mset_eq_imp_distinct_iff by blast
  have c: "contents ?tab r' k = (if r' = r then (case wanted inc nxt k of
         Some c \<Rightarrow> Some c | None \<Rightarrow> contents tab r k) else contents tab r' k)" for r' k
    using fold_sync_contents [OF d', of ?pm "(tab, next_sequence tab r u)" r "existing_sequences tab r u" u now r' k]
      cons kind_ok_entries existing_sequences_None_iff [OF own]
    by (simp add: wanted_def map_of_entries_sorted [OF d] split: option.splits)
  have own': "owned ?tab r u" by (rule fold_sync_owned) (simp add: own)
  let ?P = "\<lambda>x. \<not> (tr_resource x = r \<and> tr_user x = u \<and> existing_sequences tab r u (tr_key x) \<noteq> None
                      \<and> tr_key x \<notin> entry_key ` set ?es)"
  have f: "contents (filter ?P ?tab) r' k =
      (if r' = r \<and> existing_sequences tab r u k \<noteq> None \<and> k \<notin> entry_key ` set ?es then None else contents ?tab r' k)"
    by (subst contents_filter [where p = "\<not> (r' = r \<and> existing_sequences tab r u k \<noteq> None \<and> k \<notin> entry_key ` set ?es)"])
       (use own' in \<open>auto simp: owned_def list_all_iff\<close>)
  have w: "wanted inc nxt k = None \<longleftrightarrow> k \<notin> entry_key ` set ?es"
    by (auto simp: wanted_def map_of_eq_None_iff image_iff)
  have "contents (syncTranscriptEntries tab r u prev nxt inc now) r' k = contents (filter ?P ?tab) r' k"
    by (simp only: syncTranscriptEntries_def Let_def)
  also note f
  finally have g: "contents (syncTranscriptEntries tab r u prev nxt inc now) r' k =
      (if r' = r \<and> existing_sequences tab r u k \<noteq> None \<and> k \<notin> entry_key ` set ?es then None else contents ?tab r' k)" .
  show ?thesis
    unfolding g c using w existing_sequences_None_iff [OF own, of k] by (auto split: option.splits)
qed

section \<open>Tables the store itself writes\<close>

fun payload_key :: "transcript_payload \<Rightarrow> string" where
  "payload_key (PMessage m) = getTranscriptEntryKey KindMessage (msg_id m)"
| "payload_key (PTool t) = getTranscriptEntryKey KindTool (tool_id t)"
| "payload_key (PLog l) = getTranscriptEntryKey KindLog (log_id l)"

fun payload_timestamp :: "transcript_payload \<Rightarrow> timestamp" where
  "payload_timestamp (PMessage m) = msg_timestamp m"
| "payload_timestamp (PTool t) = tool_timestamp t"
| "payload_timestamp (PLog l) = log_timestamp l"

definition row_ok :: "transcript_row \<Rightarrow> bool" where
  "row_ok x = (case row_content x of (t, Some p) \<Rightarrow> tr_key x = payload_key p \<and> t = payload_timestamp p | _ \<Rightarrow> False)"

definition table_ok :: "transcript_table \<Rightarrow> bool" where
  "table_ok tab = (distinct (map (\<lambda>x. (tr_resource x, tr_key x)) tab) \<and> list_all row_ok tab)"

lemma table_ok_Nil [simp]: "table_ok []" by (simp add: table_ok_def)

lemma row_ok_createdAt [simp]: "row_ok (x\<lparr>tr_createdAt := t\<rparr>) = row_ok x"
  by (auto simp: row_ok_def split: option.splits prod.splits)

lemma row_ok_row_at: "kind_ok e \<Longrightarrow> row_ok (row_at r u now (sq, e))"
  by (cases "se_payload e")
     (simp_all add: row_ok_def row_content_row_at entry_content_def entry_key_def kind_ok.simps)

lemma keys_put_row:
  "(\<lambda>x. (tr_resource x, tr_key x)) ` set (put_row n tab) =
   insert (tr_resource n, tr_key n) ((\<lambda>x. (tr_resource x, tr_key x)) ` set tab)"
  by (induction n tab rule: put_row.induct) auto

lemma table_ok_put_row: "table_ok tab \<Longrightarrow> row_ok n \<Longrightarrow> table_ok (put_row n tab)"
proof (induction n tab rule: put_row.induct)
  case (2 n r rs)
  then show ?case using keys_put_row [of n rs] by (auto simp: table_ok_def)
qed (simp add: table_ok_def)

lemma table_ok_upsert: "table_ok tab \<Longrightarrow> kind_ok e \<Longrightarrow> table_ok (upsert_state_entry r u now (sq, e) tab)"
  by (simp add: upsert_state_entry_eq table_ok_put_row row_ok_row_at)

lemma table_ok_filter: "table_ok tab \<Longrightarrow> table_ok (filter P tab)"
  by (auto simp: table_ok_def distinct_map_filter list_all_iff)

lemma table_ok_fold_sync:
  "table_ok (fst st) \<Longrightarrow> \<forall>e \<in> set es. kind_ok e \<Longrightarrow> table_ok (fst (fold (sync_entry prev seqs r u now) es st))"
proof (induction es arbitrary: st)
  case (Cons e es)
  then have "table_ok (fst (sync_entry prev seqs r u now e st))"
    by (auto simp: sync_entry_def Let_def table_ok_upsert split: option.splits)
  with Cons show ?case by simp
qed simp

lemma table_ok_sync: "table_ok tab \<Longrightarrow> table_ok (syncTranscriptEntries tab r u prev nxt inc now)"
  by (simp only: syncTranscriptEntries_def Let_def)
     (intro table_ok_filter table_ok_fold_sync, simp_all add: kind_ok_entries)

lemma row_content_message:
  "rowToStorageEntry True x = Some g \<Longrightarrow> payload_message g = Some m \<Longrightarrow>
   row_content x = (tr_timestamp x, Some (PMessage m))"
  by (auto simp: row_content_def payload_message_def split: option.splits transcript_payload.splits if_splits)

lemma row_content_log:
  "rowToStorageEntry True x = Some g \<Longrightarrow> payload_log g = Some l \<Longrightarrow>
   row_content x = (tr_timestamp x, Some (PLog l))"
  by (auto simp: row_content_def payload_log_def split: option.splits transcript_payload.splits if_splits)

lemma storage_tool_payload:
  "rowToStorageEntry True x = Some g \<Longrightarrow> sg_tool g = Some t \<Longrightarrow> sg_payload g = Some (PTool t)"
  by (auto simp: rowToStorageEntry_def split: if_splits)

lemma row_content_tool:
  assumes "rowToStorageEntry True x = Some g" and "payload_tool g = Some t"
  shows "row_content x = (tr_timestamp x, Some (PTool t))"
proof -
  obtain t0 where t0: "sg_tool g = Some t0" "t = t0\<lparr>tool_detailRevision := None\<rparr>"
    using assms(2) by (auto simp: payload_tool_def split: if_splits)
  have "sg_payload g = Some (PTool t0)" by (rule storage_tool_payload [OF assms(1) t0(1)])
  then show ?thesis using assms(1) t0(2) by (simp add: row_content_def)
qed

lemma in_set_enumerate: "(n, y) \<in> set (List.enumerate k xs) \<Longrightarrow> y \<in> set xs"
  by (induction xs arbitrary: k) auto

lemma set_map_filter: "y \<in> set (List.map_filter f xs) \<longleftrightarrow> (\<exists>x \<in> set xs. f x = Some y)"
  by (induction xs) (auto simp: List.map_filter_simps split: option.splits)

lemma hydrate_members:
  assumes "table_ok tab" and "e \<in> set (getTranscriptStateEntries inc (hydrateTranscriptStateForUser tab r u))"
  shows "\<exists>x \<in> set tab. tr_resource x = r \<and> tr_key x = entry_key e \<and> row_content x = entry_content e"
proof -
  let ?s = "hydrateTranscriptStateForUser tab r u"
  have rows: "\<exists>x \<in> set tab. tr_resource x = r \<and> rowToStorageEntry True x = Some g \<and> row_ok x"
    if "g \<in> set (listTranscriptEntriesForUser tab r u True)" for g
    using that assms(1) by (auto simp: listTranscriptEntriesForUser_def set_map_filter rows_of_def table_ok_def list_all_iff)
  have m: "\<exists>x \<in> set tab. tr_resource x = r \<and> row_content x = (tr_timestamp x, Some (PMessage y)) \<and> row_ok x"
    if "y \<in> set (ts_messages ?s)" for y
  proof -
    from that obtain g where g: "g \<in> set (listTranscriptEntriesForUser tab r u True)" "payload_message g = Some y"
      by (auto simp: hydrateTranscriptStateForUser_def Let_def set_map_filter)
    from rows [OF g(1)] g(2) show ?thesis using row_content_message by blast
  qed
  have l: "\<exists>x \<in> set tab. tr_resource x = r \<and> row_content x = (tr_timestamp x, Some (PLog y)) \<and> row_ok x"
    if "y \<in> set (ts_logs ?s)" for y
  proof -
    from that obtain g where g: "g \<in> set (listTranscriptEntriesForUser tab r u True)" "payload_log g = Some y"
      by (auto simp: hydrateTranscriptStateForUser_def Let_def set_map_filter)
    from rows [OF g(1)] g(2) show ?thesis using row_content_log by blast
  qed
  have t: "(\<exists>x \<in> set tab. tr_resource x = r \<and> row_content x = (tr_timestamp x, Some (PTool y)) \<and> row_ok x)
      \<and> tool_detailRevision y = None"
    if "y \<in> set (ts_toolCalls ?s)" for y
  proof -
    from that obtain g where g: "g \<in> set (listTranscriptEntriesForUser tab r u True)" "payload_tool g = Some y"
      by (auto simp: hydrateTranscriptStateForUser_def Let_def set_map_filter)
    then have "tool_detailRevision y = None" by (auto simp: payload_tool_def split: if_splits)
    with rows [OF g(1)] g(2) show ?thesis using row_content_tool by blast
  qed
  from assms(2) consider
      (M) n y where "e = message_entry (n, y)" "y \<in> set (ts_messages ?s)"
    | (T) n y where "e = tool_entry (n, y)" "y \<in> set (ts_toolCalls ?s)"
    | (L) n y where "e = log_entry (n, y)" "y \<in> set (ts_logs ?s)"
    by (auto simp: getTranscriptStateEntries_def Let_def dest: in_set_enumerate)
  then show ?thesis
  proof cases
    case M
    with m [OF M(2)] show ?thesis
      by (auto simp: row_ok_def entry_key_def message_entry_def entry_content_def)
  next
    case T
    with t [OF T(2)] show ?thesis
      by (auto simp: row_ok_def entry_key_def tool_entry_def entry_content_def)
  next
    case L
    with l [OF L(2)] show ?thesis
      by (auto simp: row_ok_def entry_key_def log_entry_def entry_content_def)
  qed
qed

lemma contents_member:
  assumes "table_ok tab" "x \<in> set tab"
  shows "contents tab (tr_resource x) (tr_key x) = Some (row_content x)"
  using assms
proof (induction tab)
  case (Cons y ys)
  then show ?case by (force simp: table_ok_def contents_def row_lookup_def)
qed simp

lemma hydrate_consistent:
  assumes "table_ok tab"
  shows "consistent (map_of (rev (map (\<lambda>e. (entry_key e, e))
           (getTranscriptStateEntries inc (hydrateTranscriptStateForUser tab r u))))) tab r k"
  unfolding consistent_def
proof (intro allI impI)
  fix p c
  assume "map_of (rev (map (\<lambda>e. (entry_key e, e))
           (getTranscriptStateEntries inc (hydrateTranscriptStateForUser tab r u)))) k = Some p"
    and c: "contents tab r k = Some c"
  then have p: "p \<in> set (getTranscriptStateEntries inc (hydrateTranscriptStateForUser tab r u))" "entry_key p = k"
    using map_of_SomeD by fastforce+
  from hydrate_members [OF assms p(1)] obtain x where
    x: "x \<in> set tab" "tr_resource x = r" "tr_key x = k" "row_content x = entry_content p" using p(2) by auto
  with contents_member [OF assms x(1)] c show "c = entry_content p" by simp
qed

section \<open>Replacing and hydrating a transcript\<close>

lemma put_row_fresh:
  "\<forall>x \<in> set tab. \<not> (tr_resource x = tr_resource n \<and> tr_key x = tr_key n) \<Longrightarrow> put_row n tab = tab @ [n]"
  by (induction n tab rule: put_row.induct) auto

lemma fold_upsert_fresh:
  assumes "distinct (map (entry_key \<circ> snd) ps)"
    and "\<forall>x \<in> set tab. tr_resource x = r \<longrightarrow> tr_key x \<notin> entry_key ` snd ` set ps"
  shows "fold (upsert_state_entry r u now) ps tab = tab @ map (row_at r u now) ps"
  using assms
proof (induction ps arbitrary: tab)
  case (Cons p ps)
  have "upsert_state_entry r u now p tab = tab @ [row_at r u now p]"
    using Cons.prems(2) by (simp add: upsert_state_entry_eq put_row_fresh)
  moreover have "fold (upsert_state_entry r u now) ps (tab @ [row_at r u now p]) =
      (tab @ [row_at r u now p]) @ map (row_at r u now) ps"
    using Cons.prems by (intro Cons.IH) auto
  ultimately show ?case by simp
qed simp

lemma map_snd_enumerate [simp]: "map snd (List.enumerate n xs) = xs"
  by (induction xs arbitrary: n) auto

definition stored_entry :: "transcript_row \<Rightarrow> storage_entry" where
  "stored_entry x = the (rowToStorageEntry True x)"

lemma listTranscriptEntries_sorted:
  assumes all: "\<forall>x \<in> set xs. rowToStorageEntry True x \<noteq> None"
    and seqs: "sorted_wrt (<) (map (sg_sequence \<circ> stored_entry) xs)"
  shows "sort_key sg_sequence (List.map_filter (rowToStorageEntry True) (rev (sort_key row_order xs))) = map stored_entry xs"
proof (rule sort_key_inj_key_eq)
  have "List.map_filter (rowToStorageEntry True) ys = map stored_entry ys"
    if "\<forall>x \<in> set ys. rowToStorageEntry True x \<noteq> None" for ys
    using that by (induction ys) (auto simp: List.map_filter_simps stored_entry_def)
  then have "List.map_filter (rowToStorageEntry True) (rev (sort_key row_order xs)) = map stored_entry (rev (sort_key row_order xs))"
    using all by simp
  then show "mset (List.map_filter (rowToStorageEntry True) (rev (sort_key row_order xs))) = mset (map stored_entry xs)"
    and "inj_on sg_sequence (set (List.map_filter (rowToStorageEntry True) (rev (sort_key row_order xs))))"
    using seqs by (simp_all add: strict_sorted_iff distinct_map comp_inj_on_iff inj_on_image_iff)
       (metis (mono_tags, lifting) comp_inj_on_iff distinct_map inj_on_imageI map_map strict_sorted_iff)
  show "sorted (map sg_sequence (map stored_entry xs))"
    using seqs by (simp add: strict_sorted_iff)
qed

lemma orders_projection:
  "map se_order (getTranscriptStateEntries inc s) =
     [0..<length (ts_messages s) + length (ts_toolCalls s) + length (filter inc (ts_logs s))]"
proof -
  have "map (se_order \<circ> message_entry) (List.enumerate n xs) = [n..<n + length xs]" for n xs
    by (induction xs arbitrary: n) (auto simp: message_entry_def upt_rec)
  moreover have "map (se_order \<circ> tool_entry) (List.enumerate n xs) = [n..<n + length xs]" for n xs
    by (induction xs arbitrary: n) (auto simp: tool_entry_def upt_rec)
  moreover have "map (se_order \<circ> log_entry) (List.enumerate n xs) = [n..<n + length xs]" for n xs
    by (induction xs arbitrary: n) (auto simp: log_entry_def upt_rec)
  ultimately show ?thesis
    by (simp add: getTranscriptStateEntries_def Let_def upt_add_eq_append [OF le0])
qed

lemma sortTranscriptStateEntries_projection:
  "sortTranscriptStateEntries (getTranscriptStateEntries inc s) = sort_key se_timestamp (getTranscriptStateEntries inc s)"
proof -
  have "sorted_wrt (<) (map se_order (getTranscriptStateEntries inc s))"
    unfolding orders_projection by (rule sorted_wrt_upt)
  then show ?thesis
    unfolding sortTranscriptStateEntries_def by (intro sort_key_lex) (simp add: sorted_wrt_map)
qed

lemma insort_key_agree:
  "k x = k' x \<Longrightarrow> \<forall>y \<in> set ys. k y = k' y \<Longrightarrow> insort_key k x ys = insort_key k' x ys"
  by (induction ys) auto

lemma sort_key_agree: "\<forall>x \<in> set xs. k x = k' x \<Longrightarrow> sort_key k xs = sort_key k' xs"
  by (induction xs) (auto simp: intro: insort_key_agree)

lemma map_filter_sort_key:
  assumes "\<And>x y. x \<in> set xs \<Longrightarrow> f x = Some y \<Longrightarrow> k x = k' y"
  shows "List.map_filter f (sort_key k xs) = sort_key k' (List.map_filter f xs)"
proof -
  have mf: "List.map_filter f ys = map (the \<circ> f) (filter (\<lambda>x. f x \<noteq> None) ys)" for ys
    by (simp add: List.map_filter_def)
  have "List.map_filter f (sort_key k xs) = map (the \<circ> f) (sort_key k (filter (\<lambda>x. f x \<noteq> None) xs))"
    unfolding mf by (simp only: filter_sort)
  also have "sort_key k (filter (\<lambda>x. f x \<noteq> None) xs) = sort_key (\<lambda>x. k' ((the \<circ> f) x)) (filter (\<lambda>x. f x \<noteq> None) xs)"
    using assms by (intro sort_key_agree) auto
  also have "map (the \<circ> f) \<dots> = sort_key k' (map (the \<circ> f) (filter (\<lambda>x. f x \<noteq> None) xs))"
    by (rule sort_key_map)
  finally show ?thesis unfolding mf .
qed

lemma rows_of_replace:
  assumes own: "owned tab r u" and d: "distinct_ids s"
  shows "rows_of (replaceTranscriptEntries tab r u s inc now) r u =
     map (row_at r u now) (List.enumerate 0 (sortTranscriptStateEntries (getTranscriptStateEntries inc s)))"
proof -
  let ?es = "sortTranscriptStateEntries (getTranscriptStateEntries inc s)"
  have "mset (map entry_key ?es) = mset (map entry_key (getTranscriptStateEntries inc s))"
    by (simp add: sortTranscriptStateEntries_def)
  then have dk: "distinct (map entry_key ?es)"
    using distinct_entry_keys [OF d] mset_eq_imp_distinct_iff by blast
  have "replaceTranscriptEntries tab r u s inc now =
      filter (\<lambda>x. \<not> (tr_resource x = r \<and> tr_user x = u)) tab @ map (row_at r u now) (List.enumerate 0 ?es)"
    unfolding replaceTranscriptEntries_def
    using own by (intro fold_upsert_fresh) (auto simp: owned_def list_all_iff dk simp flip: map_map)
  then show ?thesis by (simp add: rows_of_def filter_map comp_def)
qed

lemma stored_entry_row_at:
  assumes "kind_ok e"
  shows "rowToStorageEntry True (row_at r u now (n, e)) \<noteq> None"
    and "sg_sequence (stored_entry (row_at r u now (n, e))) = n"
    and "payload_message (stored_entry (row_at r u now (n, e))) = message_of KindMessage (se_payload e)"
    and "payload_log (stored_entry (row_at r u now (n, e))) = (case se_payload e of PLog l \<Rightarrow> Some l | _ \<Rightarrow> None)"
    and "payload_tool (stored_entry (row_at r u now (n, e))) =
           map_option (\<lambda>t. t\<lparr>tool_detailRevision := None\<rparr>) (getToolPayload KindTool (se_payload e))"
  using rowToStorageEntry_row_at [OF assms, of r u now n] by (auto simp: stored_entry_def)

lemma map_filter_enumerate_rows:
  assumes "\<And>e n. e \<in> set es \<Longrightarrow> f (stored_entry (row_at r u now (n, e))) = g e"
  shows "List.map_filter f (map stored_entry (map (row_at r u now) (List.enumerate n es))) = List.map_filter g es"
  using assms by (induction es arbitrary: n) (auto simp: List.map_filter_simps split: option.splits)

lemma map_filter_all: "(\<And>x. x \<in> set xs \<Longrightarrow> f x = Some (g x)) \<Longrightarrow> List.map_filter f xs = map g xs"
  by (induction xs) (auto simp: List.map_filter_simps)

lemma map_filter_none: "(\<And>x. x \<in> set xs \<Longrightarrow> f x = None) \<Longrightarrow> List.map_filter f xs = []"
  by (induction xs) (auto simp: List.map_filter_simps)

lemma map_filter_append [simp]: "List.map_filter f (xs @ ys) = List.map_filter f xs @ List.map_filter f ys"
  by (simp add: List.map_filter_def)

lemma map_filter_projection:
  assumes "\<And>n m. f (message_entry (n, m)) = fm m" and "\<And>n t. f (tool_entry (n, t)) = ft t"
    and "\<And>n l. f (log_entry (n, l)) = fl l"
  shows "List.map_filter f (getTranscriptStateEntries inc s) =
     List.map_filter fm (ts_messages s) @ List.map_filter ft (ts_toolCalls s) @ List.map_filter fl (filter inc (ts_logs s))"
proof -
  have "List.map_filter f (map message_entry (List.enumerate n xs)) = List.map_filter fm xs" for n xs
    by (induction xs arbitrary: n) (auto simp: List.map_filter_simps assms split: option.splits)
  moreover have "List.map_filter f (map tool_entry (List.enumerate n xs)) = List.map_filter ft xs" for n xs
    by (induction xs arbitrary: n) (auto simp: List.map_filter_simps assms split: option.splits)
  moreover have "List.map_filter f (map log_entry (List.enumerate n xs)) = List.map_filter fl xs" for n xs
    by (induction xs arbitrary: n) (auto simp: List.map_filter_simps assms split: option.splits)
  ultimately show ?thesis by (simp add: getTranscriptStateEntries_def Let_def)
qed

lemma map_filter_Some [simp]: "List.map_filter Some xs = xs"
  by (induction xs) (auto simp: List.map_filter_simps)

lemma map_filter_Some_map [simp]: "List.map_filter (\<lambda>x. Some (g x)) xs = map g xs"
  by (induction xs) (auto simp: List.map_filter_simps)

lemma map_filter_None [simp]: "List.map_filter (\<lambda>_. None) xs = []"
  by (induction xs) (auto simp: List.map_filter_simps)

lemma projection_messages:
  "List.map_filter (\<lambda>e. message_of KindMessage (se_payload e)) (getTranscriptStateEntries inc s) = ts_messages s"
  by (subst map_filter_projection [where fm = Some and ft = "\<lambda>_. None" and fl = "\<lambda>_. None"])
     (simp_all add: message_of_def message_entry_def tool_entry_def log_entry_def)

lemma projection_logs:
  "List.map_filter (\<lambda>e. case se_payload e of PLog l \<Rightarrow> Some l | _ \<Rightarrow> None) (getTranscriptStateEntries inc s) =
   filter inc (ts_logs s)"
  by (subst map_filter_projection [where fm = "\<lambda>_. None" and ft = "\<lambda>_. None" and fl = Some])
     (simp_all add: message_entry_def tool_entry_def log_entry_def)

lemma projection_tools:
  "List.map_filter (\<lambda>e. map_option (\<lambda>t. t\<lparr>tool_detailRevision := None\<rparr>) (getToolPayload KindTool (se_payload e)))
     (getTranscriptStateEntries inc s) = map (\<lambda>t. t\<lparr>tool_detailRevision := None\<rparr>) (ts_toolCalls s)"
  by (subst map_filter_projection [where fm = "\<lambda>_. None"
        and ft = "\<lambda>t. Some (t\<lparr>tool_detailRevision := None\<rparr>)" and fl = "\<lambda>_. None"])
     (simp_all add: getToolPayload_def message_entry_def tool_entry_def log_entry_def)

lemma payload_timestamps:
  "kind_ok e \<Longrightarrow> message_of KindMessage (se_payload e) = Some m \<Longrightarrow> se_timestamp e = msg_timestamp m"
  "kind_ok e \<Longrightarrow> (case se_payload e of PLog l \<Rightarrow> Some l | _ \<Rightarrow> None) = Some l \<Longrightarrow> se_timestamp e = log_timestamp l"
  "kind_ok e \<Longrightarrow> map_option (\<lambda>t. t\<lparr>tool_detailRevision := None\<rparr>) (getToolPayload KindTool (se_payload e)) = Some t
     \<Longrightarrow> se_timestamp e = tool_timestamp t"
  by (auto simp: kind_ok.simps message_of_def getToolPayload_def split: transcript_payload.splits if_splits)

lemma hydrate_replace_select:
  assumes own: "owned tab r u" and d: "distinct_ids s"
    and g: "\<And>e n. kind_ok e \<Longrightarrow> f (stored_entry (row_at r u now (n, e))) = g e"
    and k: "\<And>e y. kind_ok e \<Longrightarrow> g e = Some y \<Longrightarrow> se_timestamp e = k y"
  shows "List.map_filter f (sort_key sg_sequence
           (listTranscriptEntriesForUser (replaceTranscriptEntries tab r u s inc now) r u True)) =
         sort_key k (List.map_filter g (getTranscriptStateEntries inc s))"
proof -
  let ?es = "sortTranscriptStateEntries (getTranscriptStateEntries inc s)"
  let ?rows = "map (row_at r u now) (List.enumerate 0 ?es)"
  have ok: "\<And>e. e \<in> set ?es \<Longrightarrow> kind_ok e" by (simp add: kind_ok_entries)
  have "map (sg_sequence \<circ> stored_entry) (map (row_at r u now) (List.enumerate n es)) = map fst (List.enumerate n es)"
    if "\<forall>e \<in> set es. kind_ok e" for n es
    using that by (induction es arbitrary: n) (auto simp: stored_entry_row_at)
  then have sq: "sorted_wrt (<) (map (sg_sequence \<circ> stored_entry) ?rows)"
    using ok by (simp add: sorted_wrt_upt del: map_map)
  have all: "\<forall>x \<in> set ?rows. rowToStorageEntry True x \<noteq> None"
    using ok stored_entry_row_at(1) by (auto dest!: in_set_enumerate)
  have "sort_key sg_sequence (listTranscriptEntriesForUser (replaceTranscriptEntries tab r u s inc now) r u True)
      = map stored_entry ?rows"
    unfolding listTranscriptEntriesForUser_def rows_of_replace [OF own d]
    by (rule listTranscriptEntries_sorted [OF all sq])
  also have "List.map_filter f (map stored_entry ?rows) = List.map_filter g ?es"
    by (rule map_filter_enumerate_rows) (simp add: g ok)
  also have "\<dots> = sort_key k (List.map_filter g (getTranscriptStateEntries inc s))"
    unfolding sortTranscriptStateEntries_projection by (rule map_filter_sort_key) (rule k, simp_all add: kind_ok_entries)
  finally show ?thesis .
qed


definition sample_message :: "ident \<Rightarrow> timestamp \<Rightarrow> persisted_message" where
  "sample_message i t = \<lparr>msg_id = i, msg_role = RoleUser, msg_content = ''hello'', msg_attachments = None,
     msg_timestamp = t, msg_question = None\<rparr>"

definition sample_tool :: "ident \<Rightarrow> timestamp \<Rightarrow> tool_call_record" where
  "sample_tool i t = \<lparr>tool_id = i, tool_name = ''bash'', tool_input = None, tool_output = None,
     tool_status = ToolCompleted, tool_timestamp = t, tool_extras = None, tool_detailRevision = Some 1\<rparr>"

definition sample_transcript :: transcript_state where
  "sample_transcript = \<lparr>ts_messages = [sample_message ''b'' 5, sample_message ''a'' 3], ts_logs = [],
     ts_toolCalls = [sample_tool ''a'' 4]\<rparr>"

definition sample_next :: transcript_state where
  "sample_next = \<lparr>ts_messages = [sample_message ''b'' 7], ts_logs = [], ts_toolCalls = [sample_tool ''c'' 8]\<rparr>"

definition sample_table :: transcript_table where
  "sample_table = replaceTranscriptEntries [] ''t1'' ''u'' sample_transcript (\<lambda>_. True) 9"


text \<open>
  C6. Synchronising the table of a resource with a next state, against the state read back from
  the table itself (as saving a task does), makes the table store exactly the next state: under
  every key the timestamp and payload of the next state's entry, nothing under the other keys, and
  the rows of every other resource as they were. Skipping the unchanged entries and keeping the old
  sequences loses nothing.
\<close>

theorem transcript_sync_stores_next:
  assumes "owned tab r u" and "table_ok tab" and "distinct_ids nxt"
  shows "contents (syncTranscriptEntries tab r u (hydrateTranscriptStateForUser tab r u) nxt inc now) r' k =
     (if r' = r then wanted inc nxt k else contents tab r' k)"
  using sync_contents [OF assms(1) distinct_entry_keys [OF assms(3)] hydrate_consistent [OF assms(2)]] .

theorem transcript_sync_stores_next_witness:
  "let tab = syncTranscriptEntries sample_table ''t1'' ''u'' (hydrateTranscriptStateForUser sample_table ''t1'' ''u'')
       sample_next (\<lambda>_. True) 9
   in contents tab ''t1'' ''message:b'' = Some (7, Some (PMessage (sample_message ''b'' 7)))
      \<and> contents tab ''t1'' ''message:a'' = None"
proof -
  have h: "owned sample_table ''t1'' ''u''" "table_ok sample_table" "distinct_ids sample_next" by code_simp+
  have w: "wanted (\<lambda>_. True) sample_next ''message:b'' = Some (7, Some (PMessage (sample_message ''b'' 7)))"
    "wanted (\<lambda>_. True) sample_next ''message:a'' = None" by code_simp+
  show ?thesis
    by (simp add: Let_def transcript_sync_stores_next [OF h] w)
qed

end
