(* ===== verification/TaskRows.thy ===== *)
theory TaskRows
  imports TaskModel TranscriptStore
begin

text \<open>
  The rows of the \<open>tasks\<close> table (\<open>persistence/tasks/helpers.ts\<close>): the columns, the conversion of a
  task to a row and back, and what a task keeps through a save and a load. A row is a function from
  columns to SQL values. A JSON column holds the text of a value of the column's type, or text that
  cannot be read back; \<open>last_user_message_at\<close> and the creator are computed columns of every
  \<open>SELECT\<close>.
\<close>

section \<open>Columns and values\<close>

datatype task_column =
  Col_id | Col_user_id | Col_name | Col_directory | Col_prompt | Col_issue_number |
  Col_created_at | Col_updated_at | Col_is_private | Col_workspace_id | Col_model_provider_id |
  Col_model_model_id | Col_model_variant | Col_cheap_model | Col_max_iterations |
  Col_max_consecutive_errors | Col_activity_timeout_seconds | Col_stop_pattern |
  Col_git_branch_prefix | Col_git_commit_scope | Col_base_branch | Col_use_worktree |
  Col_clear_planning_folder | Col_plan_mode | Col_plan_mode_auto_reply | Col_auto_accept_plan |
  Col_fully_autonomous | Col_status | Col_current_iteration | Col_started_at | Col_completed_at |
  Col_last_activity_at | Col_session_id | Col_session_server_url | Col_session_binding_json |
  Col_harness_state_json | Col_error_message | Col_error_iteration | Col_error_timestamp |
  Col_git_original_branch | Col_git_working_branch | Col_git_commits | Col_recent_iterations |
  Col_consecutive_errors | Col_pending_prompt | Col_pending_prompt_mode | Col_pending_input_json |
  Col_initial_attachments_json | Col_pending_model_provider_id | Col_pending_model_model_id |
  Col_pending_model_variant | Col_plan_mode_active | Col_plan_session_id | Col_plan_server_url |
  Col_plan_feedback_rounds | Col_plan_content | Col_planning_folder_cleared | Col_plan_is_ready |
  Col_pending_plan_question | Col_review_mode | Col_pull_request_monitoring |
  Col_automatic_pr_flow | Col_fully_autonomous_pending | Col_git_worktree_path | Col_mode |
  Col_usage_json | Col_last_user_message_at | Col_collaboration_creator_json

datatype 'a json = JsonText 'a | CorruptText

datatype sql_value =
  SNull
| SText string
| SInt nat
| SLimit enat
| STime timestamp
| SStatus task_status
| SIntent task_prompt_intent
| SCheapModel "cheap_model json"
| SBinding "harness_binding option json"
| SHarness "harness_state json"
| SUsage "string json"
| SCommits "git_commit list json"
| SIterations "iteration_summary list json"
| STracker "consecutive_error_tracker json"
| SPendingInput "pending_input json"
| SAttachments "message_attachment list json"
| SReviewMode "review_mode json"
| SPrMonitoring "pr_monitoring_state json"
| SPrFlow "pr_flow_state json"
| SCreator collaboration_creator

type_synonym task_row = "task_column \<Rightarrow> sql_value"

definition ALLOWED_TASK_COLUMNS :: "task_column list" where
  "ALLOWED_TASK_COLUMNS = [
     Col_id, Col_user_id, Col_name, Col_directory, Col_prompt, Col_issue_number, Col_created_at,
     Col_updated_at, Col_is_private, Col_workspace_id, Col_model_provider_id, Col_model_model_id,
     Col_model_variant, Col_cheap_model, Col_max_iterations, Col_max_consecutive_errors,
     Col_activity_timeout_seconds, Col_stop_pattern, Col_git_branch_prefix, Col_git_commit_scope,
     Col_base_branch, Col_use_worktree, Col_clear_planning_folder, Col_plan_mode,
     Col_plan_mode_auto_reply, Col_auto_accept_plan, Col_fully_autonomous, Col_status,
     Col_current_iteration, Col_started_at, Col_completed_at, Col_last_activity_at, Col_session_id,
     Col_session_server_url, Col_session_binding_json, Col_harness_state_json, Col_error_message,
     Col_error_iteration, Col_error_timestamp, Col_git_original_branch, Col_git_working_branch,
     Col_git_commits, Col_recent_iterations, Col_consecutive_errors, Col_pending_prompt,
     Col_pending_prompt_mode, Col_pending_input_json, Col_initial_attachments_json,
     Col_pending_model_provider_id, Col_pending_model_model_id, Col_pending_model_variant,
     Col_plan_mode_active, Col_plan_session_id, Col_plan_server_url, Col_plan_feedback_rounds,
     Col_plan_content, Col_planning_folder_cleared, Col_plan_is_ready, Col_pending_plan_question,
     Col_review_mode, Col_pull_request_monitoring, Col_automatic_pr_flow,
     Col_fully_autonomous_pending, Col_git_worktree_path, Col_mode]"

datatype store_error =
  InvalidColumnName task_column
| InvalidTaskMode
| MissingModelConfiguration
| UserUnavailable
| CollaborationResourceUnavailable
| HarnessSessionNotOwned

definition validateColumnNames :: "task_column list \<Rightarrow> store_error + unit" where
  "validateColumnNames cs = (case find (\<lambda>c. c \<notin> set ALLOWED_TASK_COLUMNS) cs of
     Some c \<Rightarrow> Inl (InvalidColumnName c) | None \<Rightarrow> Inr ())"

section \<open>Task to row\<close>

definition opt :: "('a \<Rightarrow> sql_value) \<Rightarrow> 'a option \<Rightarrow> sql_value" where
  "opt f x = (case x of None \<Rightarrow> SNull | Some a \<Rightarrow> f a)"

definition flag :: "bool \<Rightarrow> sql_value" where
  "flag b = (if b then SInt 1 else SInt 0)"

fun binding_value :: "session_binding \<Rightarrow> sql_value" where
  "binding_value NoBinding = SNull"
| "binding_value CorruptBinding = SBinding (JsonText None)"
| "binding_value (Binding b) = SBinding (JsonText (Some b))"

definition taskToRow :: "ident \<Rightarrow> task \<Rightarrow> (task_column \<times> sql_value) list" where
  "taskToRow u t = (let c = task_config t; s = task_state t in [
     (Col_id, SText (cfg_id c)),
     (Col_user_id, SText u),
     (Col_name, SText (cfg_name c)),
     (Col_directory, SText (cfg_directory c)),
     (Col_prompt, SText (cfg_prompt c)),
     (Col_issue_number, opt SInt (cfg_issueNumber c)),
     (Col_created_at, STime (cfg_createdAt c)),
     (Col_updated_at, STime (cfg_updatedAt c)),
     (Col_is_private, flag (cfg_isPrivate c = Some True)),
     (Col_workspace_id, if cfg_workspaceId c = [] then SNull else SText (cfg_workspaceId c)),
     (Col_model_provider_id, SText (providerID (cfg_model c))),
     (Col_model_model_id, SText (modelID (cfg_model c))),
     (Col_model_variant, SText (model_variant (cfg_model c))),
     (Col_cheap_model, SCheapModel (JsonText (case cfg_cheapModel c of None \<Rightarrow> default_cheapModel | Some m \<Rightarrow> m))),
     (Col_max_iterations, SLimit (cfg_maxIterations c)),
     (Col_max_consecutive_errors, SLimit (cfg_maxConsecutiveErrors c)),
     (Col_activity_timeout_seconds, SInt (case cfg_activityTimeoutSeconds c of None \<Rightarrow> DEFAULT_ACTIVITY_TIMEOUT_SECONDS | Some n \<Rightarrow> n)),
     (Col_stop_pattern, SText (cfg_stopPattern c)),
     (Col_git_branch_prefix, SText (branchPrefix (cfg_git c))),
     (Col_git_commit_scope, SText (commitScope (cfg_git c))),
     (Col_base_branch, opt SText (cfg_baseBranch c)),
     (Col_use_worktree, flag (cfg_useWorktree c)),
     (Col_clear_planning_folder, flag (cfg_clearPlanningFolder c)),
     (Col_plan_mode, SInt 1),
     (Col_auto_accept_plan, flag (case cfg_autoAcceptPlan c of None \<Rightarrow> default_autoAcceptPlan | Some b \<Rightarrow> b)),
     (Col_fully_autonomous, flag (cfg_fullyAutonomous c = Some True)),
     (Col_mode, SText ''task''),
     (Col_status, SStatus (st_status s)),
     (Col_current_iteration, SInt (st_currentIteration s)),
     (Col_started_at, opt STime (st_startedAt s)),
     (Col_completed_at, opt STime (st_completedAt s)),
     (Col_last_activity_at, opt STime (st_lastActivityAt s)),
     (Col_session_id, opt SText (map_option session_id (st_session s))),
     (Col_session_server_url, opt SText (Option.bind (st_session s) session_serverUrl)),
     (Col_session_binding_json, case st_session s of None \<Rightarrow> SNull | Some x \<Rightarrow> binding_value (session_binding x)),
     (Col_harness_state_json, opt SHarness (map_option JsonText (st_harness s))),
     (Col_error_message, opt SText (map_option err_message (st_error s))),
     (Col_error_iteration, opt SInt (map_option err_iteration (st_error s))),
     (Col_error_timestamp, opt STime (map_option err_timestamp (st_error s))),
     (Col_git_original_branch, opt SText (map_option originalBranch (st_git s))),
     (Col_git_working_branch, opt SText (map_option workingBranch (st_git s))),
     (Col_git_worktree_path, opt SText (Option.bind (st_git s) worktreePath)),
     (Col_git_commits, opt SCommits (map_option (\<lambda>g. JsonText (commits g)) (st_git s))),
     (Col_recent_iterations, SIterations (JsonText (st_recentIterations s))),
     (Col_consecutive_errors, opt STracker (map_option JsonText (st_consecutiveErrors s))),
     (Col_pending_prompt, opt SText (st_pendingPrompt s)),
     (Col_pending_prompt_mode, opt SIntent (st_pendingPromptMode s)),
     (Col_pending_input_json, opt SPendingInput (map_option JsonText (st_pendingInput s))),
     (Col_initial_attachments_json, case st_initialPromptAttachments s of Some (a # as) \<Rightarrow> SAttachments (JsonText (a # as)) | _ \<Rightarrow> SNull),
     (Col_pending_model_provider_id, opt SText (map_option providerID (st_pendingModel s))),
     (Col_pending_model_model_id, opt SText (map_option modelID (st_pendingModel s))),
     (Col_pending_model_variant, opt SText (map_option model_variant (st_pendingModel s))),
     (Col_plan_mode_active, flag (case st_planMode s of None \<Rightarrow> False | Some p \<Rightarrow> pm_active p)),
     (Col_plan_session_id, opt SText (Option.bind (st_planMode s) pm_planSessionId)),
     (Col_plan_server_url, opt SText (Option.bind (st_planMode s) pm_planServerUrl)),
     (Col_plan_feedback_rounds, SInt (case st_planMode s of None \<Rightarrow> 0 | Some p \<Rightarrow> pm_feedbackRounds p)),
     (Col_plan_content, opt SText (Option.bind (st_planMode s) pm_planContent)),
     (Col_planning_folder_cleared, flag (case st_planMode s of None \<Rightarrow> False | Some p \<Rightarrow> pm_planningFolderCleared p)),
     (Col_plan_is_ready, flag (case st_planMode s of None \<Rightarrow> False | Some p \<Rightarrow> pm_isPlanReady p)),
     (Col_pending_plan_question, SNull),
     (Col_review_mode, opt SReviewMode (map_option JsonText (st_reviewMode s))),
     (Col_pull_request_monitoring, opt SPrMonitoring (map_option JsonText (st_pullRequestMonitoring s))),
     (Col_automatic_pr_flow, opt SPrFlow (map_option JsonText (st_automaticPrFlow s))),
     (Col_fully_autonomous_pending, flag (st_fullyAutonomousPending s))])"

section \<open>Row to task\<close>

text \<open>The casts of a column to the type the schema gives it.\<close>

fun as_text :: "sql_value \<Rightarrow> string option" where
  "as_text (SText s) = Some s" | "as_text _ = None"

fun as_int :: "sql_value \<Rightarrow> nat option" where
  "as_int (SInt n) = Some n" | "as_int _ = None"

fun as_limit :: "sql_value \<Rightarrow> enat option" where
  "as_limit (SLimit n) = Some n" | "as_limit _ = None"

fun as_time :: "sql_value \<Rightarrow> timestamp option" where
  "as_time (STime n) = Some n" | "as_time _ = None"

fun as_status :: "sql_value \<Rightarrow> task_status option" where
  "as_status (SStatus s) = Some s" | "as_status _ = None"

text \<open>\<open>safeJsonParse\<close>: the parsed value, or the fallback for text that does not parse.\<close>

fun safeJsonParse :: "'a json \<Rightarrow> 'a \<Rightarrow> 'a" where
  "safeJsonParse (JsonText a) d = a"
| "safeJsonParse CorruptText d = d"

fun parseStoredHarnessBinding :: "sql_value \<Rightarrow> session_binding" where
  "parseStoredHarnessBinding SNull = NoBinding"
| "parseStoredHarnessBinding (SBinding (JsonText (Some b))) = Binding b"
| "parseStoredHarnessBinding _ = CorruptBinding"

definition invalid_harness :: harness_state where
  "invalid_harness = \<lparr>hs_integrityInvalid = True, hs_cleanup = None, hs_gitSafety = None,
     hs_gitOutcome = None, hs_inputs = None, hs_other = ''activity unavailable: gap''\<rparr>"

fun parseStoredHarnessState :: "sql_value \<Rightarrow> harness_state option" where
  "parseStoredHarnessState SNull = None"
| "parseStoredHarnessState (SHarness (JsonText h)) = Some h"
| "parseStoredHarnessState _ = Some invalid_harness"

fun parseStoredTokenUsage :: "sql_value \<Rightarrow> string option" where
  "parseStoredTokenUsage (SUsage (JsonText u)) = Some u"
| "parseStoredTokenUsage _ = None"

definition empty_harness :: harness_state where
  "empty_harness = \<lparr>hs_integrityInvalid = False, hs_cleanup = None, hs_gitSafety = None,
     hs_gitOutcome = None, hs_inputs = None, hs_other = []\<rparr>"

text \<open>\<open>{ ...state.harness, integrity: "invalid" }\<close>\<close>

definition mark_harness_invalid :: "harness_state option \<Rightarrow> harness_state option" where
  "mark_harness_invalid h = Some ((case h of None \<Rightarrow> empty_harness | Some x \<Rightarrow> x)\<lparr>hs_integrityInvalid := True\<rparr>)"

definition row_cheap_model :: "sql_value \<Rightarrow> cheap_model" where
  "row_cheap_model v = (case v of SCheapModel j \<Rightarrow> safeJsonParse j default_cheapModel | _ \<Rightarrow> default_cheapModel)"

definition nonempty :: "string option \<Rightarrow> string" where
  "nonempty x = (case x of None \<Rightarrow> [] | Some s \<Rightarrow> s)"

definition row_config :: "task_row \<Rightarrow> string \<Rightarrow> string \<Rightarrow> task_config" where
  "row_config r provider model = \<lparr>
     cfg_id = nonempty (as_text (r Col_id)),
     cfg_creator = (case r Col_collaboration_creator_json of SCreator c \<Rightarrow> Some c | _ \<Rightarrow> None),
     cfg_name = nonempty (as_text (r Col_name)),
     cfg_directory = nonempty (as_text (r Col_directory)),
     cfg_prompt = nonempty (as_text (r Col_prompt)),
     cfg_issueNumber = (case r Col_issue_number of SInt n \<Rightarrow> if n > 0 then Some n else None | _ \<Rightarrow> None),
     cfg_createdAt = (case as_time (r Col_created_at) of Some t \<Rightarrow> t | None \<Rightarrow> 0),
     cfg_updatedAt = (case as_time (r Col_updated_at) of Some t \<Rightarrow> t | None \<Rightarrow> 0),
     cfg_isPrivate = Some (r Col_is_private = SInt 1),
     cfg_workspaceId = nonempty (as_text (r Col_workspace_id)),
     cfg_model = \<lparr>providerID = provider, modelID = model, model_variant = nonempty (as_text (r Col_model_variant))\<rparr>,
     cfg_cheapModel = Some (row_cheap_model (r Col_cheap_model)),
     cfg_maxIterations = (case as_limit (r Col_max_iterations) of Some n \<Rightarrow> n | None \<Rightarrow> \<infinity>),
     cfg_maxConsecutiveErrors = (case as_limit (r Col_max_consecutive_errors) of Some n \<Rightarrow> n | None \<Rightarrow> 10),
     cfg_activityTimeoutSeconds = Some (case as_int (r Col_activity_timeout_seconds) of
        Some n \<Rightarrow> n | None \<Rightarrow> DEFAULT_ACTIVITY_TIMEOUT_SECONDS),
     cfg_stopPattern = nonempty (as_text (r Col_stop_pattern)),
     cfg_git = \<lparr>branchPrefix = nonempty (as_text (r Col_git_branch_prefix)),
        commitScope = nonempty (normalizeCommitScope (Some (nonempty (as_text (r Col_git_commit_scope)))))\<rparr>,
     cfg_baseBranch = as_text (r Col_base_branch),
     cfg_useWorktree = (r Col_use_worktree = SInt 1),
     cfg_clearPlanningFolder = (r Col_clear_planning_folder = SInt 1),
     cfg_autoAcceptPlan = Some (r Col_auto_accept_plan = SInt 1),
     cfg_fullyAutonomous = Some (r Col_fully_autonomous = SInt 1)\<rparr>"

definition row_session :: "task_row \<Rightarrow> session_info option" where
  "row_session r = map_option (\<lambda>i. \<lparr>session_id = i, session_serverUrl = as_text (r Col_session_server_url),
     session_binding = parseStoredHarnessBinding (r Col_session_binding_json)\<rparr>) (as_text (r Col_session_id))"

definition row_error :: "task_row \<Rightarrow> task_error option" where
  "row_error r = map_option (\<lambda>m. \<lparr>err_message = m,
     err_iteration = (case as_int (r Col_error_iteration) of Some n \<Rightarrow> n | None \<Rightarrow> 0),
     err_timestamp = (case as_time (r Col_error_timestamp) of Some t \<Rightarrow> t | None \<Rightarrow> 0)\<rparr>) (as_text (r Col_error_message))"

definition row_git :: "task_row \<Rightarrow> git_state option" where
  "row_git r = (case (as_text (r Col_git_original_branch), as_text (r Col_git_working_branch)) of
     (Some ob, Some wb) \<Rightarrow> Some \<lparr>originalBranch = ob, workingBranch = wb,
        worktreePath = as_text (r Col_git_worktree_path),
        commits = (case r Col_git_commits of SCommits j \<Rightarrow> safeJsonParse j [] | _ \<Rightarrow> [])\<rparr>
   | _ \<Rightarrow> None)"

definition row_pending_input :: "task_row \<Rightarrow> pending_input option" where
  "row_pending_input r = (case r Col_pending_input_json of SPendingInput (JsonText p) \<Rightarrow> Some p | _ \<Rightarrow> None)"

definition row_attachments :: "task_row \<Rightarrow> message_attachment list option" where
  "row_attachments r = (case r Col_initial_attachments_json of SAttachments (JsonText a) \<Rightarrow> Some a | _ \<Rightarrow> None)"

definition row_harness :: "task_row \<Rightarrow> harness_state option" where
  "row_harness r = (let h = parseStoredHarnessState (r Col_harness_state_json);
      h1 = (if r Col_pending_input_json \<noteq> SNull \<and> row_pending_input r = None then mark_harness_invalid h else h)
    in if r Col_initial_attachments_json \<noteq> SNull \<and> row_attachments r = None then mark_harness_invalid h1 else h1)"

definition row_pending_model :: "task_row \<Rightarrow> model_config option" where
  "row_pending_model r = (case (as_text (r Col_pending_model_provider_id), as_text (r Col_pending_model_model_id)) of
     (Some p, Some m) \<Rightarrow> Some \<lparr>providerID = p, modelID = m, model_variant = nonempty (as_text (r Col_pending_model_variant))\<rparr>
   | _ \<Rightarrow> None)"

definition row_plan_mode :: "task_row \<Rightarrow> plan_mode option" where
  "row_plan_mode r =
     (if r Col_plan_mode_active \<noteq> SNull \<or> r Col_planning_folder_cleared = SInt 1
         \<or> r Col_plan_session_id \<noteq> SNull \<or> r Col_plan_feedback_rounds \<noteq> SNull
      then Some \<lparr>pm_active = (r Col_plan_mode_active = SInt 1),
             pm_planSessionId = as_text (r Col_plan_session_id),
             pm_planServerUrl = as_text (r Col_plan_server_url),
             pm_feedbackRounds = (case as_int (r Col_plan_feedback_rounds) of Some n \<Rightarrow> n | None \<Rightarrow> 0),
             pm_planContent = as_text (r Col_plan_content),
             pm_planningFolderCleared = (r Col_planning_folder_cleared = SInt 1),
             pm_isPlanReady = (r Col_plan_is_ready = SInt 1)\<rparr>
      else None)"

definition row_state :: "task_row \<Rightarrow> task_state" where
  "row_state r = \<lparr>
     st_id = nonempty (as_text (r Col_id)),
     st_status = (case as_status (r Col_status) of Some s \<Rightarrow> s | None \<Rightarrow> Idle),
     st_currentIteration = (case as_int (r Col_current_iteration) of Some n \<Rightarrow> n | None \<Rightarrow> 0),
     st_startedAt = as_time (r Col_started_at),
     st_completedAt = as_time (r Col_completed_at),
     st_lastActivityAt = as_time (r Col_last_activity_at),
     st_lastUserMessageAt = as_time (r Col_last_user_message_at),
     st_session = row_session r,
     st_harness = row_harness r,
     st_usage = parseStoredTokenUsage (r Col_usage_json),
     st_error = row_error r,
     st_git = row_git r,
     st_recentIterations = (case r Col_recent_iterations of SIterations j \<Rightarrow> safeJsonParse j [] | _ \<Rightarrow> []),
     st_logs = [], st_messages = [], st_toolCalls = [],
     st_consecutiveErrors = (case r Col_consecutive_errors of STracker (JsonText c) \<Rightarrow> Some c | _ \<Rightarrow> None),
     st_pendingPrompt = as_text (r Col_pending_prompt),
     st_pendingPromptMode = (if as_text (r Col_pending_prompt) = None then None
        else (case r Col_pending_prompt_mode of SIntent m \<Rightarrow> Some m | _ \<Rightarrow> None)),
     st_pendingInput = row_pending_input r,
     st_initialPromptAttachments = row_attachments r,
     st_pendingModel = row_pending_model r,
     st_planMode = row_plan_mode r,
     st_reviewMode = (case r Col_review_mode of SReviewMode (JsonText m) \<Rightarrow> Some m | _ \<Rightarrow> None),
     st_pullRequestMonitoring = (case r Col_pull_request_monitoring of SPrMonitoring (JsonText m) \<Rightarrow> Some m | _ \<Rightarrow> None),
     st_automaticPrFlow = (case r Col_automatic_pr_flow of SPrFlow (JsonText m) \<Rightarrow> Some m | _ \<Rightarrow> None),
     st_fullyAutonomousPending = (r Col_fully_autonomous_pending = SInt 1),
     st_syncState = None\<rparr>"

definition rowToTask :: "task_row \<Rightarrow> store_error + task" where
  "rowToTask r =
     (if r Col_mode \<noteq> SText ''task'' then Inl InvalidTaskMode
      else case (as_text (r Col_model_provider_id), as_text (r Col_model_model_id)) of
        (Some p, Some m) \<Rightarrow> Inr \<lparr>task_config = row_config r p m, task_state = row_state r\<rparr>
      | _ \<Rightarrow> Inl MissingModelConfiguration)"

section \<open>Writing columns and reading them back\<close>

definition set_columns :: "task_row \<Rightarrow> (task_column \<times> sql_value) list \<Rightarrow> task_row" where
  "set_columns r kvs = (\<lambda>c. case map_of kvs c of Some v \<Rightarrow> v | None \<Rightarrow> r c)"

lemma as_text_opt [simp]: "as_text (opt SText x) = x"
  by (cases x) (simp_all add: opt_def)

lemma as_time_opt [simp]: "as_time (opt STime x) = x"
  by (cases x) (simp_all add: opt_def)

lemma as_int_opt [simp]: "as_int (opt SInt x) = x"
  by (cases x) (simp_all add: opt_def)

lemma flag_eq [simp]: "flag b = SInt (Suc 0) \<longleftrightarrow> b" "flag b = SInt 1 \<longleftrightarrow> b" "flag b \<noteq> SNull"
  by (simp_all add: flag_def)

lemma opt_eq_SNull [simp]: "(\<And>a. f a \<noteq> SNull) \<Longrightarrow> opt f x = SNull \<longleftrightarrow> x = None"
  by (cases x) (simp_all add: opt_def)

lemma parse_binding_value [simp]: "parseStoredHarnessBinding (binding_value b) = b"
  by (cases b) simp_all

text \<open>The written columns, one rewrite rule per column.\<close>

lemma taskToRow_columns:
  "map_of (taskToRow u t) Col_plan_mode_auto_reply = None"
  "map_of (taskToRow u t) Col_usage_json = None"
  "map_of (taskToRow u t) Col_last_user_message_at = None"
  "map_of (taskToRow u t) Col_collaboration_creator_json = None"
  by (simp_all add: taskToRow_def Let_def)

lemma taskToRow_keys: "set (map fst (taskToRow u t)) = set ALLOWED_TASK_COLUMNS - {Col_plan_mode_auto_reply}"
  by (simp add: taskToRow_def Let_def ALLOWED_TASK_COLUMNS_def) blast

lemma validate_taskToRow: "validateColumnNames (map fst (taskToRow u t)) = Inr ()"
proof -
  have "find (\<lambda>c. c \<notin> set ALLOWED_TASK_COLUMNS) (map fst (taskToRow u t)) = None"
    using taskToRow_keys [of u t] by (auto simp: find_None_iff)
  then show ?thesis by (simp add: validateColumnNames_def)
qed

lemma written_column [sim_simps]:
  "set_columns r (taskToRow u t) Col_id = SText (cfg_id (task_config t))"
  "set_columns r (taskToRow u t) Col_user_id = SText u"
  "set_columns r (taskToRow u t) Col_name = SText (cfg_name (task_config t))"
  "set_columns r (taskToRow u t) Col_directory = SText (cfg_directory (task_config t))"
  "set_columns r (taskToRow u t) Col_prompt = SText (cfg_prompt (task_config t))"
  "set_columns r (taskToRow u t) Col_issue_number = opt SInt (cfg_issueNumber (task_config t))"
  "set_columns r (taskToRow u t) Col_created_at = STime (cfg_createdAt (task_config t))"
  "set_columns r (taskToRow u t) Col_updated_at = STime (cfg_updatedAt (task_config t))"
  "set_columns r (taskToRow u t) Col_is_private = flag (cfg_isPrivate (task_config t) = Some True)"
  "set_columns r (taskToRow u t) Col_workspace_id = (if cfg_workspaceId (task_config t) = [] then SNull else SText (cfg_workspaceId (task_config t)))"
  "set_columns r (taskToRow u t) Col_model_provider_id = SText (providerID (cfg_model (task_config t)))"
  "set_columns r (taskToRow u t) Col_model_model_id = SText (modelID (cfg_model (task_config t)))"
  "set_columns r (taskToRow u t) Col_model_variant = SText (model_variant (cfg_model (task_config t)))"
  "set_columns r (taskToRow u t) Col_cheap_model = SCheapModel (JsonText (case cfg_cheapModel (task_config t) of None \<Rightarrow> default_cheapModel | Some m \<Rightarrow> m))"
  "set_columns r (taskToRow u t) Col_max_iterations = SLimit (cfg_maxIterations (task_config t))"
  "set_columns r (taskToRow u t) Col_max_consecutive_errors = SLimit (cfg_maxConsecutiveErrors (task_config t))"
  "set_columns r (taskToRow u t) Col_activity_timeout_seconds = SInt (case cfg_activityTimeoutSeconds (task_config t) of None \<Rightarrow> DEFAULT_ACTIVITY_TIMEOUT_SECONDS | Some n \<Rightarrow> n)"
  "set_columns r (taskToRow u t) Col_stop_pattern = SText (cfg_stopPattern (task_config t))"
  "set_columns r (taskToRow u t) Col_git_branch_prefix = SText (branchPrefix (cfg_git (task_config t)))"
  "set_columns r (taskToRow u t) Col_git_commit_scope = SText (commitScope (cfg_git (task_config t)))"
  "set_columns r (taskToRow u t) Col_base_branch = opt SText (cfg_baseBranch (task_config t))"
  "set_columns r (taskToRow u t) Col_use_worktree = flag (cfg_useWorktree (task_config t))"
  "set_columns r (taskToRow u t) Col_clear_planning_folder = flag (cfg_clearPlanningFolder (task_config t))"
  "set_columns r (taskToRow u t) Col_plan_mode = SInt 1"
  "set_columns r (taskToRow u t) Col_auto_accept_plan = flag (case cfg_autoAcceptPlan (task_config t) of None \<Rightarrow> default_autoAcceptPlan | Some b \<Rightarrow> b)"
  "set_columns r (taskToRow u t) Col_fully_autonomous = flag (cfg_fullyAutonomous (task_config t) = Some True)"
  "set_columns r (taskToRow u t) Col_mode = SText ''task''"
  "set_columns r (taskToRow u t) Col_status = SStatus (st_status (task_state t))"
  "set_columns r (taskToRow u t) Col_current_iteration = SInt (st_currentIteration (task_state t))"
  "set_columns r (taskToRow u t) Col_started_at = opt STime (st_startedAt (task_state t))"
  "set_columns r (taskToRow u t) Col_completed_at = opt STime (st_completedAt (task_state t))"
  "set_columns r (taskToRow u t) Col_last_activity_at = opt STime (st_lastActivityAt (task_state t))"
  "set_columns r (taskToRow u t) Col_session_id = opt SText (map_option session_id (st_session (task_state t)))"
  "set_columns r (taskToRow u t) Col_session_server_url = opt SText (Option.bind (st_session (task_state t)) session_serverUrl)"
  "set_columns r (taskToRow u t) Col_session_binding_json = (case st_session (task_state t) of None \<Rightarrow> SNull | Some x \<Rightarrow> binding_value (session_binding x))"
  "set_columns r (taskToRow u t) Col_harness_state_json = opt SHarness (map_option JsonText (st_harness (task_state t)))"
  "set_columns r (taskToRow u t) Col_error_message = opt SText (map_option err_message (st_error (task_state t)))"
  "set_columns r (taskToRow u t) Col_error_iteration = opt SInt (map_option err_iteration (st_error (task_state t)))"
  "set_columns r (taskToRow u t) Col_error_timestamp = opt STime (map_option err_timestamp (st_error (task_state t)))"
  "set_columns r (taskToRow u t) Col_git_original_branch = opt SText (map_option originalBranch (st_git (task_state t)))"
  "set_columns r (taskToRow u t) Col_git_working_branch = opt SText (map_option workingBranch (st_git (task_state t)))"
  "set_columns r (taskToRow u t) Col_git_worktree_path = opt SText (Option.bind (st_git (task_state t)) worktreePath)"
  "set_columns r (taskToRow u t) Col_git_commits = opt SCommits (map_option (\<lambda>g. JsonText (commits g)) (st_git (task_state t)))"
  "set_columns r (taskToRow u t) Col_recent_iterations = SIterations (JsonText (st_recentIterations (task_state t)))"
  "set_columns r (taskToRow u t) Col_consecutive_errors = opt STracker (map_option JsonText (st_consecutiveErrors (task_state t)))"
  "set_columns r (taskToRow u t) Col_pending_prompt = opt SText (st_pendingPrompt (task_state t))"
  "set_columns r (taskToRow u t) Col_pending_prompt_mode = opt SIntent (st_pendingPromptMode (task_state t))"
  "set_columns r (taskToRow u t) Col_pending_input_json = opt SPendingInput (map_option JsonText (st_pendingInput (task_state t)))"
  "set_columns r (taskToRow u t) Col_initial_attachments_json = (case st_initialPromptAttachments (task_state t) of Some (a # as) \<Rightarrow> SAttachments (JsonText (a # as)) | _ \<Rightarrow> SNull)"
  "set_columns r (taskToRow u t) Col_pending_model_provider_id = opt SText (map_option providerID (st_pendingModel (task_state t)))"
  "set_columns r (taskToRow u t) Col_pending_model_model_id = opt SText (map_option modelID (st_pendingModel (task_state t)))"
  "set_columns r (taskToRow u t) Col_pending_model_variant = opt SText (map_option model_variant (st_pendingModel (task_state t)))"
  "set_columns r (taskToRow u t) Col_plan_mode_active = flag (case st_planMode (task_state t) of None \<Rightarrow> False | Some p \<Rightarrow> pm_active p)"
  "set_columns r (taskToRow u t) Col_plan_session_id = opt SText (Option.bind (st_planMode (task_state t)) pm_planSessionId)"
  "set_columns r (taskToRow u t) Col_plan_server_url = opt SText (Option.bind (st_planMode (task_state t)) pm_planServerUrl)"
  "set_columns r (taskToRow u t) Col_plan_feedback_rounds = SInt (case st_planMode (task_state t) of None \<Rightarrow> 0 | Some p \<Rightarrow> pm_feedbackRounds p)"
  "set_columns r (taskToRow u t) Col_plan_content = opt SText (Option.bind (st_planMode (task_state t)) pm_planContent)"
  "set_columns r (taskToRow u t) Col_planning_folder_cleared = flag (case st_planMode (task_state t) of None \<Rightarrow> False | Some p \<Rightarrow> pm_planningFolderCleared p)"
  "set_columns r (taskToRow u t) Col_plan_is_ready = flag (case st_planMode (task_state t) of None \<Rightarrow> False | Some p \<Rightarrow> pm_isPlanReady p)"
  "set_columns r (taskToRow u t) Col_pending_plan_question = SNull"
  "set_columns r (taskToRow u t) Col_review_mode = opt SReviewMode (map_option JsonText (st_reviewMode (task_state t)))"
  "set_columns r (taskToRow u t) Col_pull_request_monitoring = opt SPrMonitoring (map_option JsonText (st_pullRequestMonitoring (task_state t)))"
  "set_columns r (taskToRow u t) Col_automatic_pr_flow = opt SPrFlow (map_option JsonText (st_automaticPrFlow (task_state t)))"
  "set_columns r (taskToRow u t) Col_fully_autonomous_pending = flag (st_fullyAutonomousPending (task_state t))"
  "set_columns r (taskToRow u t) Col_plan_mode_auto_reply = r Col_plan_mode_auto_reply"
  "set_columns r (taskToRow u t) Col_usage_json = r Col_usage_json"
  "set_columns r (taskToRow u t) Col_last_user_message_at = r Col_last_user_message_at"
  "set_columns r (taskToRow u t) Col_collaboration_creator_json = r Col_collaboration_creator_json"
  by (simp_all add: set_columns_def taskToRow_def Let_def)

section \<open>What a task keeps through the table\<close>

text \<open>
  A configuration read back: the flags and selections that had been left open are filled with their
  defaults, an issue number of zero is dropped, the commit scope is normalised, and the creator is
  the one the database computes.
\<close>

definition stored_config :: "task_row \<Rightarrow> task_config \<Rightarrow> task_config" where
  "stored_config r c = c\<lparr>
     cfg_creator := (case r Col_collaboration_creator_json of SCreator x \<Rightarrow> Some x | _ \<Rightarrow> None),
     cfg_issueNumber := (case cfg_issueNumber c of Some n \<Rightarrow> if n > 0 then Some n else None | None \<Rightarrow> None),
     cfg_isPrivate := Some (cfg_isPrivate c = Some True),
     cfg_cheapModel := Some (case cfg_cheapModel c of None \<Rightarrow> default_cheapModel | Some m \<Rightarrow> m),
     cfg_activityTimeoutSeconds := Some (case cfg_activityTimeoutSeconds c of None \<Rightarrow> DEFAULT_ACTIVITY_TIMEOUT_SECONDS | Some n \<Rightarrow> n),
     cfg_git := \<lparr>branchPrefix = branchPrefix (cfg_git c),
        commitScope = nonempty (normalizeCommitScope (Some (commitScope (cfg_git c))))\<rparr>,
     cfg_autoAcceptPlan := Some (case cfg_autoAcceptPlan c of None \<Rightarrow> default_autoAcceptPlan | Some b \<Rightarrow> b),
     cfg_fullyAutonomous := Some (cfg_fullyAutonomous c = Some True)\<rparr>"

definition no_plan_mode :: plan_mode where
  "no_plan_mode = \<lparr>pm_active = False, pm_planSessionId = None, pm_planServerUrl = None,
     pm_feedbackRounds = 0, pm_planContent = None, pm_planningFolderCleared = False, pm_isPlanReady = False\<rparr>"

text \<open>
  A state read back: the transcript is hydrated separately, the sync state has no column, a prompt
  mode without a prompt is dropped, and an absent plan mode comes back as an inactive one.
\<close>

definition stored_state :: "task_row \<Rightarrow> ident \<Rightarrow> task_state \<Rightarrow> task_state" where
  "stored_state r i s = s\<lparr>
     st_id := i,
     st_lastUserMessageAt := as_time (r Col_last_user_message_at),
     st_usage := parseStoredTokenUsage (r Col_usage_json),
     st_logs := [], st_messages := [], st_toolCalls := [],
     st_pendingPromptMode := (if st_pendingPrompt s = None then None else st_pendingPromptMode s),
     st_initialPromptAttachments := (case st_initialPromptAttachments s of Some (a # as) \<Rightarrow> Some (a # as) | _ \<Rightarrow> None),
     st_planMode := Some (case st_planMode s of None \<Rightarrow> no_plan_mode | Some p \<Rightarrow> p),
     st_syncState := None\<rparr>"

lemma row_config_written:
  "row_config (set_columns r (taskToRow u t)) (providerID (cfg_model (task_config t))) (modelID (cfg_model (task_config t)))
     = stored_config r (task_config t)"
  by (simp add: row_config_def stored_config_def sim_simps nonempty_def row_cheap_model_def opt_def split: option.splits)

lemma row_parts_written:
  "row_session (set_columns r (taskToRow u t)) = st_session (task_state t)"
  "row_error (set_columns r (taskToRow u t)) = st_error (task_state t)"
  "row_git (set_columns r (taskToRow u t)) = st_git (task_state t)"
  "row_pending_input (set_columns r (taskToRow u t)) = st_pendingInput (task_state t)"
  "row_attachments (set_columns r (taskToRow u t)) =
     (case st_initialPromptAttachments (task_state t) of Some (a # as) \<Rightarrow> Some (a # as) | _ \<Rightarrow> None)"
  "row_pending_model (set_columns r (taskToRow u t)) = st_pendingModel (task_state t)"
  by (simp_all add: row_session_def row_error_def row_git_def row_pending_input_def row_attachments_def
        row_pending_model_def sim_simps opt_def nonempty_def split: option.splits list.splits)

lemma row_plan_mode_written:
  "row_plan_mode (set_columns r (taskToRow u t)) =
     Some (case st_planMode (task_state t) of None \<Rightarrow> no_plan_mode | Some p \<Rightarrow> p)"
  by (cases "st_planMode (task_state t)") (simp_all add: row_plan_mode_def sim_simps no_plan_mode_def)

lemma row_harness_written: "row_harness (set_columns r (taskToRow u t)) = st_harness (task_state t)"
  by (auto simp: row_harness_def row_pending_input_def row_attachments_def sim_simps opt_def Let_def
      split: option.splits list.splits)

lemma row_state_written:
  "row_state (set_columns r (taskToRow u t)) = stored_state r (cfg_id (task_config t)) (task_state t)"
  by (simp add: row_state_def stored_state_def row_parts_written row_plan_mode_written row_harness_written
        sim_simps nonempty_def opt_def split: option.splits)

lemma rowToTask_written:
  "rowToTask (set_columns r (taskToRow u t)) =
     Inr \<lparr>task_config = stored_config r (task_config t),
          task_state = stored_state r (cfg_id (task_config t)) (task_state t)\<rparr>"
  by (simp add: rowToTask_def sim_simps row_config_written row_state_written)

lemma stored_config_idem [simp]: "stored_config r (stored_config r c) = stored_config r c"
  using normalizeCommitScope_idem [of "Some (commitScope (cfg_git c))"]
  by (auto simp: stored_config_def nonempty_def split: option.splits)

lemma stored_state_idem [simp]: "stored_state r i (stored_state r i s) = stored_state r i s"
  by (auto simp: stored_state_def split: option.splits list.splits)

lemma rowToTask_state: "rowToTask r = Inr t \<Longrightarrow> task_state t = row_state r"
  by (auto simp: rowToTask_def split: if_splits option.splits)


end
