(* ===== verification/TaskStore.thy ===== *)
theory TaskStore
  imports TaskRows
begin

text \<open>
  The operations of the task store (\<open>persistence/tasks/crud.ts\<close>, \<open>updates.ts\<close>, \<open>queries.ts\<close>) over the
  \<open>tasks\<close> table, the task transcripts, the active users and the authorship records. Every operation
  takes the owner's id, which is what \<open>requireResourcePersistenceUserId\<close> returns for a request
  without collaboration authority; the table holds the rows of all users. A transaction that throws
  leaves the database as it was, so a failing operation returns only its error.
\<close>

record task_db =
  tdb_rows :: "(ident, task_row) amap"
  tdb_transcripts :: transcript_table
  tdb_live :: nat
  tdb_users :: "(ident, string) amap"
  tdb_authorship :: "(ident, ident \<times> ident \<times> collaboration_creator) amap"

definition transcript_of :: "task_state \<Rightarrow> transcript_state" where
  "transcript_of s = \<lparr>ts_messages = st_messages s, ts_logs = st_logs s, ts_toolCalls = st_toolCalls s\<rparr>"

definition all_logs :: "task_log_entry \<Rightarrow> bool" where
  "all_logs l = True"

section \<open>Selecting rows\<close>

definition owner_creator :: "task_db \<Rightarrow> ident \<Rightarrow> collaboration_creator option" where
  "owner_creator db u = map_option (\<lambda>n. \<lparr>creator_kind = CreatorUser, creator_id = u, creator_name = n\<rparr>)
     (amap_get (tdb_users db) u)"

text \<open>\<open>COALESCE\<close> of the matching authorship record and the active owner.\<close>

definition collaborationCreatorProjection :: "task_db \<Rightarrow> ident \<Rightarrow> ident \<Rightarrow> task_row \<Rightarrow> sql_value" where
  "collaborationCreatorProjection db u i r =
     (case amap_get (tdb_authorship db) i of
        Some (ou, ws, c) \<Rightarrow> if ou = u \<and> r Col_workspace_id = SText ws then SCreator c
                            else opt SCreator (owner_creator db u)
      | None \<Rightarrow> opt SCreator (owner_creator db u))"

definition last_user_message :: "transcript_table \<Rightarrow> ident \<Rightarrow> ident \<Rightarrow> sql_value" where
  "last_user_message tab i u =
     (case filter (\<lambda>x. tr_kind x = KindMessage \<and> tr_role x = Some RoleUser) (rows_of tab i u) of
        [] \<Rightarrow> SNull | xs \<Rightarrow> STime (Max (set (map tr_timestamp xs))))"

definition owned_by :: "ident \<Rightarrow> task_row \<Rightarrow> bool" where
  "owned_by u r = (r Col_user_id = SText u)"

definition task_list_columns :: "task_db \<Rightarrow> ident \<Rightarrow> ident \<Rightarrow> task_row \<Rightarrow> task_row" where
  "task_list_columns db u i r = r(Col_last_user_message_at := last_user_message (tdb_transcripts db) i u,
     Col_collaboration_creator_json := collaborationCreatorProjection db u i r)"

definition select_task :: "task_db \<Rightarrow> ident \<Rightarrow> ident \<Rightarrow> task_row option" where
  "select_task db u i = (case amap_get (tdb_rows db) i of
     Some r \<Rightarrow> if owned_by u r then Some (task_list_columns db u i r) else None
   | None \<Rightarrow> None)"

definition with_transcript :: "task \<Rightarrow> transcript_state \<Rightarrow> task" where
  "with_transcript t x = t\<lparr>task_state := (task_state t)\<lparr>st_messages := ts_messages x, st_logs := ts_logs x,
     st_toolCalls := ts_toolCalls x\<rparr>\<rparr>"

definition hydrated :: "task_db \<Rightarrow> ident \<Rightarrow> task \<Rightarrow> task" where
  "hydrated db u t = with_transcript t
     (hydrateTranscriptStateForUser (tdb_transcripts db) (cfg_id (task_config t)) u)"

definition loadTaskForUser :: "task_db \<Rightarrow> ident \<Rightarrow> ident \<Rightarrow> store_error + task option" where
  "loadTaskForUser db u i = (case select_task db u i of
     None \<Rightarrow> Inr None
   | Some r \<Rightarrow> (case rowToTask r of
       Inl e \<Rightarrow> Inl e
     | Inr t \<Rightarrow> Inr (Some (with_transcript t (hydrateTranscriptStateForUser (tdb_transcripts db) i u)))))"

definition loadTaskSummary :: "task_db \<Rightarrow> ident \<Rightarrow> ident \<Rightarrow> store_error + task option" where
  "loadTaskSummary db u i = (case select_task db u i of
     None \<Rightarrow> Inr None
   | Some r \<Rightarrow> map_sum id (\<lambda>t. Some (createTaskListSnapshot t)) (rowToTask r))"

definition taskExists :: "task_db \<Rightarrow> ident \<Rightarrow> ident \<Rightarrow> bool" where
  "taskExists db u i = (select_task db u i \<noteq> None)"

fun collect_tasks :: "(store_error + task) list \<Rightarrow> store_error + task list" where
  "collect_tasks [] = Inr []"
| "collect_tasks (Inl e # xs) = Inl e"
| "collect_tasks (Inr t # xs) = map_sum id (\<lambda>ts. t # ts) (collect_tasks xs)"

definition created_at :: "ident \<times> task_row \<Rightarrow> timestamp" where
  "created_at p = (case as_time (snd p Col_created_at) of Some t \<Rightarrow> t | None \<Rightarrow> 0)"

text \<open>
  \<open>WHERE user_id = ? AND (? IS NULL OR workspace_id = ?) ORDER BY created_at DESC\<close>; the workspace is
  given when the request carries workspace authority.
\<close>

definition list_rows :: "task_db \<Rightarrow> ident \<Rightarrow> ident option \<Rightarrow> (ident \<times> task_row) list" where
  "list_rows db u ws = rev (sort_key created_at (filter (\<lambda>p. owned_by u (snd p)
     \<and> (ws = None \<or> snd p Col_workspace_id = opt SText ws)) (tdb_rows db)))"

definition listTasksForUser :: "task_db \<Rightarrow> ident \<Rightarrow> ident option \<Rightarrow> store_error + task list" where
  "listTasksForUser db u ws = map_sum id (map (hydrated db u))
     (collect_tasks (map (\<lambda>p. rowToTask (task_list_columns db u (fst p) (snd p))) (list_rows db u ws)))"

definition listTaskSummaries :: "task_db \<Rightarrow> ident \<Rightarrow> ident option \<Rightarrow> store_error + task list" where
  "listTaskSummaries db u ws = map_sum id (map createTaskListSnapshot)
     (collect_tasks (map (\<lambda>p. rowToTask (task_list_columns db u (fst p) (snd p))) (list_rows db u ws)))"

definition getActiveTaskByDirectory :: "task_db \<Rightarrow> ident \<Rightarrow> string \<Rightarrow> ident \<Rightarrow> store_error + task option" where
  "getActiveTaskByDirectory db u d ws =
     (case filter (\<lambda>p. snd p Col_directory = SText d \<and> snd p Col_workspace_id = SText ws
          \<and> owned_by u (snd p) \<and> snd p Col_status \<in> SStatus ` set ACTIVE_TASK_STATUSES) (tdb_rows db) of
        [] \<Rightarrow> Inr None
      | p # _ \<Rightarrow> map_sum id (\<lambda>t. Some (hydrated db u t)) (rowToTask (task_list_columns db u (fst p) (snd p))))"

section \<open>Saving and deleting\<close>

text \<open>The columns an \<open>INSERT\<close> does not name keep the defaults of the schema.\<close>

definition default_row :: task_row where
  "default_row = (\<lambda>c. SNull)(Col_plan_mode_auto_reply := SInt 1)"

definition recordTaskCreation ::
  "task_db \<Rightarrow> ident \<Rightarrow> ident \<Rightarrow> ident \<Rightarrow> store_error + (collaboration_creator option \<times> task_db)" where
  "recordTaskCreation db u i ws =
     (if ws = [] then Inr (None, db)
      else case owner_creator db u of
        None \<Rightarrow> Inl UserUnavailable
      | Some c \<Rightarrow>
          if \<not> (case amap_get (tdb_rows db) i of Some r \<Rightarrow> owned_by u r \<and> r Col_workspace_id = SText ws | None \<Rightarrow> False)
          then Inl CollaborationResourceUnavailable
          else (case amap_get (tdb_authorship db) i of
              Some (ou, ws', c') \<Rightarrow> Inr (Some (if ou = u \<and> ws' = ws then c' else c), db)
            | None \<Rightarrow> Inr (Some c, db\<lparr>tdb_authorship := amap_set (tdb_authorship db) i (u, ws, c)\<rparr>)))"

definition upsert_row :: "task_db \<Rightarrow> ident \<Rightarrow> task \<Rightarrow> task_db" where
  "upsert_row db u t = (let i = cfg_id (task_config t) in
     case amap_get (tdb_rows db) i of
       None \<Rightarrow> db\<lparr>tdb_rows := amap_set (tdb_rows db) i (set_columns default_row (taskToRow u t))\<rparr>
     | Some r \<Rightarrow> if owned_by u r
         then db\<lparr>tdb_rows := amap_set (tdb_rows db) i
                (set_columns r (filter (\<lambda>kv. fst kv \<noteq> Col_id) (taskToRow u t)))\<rparr>
         else db)"

definition saveTask :: "task_db \<Rightarrow> ident \<Rightarrow> task \<Rightarrow> timestamp \<Rightarrow> store_error + (task \<times> task_db)" where
  "saveTask db u t now = (let i = cfg_id (task_config t) in
     case validateColumnNames (map fst (taskToRow u t)) of
       Inl e \<Rightarrow> Inl e
     | Inr _ \<Rightarrow>
         let existing = select_task db u i;
             previous = hydrateTranscriptStateForUser (tdb_transcripts db) i u;
             db1 = upsert_row db u t
         in case (case existing of
                Some r \<Rightarrow> Inr (case r Col_collaboration_creator_json of SCreator c \<Rightarrow> Some c | _ \<Rightarrow> None, db1)
              | None \<Rightarrow> recordTaskCreation db1 u i (cfg_workspaceId (task_config t))) of
              Inl e \<Rightarrow> Inl e
            | Inr (creator, db2) \<Rightarrow>
                Inr (t\<lparr>task_config := (task_config t)\<lparr>cfg_creator := creator\<rparr>\<rparr>,
                     db2\<lparr>tdb_transcripts := syncTranscriptEntries (tdb_transcripts db2) i u previous
                        (transcript_of (task_state t)) all_logs now\<rparr>))"

text \<open>\<open>DELETE\<close>, with the cascade to the transcript entries of the task.\<close>

definition deleteTask :: "task_db \<Rightarrow> ident \<Rightarrow> ident \<Rightarrow> bool \<times> task_db" where
  "deleteTask db u i = (if select_task db u i = None then (False, db)
     else (True, db\<lparr>tdb_rows := filter (\<lambda>p. \<not> (fst p = i \<and> owned_by u (snd p))) (tdb_rows db),
                    tdb_transcripts := filter (\<lambda>x. tr_resource x \<noteq> i) (tdb_transcripts db)\<rparr>))"

section \<open>Updating\<close>

record update_options =
  uo_previousState :: "task_state option"
  uo_transcriptChanges :: "change_set option"
  uo_persistHarnessInputs :: bool
  uo_allowDeletedTransition :: bool

definition no_options :: update_options where
  "no_options = \<lparr>uo_previousState = None, uo_transcriptChanges = None, uo_persistHarnessInputs = False,
     uo_allowDeletedTransition = False\<rparr>"

definition requireMatchingHarnessBinding :: "session_info option \<Rightarrow> harness_binding \<Rightarrow> bool" where
  "requireMatchingHarnessBinding s expected = (case s of
     Some x \<Rightarrow> (case session_binding x of
         Binding b \<Rightarrow> requireMatchingHarnessBindings b expected
       | _ \<Rightarrow> False)
   | None \<Rightarrow> False)"

text \<open>The check of \<open>persistHarnessInputs\<close>: the new state carries a binding and the stored one equals it.\<close>

definition harness_inputs_allowed :: "update_options \<Rightarrow> task_state \<Rightarrow> task_state \<Rightarrow> bool" where
  "harness_inputs_allowed o' stored new =
     (uo_persistHarnessInputs o' \<longrightarrow>
        (case st_session new of
           Some x \<Rightarrow> (case session_binding x of
               Binding b \<Rightarrow> requireMatchingHarnessBinding (st_session stored) b
             | _ \<Rightarrow> False)
         | None \<Rightarrow> False))"

text \<open>
  The columns of an update: never \<open>id\<close> and \<open>user_id\<close>, and the harness state only when its inputs are
  persisted, on top of the stored harness state.
\<close>

definition merged_harness :: "harness_state option \<Rightarrow> harness_state option \<Rightarrow> sql_value" where
  "merged_harness stored new = SHarness (JsonText
     ((case stored of None \<Rightarrow> empty_harness | Some h \<Rightarrow> h)\<lparr>hs_inputs := Option.bind new hs_inputs\<rparr>))"

definition update_columns :: "ident \<Rightarrow> update_options \<Rightarrow> task \<Rightarrow> task_state \<Rightarrow> (task_column \<times> sql_value) list" where
  "update_columns u o' stored s =
     map (\<lambda>kv. if uo_persistHarnessInputs o' \<and> fst kv = Col_harness_state_json
               then (Col_harness_state_json, merged_harness (st_harness (task_state stored)) (st_harness s)) else kv)
       (filter (\<lambda>kv. fst kv \<noteq> Col_id \<and> fst kv \<noteq> Col_user_id
                   \<and> (fst kv \<noteq> Col_harness_state_json \<or> uo_persistHarnessInputs o'))
          (taskToRow u (stored\<lparr>task_state := s\<rparr>)))"

definition update_transcript ::
  "task_db \<Rightarrow> ident \<Rightarrow> ident \<Rightarrow> task_state \<Rightarrow> update_options \<Rightarrow> timestamp \<Rightarrow> transcript_table \<times> nat" where
  "update_transcript db u i s o' now = (case uo_transcriptChanges o' of
     Some cs \<Rightarrow> applyTranscriptChangeSet (tdb_transcripts db) (tdb_live db) i u cs now
   | None \<Rightarrow>
       let previous = (case uo_previousState o' of
           Some p \<Rightarrow> transcript_of p
         | None \<Rightarrow> hydrateTranscriptStateForUser (tdb_transcripts db) i u)
       in (syncTranscriptEntries (tdb_transcripts db) i u previous (transcript_of s) all_logs now, tdb_live db))"

definition updateTaskStateForUser ::
  "task_db \<Rightarrow> ident \<Rightarrow> ident \<Rightarrow> task_state \<Rightarrow> update_options \<Rightarrow> timestamp \<Rightarrow> store_error + (bool \<times> task_db)" where
  "updateTaskStateForUser db u i s o' now = (case select_task db u i of
     None \<Rightarrow> Inr (False, db)
   | Some r \<Rightarrow> (case rowToTask r of
       Inl e \<Rightarrow> Inl e
     | Inr stored \<Rightarrow>
         if st_status (task_state stored) = Deleted \<and> st_status s \<noteq> Deleted \<and> \<not> uo_allowDeletedTransition o'
         then Inr (False, db)
         else if \<not> harness_inputs_allowed o' (task_state stored) s then Inl HarnessSessionNotOwned
         else
           let cols = update_columns u o' stored s;
               trs = update_transcript db u i s o' now
           in case validateColumnNames (map fst cols) of
                Inl e \<Rightarrow> Inl e
              | Inr _ \<Rightarrow> Inr (True, db\<lparr>
                  tdb_rows := map (\<lambda>p. if fst p = i \<and> owned_by u (snd p) then (fst p, set_columns (snd p) cols) else p) (tdb_rows db),
                  tdb_transcripts := fst trs, tdb_live := snd trs\<rparr>)))"

text \<open>Lifecycle operations write the task's fields only: the change set they pass is empty.\<close>

definition updateTaskOperationalState ::
  "task_db \<Rightarrow> ident \<Rightarrow> ident \<Rightarrow> task_state \<Rightarrow> bool \<Rightarrow> timestamp \<Rightarrow> store_error + (bool \<times> task_db)" where
  "updateTaskOperationalState db u i s allow now = updateTaskStateForUser db u i s
     (no_options\<lparr>uo_transcriptChanges := Some (createTranscriptChangeSet (transcript_of s) [] []),
                 uo_allowDeletedTransition := allow\<rparr>) now"

definition updateTaskConfig ::
  "task_db \<Rightarrow> ident \<Rightarrow> ident \<Rightarrow> task_config \<Rightarrow> store_error + (bool \<times> task_db)" where
  "updateTaskConfig db u i c = (case select_task db u i of
     None \<Rightarrow> Inr (False, db)
   | Some r \<Rightarrow> (case rowToTask r of
       Inl e \<Rightarrow> Inl e
     | Inr stored \<Rightarrow>
         let c' = c\<lparr>cfg_creator := cfg_creator (task_config stored)\<rparr>;
             cols = filter (\<lambda>kv. fst kv \<noteq> Col_id \<and> fst kv \<noteq> Col_user_id) (taskToRow u (stored\<lparr>task_config := c'\<rparr>))
         in case validateColumnNames (map fst cols) of
              Inl e \<Rightarrow> Inl e
            | Inr _ \<Rightarrow> Inr (True, db\<lparr>tdb_rows := map (\<lambda>p. if fst p = i \<and> owned_by u (snd p)
                then (fst p, set_columns (snd p) cols) else p) (tdb_rows db)\<rparr>)))"

section \<open>Stale tasks\<close>

definition STALE_TASK_RESET_MESSAGE :: string where
  "STALE_TASK_RESET_MESSAGE = ''Forcefully stopped by connection reset''"

definition stale_row :: "task_row \<Rightarrow> bool" where
  "stale_row r = (r Col_status \<in> SStatus ` set STALE_TASK_STATUSES)"

definition reset_row :: "timestamp \<Rightarrow> task_row \<Rightarrow> task_row" where
  "reset_row now r = r(Col_status := SStatus Stopped, Col_error_message := SText STALE_TASK_RESET_MESSAGE,
     Col_error_iteration := (if r Col_current_iteration = SNull then SInt 0 else r Col_current_iteration),
     Col_error_timestamp := STime now, Col_completed_at := STime now)"

definition reset_where :: "(ident \<times> task_row \<Rightarrow> bool) \<Rightarrow> timestamp \<Rightarrow> task_db \<Rightarrow> nat \<times> task_db" where
  "reset_where P now db = (length (filter P (tdb_rows db)),
     db\<lparr>tdb_rows := map (\<lambda>p. if P p then (fst p, reset_row now (snd p)) else p) (tdb_rows db)\<rparr>)"

definition resetStaleTask :: "task_db \<Rightarrow> ident \<Rightarrow> ident \<Rightarrow> timestamp \<Rightarrow> bool \<times> task_db" where
  "resetStaleTask db u i now =
     (let (n, db') = reset_where (\<lambda>p. fst p = i \<and> owned_by u (snd p) \<and> stale_row (snd p)) now db in (n > 0, db'))"

definition resetStaleTasks :: "task_db \<Rightarrow> ident \<Rightarrow> ident option \<Rightarrow> timestamp \<Rightarrow> nat \<times> task_db" where
  "resetStaleTasks db u ws now =
     reset_where (\<lambda>p. owned_by u (snd p) \<and> (ws = None \<or> snd p Col_workspace_id = opt SText ws) \<and> stale_row (snd p)) now db"

section \<open>Facts about single columns\<close>

lemma map_of_filter_keys: "map_of (filter (\<lambda>kv. Q (fst kv)) kvs) k = (if Q k then map_of kvs k else None)"
  by (induction kvs) auto

lemma set_columns_filter:
  "set_columns r (filter (\<lambda>kv. Q (fst kv)) kvs) c = (if Q c then set_columns r kvs c else r c)"
  by (simp add: set_columns_def map_of_filter_keys)

lemma owned_by_column: "r Col_user_id = r' Col_user_id \<Longrightarrow> owned_by u r = owned_by u r'"
  by (simp add: owned_by_def)

lemma task_list_columns_sel [simp]:
  "c \<noteq> Col_last_user_message_at \<Longrightarrow> c \<noteq> Col_collaboration_creator_json \<Longrightarrow> task_list_columns db u i r c = r c"
  by (simp add: task_list_columns_def)

lemma map_of_override:
  "map_of (map (\<lambda>kv. if P \<and> fst kv = K then (K, v) else kv) kvs) k =
     (if P \<and> k = K \<and> map_of kvs k \<noteq> None then Some v else map_of kvs k)"
  by (induction kvs) auto

lemma harness_column_written: "map_of (taskToRow u t) Col_harness_state_json \<noteq> None"
  by (simp add: taskToRow_def Let_def)

text \<open>What an update writes: every column but the key, the owner and, as a rule, the harness state.\<close>

lemma update_columns_eq:
  "set_columns r (update_columns u o' t s) c =
     (if c = Col_id \<or> c = Col_user_id then r c
      else if c = Col_harness_state_json
        then if uo_persistHarnessInputs o' then merged_harness (st_harness (task_state t)) (st_harness s) else r c
      else set_columns r (taskToRow u (t\<lparr>task_state := s\<rparr>)) c)"
proof -
  have f: "map_of (filter (\<lambda>kv. fst kv \<noteq> Col_id \<and> fst kv \<noteq> Col_user_id
              \<and> (fst kv \<noteq> Col_harness_state_json \<or> uo_persistHarnessInputs o')) kvs) k =
      (if k \<noteq> Col_id \<and> k \<noteq> Col_user_id \<and> (k \<noteq> Col_harness_state_json \<or> uo_persistHarnessInputs o')
       then map_of kvs k else None)" for kvs :: "(task_column \<times> sql_value) list" and k
    by (rule map_of_filter_keys)
  show ?thesis
    using harness_column_written [of u "t\<lparr>task_state := s\<rparr>"]
    unfolding set_columns_def update_columns_def map_of_override f by (auto split: option.splits)
qed

lemma update_columns_fixed [simp]:
  "set_columns r (update_columns u o' t s) Col_id = r Col_id"
  "set_columns r (update_columns u o' t s) Col_user_id = r Col_user_id"
  by (simp_all add: update_columns_eq)

lemma update_columns_status [simp]:
  "set_columns r (update_columns u o' t s) Col_status = SStatus (st_status s)"
  by (simp add: update_columns_eq sim_simps)

lemma config_columns_eq:
  "set_columns r (filter (\<lambda>kv. fst kv \<noteq> Col_id \<and> fst kv \<noteq> Col_user_id) kvs) c =
     (if c = Col_id \<or> c = Col_user_id then r c else set_columns r kvs c)"
  using set_columns_filter [of r "\<lambda>k. k \<noteq> Col_id \<and> k \<noteq> Col_user_id" kvs c] by simp

lemma save_columns_eq:
  "set_columns r (filter (\<lambda>kv. fst kv \<noteq> Col_id) kvs) c = (if c = Col_id then r c else set_columns r kvs c)"
  using set_columns_filter [of r "\<lambda>k. k \<noteq> Col_id" kvs c] by simp

lemma filter_set_keys: "set (map fst (filter (\<lambda>kv. Q (fst kv)) kvs)) \<subseteq> set (map fst kvs)"
  by auto

lemma validate_written:
  assumes "set cs \<subseteq> set (map fst (taskToRow u t))"
  shows "validateColumnNames cs = Inr ()"
proof -
  have "set cs \<subseteq> set ALLOWED_TASK_COLUMNS" using assms unfolding taskToRow_keys by (rule order_trans) (rule Diff_subset)
  then have "find (\<lambda>c. c \<notin> set ALLOWED_TASK_COLUMNS) cs = None" by (auto simp: find_None_iff)
  then show ?thesis by (simp add: validateColumnNames_def)
qed

lemma validate_update_columns [simp]: "validateColumnNames (map fst (update_columns u o' t s)) = Inr ()"
  by (rule validate_written [of _ u "t\<lparr>task_state := s\<rparr>"]) (auto simp: update_columns_def rev_image_eqI)

lemma validate_config_columns [simp]:
  "validateColumnNames (map fst (filter (\<lambda>kv. fst kv \<noteq> Col_id \<and> fst kv \<noteq> Col_user_id) (taskToRow u t))) = Inr ()"
  by (rule validate_written [of _ u t]) auto

section \<open>Operations and their frame\<close>

datatype store_op =
  SaveTask task timestamp
| DeleteTask ident
| UpdateState ident task_state update_options timestamp
| UpdateOperational ident task_state bool timestamp
| UpdateConfig ident task_config
| ResetStale ident timestamp
| ResetAllStale "ident option" timestamp

definition result_db :: "task_db \<Rightarrow> store_error + ('a \<times> task_db) \<Rightarrow> task_db" where
  "result_db db r = (case r of Inl e \<Rightarrow> db | Inr (x, db') \<Rightarrow> db')"

fun apply_op :: "ident \<Rightarrow> store_op \<Rightarrow> task_db \<Rightarrow> task_db" where
  "apply_op u (SaveTask t now) db = result_db db (saveTask db u t now)"
| "apply_op u (DeleteTask i) db = snd (deleteTask db u i)"
| "apply_op u (UpdateState i s o' now) db = result_db db (updateTaskStateForUser db u i s o' now)"
| "apply_op u (UpdateOperational i s allow now) db = result_db db (updateTaskOperationalState db u i s allow now)"
| "apply_op u (UpdateConfig i c) db = result_db db (updateTaskConfig db u i c)"
| "apply_op u (ResetStale i now) db = snd (resetStaleTask db u i now)"
| "apply_op u (ResetAllStale ws now) db = snd (resetStaleTasks db u ws now)"

definition foreign_rows :: "ident \<Rightarrow> task_db \<Rightarrow> (ident \<times> task_row) list" where
  "foreign_rows u db = filter (\<lambda>p. \<not> owned_by u (snd p)) (tdb_rows db)"

lemma filter_map_where:
  assumes "\<And>p. C p \<Longrightarrow> \<not> P p" and "\<And>p. C p \<Longrightarrow> \<not> P (f p)"
  shows "filter P (map (\<lambda>p. if C p then f p else p) xs) = filter P xs"
  using assms by (induction xs) auto

lemma filter_amap_set:
  assumes "\<not> P (k, v)" and "\<And>w. amap_get m k = Some w \<Longrightarrow> \<not> P (k, w)"
  shows "filter P (amap_set m k v) = filter P m"
  using assms by (induction m k v rule: amap_set.induct) (auto simp: amap_get_def split: if_splits)

lemma tdb_rows_recordTaskCreation:
  "recordTaskCreation db u i ws = Inr (c, db') \<Longrightarrow> tdb_rows db' = tdb_rows db"
  by (auto simp: recordTaskCreation_def split: if_splits option.splits)

lemma foreign_rows_upsert: "foreign_rows u (upsert_row db u t) = foreign_rows u db"
proof -
  have o1: "owned_by u (set_columns default_row (taskToRow u t))"
    by (simp add: owned_by_def sim_simps)
  have o2: "owned_by u (set_columns r (filter (\<lambda>kv. fst kv \<noteq> Col_id) (taskToRow u t)))" for r
    by (simp add: owned_by_def save_columns_eq sim_simps)
  show ?thesis
    by (auto simp: foreign_rows_def upsert_row_def Let_def o1 o2 intro!: filter_amap_set split: option.splits)
qed

lemma result_db_rows:
  "(\<And>x db'. r = Inr (x, db') \<Longrightarrow> tdb_rows db' = tdb_rows db'') \<Longrightarrow> (\<And>e. r = Inl e \<Longrightarrow> tdb_rows db = tdb_rows db'')
   \<Longrightarrow> tdb_rows (result_db db r) = tdb_rows db''"
  by (auto simp: result_db_def split: sum.splits)

lemma foreign_rows_save: "saveTask db u t now = Inr (t', db') \<Longrightarrow> foreign_rows u db' = foreign_rows u db"
  using foreign_rows_upsert [of u db t]
  by (auto simp: saveTask_def Let_def foreign_rows_def tdb_rows_recordTaskCreation split: sum.splits option.splits)

lemma foreign_rows_update:
  "updateTaskStateForUser db u i s o' now = Inr (b, db') \<Longrightarrow> foreign_rows u db' = foreign_rows u db"
  by (auto simp: updateTaskStateForUser_def Let_def foreign_rows_def owned_by_def intro!: filter_map_where
      split: sum.splits option.splits if_splits)

lemma foreign_rows_config:
  "updateTaskConfig db u i c = Inr (b, db') \<Longrightarrow> foreign_rows u db' = foreign_rows u db"
  by (auto simp: updateTaskConfig_def Let_def foreign_rows_def owned_by_def config_columns_eq intro!: filter_map_where
      split: sum.splits option.splits)

lemma reset_row_owner [simp]: "owned_by u (reset_row now r) = owned_by u r"
  by (simp add: owned_by_def reset_row_def)

lemma foreign_rows_reset: "(\<And>p. P p \<Longrightarrow> owned_by u (snd p)) \<Longrightarrow> foreign_rows u (snd (reset_where P now db)) = foreign_rows u db"
  by (auto simp: foreign_rows_def reset_where_def intro!: filter_map_where)

lemma foreign_rows_delete: "foreign_rows u (snd (deleteTask db u i)) = foreign_rows u db"
  by (auto simp: deleteTask_def foreign_rows_def intro: filter_cong)


section \<open>Logical deletion is sticky\<close>

definition row_status :: "task_db \<Rightarrow> ident \<Rightarrow> ident \<Rightarrow> task_status option" where
  "row_status db u i = Option.bind (select_task db u i) (\<lambda>r. as_status (r Col_status))"

lemma amap_get_map_where:
  "amap_get (map (\<lambda>p. if C p then (fst p, g p) else p) m) k =
     map_option (\<lambda>v. if C (k, v) then g (k, v) else v) (amap_get m k)"
  by (induction m) (auto simp: amap_get_def)

lemma amap_get_filter_other: "(\<And>v. P (k, v)) \<Longrightarrow> amap_get (filter P m) k = amap_get m k"
  by (induction m) (auto simp: amap_get_def)

lemma row_status_get:
  "row_status db u i = (case amap_get (tdb_rows db) i of
     Some r \<Rightarrow> if owned_by u r then as_status (r Col_status) else None | None \<Rightarrow> None)"
  by (auto simp: row_status_def select_task_def split: option.splits)

text \<open>The operations that may bring a deleted task back: saving it, removing it, and an update that says so.\<close>

fun may_revive :: "ident \<Rightarrow> store_op \<Rightarrow> bool" where
  "may_revive i (SaveTask t now) = (cfg_id (task_config t) = i)"
| "may_revive i (DeleteTask j) = (i = j)"
| "may_revive i (UpdateState j s o' now) = (i = j \<and> uo_allowDeletedTransition o')"
| "may_revive i (UpdateOperational j s allow now) = (i = j \<and> allow)"
| "may_revive i _ = False"

lemma tdb_rows_update_frame:
  "updateTaskStateForUser db u j s o' now = Inr (b, db') \<Longrightarrow> i \<noteq> j \<Longrightarrow> amap_get (tdb_rows db') i = amap_get (tdb_rows db) i"
  by (auto simp: updateTaskStateForUser_def Let_def amap_get_map_where option.map_ident
      split: sum.splits option.splits if_splits)

lemma deleted_update:
  assumes "row_status db u i = Some Deleted" and "\<not> uo_allowDeletedTransition o'"
    and "updateTaskStateForUser db u i s o' now = Inr (b, db')"
  shows "row_status db' u i = Some Deleted \<and> (b \<longrightarrow> st_status s = Deleted)"
proof (cases "db' = db \<and> \<not> b")
  case False
  from assms(3) False obtain r t where r: "select_task db u i = Some r" "rowToTask r = Inr t"
    "\<not> (st_status (task_state t) = Deleted \<and> st_status s \<noteq> Deleted \<and> \<not> uo_allowDeletedTransition o')"
    "tdb_rows db' = map (\<lambda>p. if fst p = i \<and> owned_by u (snd p)
        then (fst p, set_columns (snd p) (update_columns u o' t s)) else p) (tdb_rows db)"
    by (auto simp: updateTaskStateForUser_def Let_def split: sum.splits option.splits if_splits)
  have "st_status (task_state t) = Deleted"
    using r(1,2) assms(1) by (auto simp: row_status_def row_state_def dest!: rowToTask_state)
  then have s: "st_status s = Deleted" using r(3) assms(2) by blast
  obtain r0 where r0: "amap_get (tdb_rows db) i = Some r0" "owned_by u r0"
    using assms(1) by (auto simp: row_status_get split: option.splits if_splits)
  have "owned_by u (set_columns r0 (update_columns u o' t s))" using r0(2) by (simp add: owned_by_def)
  then have "row_status db' u i = Some Deleted"
    using r0 s by (simp add: row_status_get r(4) amap_get_map_where)
  then show ?thesis using s by simp
qed (use assms(1) in auto)

lemma deleted_config:
  assumes "row_status db u i = Some Deleted" and "updateTaskConfig db u j c = Inr (b, db')"
  shows "row_status db' u i = Some Deleted"
proof (cases "db' = db")
  case False
  with assms(2) obtain r t where r: "select_task db u j = Some r" "rowToTask r = Inr t"
    "tdb_rows db' = map (\<lambda>p. if fst p = j \<and> owned_by u (snd p) then (fst p, set_columns (snd p)
        (filter (\<lambda>kv. fst kv \<noteq> Col_id \<and> fst kv \<noteq> Col_user_id)
          (taskToRow u (t\<lparr>task_config := c\<lparr>cfg_creator := cfg_creator (task_config t)\<rparr>\<rparr>)))) else p) (tdb_rows db)"
    by (auto simp: updateTaskConfig_def Let_def split: sum.splits option.splits)
  obtain r0 where r0: "amap_get (tdb_rows db) i = Some r0" "owned_by u r0" "as_status (r0 Col_status) = Some Deleted"
    using assms(1) by (auto simp: row_status_get split: option.splits if_splits)
  have "j = i \<Longrightarrow> st_status (task_state t) = Deleted"
    using r(1,2) assms(1) by (auto simp: row_status_def row_state_def dest!: rowToTask_state)
  moreover have "owned_by u (set_columns r0 (filter (\<lambda>kv. fst kv \<noteq> Col_id \<and> fst kv \<noteq> Col_user_id) kvs))" for kvs
    using r0(2) by (simp add: owned_by_def config_columns_eq)
  ultimately show ?thesis
    using r0 by (auto simp: row_status_get r(3) amap_get_map_where config_columns_eq sim_simps)
qed (use assms(1) in simp)

lemma deleted_reset:
  assumes "row_status db u i = Some Deleted" and "\<And>p. P p \<Longrightarrow> stale_row (snd p)"
  shows "row_status (snd (reset_where P now db)) u i = Some Deleted"
proof -
  obtain r0 where r0: "amap_get (tdb_rows db) i = Some r0" "owned_by u r0" "as_status (r0 Col_status) = Some Deleted"
    using assms(1) by (auto simp: row_status_get split: option.splits if_splits)
  then have "\<not> stale_row r0" by (auto simp: stale_row_def STALE_TASK_STATUSES_def)
  then have "\<not> P (i, r0)" using assms(2) by fastforce
  then show ?thesis using r0 by (simp add: row_status_get reset_where_def amap_get_map_where)
qed

lemma deleted_save:
  assumes "row_status db u i = Some Deleted" and "saveTask db u t now = Inr (t', db')" and "cfg_id (task_config t) \<noteq> i"
  shows "row_status db' u i = Some Deleted"
proof -
  have "amap_get (tdb_rows db') i = amap_get (tdb_rows db) i"
    using assms(2,3)
    by (auto simp: saveTask_def Let_def upsert_row_def tdb_rows_recordTaskCreation split: sum.splits option.splits if_splits)
  then show ?thesis using assms(1) by (simp add: row_status_get)
qed

lemma deleted_delete:
  assumes "row_status db u i = Some Deleted" and "i \<noteq> j"
  shows "row_status (snd (deleteTask db u j)) u i = Some Deleted"
  using assms by (auto simp: row_status_get deleteTask_def amap_get_filter_other)

lemma deleted_step:
  assumes d: "row_status db u i = Some Deleted" and op: "\<not> may_revive i op"
  shows "row_status (apply_op u op db) u i = Some Deleted"
proof (cases op)
  case (SaveTask t now)
  then show ?thesis using d op deleted_save [OF d] by (auto simp: result_db_def split: sum.splits)
next
  case (DeleteTask j)
  then show ?thesis using deleted_delete [OF d, of j] op by simp
next
  case (UpdateState j s o' now)
  then show ?thesis
    using d op deleted_update [OF d, of o' s now] tdb_rows_update_frame [of db u j s o' now]
    by (cases "i = j") (auto simp: result_db_def row_status_get split: sum.splits option.splits)
next
  case (UpdateOperational j s allow now)
  let ?o = "no_options\<lparr>uo_transcriptChanges := Some (createTranscriptChangeSet (transcript_of s) [] []),
      uo_allowDeletedTransition := allow\<rparr>"
  show ?thesis
    using UpdateOperational d op deleted_update [OF d, of ?o s now] tdb_rows_update_frame [of db u j s ?o now]
    by (cases "i = j")
       (auto simp: result_db_def row_status_get updateTaskOperationalState_def split: sum.splits option.splits)
next
  case (UpdateConfig j c)
  then show ?thesis using d deleted_config [OF d] by (auto simp: result_db_def split: sum.splits)
next
  case (ResetStale j now)
  have "row_status (snd (reset_where (\<lambda>p. fst p = j \<and> owned_by u (snd p) \<and> stale_row (snd p)) now db)) u i = Some Deleted"
    by (rule deleted_reset [OF d]) simp
  then show ?thesis using ResetStale by (simp add: resetStaleTask_def case_prod_unfold Let_def)
next
  case (ResetAllStale ws now)
  have "row_status (snd (reset_where (\<lambda>p. owned_by u (snd p) \<and> (ws = None \<or> snd p Col_workspace_id = opt SText ws)
      \<and> stale_row (snd p)) now db)) u i = Some Deleted"
    by (rule deleted_reset [OF d]) simp
  then show ?thesis using ResetAllStale by (simp add: resetStaleTasks_def)
qed

text \<open>
  C9. A task that has been marked deleted stays deleted under every sequence of store operations
  that contains no explicit revival, no save under its id and no removal of its row: late engine
  checkpoints, configuration updates and stale-task resets cannot bring it back.
\<close>

theorem logical_deletion_is_sticky:
  assumes "row_status db u i = Some Deleted" and "\<forall>op \<in> set ops. \<not> may_revive i op"
  shows "row_status (fold (apply_op u) ops db) u i = Some Deleted"
  using assms by (induction ops arbitrary: db) (simp_all add: deleted_step)

section \<open>A sample database\<close>

definition sample_config :: "ident \<Rightarrow> task_config" where
  "sample_config i = \<lparr>cfg_id = i, cfg_creator = None, cfg_name = ''n'', cfg_directory = ''/r'', cfg_prompt = ''p'',
     cfg_issueNumber = None, cfg_createdAt = 1, cfg_updatedAt = 1, cfg_isPrivate = None, cfg_workspaceId = ''w'',
     cfg_model = \<lparr>providerID = ''a'', modelID = ''m'', model_variant = []\<rparr>, cfg_cheapModel = None,
     cfg_maxIterations = default_maxIterations, cfg_maxConsecutiveErrors = default_maxConsecutiveErrors,
     cfg_activityTimeoutSeconds = None, cfg_stopPattern = default_stopPattern, cfg_git = default_git,
     cfg_baseBranch = None, cfg_useWorktree = False, cfg_clearPlanningFolder = False,
     cfg_autoAcceptPlan = None, cfg_fullyAutonomous = None\<rparr>"

definition sample_git :: git_state where
  "sample_git = \<lparr>originalBranch = ''main'', workingBranch = ''wip'', worktreePath = None, commits = []\<rparr>"

definition sample_task :: "ident \<Rightarrow> task_status \<Rightarrow> task" where
  "sample_task i st = \<lparr>task_config = sample_config i,
     task_state = (createInitialState i)\<lparr>st_status := st, st_git := Some sample_git\<rparr>\<rparr>"

definition empty_db :: task_db where
  "empty_db = \<lparr>tdb_rows = [], tdb_transcripts = [], tdb_live = 0, tdb_users = [(''u'', ''ann'')], tdb_authorship = []\<rparr>"

definition sample_db :: "task_status \<Rightarrow> task_db" where
  "sample_db st = empty_db\<lparr>tdb_rows := [(''t'', set_columns default_row (taskToRow ''u'' (sample_task ''t'' st)))]\<rparr>"

lemma sample_row [simp]:
  "amap_get (tdb_rows (sample_db st)) ''t'' = Some (set_columns default_row (taskToRow ''u'' (sample_task ''t'' st)))"
  "owned_by ''u'' (set_columns default_row (taskToRow ''u'' t))"
  by (simp_all add: sample_db_def amap_get_def owned_by_def sim_simps)

lemma sample_db_status: "row_status (sample_db st) ''u'' ''t'' = Some st"
  by (simp add: row_status_get sim_simps sample_task_def)

theorem logical_deletion_is_sticky_witness:
  "row_status (fold (apply_op ''u'')
     [UpdateOperational ''t'' (createInitialState ''t'') False 6, ResetAllStale None 7, UpdateConfig ''t'' (sample_config ''t'')]
     (sample_db Deleted)) ''u'' ''t'' = Some Deleted"
  by (rule logical_deletion_is_sticky [OF sample_db_status]) simp

section \<open>Well-formed databases\<close>

text \<open>
  The rows the store writes itself: keyed by their id, with a readable model, and with JSON columns
  that read back.
\<close>

definition readable_row :: "ident \<times> task_row \<Rightarrow> bool" where
  "readable_row p = (let r = snd p in
     r Col_id = SText (fst p) \<and> r Col_mode = SText ''task''
     \<and> as_text (r Col_model_provider_id) \<noteq> None \<and> as_text (r Col_model_model_id) \<noteq> None
     \<and> as_status (r Col_status) \<noteq> None
     \<and> r Col_workspace_id = opt SText (as_text (r Col_workspace_id))
     \<and> r Col_workspace_id \<noteq> SText []
     \<and> r Col_plan_mode_active \<noteq> SNull
     \<and> (r Col_pending_input_json = SNull \<or> row_pending_input r \<noteq> None)
     \<and> (r Col_initial_attachments_json = SNull \<or> row_attachments r \<noteq> None)
     \<and> row_attachments r \<noteq> Some [])"

definition db_ok :: "task_db \<Rightarrow> bool" where
  "db_ok db = (amap_wf (tdb_rows db) \<and> list_all readable_row (tdb_rows db))"

lemma readable_written:
  "cfg_id (task_config t) = i \<Longrightarrow> readable_row (i, set_columns r (taskToRow u t))"
  by (auto simp: readable_row_def Let_def sim_simps row_pending_input_def row_attachments_def opt_def
      split: option.splits list.splits)

lemma amap_wf_map_keys: "amap_wf m \<Longrightarrow> (\<And>p. fst (f p) = fst p) \<Longrightarrow> amap_wf (map f m)"
  by (simp add: amap_wf_def comp_def)

lemma amap_get_mem: "amap_wf m \<Longrightarrow> p \<in> set m \<Longrightarrow> amap_get m (fst p) = Some (snd p)"
  by (simp add: amap_wf_def amap_get_def)

lemma db_ok_row: "db_ok db \<Longrightarrow> amap_get (tdb_rows db) i = Some r \<Longrightarrow> readable_row (i, r)"
  by (auto simp: db_ok_def list_all_iff amap_get_def dest!: map_of_SomeD)

text \<open>The task a readable row stands for.\<close>

definition read_task :: "task_db \<Rightarrow> ident \<Rightarrow> ident \<Rightarrow> task_row \<Rightarrow> task" where
  "read_task db u i r = (let x = task_list_columns db u i r in
     with_transcript \<lparr>task_config = row_config x (nonempty (as_text (x Col_model_provider_id)))
                                              (nonempty (as_text (x Col_model_model_id))),
                      task_state = row_state x\<rparr>
       (hydrateTranscriptStateForUser (tdb_transcripts db) i u))"

lemma rowToTask_readable:
  "readable_row (i, r) \<Longrightarrow> rowToTask (task_list_columns db u i r) =
     Inr \<lparr>task_config = row_config (task_list_columns db u i r) (nonempty (as_text (r Col_model_provider_id)))
                                              (nonempty (as_text (r Col_model_model_id))),
          task_state = row_state (task_list_columns db u i r)\<rparr>"
  by (auto simp: rowToTask_def readable_row_def Let_def nonempty_def)

definition stored_task :: "task_db \<Rightarrow> ident \<Rightarrow> ident \<Rightarrow> task option" where
  "stored_task db u i = (case amap_get (tdb_rows db) i of
     Some r \<Rightarrow> if owned_by u r then Some (read_task db u i r) else None | None \<Rightarrow> None)"

lemma loadTask_ok: "db_ok db \<Longrightarrow> loadTaskForUser db u i = Inr (stored_task db u i)"
  by (auto simp: loadTaskForUser_def select_task_def stored_task_def rowToTask_readable read_task_def Let_def
      dest: db_ok_row split: option.splits)

section \<open>What an operational update does\<close>

definition updated_state :: "task_state \<Rightarrow> task_state \<Rightarrow> task_state" where
  "updated_state old s = s\<lparr>
     st_id := st_id old, st_lastUserMessageAt := st_lastUserMessageAt old, st_usage := st_usage old,
     st_harness := st_harness old,
     st_logs := st_logs old, st_messages := st_messages old, st_toolCalls := st_toolCalls old,
     st_pendingPromptMode := (if st_pendingPrompt s = None then None else st_pendingPromptMode s),
     st_initialPromptAttachments := (case st_initialPromptAttachments s of Some (a # as) \<Rightarrow> Some (a # as) | _ \<Rightarrow> None),
     st_planMode := Some (case st_planMode s of None \<Rightarrow> no_plan_mode | Some p \<Rightarrow> p),
     st_syncState := None\<rparr>"

lemma row_harness_intact:
  "r Col_pending_input_json = SNull \<or> row_pending_input r \<noteq> None \<Longrightarrow>
   r Col_initial_attachments_json = SNull \<or> row_attachments r \<noteq> None \<Longrightarrow>
   row_harness r = parseStoredHarnessState (r Col_harness_state_json)"
  by (auto simp: row_harness_def Let_def)

lemma stored_config_row_config [simp]: "stored_config r (row_config r p m) = row_config r p m"
  using normalizeCommitScope_idem [of "Some (nonempty (as_text (r Col_git_commit_scope)))"]
  by (auto simp: stored_config_def row_config_def nonempty_def split: option.splits sql_value.splits)

lemma row_config_model [simp]:
  "providerID (cfg_model (row_config r p m)) = p" "modelID (cfg_model (row_config r p m)) = m"
  by (simp_all add: row_config_def)

lemma row_config_harness [simp]: "row_config (r(Col_harness_state_json := v)) p m = row_config r p m"
  by (simp add: row_config_def)

lemma row_parts_harness:
  "row_session (r(Col_harness_state_json := v)) = row_session r"
  "row_error (r(Col_harness_state_json := v)) = row_error r"
  "row_git (r(Col_harness_state_json := v)) = row_git r"
  "row_pending_input (r(Col_harness_state_json := v)) = row_pending_input r"
  "row_attachments (r(Col_harness_state_json := v)) = row_attachments r"
  "row_pending_model (r(Col_harness_state_json := v)) = row_pending_model r"
  "row_plan_mode (r(Col_harness_state_json := v)) = row_plan_mode r"
  by (simp_all add: row_session_def row_error_def row_git_def row_pending_input_def row_attachments_def
        row_pending_model_def row_plan_mode_def split: option.split)

lemma row_state_harness:
  "row_state (r(Col_harness_state_json := v)) = (row_state r)\<lparr>st_harness := row_harness (r(Col_harness_state_json := v))\<rparr>"
  by (simp add: row_state_def row_parts_harness)

text \<open>The row an update without harness inputs leaves behind, in terms of the row it read.\<close>

lemma updated_row:
  assumes r: "readable_row (i, r)" and p: "\<not> uo_persistHarnessInputs o'"
    and tr: "tdb_transcripts db' = tdb_transcripts db" "tdb_users db' = tdb_users db"
      "tdb_authorship db' = tdb_authorship db"
    and ow: "owned_by u r"
    and x: "x = task_list_columns db u i r" and t: "t = \<lparr>task_config = row_config x pm mm, task_state = row_state x\<rparr>"
  shows "task_list_columns db' u i (set_columns r (update_columns u o' t s)) =
     (set_columns x (taskToRow u (t\<lparr>task_state := s\<rparr>)))(Col_harness_state_json := r Col_harness_state_json)"
proof -
  have id: "r Col_id = SText (cfg_id (row_config x pm mm))" "r Col_user_id = SText u"
    using r ow by (simp_all add: readable_row_def Let_def x row_config_def nonempty_def owned_by_def)
  have ws: "r Col_workspace_id = (if cfg_workspaceId (row_config x pm mm) = [] then SNull else SText (cfg_workspaceId (row_config x pm mm)))"
    using r by (cases "as_text (r Col_workspace_id)")
      (auto simp: readable_row_def Let_def x row_config_def nonempty_def opt_def)
  have creator: "collaborationCreatorProjection db' u i (set_columns r (update_columns u o' t s)) =
      collaborationCreatorProjection db u i r"
  proof -
    have w: "set_columns r (update_columns u o' t s) Col_workspace_id = r Col_workspace_id"
      using ws by (simp add: update_columns_eq sim_simps t)
    show ?thesis unfolding collaborationCreatorProjection_def tr owner_creator_def w ..
  qed
  show ?thesis
  proof
    fix c
    show "task_list_columns db' u i (set_columns r (update_columns u o' t s)) c =
       ((set_columns x (taskToRow u (t\<lparr>task_state := s\<rparr>)))(Col_harness_state_json := r Col_harness_state_json)) c"
    proof (cases "c = Col_last_user_message_at \<or> c = Col_collaboration_creator_json")
      case True
      then show ?thesis using creator by (auto simp: task_list_columns_def tr sim_simps x)
    next
      case False
      then have "set_columns x kvs c = set_columns r kvs c" for kvs
        by (simp add: set_columns_def x split: option.split)
      then show ?thesis
        using False id p by (auto simp: update_columns_eq sim_simps t)
    qed
  qed
qed

lemma read_task_updated:
  assumes r: "readable_row (i, r)" and ow: "owned_by u r" and p: "\<not> uo_persistHarnessInputs o'"
    and tr: "tdb_transcripts db' = tdb_transcripts db" "tdb_users db' = tdb_users db"
      "tdb_authorship db' = tdb_authorship db"
    and x: "x = task_list_columns db u i r"
    and t: "t = \<lparr>task_config = row_config x (nonempty (as_text (r Col_model_provider_id)))
                                  (nonempty (as_text (r Col_model_model_id))), task_state = row_state x\<rparr>"
  shows "read_task db' u i (set_columns r (update_columns u o' t s)) =
     \<lparr>task_config = task_config (read_task db u i r),
      task_state = updated_state (task_state (read_task db u i r)) s\<rparr>"
proof -
  let ?p = "nonempty (as_text (r Col_model_provider_id))" and ?m = "nonempty (as_text (r Col_model_model_id))"
  let ?y = "set_columns x (taskToRow u (t\<lparr>task_state := s\<rparr>))"
  let ?z = "?y(Col_harness_state_json := r Col_harness_state_json)"
  note row = updated_row [OF r p tr ow x t, of s]
  have pm: "?z Col_model_provider_id = SText ?p" "?z Col_model_model_id = SText ?m"
    by (simp_all add: sim_simps t)
  have cfg: "row_config ?z ?p ?m = row_config x ?p ?m"
    using row_config_written [of x u "t\<lparr>task_state := s\<rparr>"] by (simp add: t)
  have h0: "row_harness ?z = parseStoredHarnessState (?z Col_harness_state_json)"
    by (rule row_harness_intact) (auto simp: row_parts_harness row_parts_written sim_simps opt_def split: option.split list.split)
  have h1: "row_harness x = parseStoredHarnessState (x Col_harness_state_json)"
    by (rule row_harness_intact)
       (use r in \<open>auto simp: readable_row_def Let_def x row_pending_input_def row_attachments_def\<close>)
  have harness: "row_harness ?z = st_harness (row_state x)"
    by (simp add: h0 row_state_def h1) (simp add: x)
  have id: "cfg_id (row_config x ?p ?m) = st_id (row_state x)" by (simp add: row_config_def row_state_def)
  have state: "row_state ?z = (stored_state x (st_id (row_state x)) s)\<lparr>st_harness := st_harness (row_state x)\<rparr>"
    unfolding row_state_harness harness using row_state_written [of x u "t\<lparr>task_state := s\<rparr>"] by (simp add: t id)
  have pm': "nonempty (as_text (?z Col_model_provider_id)) = ?p" "nonempty (as_text (?z Col_model_model_id)) = ?m"
    unfolding pm by (simp_all add: nonempty_def)
  have xpm: "nonempty (as_text (x Col_model_provider_id)) = ?p" "nonempty (as_text (x Col_model_model_id)) = ?m"
    by (simp_all add: x)
  show ?thesis
    unfolding read_task_def row Let_def pm' cfg state tr x [symmetric] xpm
    by (simp add: with_transcript_def updated_state_def stored_state_def row_state_def)
qed

lemma readable_updated:
  assumes "readable_row (i, r)" and "\<not> uo_persistHarnessInputs o'"
    and "t = \<lparr>task_config = row_config (task_list_columns db u i r) (nonempty (as_text (r Col_model_provider_id)))
                                  (nonempty (as_text (r Col_model_model_id))), task_state = s0\<rparr>"
  shows "readable_row (i, set_columns r (update_columns u o' t s))"
  using assms
  by (auto simp: readable_row_def Let_def update_columns_eq sim_simps row_pending_input_def row_attachments_def opt_def
      split: option.splits list.splits)

lemma stored_task_frame:
  assumes "amap_get (tdb_rows db') j = amap_get (tdb_rows db) j" and "tdb_transcripts db' = tdb_transcripts db"
    and "tdb_users db' = tdb_users db" and "tdb_authorship db' = tdb_authorship db"
  shows "stored_task db' u j = stored_task db u j"
proof -
  have "collaborationCreatorProjection db' u j r = collaborationCreatorProjection db u j r" for r
    unfolding collaborationCreatorProjection_def owner_creator_def assms ..
  then have "read_task db' u j r = read_task db u j r" for r
    unfolding read_task_def task_list_columns_def assms by simp
  then show ?thesis using assms(1) by (simp add: stored_task_def split: option.split)
qed

lemma empty_change_set:
  "applyTranscriptChangeSet tab live r u (createTranscriptChangeSet s [] []) now = (tab, live)"
  by (simp add: applyTranscriptChangeSet_def createTranscriptChangeSet_def)

lemma operational_update:
  assumes ok: "db_ok db" and t: "stored_task db u i = Some t"
    and free: "st_status (task_state t) = Deleted \<Longrightarrow> st_status s = Deleted \<or> allow"
  obtains db' where "updateTaskOperationalState db u i s allow now = Inr (True, db')" "db_ok db'"
    "stored_task db' u i = Some \<lparr>task_config = task_config t, task_state = updated_state (task_state t) s\<rparr>"
    "\<And>j. j \<noteq> i \<Longrightarrow> stored_task db' u j = stored_task db u j"
proof -
  let ?o = "no_options\<lparr>uo_transcriptChanges := Some (createTranscriptChangeSet (transcript_of s) [] []),
      uo_allowDeletedTransition := allow\<rparr>"
  obtain r where r: "amap_get (tdb_rows db) i = Some r" "owned_by u r" "t = read_task db u i r"
    using t by (auto simp: stored_task_def split: option.splits if_splits)
  have rd: "readable_row (i, r)" by (rule db_ok_row [OF ok r(1)])
  let ?x = "task_list_columns db u i r"
  let ?t = "\<lparr>task_config = row_config ?x (nonempty (as_text (r Col_model_provider_id)))
                                  (nonempty (as_text (r Col_model_model_id))), task_state = row_state ?x\<rparr>"
  let ?db = "db\<lparr>tdb_rows := map (\<lambda>p. if fst p = i \<and> owned_by u (snd p)
      then (fst p, set_columns (snd p) (update_columns u ?o ?t s)) else p) (tdb_rows db)\<rparr>"
  have st: "st_status (row_state ?x) = st_status (task_state t)"
    by (simp add: r(3) read_task_def Let_def with_transcript_def)
  have np: "\<not> uo_persistHarnessInputs ?o" by (simp add: no_options_def)
  have upd: "updateTaskOperationalState db u i s allow now = Inr (True, ?db)"
    using free
    by (auto simp: updateTaskOperationalState_def updateTaskStateForUser_def select_task_def r(1,2)
        rowToTask_readable [OF rd] st harness_inputs_allowed_def np update_transcript_def empty_change_set Let_def
        simp del: update_columns_status)
  have rows: "amap_get (tdb_rows ?db) i = Some (set_columns r (update_columns u ?o ?t s))"
    using r(1,2) by (simp add: amap_get_map_where)
  have ow: "owned_by u (set_columns r (update_columns u ?o ?t s))" using r(2) by (simp add: owned_by_def)
  have "stored_task ?db u i = Some \<lparr>task_config = task_config t, task_state = updated_state (task_state t) s\<rparr>"
    unfolding stored_task_def rows using ow read_task_updated [OF rd r(2) np _ _ _ refl refl, of ?db db s]
    by (simp add: r(3))
  moreover have "\<And>j. j \<noteq> i \<Longrightarrow> stored_task ?db u j = stored_task db u j"
    by (rule stored_task_frame) (simp_all add: amap_get_map_where option.map_ident)
  moreover have "db_ok ?db"
  proof -
    have w: "amap_wf (tdb_rows ?db)" using ok by (auto simp: db_ok_def intro!: amap_wf_map_keys)
    have "readable_row p" if "p \<in> set (tdb_rows ?db)" for p
    proof -
      from that w have g: "amap_get (tdb_rows ?db) (fst p) = Some (snd p)"
        by (simp only: amap_get_mem)
      show ?thesis
      proof (cases "fst p = i")
        case True
        then have "p = (i, set_columns r (update_columns u ?o ?t s))" using g rows by (cases p) simp
        then show ?thesis using readable_updated [OF rd np refl] by simp
      next
        case False
        then have "amap_get (tdb_rows db) (fst p) = Some (snd p)"
          using g by (auto simp: amap_get_map_where option.map_ident split: if_splits)
        then show ?thesis using db_ok_row [OF ok] by fastforce
      qed
    qed
    then show ?thesis using w by (simp add: db_ok_def list_all_iff)
  qed
  ultimately show ?thesis using that upd by blast
qed

lemma operational_update_blocked:
  assumes ok: "db_ok db" and t: "stored_task db u i = Some t"
    and "st_status (task_state t) = Deleted" "st_status s \<noteq> Deleted" "\<not> allow"
  shows "updateTaskOperationalState db u i s allow now = Inr (False, db)"
proof -
  obtain r where r: "amap_get (tdb_rows db) i = Some r" "owned_by u r" "t = read_task db u i r"
    using t by (auto simp: stored_task_def split: option.splits if_splits)
  have rd: "readable_row (i, r)" by (rule db_ok_row [OF ok r(1)])
  have "st_status (row_state (task_list_columns db u i r)) = st_status (task_state t)"
    by (simp add: r(3) read_task_def Let_def with_transcript_def)
  then show ?thesis
    using assms(3-5) by (simp add: updateTaskOperationalState_def updateTaskStateForUser_def select_task_def r(1,2)
        rowToTask_readable [OF rd] no_options_def)
qed

lemma operational_update_missing:
  "stored_task db u i = None \<Longrightarrow> updateTaskOperationalState db u i s allow now = Inr (False, db)"
  by (auto simp: stored_task_def updateTaskOperationalState_def updateTaskStateForUser_def select_task_def
      split: option.splits if_splits)

text \<open>
  On a well-formed database, an operational update of an existing task (unless it would take a
  deleted task out of the deleted status without being told to) succeeds, keeps the database
  well-formed, and the next load returns the stored configuration with the new state, whose
  transcript, harness state and usage are the stored ones; no other task of the user changes.
\<close>

theorem operational_update_then_load:
  assumes "db_ok db" and "loadTaskForUser db u i = Inr (Some t)"
    and "st_status (task_state t) = Deleted \<Longrightarrow> st_status s = Deleted \<or> allow"
  shows "\<exists>db'. updateTaskOperationalState db u i s allow now = Inr (True, db') \<and> db_ok db'
    \<and> loadTaskForUser db' u i = Inr (Some \<lparr>task_config = task_config t, task_state = updated_state (task_state t) s\<rparr>)
    \<and> (\<forall>j. j \<noteq> i \<longrightarrow> loadTaskForUser db' u j = loadTaskForUser db u j)"
proof -
  have t: "stored_task db u i = Some t" using assms(1,2) by (simp add: loadTask_ok)
  obtain db' where "updateTaskOperationalState db u i s allow now = Inr (True, db')" "db_ok db'"
    "stored_task db' u i = Some \<lparr>task_config = task_config t, task_state = updated_state (task_state t) s\<rparr>"
    "\<And>j. j \<noteq> i \<Longrightarrow> stored_task db' u j = stored_task db u j"
    using operational_update [OF assms(1) t assms(3)] by blast
  then show ?thesis using assms(1) by (simp add: loadTask_ok)
qed

lemma sample_db_ok: "db_ok (sample_db st)"
  by (simp add: db_ok_def sample_db_def amap_wf_def readable_written sample_task_def sample_config_def)

lemma sample_stored:
  "stored_task (sample_db st) ''u'' ''t'' = Some (read_task (sample_db st) ''u'' ''t''
     (set_columns default_row (taskToRow ''u'' (sample_task ''t'' st))))"
  by (simp add: stored_task_def)

lemma read_task_status [simp]: "st_status (task_state (read_task db u i r)) = (case as_status (r Col_status) of Some s \<Rightarrow> s | None \<Rightarrow> Idle)"
  by (simp add: read_task_def Let_def with_transcript_def row_state_def)

theorem operational_update_then_load_witness:
  "\<exists>db' t. updateTaskOperationalState (sample_db Completed) ''u'' ''t'' (createInitialState ''t'') False 6 = Inr (True, db')
     \<and> loadTaskForUser db' ''u'' ''t'' = Inr (Some t) \<and> st_status (task_state t) = Idle"
proof -
  have "loadTaskForUser (sample_db Completed) ''u'' ''t'' = Inr (Some (read_task (sample_db Completed) ''u'' ''t''
     (set_columns default_row (taskToRow ''u'' (sample_task ''t'' Completed)))))"
    by (simp add: loadTask_ok sample_db_ok sample_stored)
  from operational_update_then_load [OF sample_db_ok this, of "createInitialState ''t''" False 6]
  show ?thesis by (auto simp: sim_simps sample_task_def updated_state_def createInitialState_def)
qed

section \<open>Stale and active tasks\<close>

lemma as_status_stale: "stale_row r = (case as_status (r Col_status) of Some s \<Rightarrow> isStaleTaskStatus s | None \<Rightarrow> False)"
  by (cases "r Col_status") (auto simp: stale_row_def isStaleTaskStatus_def)

lemma reset_row_status [simp]: "as_status (reset_row now r Col_status) = Some Stopped"
  by (simp add: reset_row_def)

lemma reset_not_stale: "\<not> stale_row (reset_row now r)"
  by (simp add: as_status_stale isStaleTaskStatus_def STALE_TASK_STATUSES_def)

text \<open>
  Resetting the stale tasks of a user stops exactly the tasks in a stale status and leaves
  every other status (planning, resolving conflicts and the deleted ones included) alone; the
  number returned is the number of rows changed, and a second reset finds nothing.
\<close>

theorem stale_reset_stops_exactly_stale:
  "let (n, db') = resetStaleTasks db u None now in
     n = length (filter (\<lambda>p. owned_by u (snd p) \<and> stale_row (snd p)) (tdb_rows db))
     \<and> (\<forall>i. row_status db' u i =
          map_option (\<lambda>s. if isStaleTaskStatus s then Stopped else s) (row_status db u i))
     \<and> fst (resetStaleTasks db' u None later) = 0"
proof -
  let ?P = "\<lambda>p. owned_by u (snd p) \<and> stale_row (snd p)"
  let ?db = "snd (reset_where ?P now db)"
  have "row_status ?db u i = map_option (\<lambda>s. if isStaleTaskStatus s then Stopped else s) (row_status db u i)" for i
    by (auto simp: row_status_get reset_where_def amap_get_map_where as_status_stale split: option.splits)
  moreover have "filter ?P (tdb_rows ?db) = []"
    using reset_not_stale by (auto simp: reset_where_def filter_empty_conv)
  ultimately show ?thesis
    by (simp add: resetStaleTasks_def reset_where_def)
qed

text \<open>
  The reset is not a step of the status machine: an idle task is stopped although the
  transition table has no such edge. And a task that is resolving conflicts, which the state machine
  counts as active with an engine attached, is neither found as the active task of its checkout nor
  reset as stale.
\<close>

theorem stale_and_active_lists_disagree_with_state_machine:
  "row_status (snd (resetStaleTasks (sample_db Idle) ''u'' None 6)) ''u'' ''t'' = Some Stopped
   \<and> \<not> isValidTransition Idle Stopped
   \<and> isActiveStatus ResolvingConflicts
   \<and> getActiveTaskByDirectory (sample_db ResolvingConflicts) ''u'' ''/r'' ''w'' = Inr None
   \<and> fst (resetStaleTasks (sample_db ResolvingConflicts) ''u'' None 6) = 0"
proof -
  let ?P = "\<lambda>p. owned_by ''u'' (snd p) \<and> stale_row (snd p)"
  have "row_status (snd (reset_where ?P 6 (sample_db Idle))) ''u'' ''t'' = Some Stopped"
    by (simp add: row_status_get reset_where_def amap_get_map_where as_status_stale sim_simps sample_task_def
          isStaleTaskStatus_def STALE_TASK_STATUSES_def)
  moreover have "fst (reset_where ?P 6 (sample_db ResolvingConflicts)) = 0"
    by (simp add: reset_where_def sample_db_def as_status_stale sim_simps sample_task_def
          isStaleTaskStatus_def STALE_TASK_STATUSES_def)
  moreover have "getActiveTaskByDirectory (sample_db ResolvingConflicts) ''u'' ''/r'' ''w'' = Inr None"
    by (simp add: getActiveTaskByDirectory_def sample_db_def sim_simps sample_task_def ACTIVE_TASK_STATUSES_def)
  moreover have "\<not> isValidTransition Idle Stopped" "isActiveStatus ResolvingConflicts" by code_simp+
  ultimately show ?thesis by (simp add: resetStaleTasks_def)
qed

lemma read_task_config [simp]:
  "cfg_directory (task_config (read_task db u i r)) = nonempty (as_text (r Col_directory))"
  "cfg_workspaceId (task_config (read_task db u i r)) = nonempty (as_text (r Col_workspace_id))"
  by (simp_all add: read_task_def Let_def with_transcript_def row_config_def)

end
