(* ===== verification/PromiseMarkers.thy ===== *)
theory PromiseMarkers
  imports TaskModel
begin

text \<open>
  Promise markers (\<open>src/utils/promise-markers.ts\<close>): an agent ends its response with
  \<open><promise>NAME</promise>\<close> to tell the engine how the turn ended. The one regular expression of the
  file is anchored at both ends of the text and its marker holds no \<open>'<'\<close>, so a match is found here
  from the right: trailing blanks and one backquote are dropped, the closing tag is removed, and the
  text from the last \<open>'<'\<close> on must be an opening tag and the marker.
\<close>

datatype promise_kind = KindPlanReady | KindComplete | KindBlocked | KindCustom

record promise_match =
  pmk_marker :: string
  pmk_kind :: promise_kind
  pmk_label :: string
  pmk_content :: string

section \<open>Text helpers\<close>

definition to_upper :: "char \<Rightarrow> char" where
  "to_upper c = (let n = of_char c :: nat in if 97 \<le> n \<and> n \<le> 122 then char_of (n - 32) else c)"

definition is_blank :: "char \<Rightarrow> bool" where
  "is_blank c = (c = CHR '' '' \<or> c = CHR 0x09)"

definition is_line_blank :: "char \<Rightarrow> bool" where
  "is_line_blank c = (is_blank c \<or> c = CHR 0x0A \<or> c = CHR 0x0D)"

definition drop_trailing :: "(char \<Rightarrow> bool) \<Rightarrow> string \<Rightarrow> string" where
  "drop_trailing P s = rev (dropWhile P (rev s))"

text \<open>\<open>(?:x)?$\<close>: one trailing occurrence is dropped when it is there.\<close>

definition drop_one :: "char \<Rightarrow> string \<Rightarrow> string" where
  "drop_one c s = (if s \<noteq> [] \<and> last s = c then butlast s else s)"

definition strip_suffix :: "string \<Rightarrow> string \<Rightarrow> string option" where
  "strip_suffix x s = (if length x \<le> length s \<and> drop (length s - length x) s = x
     then Some (take (length s - length x) s) else None)"

section \<open>The marker\<close>

definition open_tag :: string where "open_tag = ''<promise>''"
definition close_tag :: string where "close_tag = ''</promise>''"

definition is_separator :: "char \<Rightarrow> bool" where
  "is_separator c = (c = CHR ''_'' \<or> c = CHR '':'' \<or> c = CHR ''-'' \<or> is_space c)"

fun split_words :: "string \<Rightarrow> string \<Rightarrow> string list" where
  "split_words acc [] = (if acc = [] then [] else [rev acc])"
| "split_words acc (c # cs) =
     (if is_separator c then (if acc = [] then [] else [rev acc]) @ split_words [] cs
      else split_words (c # acc) cs)"

fun capitalize :: "string \<Rightarrow> string" where
  "capitalize [] = []"
| "capitalize (c # cs) = to_upper c # cs"

fun join_words :: "string list \<Rightarrow> string" where
  "join_words [] = []"
| "join_words [w] = w"
| "join_words (w # ws) = w @ '' '' @ join_words ws"

definition humanizePromiseMarker :: "string \<Rightarrow> string" where
  "humanizePromiseMarker m = join_words (map capitalize (split_words [] (map to_lower (js_trim m))))"

definition getPromiseMarkerOutcomeKind :: "string \<Rightarrow> promise_kind" where
  "getPromiseMarkerOutcomeKind m = (let u = map to_upper (js_trim m) in
     if u = ''PLAN_READY'' then KindPlanReady else if u = ''COMPLETE'' then KindComplete
     else if u = ''BLOCKED'' then KindBlocked else KindCustom)"

definition getPromiseMarkerLabel :: "string \<Rightarrow> promise_kind \<Rightarrow> string" where
  "getPromiseMarkerLabel m k = (case k of KindPlanReady \<Rightarrow> ''PLAN READY'' | KindComplete \<Rightarrow> ''COMPLETED''
     | KindBlocked \<Rightarrow> ''BLOCKED'' | KindCustom \<Rightarrow> humanizePromiseMarker m)"

text \<open>
  \<open>(?:\r?\n)?[ \t]*(?:`)?\<close> before the opening tag: the lazy content group leaves as much as possible
  to them.
\<close>

definition drop_line_end :: "string \<Rightarrow> string" where
  "drop_line_end s = (if s \<noteq> [] \<and> last s = CHR 0x0A then drop_one (CHR 0x0D) (butlast s) else s)"

definition marker_prefix :: "string \<Rightarrow> string" where
  "marker_prefix s = drop_line_end (drop_trailing is_blank (drop_one (CHR ''`'') s))"

text \<open>
  The marker has no \<open>'<'\<close>, so the opening tag starts at the last \<open>'<'\<close> of the text before the
  closing tag.
\<close>

definition open_split :: "string \<Rightarrow> (string \<times> string) option" where
  "open_split s =
     (let t = rev (takeWhile (\<lambda>c. c \<noteq> CHR ''<'') (rev s));
          before = take (length s - length t) s;
          m = drop (length open_tag - 1) t
      in if starts_with (tl open_tag) t \<and> m \<noteq> [] \<and> before \<noteq> [] then Some (butlast before, m) else None)"

definition trailing_marker :: "string \<Rightarrow> (string \<times> string) option" where
  "trailing_marker s =
     (case strip_suffix close_tag (drop_one (CHR ''`'') (drop_trailing is_blank s)) of
        None \<Rightarrow> None
      | Some s1 \<Rightarrow> map_option (\<lambda>(c, m). (marker_prefix c, m)) (open_split s1))"

definition detectTrailingPromiseMarker :: "string \<Rightarrow> promise_match option" where
  "detectTrailingPromiseMarker s = (case trailing_marker s of
     None \<Rightarrow> None
   | Some (c, raw) \<Rightarrow>
       let m = js_trim raw; k = getPromiseMarkerOutcomeKind m in
       if m = [] then None
       else Some \<lparr>pmk_marker = m, pmk_kind = k, pmk_label = getPromiseMarkerLabel m k,
                  pmk_content = drop_trailing is_line_blank c\<rparr>)"

section \<open>What is found\<close>

text \<open>\<open>(?:`)?[ \t]*$\<close>, the text that may follow the closing tag.\<close>

fun is_trailer :: "string \<Rightarrow> bool" where
  "is_trailer [] = True"
| "is_trailer (c # cs) = ((c = CHR ''`'' \<or> is_blank c) \<and> list_all is_blank cs)"

lemma drop_trailing_append: "list_all P t \<Longrightarrow> drop_trailing P (s @ t) = drop_trailing P s"
  by (simp add: drop_trailing_def) (subst dropWhile_append2, auto simp: list_all_iff)

lemma drop_trailing_id: "s \<noteq> [] \<Longrightarrow> \<not> P (last s) \<Longrightarrow> drop_trailing P s = s"
  by (cases s rule: rev_cases) (auto simp: drop_trailing_def)

lemma drop_trailing_split: "\<exists>t. s = drop_trailing P s @ t \<and> list_all P t"
proof (intro exI conjI)
  have "rev (takeWhile P (rev s) @ dropWhile P (rev s)) = s"
    by (simp only: takeWhile_dropWhile_id rev_rev_ident)
  then show "s = drop_trailing P s @ rev (takeWhile P (rev s))"
    unfolding drop_trailing_def rev_append by (rule sym)
  show "list_all P (rev (takeWhile P (rev s)))" by (auto simp: list_all_iff dest: set_takeWhileD)
qed

lemma not_blank_backquote [simp]: "\<not> is_blank (CHR ''`'')" "\<not> is_blank (CHR ''>'')"
  by (simp_all add: is_blank_def)

lemma close_tag_last [simp]: "last close_tag = CHR ''>''" "close_tag \<noteq> []"
  by (simp_all add: close_tag_def)

lemma strip_close:
  assumes "is_trailer t"
  shows "drop_one (CHR ''`'') (drop_trailing is_blank (s @ close_tag @ t)) = s @ close_tag"
proof (cases t)
  case Nil
  then show ?thesis by (simp add: drop_trailing_id drop_one_def)
next
  case (Cons c cs)
  with assms have b: "list_all is_blank cs" "c = CHR ''`'' \<or> is_blank c" by auto
  show ?thesis
  proof (cases "c = CHR ''`''")
    case True
    have "drop_trailing is_blank ((s @ close_tag @ [CHR ''`'']) @ cs) = s @ close_tag @ [CHR ''`'']"
      by (subst drop_trailing_append [OF b(1)]) (simp add: drop_trailing_id)
    with Cons True show ?thesis by (simp add: drop_one_def butlast_append)
  next
    case False
    with b Cons have "list_all is_blank t" by simp
    from drop_trailing_append [OF this, of "s @ close_tag"] show ?thesis
      by (simp add: drop_trailing_id drop_one_def)
  qed
qed

lemma strip_close_split:
  "strip_suffix close_tag (drop_one (CHR ''`'') (drop_trailing is_blank s)) = Some s1
   \<longleftrightarrow> (\<exists>t. s = s1 @ close_tag @ t \<and> is_trailer t)"
proof
  assume "strip_suffix close_tag (drop_one (CHR ''`'') (drop_trailing is_blank s)) = Some s1"
  then have d: "drop_one (CHR ''`'') (drop_trailing is_blank s) = s1 @ close_tag"
    by (auto simp: strip_suffix_def split: if_splits) (metis append_take_drop_id)
  obtain t where t: "s = drop_trailing is_blank s @ t" "list_all is_blank t"
    using drop_trailing_split by blast
  show "\<exists>t. s = s1 @ close_tag @ t \<and> is_trailer t"
  proof (cases "drop_trailing is_blank s \<noteq> [] \<and> last (drop_trailing is_blank s) = CHR ''`''")
    case True
    then have "drop_trailing is_blank s = butlast (drop_trailing is_blank s) @ [CHR ''`'']"
      by (metis append_butlast_last_id)
    moreover from d True have "butlast (drop_trailing is_blank s) = s1 @ close_tag"
      by (simp add: drop_one_def)
    ultimately have "s = s1 @ close_tag @ (CHR ''`'' # t)" using t(1) by simp
    with t(2) show ?thesis by (intro exI [of _ "CHR ''`'' # t"]) simp
  next
    case False
    with d have "drop_trailing is_blank s = s1 @ close_tag" by (auto simp: drop_one_def split: if_splits)
    with t have "s = s1 @ close_tag @ t" by simp
    moreover from t(2) have "is_trailer t" by (cases t) auto
    ultimately show ?thesis by blast
  qed
next
  assume "\<exists>t. s = s1 @ close_tag @ t \<and> is_trailer t"
  then show "strip_suffix close_tag (drop_one (CHR ''`'') (drop_trailing is_blank s)) = Some s1"
    by (auto simp: strip_close strip_suffix_def)
qed

lemma open_tag_cons: "open_tag = CHR ''<'' # tl open_tag" "CHR ''<'' \<notin> set (tl open_tag)"
  by (simp_all add: open_tag_def)

lemma last_tag:
  fixes s1 m c :: string
  defines "t \<equiv> rev (takeWhile (\<lambda>c. c \<noteq> CHR ''<'') (rev s1))"
  defines "before \<equiv> take (length s1 - length t) s1"
  shows "starts_with (tl open_tag) t \<and> drop (length open_tag - 1) t \<noteq> [] \<and> before \<noteq> []
           \<and> c = butlast before \<and> m = drop (length open_tag - 1) t
    \<longleftrightarrow> s1 = c @ open_tag @ m \<and> CHR ''<'' \<notin> set m \<and> m \<noteq> []" (is "?L \<longleftrightarrow> ?R")
proof
  have s1: "s1 = rev (dropWhile (\<lambda>c. c \<noteq> CHR ''<'') (rev s1)) @ t"
    unfolding t_def rev_append [symmetric] by simp
  then have b: "before = rev (dropWhile (\<lambda>c. c \<noteq> CHR ''<'') (rev s1))"
    unfolding before_def by (metis append_eq_conv_conj add_diff_cancel_right' length_append)
  have nt: "CHR ''<'' \<notin> set t" by (auto simp: t_def dest: set_takeWhileD)
  {
    assume L: ?L
    from L have t: "t = tl open_tag @ m"
      using append_take_drop_id [of "length open_tag - 1" t] by (simp add: starts_with_def)
    from L b have d: "dropWhile (\<lambda>c. c \<noteq> CHR ''<'') (rev s1) \<noteq> []" by auto
    from hd_dropWhile [OF d] b d have "last before = CHR ''<''" by (simp add: last_rev)
    with L have "before = c @ [CHR ''<'']" using append_butlast_last_id [of before] by simp
    with s1 [folded b] t have "s1 = c @ (CHR ''<'' # tl open_tag) @ m" by simp
    then have "s1 = c @ open_tag @ m" using open_tag_cons(1) by simp
    with L nt show ?R by (meson in_set_dropD)
  }
  assume R: ?R
  then have "s1 = c @ (CHR ''<'' # tl open_tag) @ m" using open_tag_cons(1) by simp
  then have r: "rev s1 = rev (tl open_tag @ m) @ CHR ''<'' # rev c" by simp
  have n: "\<forall>x \<in> set (rev (tl open_tag @ m)). x \<noteq> CHR ''<''" using R open_tag_cons(2) by auto
  have "takeWhile (\<lambda>c. c \<noteq> CHR ''<'') (rev s1) = rev (tl open_tag @ m)"
    unfolding r by (subst takeWhile_append2) (use n in auto)
  then have t: "t = tl open_tag @ m" by (simp add: t_def)
  have "dropWhile (\<lambda>c. c \<noteq> CHR ''<'') (rev s1) = CHR ''<'' # rev c"
    unfolding r by (subst dropWhile_append2) (use n in auto)
  then have "before = c @ [CHR ''<'']" by (simp add: b)
  with t R show ?L by (simp add: starts_with_def)
qed

lemma open_split_eq: "open_split s = Some (c, m) \<longleftrightarrow> s = c @ open_tag @ m \<and> CHR ''<'' \<notin> set m \<and> m \<noteq> []"
  unfolding last_tag [symmetric] by (auto simp: open_split_def Let_def)

lemma trailing_marker_eq:
  "trailing_marker s = Some (p, m) \<longleftrightarrow>
     (\<exists>c t. s = c @ open_tag @ m @ close_tag @ t \<and> CHR ''<'' \<notin> set m \<and> m \<noteq> [] \<and> is_trailer t
        \<and> p = marker_prefix c)" (is "?L \<longleftrightarrow> ?R")
proof
  assume ?L
  then obtain s1 c where "strip_suffix close_tag (drop_one (CHR ''`'') (drop_trailing is_blank s)) = Some s1"
      and o: "open_split s1 = Some (c, m)" and p: "p = marker_prefix c"
    by (auto simp: trailing_marker_def split: option.splits)
  then obtain t where "s = s1 @ close_tag @ t" "is_trailer t" unfolding strip_close_split by blast
  with o p show ?R unfolding open_split_eq by (metis append.assoc)
next
  assume ?R
  then obtain c t where s: "s = (c @ open_tag @ m) @ close_tag @ t" "is_trailer t" and p: "p = marker_prefix c"
      and m: "CHR ''<'' \<notin> set m" "m \<noteq> []" by auto
  then have "strip_suffix close_tag (drop_one (CHR ''`'') (drop_trailing is_blank s)) = Some (c @ open_tag @ m)"
    unfolding strip_close_split by blast
  moreover from m have "open_split (c @ open_tag @ m) = Some (c, m)" unfolding open_split_eq by blast
  ultimately show ?L using p by (simp add: trailing_marker_def)
qed

text \<open>
  C10. The marker detection finds exactly the texts the pattern describes: a match with content \<open>c\<close>
  and marker \<open>m\<close> is reported if and only if the text is \<open>c\<close>, an optional line end, blanks and
  backquote included, the opening tag, a marker without \<open>'<'\<close> that is not only blanks, the closing
  tag, and nothing behind it but one backquote and blanks.
\<close>

theorem detected_markers:
  "detectTrailingPromiseMarker s = Some r \<longleftrightarrow>
     (\<exists>c m t. s = c @ open_tag @ m @ close_tag @ t \<and> CHR ''<'' \<notin> set m \<and> js_trim m \<noteq> [] \<and> is_trailer t
        \<and> r = \<lparr>pmk_marker = js_trim m, pmk_kind = getPromiseMarkerOutcomeKind (js_trim m),
              pmk_label = getPromiseMarkerLabel (js_trim m) (getPromiseMarkerOutcomeKind (js_trim m)),
              pmk_content = drop_trailing is_line_blank (marker_prefix c)\<rparr>)"
proof -
  have "js_trim [] = []" by (simp add: js_trim_def)
  then have "detectTrailingPromiseMarker s = Some r \<longleftrightarrow>
     (\<exists>p m. trailing_marker s = Some (p, m) \<and> js_trim m \<noteq> []
        \<and> r = \<lparr>pmk_marker = js_trim m, pmk_kind = getPromiseMarkerOutcomeKind (js_trim m),
              pmk_label = getPromiseMarkerLabel (js_trim m) (getPromiseMarkerOutcomeKind (js_trim m)),
              pmk_content = drop_trailing is_line_blank p\<rparr>)"
    by (auto simp: detectTrailingPromiseMarker_def Let_def split: option.splits)
  moreover from \<open>js_trim [] = []\<close> have "m \<noteq> []" if "js_trim m \<noteq> []" for m using that by auto
  ultimately show ?thesis unfolding trailing_marker_eq by blast
qed

end
