(* ===== verification/EngineInputs.thy ===== *)
theory EngineInputs
  imports TaskModel
begin

text \<open>
  The pending input of a task (\<open>src/core/engine/engine-inputs.ts\<close>) and the ledger of native input
  admissions (\<open>src/core/harness-input-ledger.ts\<close>). A user message is pending until a prompt consumes
  it or a native session admits it; \<open>TaskInputService\<close> decides which, so that a message is never
  delivered twice. The operations are functions on the task state; the asynchronous \<open>steer\<close> and
  \<open>reconcile\<close> are cut at their awaits into steps, and the calls of the backend are arguments.
\<close>

datatype input_error =
  InputUnresolved
| InputNotFound
| SessionNotOwned
| TransportClosed
| EventGap
| InputCapacity
| BackendFailure string "string option"

record pending_task_input =
  pti_id :: ident
  pti_content :: string
  pti_attachments :: "message_attachment list"
  pti_intent :: task_prompt_intent

section \<open>The receipt ledger\<close>

fun admission_id :: "input_admission \<Rightarrow> ident" where
  "admission_id (AdmissionAccepted i _) = i"
| "admission_id (AdmissionDelivered i _) = i"
| "admission_id (AdmissionRejected i _) = i"
| "admission_id (AdmissionUnknown i) = i"

fun is_unknown :: "input_admission \<Rightarrow> bool" where
  "is_unknown (AdmissionUnknown _) = True"
| "is_unknown _ = False"

fun is_rejected :: "input_admission \<Rightarrow> bool" where
  "is_rejected (AdmissionRejected _ _) = True"
| "is_rejected _ = False"

fun is_admitted :: "input_admission \<Rightarrow> bool" where
  "is_admitted (AdmissionAccepted _ _) = True"
| "is_admitted (AdmissionDelivered _ _) = True"
| "is_admitted _ = False"

fun is_delivered :: "input_admission \<Rightarrow> bool" where
  "is_delivered (AdmissionDelivered _ _) = True"
| "is_delivered _ = False"

definition receipt_id :: "input_receipt \<Rightarrow> ident" where
  "receipt_id r = admission_id (rc_admission r)"

text \<open>\<open>slice(-199)\<close>: the last 199 elements.\<close>

definition last_n :: "nat \<Rightarrow> 'a list \<Rightarrow> 'a list" where
  "last_n n xs = drop (length xs - n) xs"

definition retainHarnessInputReceipt ::
  "input_receipt list \<Rightarrow> input_receipt \<Rightarrow> input_error + input_receipt list" where
  "retainHarnessInputReceipt rs r =
     (let previous = filter (\<lambda>x. receipt_id x \<noteq> receipt_id r) rs;
          unresolved = filter (\<lambda>x. is_unknown (rc_admission x)) previous;
          settled = last_n 199 (filter (\<lambda>x. \<not> is_unknown (rc_admission x)) previous)
      in if length unresolved \<ge> 800 then Inl InputCapacity else Inr (unresolved @ settled @ [r]))"

section \<open>Reading the state\<close>

definition receipts :: "task_state \<Rightarrow> input_receipt list" where
  "receipts s = (case st_harness s of None \<Rightarrow> [] | Some h \<Rightarrow>
     (case hs_inputs h of None \<Rightarrow> [] | Some rs \<Rightarrow> rs))"

definition integrity_invalid :: "task_state \<Rightarrow> bool" where
  "integrity_invalid s = (case st_harness s of None \<Rightarrow> False | Some h \<Rightarrow> hs_integrityInvalid h)"

definition find_receipt :: "task_state \<Rightarrow> ident \<Rightarrow> input_receipt option" where
  "find_receipt s i = find (\<lambda>r. receipt_id r = i) (receipts s)"

definition assertIntegrity :: "task_state \<Rightarrow> input_error + unit" where
  "assertIntegrity s = (if integrity_invalid s then Inl InputUnresolved else Inr ())"

definition assertMutable :: "task_state \<Rightarrow> input_error + unit" where
  "assertMutable s = (if integrity_invalid s then Inl InputUnresolved
     else if list_ex (\<lambda>r. map_option pi_id (st_pendingInput s) = Some (receipt_id r)
                         \<and> \<not> is_rejected (rc_admission r)) (receipts s)
     then Inl InputUnresolved else Inr ())"

section \<open>Pending input\<close>

text \<open>\<open>crypto.randomUUID()\<close> is the argument \<open>i\<close>.\<close>

definition initialize_inputs :: "ident \<Rightarrow> task_state \<Rightarrow> task_state" where
  "initialize_inputs i s =
     (if st_pendingPrompt s \<noteq> None \<and> st_pendingInput s = None \<and> \<not> integrity_invalid s
      then s\<lparr>st_pendingInput := Some \<lparr>pi_id = i, pi_attachments = []\<rparr>\<rparr> else s)"

definition inputs_set ::
  "ident \<Rightarrow> string \<Rightarrow> message_attachment list \<Rightarrow> task_prompt_intent \<Rightarrow> task_state \<Rightarrow> input_error + task_state" where
  "inputs_set i content atts intent s = (case assertMutable s of
     Inl e \<Rightarrow> Inl e
   | Inr _ \<Rightarrow> Inr (s\<lparr>st_pendingPrompt := Some content, st_pendingPromptMode := Some intent,
       st_pendingInput := Some \<lparr>pi_id = i, pi_attachments = atts\<rparr>\<rparr>))"

definition inputs_setAttachments :: "message_attachment list \<Rightarrow> task_state \<Rightarrow> input_error + task_state" where
  "inputs_setAttachments atts s = (case assertMutable s of
     Inl e \<Rightarrow> Inl e
   | Inr _ \<Rightarrow> Inr (case st_pendingInput s of
       None \<Rightarrow> s
     | Some input \<Rightarrow> s\<lparr>st_pendingInput := Some (input\<lparr>pi_attachments := atts\<rparr>)\<rparr>))"

definition clear_pending :: "task_state \<Rightarrow> task_state" where
  "clear_pending s = s\<lparr>st_pendingPrompt := None, st_pendingPromptMode := None, st_pendingInput := None\<rparr>"

definition inputs_clear :: "task_state \<Rightarrow> input_error + task_state" where
  "inputs_clear s = (case assertMutable s of Inl e \<Rightarrow> Inl e | Inr _ \<Rightarrow> Inr (clear_pending s))"

definition inputs_peek :: "task_state \<Rightarrow> input_error + pending_task_input option" where
  "inputs_peek s = (if integrity_invalid s then Inl InputUnresolved
     else Inr (case (st_pendingPrompt s, st_pendingInput s) of
       (Some content, Some input) \<Rightarrow>
         (case find_receipt s (pi_id input) of
            Some r \<Rightarrow> if is_rejected (rc_admission r)
              then Some \<lparr>pti_id = pi_id input, pti_content = content, pti_attachments = pi_attachments input,
                pti_intent = (case st_pendingPromptMode s of Some m \<Rightarrow> m | None \<Rightarrow> EngineContext)\<rparr>
              else None
          | None \<Rightarrow> Some \<lparr>pti_id = pi_id input, pti_content = content, pti_attachments = pi_attachments input,
                pti_intent = (case st_pendingPromptMode s of Some m \<Rightarrow> m | None \<Rightarrow> EngineContext)\<rparr>)
     | _ \<Rightarrow> None))"

definition inputs_consume :: "task_state \<Rightarrow> input_error + (pending_task_input option \<times> task_state)" where
  "inputs_consume s = (case inputs_peek s of
     Inl e \<Rightarrow> Inl e
   | Inr None \<Rightarrow> Inr (None, s)
   | Inr (Some p) \<Rightarrow> (case inputs_clear s of Inl e \<Rightarrow> Inl e | Inr s' \<Rightarrow> Inr (Some p, s')))"

section \<open>Native admission\<close>

text \<open>What the input service reads of the backend: its adapter, its connection and its steering support.\<close>

record input_backend =
  ib_adapter :: harness_adapter
  ib_connected :: bool
  ib_steering :: bool

definition owned_binding :: "input_backend \<Rightarrow> task_state \<Rightarrow> input_error + harness_binding" where
  "owned_binding b s = (case st_session s of
     Some x \<Rightarrow> (case session_binding x of
         Binding h \<Rightarrow> if hb_adapter h \<noteq> ib_adapter b then Inl SessionNotOwned
                      else if \<not> ib_connected b then Inl TransportClosed else Inr h
       | _ \<Rightarrow> Inl SessionNotOwned)
   | None \<Rightarrow> Inl SessionNotOwned)"

definition put_receipts :: "input_receipt list \<Rightarrow> task_state \<Rightarrow> task_state" where
  "put_receipts rs s = s\<lparr>st_harness := Some (case st_harness s of
       Some h \<Rightarrow> h\<lparr>hs_inputs := Some rs\<rparr>
     | None \<Rightarrow> \<lparr>hs_integrityInvalid = False, hs_cleanup = None, hs_gitSafety = None, hs_gitOutcome = None,
         hs_inputs = Some rs, hs_other = []\<rparr>)\<rparr>"

definition record_receipt :: "input_receipt \<Rightarrow> task_state \<Rightarrow> input_error + task_state" where
  "record_receipt r s = (case retainHarnessInputReceipt (receipts s) r of
     Inl e \<Rightarrow> Inl e | Inr rs \<Rightarrow> Inr (put_receipts rs s))"

definition steerable_status :: "task_state \<Rightarrow> bool" where
  "steerable_status s = (st_status s = Running \<or> st_status s = Planning)"

definition steer_pending ::
  "input_backend \<Rightarrow> ident \<Rightarrow> task_state \<Rightarrow> input_error + (input_admission + harness_binding \<times> pending_task_input)" where
  "steer_pending b i s = (case inputs_peek s of
     Inl e \<Rightarrow> Inl e
   | Inr None \<Rightarrow> Inl InputNotFound
   | Inr (Some p) \<Rightarrow>
       if pti_id p \<noteq> i then Inl InputNotFound
       else case owned_binding b s of
         Inl e \<Rightarrow> Inl e
       | Inr h \<Rightarrow> if \<not> steerable_status s then Inr (Inl (AdmissionRejected i NotRunning))
           else if \<not> ib_steering b then Inr (Inl (AdmissionRejected i UnsupportedSteering))
           else Inr (Inr (h, p)))"

text \<open>
  \<open>steer\<close> up to the preparation of the attachments: it returns an admission at once or goes on with the
  conversation and the pending input.
\<close>

definition steer_begin ::
  "input_backend \<Rightarrow> ident \<Rightarrow> task_state \<Rightarrow> input_error + (input_admission + harness_binding \<times> pending_task_input)" where
  "steer_begin b i s =
     (if integrity_invalid s then Inl InputUnresolved
      else case find_receipt s i of
        Some r \<Rightarrow> if \<not> is_rejected (rc_admission r) then Inr (Inl (rc_admission r)) else steer_pending b i s
      | None \<Rightarrow> steer_pending b i s)"

text \<open>
  After the attachments: the conversation and the pending input must be the ones it started with (the
  attachments are compared by reference, which \<open>same\<close> tells), and the claim is recorded as \<open>unknown\<close>
  before the native call.
\<close>

definition steer_claim ::
  "input_backend \<Rightarrow> harness_binding \<Rightarrow> pending_task_input \<Rightarrow> bool \<Rightarrow> timestamp \<Rightarrow> task_state
   \<Rightarrow> input_error + (input_admission + input_receipt \<times> task_state)" where
  "steer_claim b h p same now s = (case owned_binding b s of
     Inl e \<Rightarrow> Inl e
   | Inr h' \<Rightarrow>
       if \<not> requireMatchingHarnessBindings h h' then Inl SessionNotOwned
       else case inputs_peek s of
         Inl e \<Rightarrow> Inl e
       | Inr current \<Rightarrow>
           if map_option pti_id current \<noteq> Some (pti_id p) \<or> \<not> same then Inl InputNotFound
           else if \<not> steerable_status s then Inr (Inl (AdmissionRejected (pti_id p) NotRunning))
           else let r = \<lparr>rc_conversation = h, rc_admission = AdmissionUnknown (pti_id p), rc_submittedAt = now\<rparr>
                in case record_receipt r s of Inl e \<Rightarrow> Inl e | Inr s' \<Rightarrow> Inr (Inr (r, s')))"

text \<open>
  \<open>finish\<close>: the answer of the backend is recorded under the receipt, and an admitted pending input is
  taken out of the pending slot. The state after an error is returned with it.
\<close>

definition steer_finish ::
  "input_backend \<Rightarrow> input_receipt \<Rightarrow> input_admission \<Rightarrow> task_state \<Rightarrow> (input_error + input_admission) \<times> task_state" where
  "steer_finish b r a s =
     (if admission_id a \<noteq> receipt_id r then (Inl EventGap, s)
      else case owned_binding b s of
        Inl e \<Rightarrow> (Inl e, s)
      | Inr h \<Rightarrow>
          if \<not> requireMatchingHarnessBindings (rc_conversation r) h then (Inl SessionNotOwned, s)
          else case record_receipt (r\<lparr>rc_admission := a\<rparr>) s of
            Inl e \<Rightarrow> (Inl e, s)
          | Inr s' \<Rightarrow>
              if is_admitted a \<and> map_option pi_id (st_pendingInput s') = Some (admission_id a)
              then if st_pendingPrompt s' = None then (Inl InputUnresolved, s') else (Inr a, clear_pending s')
              else (Inr a, s'))"

text \<open>
  The native call failed: a validation error settles the receipt as rejected, any other error leaves it
  unknown; the error is thrown in both cases.
\<close>

definition steer_failed :: "input_backend \<Rightarrow> input_receipt \<Rightarrow> bool \<Rightarrow> task_state \<Rightarrow> task_state" where
  "steer_failed b r validation s = (if validation
     then snd (steer_finish b r (AdmissionRejected (receipt_id r) UnsupportedSteering) s) else s)"

definition reconcile_begin ::
  "input_backend \<Rightarrow> ident \<Rightarrow> task_state \<Rightarrow> input_error + (input_admission + input_receipt)" where
  "reconcile_begin b i s =
     (if integrity_invalid s then Inl InputUnresolved
      else case find_receipt s i of
        None \<Rightarrow> Inl InputNotFound
      | Some r \<Rightarrow>
          if is_rejected (rc_admission r) \<or> is_delivered (rc_admission r) then Inr (Inl (rc_admission r))
          else (case owned_binding b s of
              Inl e \<Rightarrow> Inl e
            | Inr h \<Rightarrow> if requireMatchingHarnessBindings (rc_conversation r) h then Inr (Inr r) else Inl SessionNotOwned))"

section \<open>Deliveries\<close>

text \<open>
  What reaches the agent, newest first: a prompt took the input, a native call was made with it, or the
  backend's refusal of a native call was recorded.
\<close>

datatype delivery = Prompted ident | Called ident | Refused ident

fun delivery_id :: "delivery \<Rightarrow> ident" where
  "delivery_id (Prompted i) = i"
| "delivery_id (Called i) = i"
| "delivery_id (Refused i) = i"

definition last_delivery :: "delivery list \<Rightarrow> ident \<Rightarrow> delivery option" where
  "last_delivery ds i = find (\<lambda>d. delivery_id d = i) ds"

text \<open>An input may still be sent: nothing was tried with it, or the last try was refused.\<close>

definition undelivered :: "delivery list \<Rightarrow> ident \<Rightarrow> bool" where
  "undelivered ds i = (last_delivery ds i = None \<or> last_delivery ds i = Some (Refused i))"

text \<open>
  Every try was made with an undelivered input, and every refusal answers a native call: no input reaches
  the agent twice, not even when the answer to a native call was lost.
\<close>

fun delivered_once :: "delivery list \<Rightarrow> bool" where
  "delivered_once [] = True"
| "delivered_once (Prompted i # ds) = (undelivered ds i \<and> delivered_once ds)"
| "delivered_once (Called i # ds) = (undelivered ds i \<and> delivered_once ds)"
| "delivered_once (Refused i # ds) = (last_delivery ds i = Some (Called i) \<and> delivered_once ds)"

section \<open>The input service as a step relation\<close>

text \<open>
  \<open>serialize\<close> runs one \<open>steer\<close> or \<open>reconcile\<close> at a time: the phase says where it is. \<open>sys_used\<close> holds
  the identifiers handed out and \<open>sys_revision\<close> counts the changes of the attachments reference; neither
  is part of the program.
\<close>

datatype input_phase =
  NoOperation
| Preparing harness_binding pending_task_input nat
| InFlight input_receipt
| Reconciling input_receipt

record input_system =
  sys_state :: task_state
  sys_phase :: input_phase
  sys_used :: "ident set"
  sys_revision :: nat
  sys_deliveries :: "delivery list"

definition answer_deliveries :: "input_receipt \<Rightarrow> task_state \<Rightarrow> delivery list" where
  "answer_deliveries r s' = (case find_receipt s' (receipt_id r) of
     Some x \<Rightarrow> if is_rejected (rc_admission x) then [Refused (receipt_id r)] else []
   | None \<Rightarrow> [])"

inductive input_step :: "input_system \<Rightarrow> input_system \<Rightarrow> bool" where
  set_input: "i \<notin> sys_used q \<Longrightarrow> inputs_set i content atts intent (sys_state q) = Inr s' \<Longrightarrow>
    input_step q (q\<lparr>sys_state := s', sys_used := insert i (sys_used q), sys_revision := Suc (sys_revision q)\<rparr>)"
| set_attachments: "inputs_setAttachments atts (sys_state q) = Inr s' \<Longrightarrow>
    input_step q (q\<lparr>sys_state := s', sys_revision := Suc (sys_revision q)\<rparr>)"
| clear_input: "inputs_clear (sys_state q) = Inr s' \<Longrightarrow> input_step q (q\<lparr>sys_state := s'\<rparr>)"
| consume_input: "inputs_consume (sys_state q) = Inr (Some p, s') \<Longrightarrow>
    input_step q (q\<lparr>sys_state := s', sys_deliveries := Prompted (pti_id p) # sys_deliveries q\<rparr>)"
| steer_input: "sys_phase q = NoOperation \<Longrightarrow> steer_begin b i (sys_state q) = Inr (Inr (h, p)) \<Longrightarrow>
    input_step q (q\<lparr>sys_phase := Preparing h p (sys_revision q)\<rparr>)"
| claim_input: "sys_phase q = Preparing h p rv \<Longrightarrow>
    steer_claim b h p (rv = sys_revision q) now (sys_state q) = Inr (Inr (r, s')) \<Longrightarrow>
    input_step q (q\<lparr>sys_state := s', sys_phase := InFlight r,
      sys_deliveries := Called (receipt_id r) # sys_deliveries q\<rparr>)"
| reconcile_input: "sys_phase q = NoOperation \<Longrightarrow> reconcile_begin b i (sys_state q) = Inr (Inr r) \<Longrightarrow>
    input_step q (q\<lparr>sys_phase := Reconciling r\<rparr>)"
| answer_input: "sys_phase q = InFlight r \<or> sys_phase q = Reconciling r \<Longrightarrow>
    steer_finish b r a (sys_state q) = (res, s') \<Longrightarrow>
    input_step q (q\<lparr>sys_state := s', sys_phase := NoOperation,
      sys_deliveries := answer_deliveries r s' @ sys_deliveries q\<rparr>)"
| failed_input: "sys_phase q = InFlight r \<Longrightarrow> steer_failed b r validation (sys_state q) = s' \<Longrightarrow>
    input_step q (q\<lparr>sys_state := s', sys_phase := NoOperation,
      sys_deliveries := answer_deliveries r s' @ sys_deliveries q\<rparr>)"
| abandon_operation: "input_step q (q\<lparr>sys_phase := NoOperation\<rparr>)"
| other_change: "st_pendingInput s' = st_pendingInput (sys_state q) \<Longrightarrow>
    st_pendingPrompt s' = st_pendingPrompt (sys_state q) \<Longrightarrow> receipts s' = receipts (sys_state q) \<Longrightarrow>
    input_step q (q\<lparr>sys_state := s'\<rparr>)"

definition initial_inputs :: "task_state \<Rightarrow> input_system" where
  "initial_inputs s = \<lparr>sys_state = s, sys_phase = NoOperation, sys_used = {}, sys_revision = 0, sys_deliveries = []\<rparr>"

definition inputs_reachable :: "ident \<Rightarrow> input_system \<Rightarrow> bool" where
  "inputs_reachable t q = input_step\<^sup>*\<^sup>* (initial_inputs (createInitialState t)) q"

section \<open>The ledger keeps what is unresolved\<close>

lemma set_last_n: "x \<in> set (last_n n xs) \<Longrightarrow> x \<in> set xs"
  by (auto simp: last_n_def dest: in_set_dropD)

lemma length_last_n: "length (last_n n xs) \<le> n"
  by (simp add: last_n_def)

lemma distinct_map_last_n: "distinct (map f xs) \<Longrightarrow> distinct (map f (last_n n xs))"
  by (simp add: last_n_def drop_map [symmetric])

lemma retain_receipts:
  assumes "retainHarnessInputReceipt rs r = Inr rs'"
  shows "r \<in> set rs'"
    and "x \<in> set rs' \<Longrightarrow> x = r \<or> (x \<in> set rs \<and> receipt_id x \<noteq> receipt_id r)"
    and "x \<in> set rs \<Longrightarrow> is_unknown (rc_admission x) \<Longrightarrow> receipt_id x \<noteq> receipt_id r \<Longrightarrow> x \<in> set rs'"
    and "length rs' \<le> 999"
  using assms length_last_n [of 199 "filter (\<lambda>x. \<not> is_unknown (rc_admission x)) (filter (\<lambda>x. receipt_id x \<noteq> receipt_id r) rs)"]
  by (auto simp: retainHarnessInputReceipt_def Let_def dest!: set_last_n split: if_splits)

lemma distinct_map_filter_disjoint:
  assumes "distinct (map f xs)" "set ys \<subseteq> {x \<in> set xs. P x}" "set zs \<subseteq> {x \<in> set xs. \<not> P x}"
    "distinct (map f ys)" "distinct (map f zs)"
  shows "distinct (map f (ys @ zs))"
proof -
  have "inj_on f (set xs)" using assms(1) by (simp add: distinct_map)
  then have "f ` set ys \<inter> f ` set zs = {}" using assms(2,3) by (fastforce dest: inj_onD)
  with assms(4,5) show ?thesis by simp
qed

lemma retain_distinct:
  assumes "distinct (map receipt_id rs)" and "retainHarnessInputReceipt rs r = Inr rs'"
  shows "distinct (map receipt_id rs')"
proof -
  let ?p = "filter (\<lambda>x. receipt_id x \<noteq> receipt_id r) rs"
  let ?u = "filter (\<lambda>x. is_unknown (rc_admission x)) ?p"
  let ?s = "last_n 199 (filter (\<lambda>x. \<not> is_unknown (rc_admission x)) ?p)"
  from assms(2) have rs': "rs' = ?u @ ?s @ [r]"
    by (auto simp: retainHarnessInputReceipt_def Let_def split: if_splits)
  have "distinct (map receipt_id (?u @ ?s))"
  proof (rule distinct_map_filter_disjoint [OF assms(1), where P = "\<lambda>x. is_unknown (rc_admission x)"])
    show "set ?u \<subseteq> {x \<in> set rs. is_unknown (rc_admission x)}" by auto
    show "set ?s \<subseteq> {x \<in> set rs. \<not> is_unknown (rc_admission x)}" by (auto dest: set_last_n)
    show "distinct (map receipt_id ?u)" using assms(1) by (simp add: distinct_map_filter)
    show "distinct (map receipt_id ?s)" using assms(1) by (intro distinct_map_last_n) (simp add: distinct_map_filter)
  qed
  moreover have "receipt_id r \<notin> set (map receipt_id (?u @ ?s))" by (auto dest!: set_last_n)
  ultimately show ?thesis unfolding rs' by auto
qed

lemma receipts_put [simp]: "receipts (put_receipts rs s) = rs"
  by (simp add: receipts_def put_receipts_def split: option.splits)

lemma put_receipts_pending [simp]:
  "st_pendingInput (put_receipts rs s) = st_pendingInput s"
  "st_pendingPrompt (put_receipts rs s) = st_pendingPrompt s"
  "st_pendingPromptMode (put_receipts rs s) = st_pendingPromptMode s"
  "st_session (put_receipts rs s) = st_session s"
  "st_status (put_receipts rs s) = st_status s"
  by (simp_all add: put_receipts_def)

lemma clear_pending_sel [simp]:
  "st_pendingInput (clear_pending s) = None" "st_pendingPrompt (clear_pending s) = None"
  "receipts (clear_pending s) = receipts s" "st_harness (clear_pending s) = st_harness s"
  by (simp_all add: clear_pending_def receipts_def)

lemma receipts_update [simp]:
  "receipts (s\<lparr>st_pendingInput := x\<rparr>) = receipts s" "receipts (s\<lparr>st_pendingPrompt := c\<rparr>) = receipts s"
  "receipts (s\<lparr>st_pendingPromptMode := m\<rparr>) = receipts s"
  by (simp_all add: receipts_def)

lemma record_receiptE:
  assumes "record_receipt r s = Inr s'"
  obtains rs where "retainHarnessInputReceipt (receipts s) r = Inr rs" "s' = put_receipts rs s"
  using assms by (auto simp: record_receipt_def split: sum.splits)

lemma find_distinct_key:
  "distinct (map f xs) \<Longrightarrow> find (\<lambda>x. f x = k) xs = Some y \<longleftrightarrow> y \<in> set xs \<and> f y = k"
  by (induction xs) (auto simp: rev_image_eqI)

lemma find_receipt_distinct:
  "distinct (map receipt_id (receipts s)) \<Longrightarrow>
     find_receipt s i = Some r \<longleftrightarrow> r \<in> set (receipts s) \<and> receipt_id r = i"
  by (simp add: find_receipt_def find_distinct_key)

lemma find_receipt_None: "find_receipt s i = None \<longleftrightarrow> (\<forall>r \<in> set (receipts s). receipt_id r \<noteq> i)"
  by (auto simp: find_receipt_def find_None_iff)

section \<open>What the operations guarantee\<close>

lemma assertMutable_ok:
  "assertMutable s = Inr () \<Longrightarrow> st_pendingInput s = Some p \<Longrightarrow> r \<in> set (receipts s) \<Longrightarrow> receipt_id r = pi_id p
     \<Longrightarrow> is_rejected (rc_admission r)"
  by (auto simp: assertMutable_def list_ex_iff split: if_splits)

lemma assertMutable_unit: "assertMutable s = Inr u \<longleftrightarrow> assertMutable s = Inr ()"
  by simp

lemma inputs_peek_SomeD:
  assumes "inputs_peek s = Inr (Some p)"
  obtains input where "st_pendingInput s = Some input" "pti_id p = pi_id input"
    and "pti_content p = (case st_pendingPrompt s of Some c \<Rightarrow> c | None \<Rightarrow> [])" "st_pendingPrompt s \<noteq> None"
    and "\<And>r. find_receipt s (pi_id input) = Some r \<Longrightarrow> is_rejected (rc_admission r)"
  using assms by (auto simp: inputs_peek_def split: if_splits option.splits)

lemma inputs_consumeD:
  assumes "inputs_consume s = Inr (Some p, s')"
  shows "inputs_peek s = Inr (Some p)" "assertMutable s = Inr ()" "s' = clear_pending s"
  using assms by (auto simp: inputs_consume_def inputs_clear_def split: sum.splits option.splits)

lemma steer_claimD:
  assumes "steer_claim b h p same now s = Inr (Inr (r, s'))"
  obtains c where "inputs_peek s = Inr (Some c)" "pti_id c = pti_id p" "rc_admission r = AdmissionUnknown (pti_id p)"
    "record_receipt r s = Inr s'"
  using assms by (auto simp: steer_claim_def Let_def split: sum.splits if_splits)

text \<open>\<open>finish\<close> leaves the state alone, or records the answer and perhaps takes the pending input.\<close>

lemma steer_finishE:
  assumes "steer_finish b r a s = (res, s')"
  obtains "s' = s"
  | s1 where "admission_id a = receipt_id r" "record_receipt (r\<lparr>rc_admission := a\<rparr>) s = Inr s1" "s' = s1"
      "is_admitted a \<Longrightarrow> map_option pi_id (st_pendingInput s1) = Some (receipt_id r) \<Longrightarrow> st_pendingPrompt s1 = None"
  | s1 where "admission_id a = receipt_id r" "record_receipt (r\<lparr>rc_admission := a\<rparr>) s = Inr s1" "s' = clear_pending s1"
      "is_admitted a" "map_option pi_id (st_pendingInput s1) = Some (receipt_id r)"
  using assms unfolding steer_finish_def
  by (auto split: sum.splits if_splits)

lemma undelivered_fresh: "i \<notin> delivery_id ` set ds \<Longrightarrow> undelivered ds i"
  by (auto simp: undelivered_def last_delivery_def find_None_iff)

lemma last_delivery_Cons [simp]:
  "last_delivery (d # ds) i = (if delivery_id d = i then Some d else last_delivery ds i)"
  by (simp add: last_delivery_def)

lemma undelivered_Cons:
  "undelivered (d # ds) i = (if delivery_id d = i then d = Refused i else undelivered ds i)"
  by (auto simp: undelivered_def)

section \<open>No input is delivered twice\<close>

definition active_receipt :: "input_phase \<Rightarrow> input_receipt option" where
  "active_receipt ph = (case ph of InFlight r \<Rightarrow> Some r | Reconciling r \<Rightarrow> Some r | _ \<Rightarrow> None)"

definition ledger_inv :: "input_receipt list \<Rightarrow> delivery list \<Rightarrow> ident set \<Rightarrow> bool" where
  "ledger_inv rs ds used \<longleftrightarrow> delivered_once ds \<and> distinct (map receipt_id rs)
     \<and> (\<forall>r \<in> set rs. \<not> is_rejected (rc_admission r) \<longrightarrow> last_delivery ds (receipt_id r) = Some (Called (receipt_id r)))
     \<and> receipt_id ` set rs \<subseteq> used \<and> delivery_id ` set ds \<subseteq> used"

definition pending_inv :: "task_state \<Rightarrow> delivery list \<Rightarrow> ident set \<Rightarrow> bool" where
  "pending_inv s ds used \<longleftrightarrow> (\<forall>p. st_pendingInput s = Some p \<longrightarrow>
       st_pendingPrompt s \<noteq> None \<and> pi_id p \<in> used
       \<and> (undelivered ds (pi_id p) \<or> (\<exists>r \<in> set (receipts s). receipt_id r = pi_id p \<and> is_unknown (rc_admission r)))
       \<and> (\<forall>r \<in> set (receipts s). receipt_id r = pi_id p \<longrightarrow> \<not> is_admitted (rc_admission r)))"

definition input_inv :: "input_system \<Rightarrow> bool" where
  "input_inv q \<longleftrightarrow> ledger_inv (receipts (sys_state q)) (sys_deliveries q) (sys_used q)
     \<and> pending_inv (sys_state q) (sys_deliveries q) (sys_used q)
     \<and> (\<forall>r. active_receipt (sys_phase q) = Some r \<longrightarrow>
          r \<in> set (receipts (sys_state q)) \<and> \<not> is_rejected (rc_admission r))"

text \<open>Recording the answer \<open>a\<close> to the call behind the receipt \<open>r\<close>.\<close>

lemma ledger_record:
  assumes inv: "ledger_inv rs ds used" and r: "r \<in> set rs" "\<not> is_rejected (rc_admission r)"
    and a: "admission_id a = receipt_id r"
    and ret: "retainHarnessInputReceipt rs (r\<lparr>rc_admission := a\<rparr>) = Inr rs'"
  shows "ledger_inv rs' ((if is_rejected a then [Refused (receipt_id r)] else []) @ ds) used"
proof -
  have i: "receipt_id (r\<lparr>rc_admission := a\<rparr>) = receipt_id r" by (simp add: receipt_id_def [of "r\<lparr>rc_admission := a\<rparr>"] a)
  have c: "last_delivery ds (receipt_id r) = Some (Called (receipt_id r))"
    using inv r by (simp add: ledger_inv_def)
  note m = retain_receipts(2) [OF ret, unfolded i]
  have d: "distinct (map receipt_id rs')"
    using inv ret by (auto simp: ledger_inv_def intro: retain_distinct)
  have l: "last_delivery ((if is_rejected a then [Refused (receipt_id r)] else []) @ ds) (receipt_id x)
      = Some (Called (receipt_id x))"
    if x: "x \<in> set rs'" "\<not> is_rejected (rc_admission x)" for x
  proof (cases "x = r\<lparr>rc_admission := a\<rparr>")
    case True
    with x(2) c i show ?thesis by simp
  next
    case False
    with m [OF x(1)] have "x \<in> set rs" "receipt_id x \<noteq> receipt_id r" by auto
    with inv x(2) show ?thesis by (simp add: ledger_inv_def)
  qed
  have "receipt_id ` set rs' \<subseteq> used" "receipt_id r \<in> used"
    using inv r(1) m i by (auto simp: ledger_inv_def)
  with inv c d l show ?thesis by (auto simp: ledger_inv_def)
qed

lemma admission_trichotomy: "is_unknown a \<or> is_rejected a \<or> is_admitted a"
  by (cases a) auto

lemma pending_record:
  assumes inv: "pending_inv s ds used" and r: "r \<in> set (receipts s)"
    and a: "admission_id a = receipt_id r"
    and ret: "retainHarnessInputReceipt (receipts s) (r\<lparr>rc_admission := a\<rparr>) = Inr rs'"
    and n: "is_admitted a \<Longrightarrow> map_option pi_id (st_pendingInput s) \<noteq> Some (receipt_id r)"
  shows "pending_inv (put_receipts rs' s) ((if is_rejected a then [Refused (receipt_id r)] else []) @ ds) used"
proof -
  have i: "receipt_id (r\<lparr>rc_admission := a\<rparr>) = receipt_id r" by (simp add: receipt_id_def [of "r\<lparr>rc_admission := a\<rparr>"] a)
  note m = retain_receipts(1,2,3) [OF ret, unfolded i]
  {
    fix p assume p: "st_pendingInput s = Some p"
    note P = inv [unfolded pending_inv_def, rule_format, OF p]
    have u: "undelivered ((if is_rejected a then [Refused (receipt_id r)] else []) @ ds) (pi_id p)
        \<or> (\<exists>x \<in> set rs'. receipt_id x = pi_id p \<and> is_unknown (rc_admission x))"
    proof (cases "pi_id p = receipt_id r")
      case True
      with n p have "\<not> is_admitted a" by auto
      with admission_trichotomy [of a] show ?thesis
      proof (cases "is_rejected a")
        case False
        with \<open>\<not> is_admitted a\<close> admission_trichotomy [of a] have "is_unknown a" by blast
        with m(1) i True show ?thesis by (intro disjI2 bexI [of _ "r\<lparr>rc_admission := a\<rparr>"]) simp_all
      qed (simp add: undelivered_Cons True)
    next
      case False
      with P m(3) show ?thesis by (auto simp: undelivered_Cons)
    qed
    have "\<not> is_admitted (rc_admission x)" if x: "x \<in> set rs'" "receipt_id x = pi_id p" for x
    proof (cases "x = r\<lparr>rc_admission := a\<rparr>")
      case True
      with x(2) i n p show ?thesis by auto
    next
      case False
      with m(2) [OF x(1)] P x(2) show ?thesis by blast
    qed
    with u P have "st_pendingPrompt s \<noteq> None \<and> pi_id p \<in> used
      \<and> (undelivered ((if is_rejected a then [Refused (receipt_id r)] else []) @ ds) (pi_id p)
        \<or> (\<exists>x \<in> set rs'. receipt_id x = pi_id p \<and> is_unknown (rc_admission x)))
      \<and> (\<forall>x \<in> set rs'. receipt_id x = pi_id p \<longrightarrow> \<not> is_admitted (rc_admission x))" by blast
  }
  then show ?thesis unfolding pending_inv_def by simp
qed

lemma pending_inv_None: "st_pendingInput s = None \<Longrightarrow> pending_inv s ds used"
  by (simp add: pending_inv_def)

lemma no_answer:
  assumes "distinct (map receipt_id (receipts s))" "r \<in> set (receipts s)" "\<not> is_rejected (rc_admission r)"
  shows "answer_deliveries r s = []"
proof -
  have "find_receipt s (receipt_id r) = Some r" using assms by (simp add: find_receipt_distinct)
  with assms(3) show ?thesis by (simp add: answer_deliveries_def)
qed

lemma input_inv_finish:
  assumes inv: "input_inv q" and act: "active_receipt (sys_phase q) = Some r"
    and fin: "steer_finish b r a (sys_state q) = (res, s')"
  shows "input_inv (q\<lparr>sys_state := s', sys_phase := NoOperation,
      sys_deliveries := answer_deliveries r s' @ sys_deliveries q\<rparr>)"
proof -
  let ?s = "sys_state q"
  from inv act have r: "r \<in> set (receipts ?s)" "\<not> is_rejected (rc_admission r)"
    and L: "ledger_inv (receipts ?s) (sys_deliveries q) (sys_used q)"
    and P: "pending_inv ?s (sys_deliveries q) (sys_used q)" by (auto simp: input_inv_def)
  have d: "distinct (map receipt_id (receipts ?s))" using L by (simp add: ledger_inv_def)
  have rec: "ledger_inv rs' (answer_deliveries r t @ sys_deliveries q) (sys_used q)"
       "answer_deliveries r t = (if is_rejected a then [Refused (receipt_id r)] else [])"
    if "admission_id a = receipt_id r" "receipts t = rs'"
       "retainHarnessInputReceipt (receipts ?s) (r\<lparr>rc_admission := a\<rparr>) = Inr rs'" for rs' t
  proof -
    have i: "receipt_id (r\<lparr>rc_admission := a\<rparr>) = receipt_id r"
      by (simp add: receipt_id_def [of "r\<lparr>rc_admission := a\<rparr>"] that(1))
    have "find_receipt t (receipt_id r) = Some (r\<lparr>rc_admission := a\<rparr>)"
      using retain_receipts(1) [OF that(3)] retain_distinct [OF d that(3)] i that(2)
      by (simp add: find_receipt_distinct)
    then show "answer_deliveries r t = (if is_rejected a then [Refused (receipt_id r)] else [])"
      by (simp add: answer_deliveries_def)
    with ledger_record [OF L r that(1,3)] show "ledger_inv rs' (answer_deliveries r t @ sys_deliveries q) (sys_used q)"
      by simp
  qed
  from fin show ?thesis
  proof (cases rule: steer_finishE)
    case 1
    have "answer_deliveries r s' = []" using no_answer [OF d r] 1 by simp
    with 1 L P show ?thesis by (simp add: input_inv_def active_receipt_def)
  next
    case (2 s1)
    from 2(2) obtain rs' where ret: "retainHarnessInputReceipt (receipts ?s) (r\<lparr>rc_admission := a\<rparr>) = Inr rs'"
      and s1: "s1 = put_receipts rs' ?s" by (rule record_receiptE)
    have "is_admitted a \<Longrightarrow> map_option pi_id (st_pendingInput ?s) \<noteq> Some (receipt_id r)"
      using 2(4) P by (auto simp: s1 pending_inv_def)
    from pending_record [OF P r(1) 2(1) ret this] rec [OF 2(1) _ ret, of s'] s1 2(3)
    show ?thesis by (simp add: input_inv_def active_receipt_def)
  next
    case (3 s1)
    from 3(2) obtain rs' where ret: "retainHarnessInputReceipt (receipts ?s) (r\<lparr>rc_admission := a\<rparr>) = Inr rs'"
      and s1: "s1 = put_receipts rs' ?s" by (rule record_receiptE)
    with rec(1) [OF 3(1) _ ret, of s'] 3(3) show ?thesis
      by (simp add: input_inv_def active_receipt_def pending_inv_None)
  qed
qed

lemma input_inv_consume:
  assumes inv: "input_inv q" and c: "inputs_consume (sys_state q) = Inr (Some p, s')"
  shows "input_inv (q\<lparr>sys_state := s', sys_deliveries := Prompted (pti_id p) # sys_deliveries q\<rparr>)"
proof -
  note D = inputs_consumeD [OF c]
  from D(1) obtain i where i: "st_pendingInput (sys_state q) = Some i" "pti_id p = pi_id i"
    by (rule inputs_peek_SomeD)
  note M = assertMutable_ok [OF D(2) i(1)]
  from inv i have u: "undelivered (sys_deliveries q) (pi_id i)" and us: "pi_id i \<in> sys_used q"
    using M by (auto simp: input_inv_def pending_inv_def) (metis is_rejected.simps(1) is_unknown.elims(2) is_rejected.simps(4))
  with inv i M show ?thesis
    by (auto simp: input_inv_def ledger_inv_def D(3) pending_inv_None)
qed

lemma input_inv_claim:
  assumes inv: "input_inv q" and ph: "sys_phase q = Preparing h p rv"
    and cl: "steer_claim b h p same now (sys_state q) = Inr (Inr (r, s'))"
  shows "input_inv (q\<lparr>sys_state := s', sys_phase := InFlight r,
      sys_deliveries := Called (receipt_id r) # sys_deliveries q\<rparr>)"
proof -
  from cl obtain c where c: "inputs_peek (sys_state q) = Inr (Some c)" "pti_id c = pti_id p"
      "rc_admission r = AdmissionUnknown (pti_id p)" and rec: "record_receipt r (sys_state q) = Inr s'"
    by (rule steer_claimD)
  from rec obtain rs' where ret: "retainHarnessInputReceipt (receipts (sys_state q)) r = Inr rs'"
    and s': "s' = put_receipts rs' (sys_state q)" by (rule record_receiptE)
  from c(1) obtain i where i: "st_pendingInput (sys_state q) = Some i" "pti_id c = pi_id i"
    "\<And>x. find_receipt (sys_state q) (pi_id i) = Some x \<Longrightarrow> is_rejected (rc_admission x)"
    by (rule inputs_peek_SomeD) blast
  have id: "receipt_id r = pi_id i" using c(2,3) i(2) by (simp add: receipt_id_def)
  from inv have L: "ledger_inv (receipts (sys_state q)) (sys_deliveries q) (sys_used q)"
    and P: "pending_inv (sys_state q) (sys_deliveries q) (sys_used q)" by (simp_all add: input_inv_def)
  have d: "distinct (map receipt_id (receipts (sys_state q)))" using L by (simp add: ledger_inv_def)
  have nr: "is_rejected (rc_admission x)" if "x \<in> set (receipts (sys_state q))" "receipt_id x = pi_id i" for x
    using i(3) that d by (simp add: find_receipt_distinct)
  have u: "undelivered (sys_deliveries q) (pi_id i)" and us: "pi_id i \<in> sys_used q"
    using P i(1) nr by (auto simp: pending_inv_def) (metis is_rejected.simps(4) is_unknown.elims(2))
  note m = retain_receipts(1,2) [OF ret]
  have "ledger_inv rs' (Called (receipt_id r) # sys_deliveries q) (sys_used q)"
  proof -
    have old: "x \<in> set (receipts (sys_state q))" if "x \<in> set rs'" "receipt_id x \<noteq> pi_id i" for x
      using m(2) [OF that(1)] that(2) id by blast
    have "receipt_id x \<in> sys_used q" if "x \<in> set rs'" for x
      using us L old [OF that] by (cases "receipt_id x = pi_id i") (auto simp: ledger_inv_def)
    then have "receipt_id ` set rs' \<subseteq> sys_used q" by blast
    moreover have "last_delivery (Called (receipt_id r) # sys_deliveries q) (receipt_id x) = Some (Called (receipt_id x))"
      if "x \<in> set rs'" "\<not> is_rejected (rc_admission x)" for x
      using L old [OF that(1)] that(2) id by (auto simp: ledger_inv_def)
    ultimately show ?thesis
      using L u us retain_distinct [OF d ret] by (simp add: ledger_inv_def id)
  qed
  moreover have "pending_inv s' (Called (receipt_id r) # sys_deliveries q) (sys_used q)"
  proof -
    have "x = r" if "x \<in> set rs'" "receipt_id x = pi_id i" for x using m(2) [OF that(1)] that(2) id by auto
    then have "\<not> is_admitted (rc_admission x)" if "x \<in> set rs'" "receipt_id x = pi_id i" for x
      using that c(3) by auto
    moreover have "\<exists>x \<in> set rs'. receipt_id x = pi_id i \<and> is_unknown (rc_admission x)"
      using m(1) id c(3) by auto
    moreover have "st_pendingPrompt (sys_state q) \<noteq> None" using P i(1) by (auto simp: pending_inv_def)
    ultimately show ?thesis using us i(1) by (auto simp: pending_inv_def s')
  qed
  ultimately show ?thesis using m(1) c(3) by (simp add: input_inv_def s' active_receipt_def)
qed

lemma input_inv_step: "input_step q q' \<Longrightarrow> input_inv q \<Longrightarrow> input_inv q'"
proof (induction rule: input_step.induct)
  case (set_input i q content atts intent s')
  then have s': "s' = (sys_state q)\<lparr>st_pendingPrompt := Some content, st_pendingPromptMode := Some intent,
       st_pendingInput := Some \<lparr>pi_id = i, pi_attachments = atts\<rparr>\<rparr>"
    by (auto simp: inputs_set_def split: sum.splits)
  from set_input have L: "ledger_inv (receipts (sys_state q)) (sys_deliveries q) (sys_used q)"
    by (simp add: input_inv_def)
  with set_input(1) have "undelivered (sys_deliveries q) i" "\<forall>r \<in> set (receipts (sys_state q)). receipt_id r \<noteq> i"
    by (auto simp: ledger_inv_def intro!: undelivered_fresh)
  with set_input(3) show ?case
    by (auto simp: input_inv_def ledger_inv_def pending_inv_def s')
next
  case (set_attachments atts q s')
  then have "s' = sys_state q \<or> (\<exists>p. st_pendingInput (sys_state q) = Some p
      \<and> s' = (sys_state q)\<lparr>st_pendingInput := Some (p\<lparr>pi_attachments := atts\<rparr>)\<rparr>)"
    by (auto simp: inputs_setAttachments_def split: sum.splits option.splits)
  with set_attachments(2) show ?case
    by (auto simp: input_inv_def pending_inv_def)
next
  case (clear_input q s')
  then have "s' = clear_pending (sys_state q)" by (auto simp: inputs_clear_def split: sum.splits)
  with clear_input(2) show ?case by (simp add: input_inv_def pending_inv_None)
next
  case (consume_input q p s')
  then show ?case by (intro input_inv_consume)
next
  case (steer_input q b i h p)
  then show ?case by (simp add: input_inv_def active_receipt_def)
next
  case (claim_input q h p rv b now r s')
  then show ?case by (intro input_inv_claim)
next
  case (reconcile_input q b i r)
  then have "find_receipt (sys_state q) i = Some r" "\<not> is_rejected (rc_admission r)"
    by (auto simp: reconcile_begin_def split: if_splits option.splits sum.splits)
  moreover from this(1) have "r \<in> set (receipts (sys_state q))"
    by (auto simp: find_receipt_def find_Some_iff)
  ultimately show ?case using reconcile_input(3) by (simp add: input_inv_def active_receipt_def)
next
  case (answer_input q r b a res s')
  then have "active_receipt (sys_phase q) = Some r" by (auto simp: active_receipt_def)
  with answer_input show ?case by (intro input_inv_finish)
next
  case (failed_input q r b validation s')
  then have act: "active_receipt (sys_phase q) = Some r" by (simp add: active_receipt_def)
  show ?case
  proof (cases validation)
    case True
    obtain res where "steer_finish b r (AdmissionRejected (receipt_id r) UnsupportedSteering) (sys_state q) = (res, s')"
      using failed_input(2) True by (cases "steer_finish b r (AdmissionRejected (receipt_id r) UnsupportedSteering) (sys_state q)")
        (auto simp: steer_failed_def)
    from input_inv_finish [OF failed_input(3) act this] show ?thesis .
  next
    case False
    with failed_input(2) have "s' = sys_state q" by (simp add: steer_failed_def)
    moreover have "answer_deliveries r (sys_state q) = []"
      using failed_input(3) act by (intro no_answer) (auto simp: input_inv_def ledger_inv_def)
    ultimately show ?thesis using failed_input(3) by (simp add: input_inv_def active_receipt_def)
  qed
next
  case (abandon_operation q)
  then show ?case by (simp add: input_inv_def active_receipt_def)
next
  case (other_change s' q)
  then show ?case by (simp add: input_inv_def pending_inv_def)
qed

lemma input_inv_steps: "input_step\<^sup>*\<^sup>* q q' \<Longrightarrow> input_inv q \<Longrightarrow> input_inv q'"
  by (induction rule: rtranclp_induct) (auto intro: input_inv_step)

lemma input_inv_reachable: "inputs_reachable t q \<Longrightarrow> input_inv q"
  unfolding inputs_reachable_def
  by (erule input_inv_steps)
     (simp add: input_inv_def initial_inputs_def createInitialState_def ledger_inv_def pending_inv_def
        receipts_def active_receipt_def)

text \<open>
  C11. An input reaches the agent at most once: whatever the user, the engine and the backend do and in
  whatever order their asynchronous steps happen, a prompt or a native call is only ever made with an
  input that no prompt took and whose native calls, if any, were all refused; an answer that was lost
  keeps the input from being sent again.
\<close>

theorem inputs_delivered_once:
  assumes "inputs_reachable t q"
  shows "delivered_once (sys_deliveries q)"
  using input_inv_reachable [OF assms] by (simp add: input_inv_def ledger_inv_def)

definition sample_binding :: harness_binding where
  "sample_binding = \<lparr>hb_adapter = AdapterNative ''codex'', hb_nativeId = ''n'', hb_ownerId = ''o'', hb_contextId = ''c'',
     hb_directory = ''/r'', hb_executionHost = None, hb_questionPolicy = None, hb_secretFiles = False,
     hb_controlTools = None, hb_controlChatId = None\<rparr>"

definition sample_backend :: input_backend where
  "sample_backend = \<lparr>ib_adapter = AdapterNative ''codex'', ib_connected = True, ib_steering = True\<rparr>"

definition sample_receipt :: "input_admission \<Rightarrow> input_receipt" where
  "sample_receipt a = \<lparr>rc_conversation = sample_binding, rc_admission = a, rc_submittedAt = 5\<rparr>"

text \<open>A running task with the input \<open>a\<close> pending and the given receipts.\<close>

definition steering_state :: "input_receipt list \<Rightarrow> task_state" where
  "steering_state rs = (createInitialState ''t'')\<lparr>st_status := Running,
     st_session := Some \<lparr>session_id = ''s'', session_serverUrl = None, session_binding = Binding sample_binding\<rparr>,
     st_pendingPrompt := Some ''hello'', st_pendingPromptMode := Some DirectUser,
     st_pendingInput := Some \<lparr>pi_id = ''a'', pi_attachments = []\<rparr>,
     st_harness := (if rs = [] then None else Some \<lparr>hs_integrityInvalid = False, hs_cleanup = None,
        hs_gitSafety = None, hs_gitOutcome = None, hs_inputs = Some rs, hs_other = []\<rparr>)\<rparr>"

text \<open>A message that is sent natively, refused, and then taken by a prompt.\<close>

definition steering_system :: "task_state \<Rightarrow> input_phase \<Rightarrow> delivery list \<Rightarrow> input_system" where
  "steering_system s ph ds = \<lparr>sys_state = s, sys_phase = ph, sys_used = {''a''}, sys_revision = 1, sys_deliveries = ds\<rparr>"

lemma steering_deliveries: "sys_deliveries (steering_system s ph ds) = ds"
  by (simp add: steering_system_def)

lemmas sample_input_defs =
  steering_system_def steering_state_def sample_receipt_def sample_backend_def sample_binding_def
  createInitialState_def receipts_def find_receipt_def receipt_id_def integrity_invalid_def assertMutable_def

theorem inputs_delivered_once_witness:
  "\<exists>q. inputs_reachable ''t'' q \<and> sys_deliveries q = [Prompted ''a'', Refused ''a'', Called ''a'']
     \<and> delivered_once (sys_deliveries q)"
proof -
  let ?s0 = "(createInitialState ''t'')\<lparr>st_pendingPrompt := Some ''hello'',
        st_pendingPromptMode := Some DirectUser, st_pendingInput := Some \<lparr>pi_id = ''a'', pi_attachments = []\<rparr>\<rparr>"
  let ?p = "\<lparr>pti_id = ''a'', pti_content = ''hello'', pti_attachments = [], pti_intent = DirectUser\<rparr>"
  let ?u = "sample_receipt (AdmissionUnknown ''a'')"
  let ?r = "sample_receipt (AdmissionRejected ''a'' TurnChanged)"
  have s1: "input_step (initial_inputs (createInitialState ''t'')) (steering_system ?s0 NoOperation [])"
    using set_input [of "''a''" "initial_inputs (createInitialState ''t'')" "''hello''" "[]" DirectUser]
    by (simp add: initial_inputs_def inputs_set_def sample_input_defs)
  have s2: "input_step (steering_system ?s0 NoOperation []) (steering_system (steering_state []) NoOperation [])"
    using other_change [of "steering_state []" "steering_system ?s0 NoOperation []"]
    by (simp add: sample_input_defs)
  have s3: "input_step (steering_system (steering_state []) NoOperation [])
      (steering_system (steering_state []) (Preparing sample_binding ?p 1) [])"
    using steer_input [of "steering_system (steering_state []) NoOperation []" sample_backend "''a''" sample_binding ?p]
    by (simp add: steer_begin_def steer_pending_def inputs_peek_def owned_binding_def steerable_status_def sample_input_defs)
  have s4: "input_step (steering_system (steering_state []) (Preparing sample_binding ?p 1) [])
      (steering_system (steering_state [?u]) (InFlight ?u) [Called ''a''])"
    using claim_input [of "steering_system (steering_state []) (Preparing sample_binding ?p 1) []"
        sample_binding ?p 1 sample_backend 5 ?u "steering_state [?u]"]
    by (simp add: steer_claim_def inputs_peek_def owned_binding_def steerable_status_def record_receipt_def
        requireMatchingHarnessBindings_def retainHarnessInputReceipt_def last_n_def put_receipts_def sample_input_defs Let_def)
  have s5: "input_step (steering_system (steering_state [?u]) (InFlight ?u) [Called ''a''])
      (steering_system (steering_state [?r]) NoOperation [Refused ''a'', Called ''a''])"
    using answer_input [of "steering_system (steering_state [?u]) (InFlight ?u) [Called ''a'']" ?u sample_backend
        "AdmissionRejected ''a'' TurnChanged" "Inr (AdmissionRejected ''a'' TurnChanged)" "steering_state [?r]"]
    by (simp add: steer_finish_def owned_binding_def record_receipt_def answer_deliveries_def
        requireMatchingHarnessBindings_def retainHarnessInputReceipt_def last_n_def put_receipts_def sample_input_defs Let_def)
  have s6: "input_step (steering_system (steering_state [?r]) NoOperation [Refused ''a'', Called ''a''])
      (steering_system (clear_pending (steering_state [?r])) NoOperation [Prompted ''a'', Refused ''a'', Called ''a''])"
    using consume_input [of "steering_system (steering_state [?r]) NoOperation [Refused ''a'', Called ''a'']" ?p]
    by (simp add: inputs_consume_def inputs_peek_def inputs_clear_def clear_pending_def sample_input_defs)
  have r: "inputs_reachable ''t'' (steering_system (clear_pending (steering_state [?r])) NoOperation
      [Prompted ''a'', Refused ''a'', Called ''a''])"
    unfolding inputs_reachable_def
    by (rule converse_rtranclp_into_rtranclp, rule s1, rule converse_rtranclp_into_rtranclp, rule s2,
        rule converse_rtranclp_into_rtranclp, rule s3, rule converse_rtranclp_into_rtranclp, rule s4,
        rule converse_rtranclp_into_rtranclp, rule s5, rule converse_rtranclp_into_rtranclp, rule s6,
        rule rtranclp.rtrancl_refl)
  show ?thesis by (intro exI conjI, rule r, rule steering_deliveries, rule inputs_delivered_once [OF r])
qed

text \<open>
  The receipt ledger is bounded and forgets nothing that is unresolved: recording a receipt either
  refuses at 800 other unresolved ones, or leaves at most 999 receipts, the new one among them and every
  other unresolved one still there.
\<close>

theorem receipt_ledger_bounded:
  assumes "\<forall>x \<in> set rs. receipt_id x \<noteq> receipt_id r"
  shows "case retainHarnessInputReceipt rs r of
      Inl e \<Rightarrow> e = InputCapacity \<and> 800 \<le> length (filter (\<lambda>x. is_unknown (rc_admission x)) rs)
    | Inr rs' \<Rightarrow> length rs' \<le> 999 \<and> r \<in> set rs' \<and> set rs' \<subseteq> insert r (set rs)
        \<and> filter (\<lambda>x. is_unknown (rc_admission x)) rs = filter (\<lambda>x. is_unknown (rc_admission x)) (butlast rs')"
proof -
  let ?U = "\<lambda>x. is_unknown (rc_admission x)"
  have f: "filter (\<lambda>x. receipt_id x \<noteq> receipt_id r) rs = rs" using assms by simp
  show ?thesis
  proof (cases "retainHarnessInputReceipt rs r")
    case (Inl e)
    then show ?thesis by (simp add: retainHarnessInputReceipt_def Let_def f split: if_splits)
  next
    case (Inr rs')
    then have "rs' = filter ?U rs @ last_n 199 (filter (\<lambda>x. \<not> ?U x) rs) @ [r]"
      by (simp add: retainHarnessInputReceipt_def Let_def f split: if_splits)
    moreover have "filter ?U (last_n 199 (filter (\<lambda>x. \<not> ?U x) rs)) = []"
      by (auto simp: filter_empty_conv dest!: set_last_n)
    ultimately show ?thesis using Inr retain_receipts [OF Inr] by (auto simp: butlast_append)
  qed
qed

theorem receipt_ledger_bounded_witness:
  "case retainHarnessInputReceipt [sample_receipt (AdmissionUnknown ''b'')] (sample_receipt (AdmissionUnknown ''a'')) of
      Inl e \<Rightarrow> False | Inr rs' \<Rightarrow> length rs' \<le> 999 \<and> sample_receipt (AdmissionUnknown ''a'') \<in> set rs'"
  using receipt_ledger_bounded [of "[sample_receipt (AdmissionUnknown ''b'')]" "sample_receipt (AdmissionUnknown ''a'')"]
  by (simp add: receipt_id_def sample_receipt_def split: sum.splits)

end
