(* ===== verification/TaskEngine.thy ===== *)
theory TaskEngine
  imports TaskModel PromiseMarkers EngineInputs
begin

text \<open>
  The task engine (\<open>src/core/engine/engine-core.ts\<close> with \<open>engine-prompt.ts\<close>, \<open>engine-git.ts\<close> and
  \<open>engine-types.ts\<close>): the loop that sends prompts to an agent until the task is complete, blocked,
  failed, stopped or out of iterations.

  What the environment does during an iteration is
  one \<open>turn\<close>: the calls that arrive while the engine waits, the agent's answer, and the results of Git and
  of the native harness. A run of the loop consumes a list of turns; it has not returned when the list
  ends first.

  The calls \<open>emitLog\<close> and the transcript that agent events build are not part of the model; neither are
  failures of \<open>onPersistState\<close> and the writes of harness projections to the database.
\<close>

section \<open>Results\<close>

datatype engine_error =
  BadTransition transition_error
| WrongStatus string task_status
| InputFailure input_error
| Failure string string "string option"

fun status_name :: "task_status \<Rightarrow> string" where
  "status_name Idle = ''idle''" | "status_name Draft = ''draft''" | "status_name Planning = ''planning''"
| "status_name Starting = ''starting''" | "status_name Running = ''running''" | "status_name Waiting = ''waiting''"
| "status_name Completed = ''completed''" | "status_name Stopped = ''stopped''" | "status_name Failed = ''failed''"
| "status_name MaxIterations = ''max_iterations''" | "status_name ResolvingConflicts = ''resolving_conflicts''"
| "status_name AcceptedLocal = ''accepted_local''" | "status_name Merged = ''merged''"
| "status_name Pushed = ''pushed''" | "status_name Deleted = ''deleted''"

definition arrow :: string where "arrow = [CHR 0xE2, CHR 0x86, CHR 0x92]"

fun error_message :: "engine_error \<Rightarrow> string" where
  "error_message (BadTransition (InvalidTransition a b)) = ''Invalid task status transition: '' @ status_name a
     @ '' '' @ arrow @ '' '' @ status_name b @ '' (TaskEngine.updateState)''"
| "error_message (WrongStatus op s) = ''Cannot '' @ op @ '' in status: '' @ status_name s"
| "error_message (InputFailure _) = ''Input history is invalid.''"
| "error_message (Failure _ m _) = m"

fun error_name :: "engine_error \<Rightarrow> string" where
  "error_name (InputFailure _) = ''TaskOperationError''"
| "error_name (Failure n _ _) = n"
| "error_name _ = ''Error''"

fun error_code :: "engine_error \<Rightarrow> string option" where
  "error_code (InputFailure _) = Some ''task_input_unresolved''"
| "error_code (Failure _ _ c) = c"
| "error_code _ = None"

text \<open>\<open>String(error)\<close>.\<close>

definition error_string :: "engine_error \<Rightarrow> string" where
  "error_string x = error_name x @ '': '' @ error_message x"

section \<open>The engine\<close>

datatype prompt_body =
  PlanGoal string "consecutive_error_tracker option"
| PlanFeedback string
| DirectMessage string
| ExecutionPrompt string "string option" "consecutive_error_tracker option"

record prompt_input =
  pr_body :: prompt_body
  pr_model :: model_config
  pr_attachments :: "message_attachment list"
  pr_recovered :: bool

datatype engine_event =
  EvStarted
| EvIterationStart nat
| EvIterationEnd nat iteration_outcome
| EvUserMessage ident string "message_attachment list"
| EvGitCommit nat git_commit
| EvCommentsAddressed nat
| EvCompleted nat
| EvStopped string bool
| EvError string nat
| EvPlanReady string bool
| EvAutoAccept
| EvPendingUpdated "string option" "model_config option"
| EvSessionAborted string
| EvPlanningFolderCleared

record engine =
  en_config :: task_config
  en_state :: task_state
  en_native :: bool
  en_stopDetector :: "string \<Rightarrow> bool"
  en_aborted :: bool
  en_injectionPending :: bool
  en_isTaskRunning :: bool
  en_isStarting :: bool
  en_lastPromptMode :: task_prompt_intent
  en_skipGitSetup :: bool
  en_singleTurn :: bool
  en_onPlanReady :: bool
  en_onCompleted :: bool
  en_completionFollowUp :: bool
  en_prompts :: "prompt_input list"
  en_events :: "engine_event list"
  en_persisting :: bool
  en_saved :: "task_state option"
  en_clock :: timestamp

type_synonym 'a eng = "(engine, engine_error, 'a) op"

definition emit :: "engine_event \<Rightarrow> unit eng" where
  "emit ev = modify (\<lambda>e. e\<lparr>en_events := en_events e @ [ev]\<rparr>)"

text \<open>\<open>triggerPersistence\<close>: the current state is handed to \<open>onPersistState\<close> until persistence is disabled.\<close>

definition triggerPersistence :: "unit eng" where
  "triggerPersistence = modify (\<lambda>e. if en_persisting e then e\<lparr>en_saved := Some (en_state e)\<rparr> else e)"

definition set_state :: "(task_state \<Rightarrow> task_state) \<Rightarrow> engine \<Rightarrow> engine" where
  "set_state f e = e\<lparr>en_state := f (en_state e)\<rparr>"

text \<open>
  \<open>updateState\<close>: the transition is asserted when the update names a status that differs from the current
  one, then the fields are assigned.
\<close>

definition updateState :: "task_status option \<Rightarrow> (task_state \<Rightarrow> task_state) \<Rightarrow> unit eng" where
  "updateState st f e = (case st of
     None \<Rightarrow> (Inr (), set_state f e)
   | Some s \<Rightarrow>
       if s = st_status (en_state e) then (Inr (), set_state f e)
       else case assertValidTransition (st_status (en_state e)) s of
         Inl x \<Rightarrow> (Inl (BadTransition x), e)
       | Inr _ \<Rightarrow> (Inr (), set_state (\<lambda>x. (f x)\<lparr>st_status := s\<rparr>) e))"

definition shouldContinue :: "engine \<Rightarrow> bool" where
  "shouldContinue e = (st_status (en_state e) \<in> {Running, Starting, Planning})"

definition inPlanMode :: "engine \<Rightarrow> bool" where
  "inPlanMode e = (st_status (en_state e) = Planning
     \<and> (case st_planMode (en_state e) of Some p \<Rightarrow> pm_active p | None \<Rightarrow> False))"

text \<open>\<open>busy\<close> tells whether an input operation is active.\<close>

definition isExecuting :: "bool \<Rightarrow> engine \<Rightarrow> bool" where
  "isExecuting busy e = (en_isStarting e \<or> en_isTaskRunning e \<or> busy \<or> en_completionFollowUp e)"

definition resetRestartFlags :: "engine \<Rightarrow> engine" where
  "resetRestartFlags e = e\<lparr>en_aborted := False, en_injectionPending := False\<rparr>"

definition lift_inputs :: "(task_state \<Rightarrow> input_error + task_state) \<Rightarrow> unit eng" where
  "lift_inputs f e = (case f (en_state e) of Inl x \<Rightarrow> (Inl (InputFailure x), e) | Inr s \<Rightarrow> (Inr (), e\<lparr>en_state := s\<rparr>))"

section \<open>Harness state\<close>

text \<open>\<open>refreshHarnessState\<close>: the new harness state, with the inputs of the current one when it has any.\<close>

definition refreshHarnessState :: "harness_state option \<Rightarrow> engine \<Rightarrow> engine" where
  "refreshHarnessState h e = set_state (\<lambda>s. s\<lparr>st_harness :=
     (case Option.bind (st_harness s) hs_inputs of
        None \<Rightarrow> h
      | Some rs \<Rightarrow> Some ((case h of Some x \<Rightarrow> x | None \<Rightarrow>
          \<lparr>hs_integrityInvalid = False, hs_cleanup = None, hs_gitSafety = None, hs_gitOutcome = None,
           hs_inputs = None, hs_other = []\<rparr>)\<lparr>hs_inputs := Some rs\<rparr>))\<rparr>) e"

definition harness_or_empty :: "engine \<Rightarrow> harness_state" where
  "harness_or_empty e = (case st_harness (en_state e) of Some h \<Rightarrow> h | None \<Rightarrow>
     \<lparr>hs_integrityInvalid = False, hs_cleanup = None, hs_gitSafety = None, hs_gitOutcome = None, hs_inputs = None, hs_other = []\<rparr>)"

definition session_binding_of :: "engine \<Rightarrow> harness_binding option" where
  "session_binding_of e = (case st_session (en_state e) of
     Some x \<Rightarrow> (case session_binding x of Binding b \<Rightarrow> Some b | _ \<Rightarrow> None)
   | None \<Rightarrow> None)"

definition recordHarnessGitOutcome :: "git_outcome_status \<Rightarrow> engine \<Rightarrow> engine" where
  "recordHarnessGitOutcome o' e = (case session_binding_of e of
     Some b \<Rightarrow> if hb_adapter b = AdapterAcp then e
       else refreshHarnessState (Some ((harness_or_empty e)\<lparr>hs_gitOutcome := Some o'\<rparr>)) e
   | None \<Rightarrow> e)"

definition is_safe :: "harness_git_safety \<Rightarrow> bool" where
  "is_safe g = (case g of GitSafe _ \<Rightarrow> True | GitBlocked _ _ \<Rightarrow> False)"

definition checkHarnessGitSafety :: "harness_git_safety \<Rightarrow> bool eng" where
  "checkHarnessGitSafety g e =
     (if session_binding_of e = None \<or> \<not> en_native e then (Inr True, e)
      else (Inr (is_safe g), refreshHarnessState (Some ((harness_or_empty e)\<lparr>hs_gitSafety := Some g\<rparr>)) e))"

definition needsWorkspaceFinalization :: "engine \<Rightarrow> bool" where
  "needsWorkspaceFinalization e = (en_native e \<and> st_status (en_state e) = Completed
     \<and> Option.bind (st_harness (en_state e)) hs_gitOutcome \<noteq> Some OutcomeSucceeded)"

section \<open>Calls from outside\<close>

definition setPendingPrompt :: "ident \<Rightarrow> string \<Rightarrow> message_attachment list \<Rightarrow> task_prompt_intent \<Rightarrow> unit eng" where
  "setPendingPrompt i m atts intent = lift_inputs (inputs_set i m atts intent)"

definition clearPendingPrompt :: "unit eng" where
  "clearPendingPrompt = lift_inputs inputs_clear"

definition setPendingModel :: "model_config \<Rightarrow> unit eng" where
  "setPendingModel m = seq (updateState None (\<lambda>s. s\<lparr>st_pendingModel := Some m\<rparr>)) (emit (EvPendingUpdated None (Some m)))"

definition clearPendingModel :: "unit eng" where
  "clearPendingModel = seq (updateState None (\<lambda>s. s\<lparr>st_pendingModel := None\<rparr>)) (emit (EvPendingUpdated None None))"

definition clearPending :: "unit eng" where
  "clearPending = seq (lift_inputs inputs_clear)
     (seq (updateState None (\<lambda>s. s\<lparr>st_pendingModel := None\<rparr>)) (emit (EvPendingUpdated None None)))"

text \<open>
  A message is set as a direct user message; a running task has its current turn aborted. The call that
  interrupts the backend is seen by the model as the end of the turn.
\<close>

definition injectPendingNow ::
  "ident \<Rightarrow> string option \<Rightarrow> model_config option \<Rightarrow> message_attachment list option \<Rightarrow> unit eng" where
  "injectPendingNow i msg model atts =
     seq (case msg of
            Some m \<Rightarrow> lift_inputs (inputs_set i m (case atts of Some a \<Rightarrow> a | None \<Rightarrow> []) DirectUser)
          | None \<Rightarrow> (case atts of Some a \<Rightarrow> lift_inputs (inputs_setAttachments a) | None \<Rightarrow> ret ()))
     (seq (case model of Some m \<Rightarrow> updateState None (\<lambda>s. s\<lparr>st_pendingModel := Some m\<rparr>) | None \<Rightarrow> ret ())
     (seq (emit (EvPendingUpdated msg model))
     (modify (\<lambda>e. if en_isTaskRunning e then e\<lparr>en_injectionPending := True, en_aborted := True\<rparr> else e))))"

text \<open>Feedback on a plan: a running iteration is interrupted, otherwise the caller starts a plan iteration.\<close>

definition injectPlanFeedback :: "ident \<Rightarrow> string \<Rightarrow> message_attachment list \<Rightarrow> bool eng" where
  "injectPlanFeedback i feedback atts =
     seq (lift_inputs (inputs_set i feedback atts EngineContext))
     (seq (emit (EvPendingUpdated (Some feedback) None))
     (\<lambda>e. if en_isTaskRunning e then (Inr False, e\<lparr>en_injectionPending := True\<rparr>) else (Inr True, e)))"

definition beginShutdown :: "engine \<Rightarrow> engine" where
  "beginShutdown e = e\<lparr>en_injectionPending := False, en_aborted := True\<rparr>"

text \<open>\<open>stop\<close> before and after it waited for the backend.\<close>

definition stop_request :: "engine \<Rightarrow> engine" where
  "stop_request e = e\<lparr>en_aborted := True\<rparr>"

definition stop_settle :: "bool \<Rightarrow> string \<Rightarrow> unit eng" where
  "stop_settle wasCompleted reason e =
     (if \<not> wasCompleted \<and> st_status (en_state e) \<noteq> Completed
      then seq (updateState (Some Stopped) (\<lambda>s. s\<lparr>st_completedAt := Some (en_clock e)\<rparr>)) (emit (EvStopped reason False)) e
      else (Inr (), e))"

definition disable_persistence :: "engine \<Rightarrow> engine" where
  "disable_persistence e = e\<lparr>en_persisting := False\<rparr>"

text \<open>\<open>stop\<close> of an engine that is idle.\<close>

definition stop :: "string \<Rightarrow> unit eng" where
  "stop reason e = (let w = st_status (en_state e) = Completed in
     seq (stop_settle w reason) (seq triggerPersistence (modify disable_persistence)) (stop_request e))"

text \<open>The result tells whether the native workspace was settled and safe.\<close>

definition stopForDeletion :: "bool \<Rightarrow> bool eng" where
  "stopForDeletion safe e = (let e' = stop_request (disable_persistence e) in
     (Inr (case session_binding_of e of Some b \<Rightarrow> hb_adapter b = AdapterAcp \<or> safe | None \<Rightarrow> True), e'))"

definition abortSessionOnly :: "string \<Rightarrow> unit eng" where
  "abortSessionOnly reason =
     seq (modify stop_request) (seq (emit (EvSessionAborted reason)) (seq triggerPersistence (modify disable_persistence)))"

definition engine_shutdown :: "unit eng" where
  "engine_shutdown = seq (modify beginShutdown) (abortSessionOnly ''Server shutdown'')"

text \<open>The calls that can arrive while the engine waits for its environment.\<close>

datatype command =
  InjectPending ident "string option" "model_config option" "message_attachment list option"
| InjectFeedback ident string "message_attachment list"
| StopRequested
| StopSettled string
| ShutdownRequested

fun command_effect :: "command \<Rightarrow> unit eng" where
  "command_effect (InjectPending i msg model atts) = injectPendingNow i msg model atts"
| "command_effect (InjectFeedback i m atts) = bind (injectPlanFeedback i m atts) (\<lambda>_. ret ())"
| "command_effect StopRequested = modify stop_request"
| "command_effect (StopSettled reason) = stop_settle False reason"
| "command_effect ShutdownRequested = modify beginShutdown"

text \<open>An error is thrown to the caller of the command, not into the loop.\<close>

definition apply_commands :: "command list \<Rightarrow> unit eng" where
  "apply_commands cs = modify (fold (\<lambda>c e. snd (command_effect c e)) cs)"

section \<open>Turns\<close>

text \<open>
  What the backend did with a prompt: it answered, reported an error, asked a question, or the stream
  threw an error. Session loss with one retry ends in one of these.
\<close>

datatype turn_signal = Answered | ErrorReported string string | QuestionAsked | StreamFailed engine_error

datatype commit_result =
  NothingToCommit
| Committed string string nat
| CommitFailed
| StatusFailed engine_error

record turn =
  tn_early :: "command list"
  tn_refused :: "engine_error option"
  tn_recovered :: bool
  tn_during :: "command list"
  tn_elapsed :: nat
  tn_signal :: turn_signal
  tn_content :: string
  tn_messages :: nat
  tn_tools :: nat
  tn_commitSafety :: harness_git_safety
  tn_beforeCommit :: bool
  tn_commit :: commit_result
  tn_atCommit :: "command list"
  tn_settled :: bool
  tn_finalSafety :: harness_git_safety
  tn_planFile :: "string option"
  tn_late :: "command list"

record iteration_ctx =
  ctx_outcome :: iteration_outcome
  ctx_error :: "string option"
  ctx_errorCode :: "string option"

record iteration_result =
  ir_promptMode :: task_prompt_intent
  ir_outcome :: iteration_outcome
  ir_response :: string
  ir_error :: "string option"
  ir_errorCode :: "string option"

section \<open>Prompts\<close>

definition consumeInitialPromptAttachments :: "message_attachment list eng" where
  "consumeInitialPromptAttachments e =
     (let atts = (case st_initialPromptAttachments (en_state e) of Some a \<Rightarrow> a | None \<Rightarrow> []) in
      (Inr atts, set_state (\<lambda>s. s\<lparr>st_initialPromptAttachments := None\<rparr>) e))"

definition consumePendingOrInitialAttachments :: "pending_task_input option \<Rightarrow> message_attachment list eng" where
  "consumePendingOrInitialAttachments p =
     (case p of Some x \<Rightarrow> if pti_attachments x \<noteq> [] then ret (pti_attachments x) else consumeInitialPromptAttachments
      | None \<Rightarrow> consumeInitialPromptAttachments)"

definition initial_goal_id :: "engine \<Rightarrow> ident" where
  "initial_goal_id e = ''user-msg-'' @ cfg_id (en_config e) @ ''-initial-goal''"

definition take_pending_model :: "unit eng" where
  "take_pending_model = modify (\<lambda>e. case st_pendingModel (en_state e) of
     None \<Rightarrow> e
   | Some m \<Rightarrow> set_state (\<lambda>s. s\<lparr>st_pendingModel := None\<rparr>) (e\<lparr>en_config := (en_config e)\<lparr>cfg_model := m\<rparr>\<rparr>))"

text \<open>The prompt goes to the agent with the task's model, which is the pending one when there was one.\<close>

definition send_prompt :: "prompt_body \<Rightarrow> message_attachment list \<Rightarrow> bool \<Rightarrow> unit eng" where
  "send_prompt b atts recovered = modify (\<lambda>e. e\<lparr>en_prompts := en_prompts e @
     [\<lparr>pr_body = b, pr_model = cfg_model (en_config e), pr_attachments = atts, pr_recovered = recovered\<rparr>]\<rparr>)"

definition default_feedback :: string where
  "default_feedback = ''Please refine the plan based on feedback.''"

definition buildPlanModePrompt :: "bool \<Rightarrow> pending_task_input option \<Rightarrow> unit eng" where
  "buildPlanModePrompt recovered p e =
     (let rounds = (case st_planMode (en_state e) of Some m \<Rightarrow> pm_feedbackRounds m | None \<Rightarrow> 0) in
      if rounds = 0 \<and> p = None then
        bind consumeInitialPromptAttachments (\<lambda>atts.
          seq (emit (EvUserMessage (initial_goal_id e) (cfg_prompt (en_config e)) atts))
            (send_prompt (PlanGoal (cfg_prompt (en_config e)) (st_consecutiveErrors (en_state e))) atts recovered)) e
      else
        bind (consumePendingOrInitialAttachments p) (\<lambda>atts.
          seq (case p of Some x \<Rightarrow> emit (EvUserMessage (pti_id x) (pti_content x) atts) | None \<Rightarrow> ret ())
            (send_prompt (PlanFeedback (case p of Some x \<Rightarrow> pti_content x | None \<Rightarrow> default_feedback)) atts recovered)) e)"

definition buildDirectUserPrompt :: "bool \<Rightarrow> pending_task_input \<Rightarrow> unit eng" where
  "buildDirectUserPrompt recovered p =
     (if pti_content p = [] then throw (Failure ''Error'' ''Direct user prompt requested without a pending message'' None)
      else bind (consumePendingOrInitialAttachments (Some p)) (\<lambda>atts.
        seq (emit (EvUserMessage (pti_id p) (pti_content p) atts)) (send_prompt (DirectMessage (pti_content p)) atts recovered)))"

definition buildExecutionPrompt :: "pending_task_input option \<Rightarrow> unit eng" where
  "buildExecutionPrompt p e =
     (let msg = (case p of Some x \<Rightarrow> if pti_content x = [] then None else Some (pti_content x) | None \<Rightarrow> None);
          first = st_currentIteration (en_state e) \<le> 1
      in bind (if msg \<noteq> None then consumePendingOrInitialAttachments p
               else if first then consumeInitialPromptAttachments else ret []) (\<lambda>atts.
           seq (case msg of
                  Some m \<Rightarrow> emit (EvUserMessage (case p of Some x \<Rightarrow> pti_id x | None \<Rightarrow> []) m atts)
                | None \<Rightarrow> whenever first (emit (EvUserMessage (initial_goal_id e) (cfg_prompt (en_config e)) atts)))
             (send_prompt (ExecutionPrompt (cfg_prompt (en_config e)) msg (st_consecutiveErrors (en_state e))) atts False)) e)"

definition consume_input :: "pending_task_input option eng" where
  "consume_input e = (case inputs_consume (en_state e) of
     Inl x \<Rightarrow> (Inl (InputFailure x), e)
   | Inr (p, s) \<Rightarrow> (Inr p, e\<lparr>en_state := s\<rparr>))"

definition buildTaskPrompt :: "bool \<Rightarrow> unit eng" where
  "buildTaskPrompt recovered =
     bind consume_input (\<lambda>p. seq take_pending_model (\<lambda>e.
       if inPlanMode e then buildPlanModePrompt recovered p e
       else case p of
           Some x \<Rightarrow> if pti_intent x = DirectUser then buildDirectUserPrompt recovered x e else buildExecutionPrompt p e
         | None \<Rightarrow> buildExecutionPrompt p e))"

text \<open>
  \<open>buildPrompt\<close>: it starts over when the pending input changed while its attachments were prepared, so
  what arrives in that time arrives before the reading modelled here.
\<close>

definition buildPrompt :: "bool \<Rightarrow> unit eng" where
  "buildPrompt recovered e = (case inputs_peek (en_state e) of
     Inl x \<Rightarrow> (Inl (InputFailure x), e)
   | Inr p \<Rightarrow>
       if en_aborted e then (Inl (Failure ''AbortError'' ''Task attachment preparation was interrupted.'' None), e)
       else buildTaskPrompt recovered (e\<lparr>en_lastPromptMode :=
              (if inPlanMode e then EngineContext else case p of Some x \<Rightarrow> pti_intent x | None \<Rightarrow> EngineContext)\<rparr>))"

section \<open>One iteration\<close>

fun contains :: "string \<Rightarrow> string \<Rightarrow> bool" where
  "contains p [] = (p = [])"
| "contains p (c # cs) = (starts_with p (c # cs) \<or> contains p cs)"

text \<open>\<open>/<promise>PLAN_READY<\/promise>/i\<close>\<close>

definition planReadyPattern :: "string \<Rightarrow> bool" where
  "planReadyPattern s = contains (map to_upper ''<promise>PLAN_READY</promise>'') (map to_upper s)"

definition evaluateTaskOutcome :: "string \<Rightarrow> iteration_ctx \<Rightarrow> iteration_ctx eng" where
  "evaluateTaskOutcome content ctx e =
     (let kind = map_option pmk_kind (detectTrailingPromiseMarker content) in
      if ctx_outcome ctx = OutcomeError then (Inr ctx, e)
      else if kind = Some KindBlocked then (Inr (ctx\<lparr>ctx_outcome := OutcomeBlocked\<rparr>), e)
      else if inPlanMode e \<and> (kind = Some KindPlanReady \<or> planReadyPattern content)
      then (Inr (ctx\<lparr>ctx_outcome := OutcomePlanReady\<rparr>),
            set_state (\<lambda>s. s\<lparr>st_planMode := map_option (\<lambda>p. p\<lparr>pm_isPlanReady := True\<rparr>) (st_planMode s)\<rparr>) e)
      else if en_stopDetector e content then (Inr (ctx\<lparr>ctx_outcome := OutcomeComplete\<rparr>), e)
      else (Inr ctx, e))"

definition record_commit :: "nat \<Rightarrow> git_commit \<Rightarrow> unit eng" where
  "record_commit it c =
     seq (updateState None (\<lambda>s. s\<lparr>st_git := map_option (\<lambda>g. g\<lparr>commits := commits g @ [c]\<rparr>) (st_git s)\<rparr>))
       (emit (EvGitCommit it c))"

definition commitTaskIteration :: "turn \<Rightarrow> nat \<Rightarrow> bool eng" where
  "commitTaskIteration tn it e = (case tn_commit tn of
     NothingToCommit \<Rightarrow> (Inr True, e)
   | StatusFailed x \<Rightarrow> (Inl x, e)
   | Committed sha msg files \<Rightarrow>
       if \<not> tn_beforeCommit tn then (Inr False, e)
       else seq (record_commit it \<lparr>commit_iteration = it, commit_sha = sha, commit_message = msg,
                   commit_timestamp = en_clock e, commit_filesChanged = files\<rparr>) (ret True) e
   | CommitFailed \<Rightarrow>
       if \<not> tn_beforeCommit tn then (Inr False, e)
       else (Inr False, recordHarnessGitOutcome OutcomeFailed e))"

definition commitIteration :: "turn \<Rightarrow> nat \<Rightarrow> bool eng" where
  "commitIteration tn it =
     bind (checkHarnessGitSafety (tn_commitSafety tn)) (\<lambda>safe.
       if \<not> safe then ret False
       else bind (commitTaskIteration tn it) (\<lambda>committed.
         seq (whenever committed (modify (recordHarnessGitOutcome OutcomeSucceeded))) (ret committed)))"

text \<open>\<open>TaskPromptExecutorImpl.execute\<close>: what happens before the prompt is built may fail.\<close>

definition executeIterationPrompt :: "turn \<Rightarrow> iteration_ctx eng" where
  "executeIterationPrompt tn =
     seq (apply_commands (tn_early tn))
     (seq (case tn_refused tn of Some x \<Rightarrow> throw x | None \<Rightarrow> ret ())
     (seq (buildPrompt (tn_recovered tn))
     (seq triggerPersistence
     (seq (apply_commands (tn_during tn))
     (seq (modify (\<lambda>e. set_state (\<lambda>s. s\<lparr>st_lastActivityAt := Some (en_clock e + tn_elapsed tn)\<rparr>)
             (e\<lparr>en_clock := en_clock e + tn_elapsed tn\<rparr>)))
     (case tn_signal tn of
        Answered \<Rightarrow> ret \<lparr>ctx_outcome = OutcomeContinue, ctx_error = None, ctx_errorCode = None\<rparr>
      | ErrorReported m c \<Rightarrow> ret \<lparr>ctx_outcome = OutcomeError, ctx_error = Some m, ctx_errorCode = Some c\<rparr>
      | QuestionAsked \<Rightarrow> ret \<lparr>ctx_outcome = OutcomeBlocked,
          ctx_error = Some ''The harness requested human input during an unattended task.'', ctx_errorCode = None\<rparr>
      | StreamFailed x \<Rightarrow> throw x))))))"

definition cancelled_code :: string where "cancelled_code = ''acp_request_cancelled''"

text \<open>The \<open>try\<close> block of \<open>runIteration\<close>.\<close>

definition iteration_body :: "turn \<Rightarrow> bool \<Rightarrow> nat \<Rightarrow> iteration_ctx eng" where
  "iteration_body tn skip it =
     bind (executeIterationPrompt tn) (\<lambda>ctx e.
       let ctx1 = (if en_aborted e \<and> ctx_errorCode ctx = Some cancelled_code
                   then ctx\<lparr>ctx_outcome := OutcomeContinue, ctx_error := None\<rparr> else ctx)
       in bind (if ctx_outcome ctx1 = OutcomeContinue \<and> \<not> skip \<and> en_lastPromptMode e \<noteq> DirectUser
                then evaluateTaskOutcome (tn_content tn) ctx1 else ret ctx1) (\<lambda>ctx2.
            if ctx_outcome ctx2 \<noteq> OutcomeError \<and> ctx_outcome ctx2 \<noteq> OutcomeComplete
            then bind (commitIteration tn it) (\<lambda>_. seq (apply_commands (tn_atCommit tn)) (ret ctx2))
            else ret ctx2) e)"

text \<open>\<open>slice(-9)\<close> and the new summary.\<close>

definition buildIterationResult :: "turn \<Rightarrow> nat \<Rightarrow> timestamp \<Rightarrow> iteration_ctx \<Rightarrow> iteration_result eng" where
  "buildIterationResult tn it startedAt ctx =
     seq (\<lambda>e. updateState None (\<lambda>s. s\<lparr>st_lastActivityAt := Some (en_clock e),
            st_recentIterations := last_n 9 (st_recentIterations s) @
              [\<lparr>it_iteration = it, it_startedAt = startedAt, it_completedAt = en_clock e, it_messageCount = tn_messages tn,
                it_toolCallCount = tn_tools tn, it_outcome = ctx_outcome ctx\<rparr>]\<rparr>) e)
     (seq (emit (EvIterationEnd it (ctx_outcome ctx)))
     (seq (whenever (ctx_outcome ctx = OutcomeContinue) triggerPersistence)
     (\<lambda>e. (Inr \<lparr>ir_promptMode = en_lastPromptMode e, ir_outcome = ctx_outcome ctx, ir_response = tn_content tn,
                ir_error = ctx_error ctx, ir_errorCode = ctx_errorCode ctx\<rparr>, e))))"

definition failed_iteration :: "engine_error \<Rightarrow> iteration_ctx eng" where
  "failed_iteration x e =
     (Inr (if en_aborted e \<and> en_native e
           then \<lparr>ctx_outcome = OutcomeContinue, ctx_error = None, ctx_errorCode = None\<rparr>
           else \<lparr>ctx_outcome = OutcomeError, ctx_error = Some (error_message x), ctx_errorCode = error_code x\<rparr>), e)"

definition runIteration :: "turn \<Rightarrow> bool \<Rightarrow> iteration_result eng" where
  "runIteration tn skip e0 =
     (let it = st_currentIteration (en_state e0) + 1;
          startedAt = en_clock e0;
          next = (if inPlanMode e0 then Planning else Running)
      in seq (modify (\<lambda>e. e\<lparr>en_lastPromptMode := EngineContext\<rparr>))
         (seq (updateState (Some next) (\<lambda>s. s\<lparr>st_currentIteration := it, st_lastActivityAt := Some startedAt\<rparr>))
         (seq (emit (EvIterationStart it))
         (bind (catching (iteration_body tn skip it) failed_iteration) (buildIterationResult tn it startedAt)))) e0)"

section \<open>Handling an outcome\<close>

definition fail_task :: "string \<Rightarrow> unit eng" where
  "fail_task msg e =
     seq (updateState (Some Failed) (\<lambda>s. s\<lparr>st_completedAt := Some (en_clock e),
            st_error := Some \<lparr>err_message = msg, err_iteration = st_currentIteration s, err_timestamp = en_clock e\<rparr>\<rparr>))
         (emit (EvError msg (st_currentIteration (en_state e)))) e"

definition handleError :: "engine_error \<Rightarrow> unit eng" where
  "handleError x = fail_task (error_string x)"

definition error_text :: "iteration_result \<Rightarrow> string" where
  "error_text r = (case ir_error r of Some m \<Rightarrow> m | None \<Rightarrow> ''Unknown error'')"

definition handleSingleTurnResult :: "iteration_result \<Rightarrow> unit eng" where
  "handleSingleTurnResult r e =
     (if en_aborted e \<or> st_status (en_state e) = Stopped then triggerPersistence e
      else if ir_outcome r = OutcomeError then seq (fail_task (error_text r)) triggerPersistence e
      else seq (updateState (Some Stopped) (\<lambda>s. s\<lparr>st_completedAt := Some (en_clock e), st_consecutiveErrors := None\<rparr>))
           (seq (emit (EvStopped ''Single-turn execution finished'' False)) triggerPersistence) e)"

definition handleBlockedOutcome :: "bool eng" where
  "handleBlockedOutcome e =
     seq (updateState (Some Stopped) (\<lambda>s. s\<lparr>st_completedAt := Some (en_clock e), st_consecutiveErrors := None\<rparr>))
     (seq (emit (EvStopped ''Agent reported a blocker'' True)) (seq triggerPersistence (ret True))) e"

definition finalizeWorkspace :: "turn \<Rightarrow> bool eng" where
  "finalizeWorkspace tn e =
     (if session_binding_of e \<noteq> None \<and> en_native e \<and> \<not> tn_settled tn then (Inr False, e)
      else catching (bind (checkHarnessGitSafety (tn_finalSafety tn)) (\<lambda>safe.
             if safe then commitIteration tn (st_currentIteration (en_state e)) else ret False))
           (\<lambda>_ e'. (Inr False, recordHarnessGitOutcome OutcomeFailed e')) e)"

definition finalizeCompletedOutcome :: "turn \<Rightarrow> bool eng" where
  "finalizeCompletedOutcome tn e =
     seq (updateState (Some Completed) (\<lambda>s. s\<lparr>st_completedAt := Some (en_clock e), st_consecutiveErrors := None\<rparr>))
     (seq (modify (recordHarnessGitOutcome OutcomePending))
     (seq (case st_reviewMode (en_state e) of
             Some m \<Rightarrow> whenever (rm_reviewCycles m > 0) (emit (EvCommentsAddressed (rm_reviewCycles m)))
           | None \<Rightarrow> ret ())
     (seq (emit (EvCompleted (st_currentIteration (en_state e))))
     (seq triggerPersistence
     (bind (finalizeWorkspace tn) (\<lambda>safe.
       seq triggerPersistence
       (seq (modify (\<lambda>e. if en_onCompleted e \<and> safe then e\<lparr>en_completionFollowUp := True\<rparr> else e)) (ret True)))))))) e"

definition handlePlanReadyOutcome :: "turn \<Rightarrow> bool eng" where
  "handlePlanReadyOutcome tn e =
     (let content = (case tn_planFile tn of Some c \<Rightarrow> c | None \<Rightarrow> tn_content tn);
          auto_accept = cfg_autoAcceptPlan (en_config e) = Some True \<and> en_onPlanReady e
      in seq (updateState None (\<lambda>s. s\<lparr>st_planMode := map_option (\<lambda>p. p\<lparr>pm_planContent := Some content\<rparr>) (st_planMode s),
                st_consecutiveErrors := None\<rparr>))
         (seq (emit (EvPlanReady content (\<not> auto_accept)))
         (seq triggerPersistence (seq (whenever auto_accept (emit EvAutoAccept)) (ret True)))) e)"

definition continueWithAbortFallbackInjection :: "bool eng" where
  "continueWithAbortFallbackInjection =
     seq (modify resetRestartFlags) (seq (updateState None (\<lambda>s. s\<lparr>st_consecutiveErrors := None\<rparr>)) (ret False))"

text \<open>A limit of 0 is \<open>unlimited\<close>: the errors are counted but never stop the task.\<close>

definition trackConsecutiveError :: "string \<Rightarrow> string option \<Rightarrow> bool eng" where
  "trackConsecutiveError msg code e =
     (let key = (case code of Some c \<Rightarrow> c | None \<Rightarrow> ''unknown_error'');
          n = (case st_consecutiveErrors (en_state e) of
                 Some t \<Rightarrow> if lastErrorCode t = Some key then Suc (error_count t) else 1
               | None \<Rightarrow> 1);
          max = cfg_maxConsecutiveErrors (en_config e)
      in seq (updateState None (\<lambda>s. s\<lparr>st_consecutiveErrors :=
                Some \<lparr>lastErrorMessage = msg, lastErrorCode = Some key, error_count = n\<rparr>\<rparr>))
         (ret (max \<noteq> 0 \<and> max \<le> enat n)) e)"

fun digits :: "nat \<Rightarrow> string" where
  "digits n = (if n < 10 then [char_of (48 + n)] else digits (n div 10) @ [char_of (48 + n mod 10)])"

declare digits.simps [simp del]

definition limit_text :: "enat \<Rightarrow> string" where
  "limit_text n = (case n of enat k \<Rightarrow> digits k | \<infinity> \<Rightarrow> ''Infinity'')"

definition handleErrorOutcome :: "iteration_result \<Rightarrow> bool eng" where
  "handleErrorOutcome r e =
     (let msg = error_text r in
      if en_injectionPending e \<and> en_native e then continueWithAbortFallbackInjection e
      else if en_native e then seq (fail_task msg) (seq triggerPersistence (ret True)) e
      else seq (updateState None (\<lambda>s. s\<lparr>st_currentIteration := st_currentIteration s - 1\<rparr>)) (\<lambda>e.
        if en_injectionPending e then continueWithAbortFallbackInjection e
        else bind (trackConsecutiveError msg (ir_errorCode r)) (\<lambda>failsafe.
          if failsafe
          then seq (fail_task (''Failsafe: '' @ limit_text (cfg_maxConsecutiveErrors (en_config e))
                 @ '' consecutive identical errors - '' @ msg)) (seq triggerPersistence (ret True))
          else seq (\<lambda>e. emit (EvError msg (st_currentIteration (en_state e))) e) (seq triggerPersistence (ret False))) e) e)"

definition handleIterationOutcome :: "turn \<Rightarrow> iteration_result \<Rightarrow> bool eng" where
  "handleIterationOutcome tn r = (case ir_outcome r of
     OutcomeBlocked \<Rightarrow> handleBlockedOutcome
   | OutcomeComplete \<Rightarrow> finalizeCompletedOutcome tn
   | OutcomePlanReady \<Rightarrow> handlePlanReadyOutcome tn
   | OutcomeError \<Rightarrow> handleErrorOutcome r
   | OutcomeContinue \<Rightarrow> seq (updateState None (\<lambda>s. s\<lparr>st_consecutiveErrors := None\<rparr>)) (ret False))"

definition hasReachedMaxIterations :: "bool eng" where
  "hasReachedMaxIterations e =
     (let max = cfg_maxIterations (en_config e) in
      if max \<noteq> 0 \<and> max \<le> enat (st_currentIteration (en_state e))
      then seq (updateState (Some MaxIterations) (\<lambda>s. s\<lparr>st_completedAt := Some (en_clock e)\<rparr>))
           (seq (emit (EvStopped (''Reached maximum iterations: '' @ limit_text max) False))
           (seq triggerPersistence (ret True))) e
      else (Inr False, e))"

section \<open>The loop\<close>

text \<open>One round of \<open>runTask\<close>; the result tells whether the loop is left.\<close>

definition loop_turn :: "turn \<Rightarrow> bool eng" where
  "loop_turn tn =
     bind (runIteration tn False) (\<lambda>r e.
       if en_aborted e \<and> \<not> en_injectionPending e then (Inr True, e)
       else if ir_promptMode r = DirectUser then
         (if en_injectionPending e \<and> shouldContinue e then (Inr False, resetRestartFlags e)
          else seq (handleSingleTurnResult r) (seq (apply_commands (tn_late tn)) (ret True)) e)
       else bind (handleIterationOutcome tn r) (\<lambda>exit. seq (apply_commands (tn_late tn)) (\<lambda>e.
         if exit then
           (if en_injectionPending e \<and> shouldContinue e then (Inr False, resetRestartFlags e) else (Inr True, e))
         else bind hasReachedMaxIterations (\<lambda>reached e.
           if reached then (Inr True, e)
           else if en_aborted e then
             (if en_injectionPending e then (Inr False, resetRestartFlags e) else (Inr True, e))
           else (Inr False, e)) e)) e)"

primrec run_loop :: "turn list \<Rightarrow> engine \<Rightarrow> ((engine_error + unit) \<times> engine) option" where
  "run_loop [] e = (if en_aborted e \<or> \<not> shouldContinue e then Some (Inr (), e) else None)"
| "run_loop (t # ts) e =
     (if en_aborted e \<or> \<not> shouldContinue e then Some (Inr (), e)
      else case loop_turn t e of
        (Inl x, e') \<Rightarrow> Some (Inl x, e')
      | (Inr exit, e') \<Rightarrow> if exit then Some (Inr (), e') else run_loop ts e')"

type_synonym run_result = "((engine_error + unit) \<times> engine) option"

definition finish_run :: "(engine_error + unit) \<times> engine \<Rightarrow> (engine_error + unit) \<times> engine" where
  "finish_run p = (fst p, (snd p)\<lparr>en_isTaskRunning := False\<rparr>)"

definition runTask :: "turn list \<Rightarrow> engine \<Rightarrow> run_result" where
  "runTask ts e = (if en_isTaskRunning e then Some (Inr (), e)
     else map_option finish_run (run_loop ts (e\<lparr>en_isTaskRunning := True\<rparr>)))"

definition runSingleTurn :: "turn list \<Rightarrow> engine \<Rightarrow> run_result" where
  "runSingleTurn ts e =
     (if st_status (en_state e) \<noteq> Running then Some (Inl (WrongStatus ''run a single turn'' (st_status (en_state e))), e)
      else if en_isTaskRunning e then Some (Inr (), e)
      else case ts of
        [] \<Rightarrow> None
      | t # _ \<Rightarrow> Some (finish_run (bind (runIteration t True) handleSingleTurnResult
                    ((resetRestartFlags e)\<lparr>en_isTaskRunning := True\<rparr>))))"

definition runWithExecutionPolicy :: "turn list \<Rightarrow> engine \<Rightarrow> run_result" where
  "runWithExecutionPolicy ts e =
     (if en_singleTurn e then
        (case whenever (st_status (en_state e) = Starting) (updateState (Some Running) id) e of
           (Inl x, e') \<Rightarrow> Some (Inl x, e')
         | (Inr _, e') \<Rightarrow> runSingleTurn ts e')
      else runTask ts e)"

definition continueExecution :: "turn list \<Rightarrow> engine \<Rightarrow> run_result" where
  "continueExecution ts e =
     (if st_status (en_state e) \<noteq> Running then Some (Inl (WrongStatus ''continue execution'' (st_status (en_state e))), e)
      else if en_isTaskRunning e then Some (Inr (), e)
      else runWithExecutionPolicy ts (resetRestartFlags e))"

definition runPlanIteration :: "turn list \<Rightarrow> engine \<Rightarrow> run_result" where
  "runPlanIteration ts e =
     (if st_status (en_state e) \<noteq> Planning then Some (Inl (WrongStatus ''run plan iteration'' (st_status (en_state e))), e)
      else runTask ts (resetRestartFlags e))"

section \<open>Starting\<close>

text \<open>
  What the environment does while a task starts: the branch that Git sets up, the calls that arrive, the
  session that is set up, or the error that is thrown before or after them.
\<close>

record startup =
  su_git :: "engine_error + git_state option"
  su_directory :: "engine_error + unit"
  su_clear :: "engine_error + unit"
  su_commands :: "command list"
  su_session :: "engine_error + session_info option"

definition startable :: "task_status \<Rightarrow> bool" where
  "startable s = (s \<in> {Idle, Starting, Stopped, Planning, ResolvingConflicts})"

definition lift_result :: "engine_error + 'a \<Rightarrow> 'a eng" where
  "lift_result x e = (x, e)"

definition setup_workspace :: "startup \<Rightarrow> bool \<Rightarrow> unit eng" where
  "setup_workspace su plan e =
     seq (if \<not> plan \<and> \<not> en_skipGitSetup e
          then bind (lift_result (su_git su)) (\<lambda>g. updateState None (\<lambda>s. s\<lparr>st_git := (case g of Some x \<Rightarrow> Some x | None \<Rightarrow> st_git s)\<rparr>))
          else ret ())
     (seq (lift_result (su_directory su))
     (seq (\<lambda>e. if (case st_planMode (en_state e) of Some p \<Rightarrow> pm_planningFolderCleared p | None \<Rightarrow> False) then (Inr (), e)
               else if cfg_clearPlanningFolder (en_config e)
               then bind (lift_result (su_clear su)) (\<lambda>_. emit EvPlanningFolderCleared) e
               else (Inr (), e))
     (seq (apply_commands (su_commands su))
     (bind (lift_result (su_session su)) (\<lambda>x. updateState None (\<lambda>s. s\<lparr>st_session := (case x of Some y \<Rightarrow> Some y | None \<Rightarrow> st_session s)\<rparr>)))))) e"

text \<open>The \<open>catch\<close> block of \<open>startOwned\<close>.\<close>

definition startup_failed :: "engine_error \<Rightarrow> unit eng" where
  "startup_failed x e = (if en_aborted e then triggerPersistence e else seq (handleError x) triggerPersistence e)"

definition finish_start :: "(engine_error + unit) \<times> engine \<Rightarrow> (engine_error + unit) \<times> engine" where
  "finish_start p = (let (r, e) = (case p of (Inl x, e) \<Rightarrow> startup_failed x e | q \<Rightarrow> q)
     in (r, e\<lparr>en_isStarting := False\<rparr>))"

definition prepare_start :: "engine \<Rightarrow> (engine_error + unit) \<times> engine" where
  "prepare_start e0 =
     (let e = resetRestartFlags e0;
          next = (if st_status (en_state e) = Planning then Planning else Starting)
      in updateState (Some next) (\<lambda>s. s\<lparr>
           st_startedAt := (case st_startedAt s of Some t \<Rightarrow> Some t | None \<Rightarrow> Some (en_clock e)),
           st_currentIteration := 0, st_recentIterations := [], st_error := None\<rparr>) e)"

definition start :: "startup \<Rightarrow> turn list \<Rightarrow> engine \<Rightarrow> run_result" where
  "start su ts e0 =
     (if \<not> startable (st_status (en_state e0)) then Some (Inl (WrongStatus ''start task'' (st_status (en_state e0))), e0)
      else let plan = (st_status (en_state e0) = Planning) in
        case prepare_start e0 of
          (Inl x, e) \<Rightarrow> Some (Inl x, e)
        | (Inr _, e) \<Rightarrow>
            (case seq triggerPersistence (setup_workspace su plan) (e\<lparr>en_isStarting := True\<rparr>) of
               (Inl x, e1) \<Rightarrow> Some (finish_start (Inl x, e1))
             | (Inr _, e1) \<Rightarrow>
                 if en_aborted e1 then Some (finish_start (Inr (), e1))
                 else let e2 = snd (whenever (\<not> plan) (emit EvStarted) (e1\<lparr>en_isStarting := False\<rparr>))
                      in map_option finish_start (runWithExecutionPolicy ts e2)))"

definition retryWorkspaceFinalization :: "turn \<Rightarrow> unit eng" where
  "retryWorkspaceFinalization tn e =
     (if \<not> needsWorkspaceFinalization e then (Inr (), e)
      else seq (modify (recordHarnessGitOutcome OutcomePending))
           (bind (finalizeWorkspace tn) (\<lambda>_. triggerPersistence)) e)"

end
