(* ===== verification/EngineLoop.thy ===== *)
theory EngineLoop
  imports TaskEngine
begin

text \<open>
  What the engine's loop does. An abstract machine keeps the status, the iteration counter and the error
  counter only; the loop of \<open>TaskEngine\<close> refines it on turns during which nothing else is asked of the
  engine (\<open>run_loop_quiet\<close>).
\<close>

section \<open>Running operations\<close>

lemmas engine_ops = ret_def throw_def bind_def seq_def modify_def whenever_def catching_def emit_def
  set_state_def updateState_def lift_result_def

lemma apply_commands_Nil [simp]: "apply_commands [] = ret ()"
  by (simp add: apply_commands_def modify_def ret_def fun_eq_iff)

section \<open>Quiet turns\<close>

text \<open>
  Nothing arrives during the turn, the prompt is not refused, and the commit after the iteration does not
  throw.
\<close>

fun is_status_failure :: "commit_result \<Rightarrow> bool" where
  "is_status_failure (StatusFailed _) = True"
| "is_status_failure _ = False"

definition quiet :: "turn \<Rightarrow> bool" where
  "quiet t \<longleftrightarrow> tn_early t = [] \<and> tn_refused t = None \<and> tn_during t = [] \<and> tn_atCommit t = [] \<and> tn_late t = []
     \<and> \<not> is_status_failure (tn_commit t)"

text \<open>
  An ACP engine that is in its loop with no pending input: it is running or starting, or it plans with an
  active plan mode.
\<close>

definition ready :: "engine \<Rightarrow> bool" where
  "ready e \<longleftrightarrow> \<not> en_native e \<and> \<not> en_aborted e \<and> \<not> en_injectionPending e
     \<and> \<not> integrity_invalid (en_state e) \<and> st_pendingPrompt (en_state e) = None
     \<and> (st_status (en_state e) = Running \<or> st_status (en_state e) = Starting \<or> inPlanMode e)"

text \<open>What an operation leaves alone.\<close>

definition same_control :: "engine \<Rightarrow> engine \<Rightarrow> bool" where
  "same_control e e' \<longleftrightarrow> en_native e' = en_native e \<and> en_aborted e' = en_aborted e
     \<and> en_injectionPending e' = en_injectionPending e \<and> en_isTaskRunning e' = en_isTaskRunning e
     \<and> en_stopDetector e' = en_stopDetector e
     \<and> cfg_maxIterations (en_config e') = cfg_maxIterations (en_config e)
     \<and> cfg_maxConsecutiveErrors (en_config e') = cfg_maxConsecutiveErrors (en_config e)
     \<and> integrity_invalid (en_state e') = integrity_invalid (en_state e)
     \<and> st_pendingPrompt (en_state e') = st_pendingPrompt (en_state e)
     \<and> st_status (en_state e') = st_status (en_state e)
     \<and> st_currentIteration (en_state e') = st_currentIteration (en_state e)
     \<and> st_consecutiveErrors (en_state e') = st_consecutiveErrors (en_state e)
     \<and> map_option pm_active (st_planMode (en_state e')) = map_option pm_active (st_planMode (en_state e))"

lemma same_control_refl [simp]: "same_control e e"
  by (simp add: same_control_def)

lemma same_control_trans: "same_control a b \<Longrightarrow> same_control b c \<Longrightarrow> same_control a c"
  by (simp add: same_control_def)

lemma same_control_plan: "same_control e e' \<Longrightarrow> inPlanMode e' = inPlanMode e"
  by (auto simp: same_control_def inPlanMode_def split: option.splits)

lemma no_pending [simp]:
  "st_pendingPrompt s = None \<Longrightarrow> \<not> integrity_invalid s \<Longrightarrow> inputs_peek s = Inr None"
  "st_pendingPrompt s = None \<Longrightarrow> \<not> integrity_invalid s \<Longrightarrow> inputs_consume s = Inr (None, s)"
  by (simp_all add: inputs_consume_def inputs_peek_def)

lemma integrity_update [simp]:
  "integrity_invalid (s\<lparr>st_initialPromptAttachments := a\<rparr>) = integrity_invalid s"
  "integrity_invalid (s\<lparr>st_pendingModel := m\<rparr>) = integrity_invalid s"
  "integrity_invalid (s\<lparr>st_status := x\<rparr>) = integrity_invalid s"
  "integrity_invalid (s\<lparr>st_currentIteration := n\<rparr>) = integrity_invalid s"
  "integrity_invalid (s\<lparr>st_lastActivityAt := t\<rparr>) = integrity_invalid s"
  "integrity_invalid (s\<lparr>st_consecutiveErrors := c\<rparr>) = integrity_invalid s"
  "integrity_invalid (s\<lparr>st_git := g\<rparr>) = integrity_invalid s"
  "integrity_invalid (s\<lparr>st_recentIterations := r\<rparr>) = integrity_invalid s"
  "integrity_invalid (s\<lparr>st_completedAt := t\<rparr>) = integrity_invalid s"
  "integrity_invalid (s\<lparr>st_error := x'\<rparr>) = integrity_invalid s"
  "integrity_invalid (s\<lparr>st_planMode := p\<rparr>) = integrity_invalid s"
  by (simp_all add: integrity_invalid_def)

lemma build_prompt_quiet:
  assumes "st_pendingPrompt (en_state e) = None" "\<not> integrity_invalid (en_state e)" "\<not> en_aborted e"
  obtains e' where "buildPrompt r e = (Inr (), e')" "same_control e e'" "en_lastPromptMode e' = EngineContext"
proof -
  have "\<exists>e'. buildPrompt r e = (Inr (), e') \<and> same_control e e' \<and> en_lastPromptMode e' = EngineContext"
    using assms
    by (cases "st_pendingModel (en_state e)")
       (auto simp: buildPrompt_def buildTaskPrompt_def consume_input_def take_pending_model_def
        buildPlanModePrompt_def buildExecutionPrompt_def consumeInitialPromptAttachments_def
        consumePendingOrInitialAttachments_def send_prompt_def engine_ops Let_def same_control_def)
  then show ?thesis using that by blast
qed

lemma same_control_harness:
  "integrity_invalid (s\<lparr>st_harness := h\<rparr>) = (case h of Some x \<Rightarrow> hs_integrityInvalid x | None \<Rightarrow> False)"
  by (simp add: integrity_invalid_def)

lemma same_control_git_outcome [simp]: "same_control e (recordHarnessGitOutcome o' e)"
  by (auto simp: recordHarnessGitOutcome_def refreshHarnessState_def harness_or_empty_def same_control_def set_state_def
      integrity_invalid_def split: option.splits)

lemma commit_quiet:
  assumes "\<not> is_status_failure (tn_commit t)" "\<not> en_native e"
  obtains b e' where "commitIteration t it e = (Inr b, e')" "same_control e e'" "en_lastPromptMode e' = en_lastPromptMode e"
proof -
  have g: "en_lastPromptMode (recordHarnessGitOutcome o' e) = en_lastPromptMode e" for o' e
    by (auto simp: recordHarnessGitOutcome_def refreshHarnessState_def set_state_def split: option.splits)
  have "\<exists>b e'. commitTaskIteration t it e = (Inr b, e') \<and> same_control e e' \<and> en_lastPromptMode e' = en_lastPromptMode e"
  proof (cases "tn_commit t")
    case (Committed sha msg n)
    then show ?thesis
      by (auto simp: commitTaskIteration_def record_commit_def engine_ops same_control_def)
  qed (use assms g in \<open>auto simp: commitTaskIteration_def\<close>)
  then obtain b e1 where c: "commitTaskIteration t it e = (Inr b, e1)" "same_control e e1"
    "en_lastPromptMode e1 = en_lastPromptMode e" by blast
  let ?e = "if b then recordHarnessGitOutcome OutcomeSucceeded e1 else e1"
  have "commitIteration t it e = (Inr b, ?e)"
    using c assms(2) by (simp add: commitIteration_def checkHarnessGitSafety_def bind_def seq_def whenever_def modify_def ret_def)
  moreover have "same_control e ?e" using c(2) by (auto intro: same_control_trans)
  moreover have "en_lastPromptMode ?e = en_lastPromptMode e" using c(3) g by simp
  ultimately show ?thesis by (rule that)
qed

section \<open>The abstract machine\<close>

datatype turn_kind = KContinue | KComplete | KBlocked | KPlanReady | KError string

text \<open>The kind of a turn, given whether the engine plans and its stop pattern.\<close>

definition error_key :: "string option \<Rightarrow> string" where
  "error_key c = (case c of Some k \<Rightarrow> k | None \<Rightarrow> ''unknown_error'')"

definition answer_kind :: "bool \<Rightarrow> (string \<Rightarrow> bool) \<Rightarrow> string \<Rightarrow> turn_kind" where
  "answer_kind plan stops content =
     (let k = map_option pmk_kind (detectTrailingPromiseMarker content) in
      if k = Some KindBlocked then KBlocked
      else if plan \<and> (k = Some KindPlanReady \<or> planReadyPattern content) then KPlanReady
      else if stops content then KComplete else KContinue)"

definition kind_of :: "bool \<Rightarrow> (string \<Rightarrow> bool) \<Rightarrow> turn \<Rightarrow> turn_kind" where
  "kind_of plan stops t = (case tn_signal t of
     Answered \<Rightarrow> answer_kind plan stops (tn_content t)
   | ErrorReported m c \<Rightarrow> KError c
   | QuestionAsked \<Rightarrow> KBlocked
   | StreamFailed x \<Rightarrow> KError (error_key (error_code x)))"

record control =
  ct_status :: task_status
  ct_iteration :: nat
  ct_errors :: "(string option \<times> nat) option"

definition control_of :: "engine \<Rightarrow> control" where
  "control_of e = \<lparr>ct_status = st_status (en_state e), ct_iteration = st_currentIteration (en_state e),
     ct_errors = map_option (\<lambda>t. (lastErrorCode t, error_count t)) (st_consecutiveErrors (en_state e))\<rparr>"

definition turn_status :: "control \<Rightarrow> task_status" where
  "turn_status c = (if ct_status c = Planning then Planning else Running)"

definition limit_check :: "enat \<Rightarrow> control \<Rightarrow> (engine_error + bool) \<times> control" where
  "limit_check maxIt c =
     (if maxIt \<noteq> 0 \<and> maxIt \<le> enat (ct_iteration c)
      then if ct_status c = Planning then (Inl (BadTransition (InvalidTransition Planning MaxIterations)), c)
           else (Inr True, c\<lparr>ct_status := MaxIterations\<rparr>)
      else (Inr False, c))"

definition next_count :: "string \<Rightarrow> control \<Rightarrow> nat" where
  "next_count k c = (case ct_errors c of Some (k', n) \<Rightarrow> if k' = Some k then Suc n else 1 | None \<Rightarrow> 1)"

lemma next_count_update [simp]: "next_count k (c\<lparr>ct_status := a, ct_iteration := b\<rparr>) = next_count k c"
  by (simp add: next_count_def)

definition control_turn :: "enat \<Rightarrow> enat \<Rightarrow> turn_kind \<Rightarrow> control \<Rightarrow> (engine_error + bool) \<times> control" where
  "control_turn maxIt maxErr k c =
     (let ok = \<lparr>ct_status = turn_status c, ct_iteration = Suc (ct_iteration c), ct_errors = None\<rparr> in case k of
        KComplete \<Rightarrow> (Inr True, ok\<lparr>ct_status := Completed\<rparr>)
      | KBlocked \<Rightarrow> (Inr True, ok\<lparr>ct_status := Stopped\<rparr>)
      | KPlanReady \<Rightarrow> (Inr True, ok)
      | KContinue \<Rightarrow> limit_check maxIt ok
      | KError key \<Rightarrow>
          let n = next_count key c; c' = c\<lparr>ct_status := turn_status c, ct_errors := Some (Some key, n)\<rparr>
          in if maxErr \<noteq> 0 \<and> maxErr \<le> enat n then (Inr True, c'\<lparr>ct_status := Failed\<rparr>)
             else limit_check maxIt c')"

fun run_control :: "enat \<Rightarrow> enat \<Rightarrow> turn_kind list \<Rightarrow> control \<Rightarrow> ((engine_error + unit) \<times> control) option" where
  "run_control maxIt maxErr [] c = (if ct_status c \<in> {Running, Starting, Planning} then None else Some (Inr (), c))"
| "run_control maxIt maxErr (k # ks) c =
     (if ct_status c \<notin> {Running, Starting, Planning} then Some (Inr (), c)
      else case control_turn maxIt maxErr k c of
        (Inl x, c') \<Rightarrow> Some (Inl x, c')
      | (Inr exit, c') \<Rightarrow> if exit then Some (Inr (), c') else run_control maxIt maxErr ks c')"

section \<open>A quiet iteration\<close>

lemma execute_quiet:
  assumes "quiet t" "st_pendingPrompt (en_state e) = None" "\<not> integrity_invalid (en_state e)" "\<not> en_aborted e"
  obtains e' where "same_control e e'" "en_lastPromptMode e' = EngineContext"
    "executeIterationPrompt t e = (case tn_signal t of
        Answered \<Rightarrow> (Inr \<lparr>ctx_outcome = OutcomeContinue, ctx_error = None, ctx_errorCode = None\<rparr>, e')
      | ErrorReported m c \<Rightarrow> (Inr \<lparr>ctx_outcome = OutcomeError, ctx_error = Some m, ctx_errorCode = Some c\<rparr>, e')
      | QuestionAsked \<Rightarrow> (Inr \<lparr>ctx_outcome = OutcomeBlocked,
          ctx_error = Some ''The harness requested human input during an unattended task.'', ctx_errorCode = None\<rparr>, e')
      | StreamFailed x \<Rightarrow> (Inl x, e'))"
proof -
  obtain e1 where b: "buildPrompt (tn_recovered t) e = (Inr (), e1)" "same_control e e1" "en_lastPromptMode e1 = EngineContext"
    using build_prompt_quiet [OF assms(2-4)] .
  let ?e2 = "snd (triggerPersistence e1)"
  let ?e3 = "set_state (\<lambda>s. s\<lparr>st_lastActivityAt := Some (en_clock ?e2 + tn_elapsed t)\<rparr>)
             (?e2\<lparr>en_clock := en_clock ?e2 + tn_elapsed t\<rparr>)"
  have "same_control e1 ?e3" "en_lastPromptMode ?e3 = en_lastPromptMode e1"
    by (auto simp: triggerPersistence_def engine_ops same_control_def)
  moreover have "executeIterationPrompt t e = (case tn_signal t of
        Answered \<Rightarrow> (Inr \<lparr>ctx_outcome = OutcomeContinue, ctx_error = None, ctx_errorCode = None\<rparr>, ?e3)
      | ErrorReported m c \<Rightarrow> (Inr \<lparr>ctx_outcome = OutcomeError, ctx_error = Some m, ctx_errorCode = Some c\<rparr>, ?e3)
      | QuestionAsked \<Rightarrow> (Inr \<lparr>ctx_outcome = OutcomeBlocked,
          ctx_error = Some ''The harness requested human input during an unattended task.'', ctx_errorCode = None\<rparr>, ?e3)
      | StreamFailed x \<Rightarrow> (Inl x, ?e3))"
    using assms(1) b(1)
    by (auto simp: executeIterationPrompt_def quiet_def triggerPersistence_def engine_ops split: turn_signal.splits)
  ultimately show ?thesis using b(3) by (intro that [of ?e3] same_control_trans [OF b(2)]) simp_all
qed

definition kind_outcome :: "turn_kind \<Rightarrow> iteration_outcome" where
  "kind_outcome k = (case k of KContinue \<Rightarrow> OutcomeContinue | KComplete \<Rightarrow> OutcomeComplete
     | KBlocked \<Rightarrow> OutcomeBlocked | KPlanReady \<Rightarrow> OutcomePlanReady | KError _ \<Rightarrow> OutcomeError)"

lemma evaluate_quiet:
  assumes "ctx_outcome ctx = OutcomeContinue"
  obtains e' where "evaluateTaskOutcome content ctx e =
      (Inr (ctx\<lparr>ctx_outcome := kind_outcome (answer_kind (inPlanMode e) (en_stopDetector e) content)\<rparr>), e')"
    "same_control e e'" "en_lastPromptMode e' = en_lastPromptMode e"
proof -
  have "same_control e (set_state (\<lambda>s. s\<lparr>st_planMode := map_option (\<lambda>p. p\<lparr>pm_isPlanReady := True\<rparr>) (st_planMode s)\<rparr>) e)"
    by (cases "st_planMode (en_state e)") (simp_all add: same_control_def set_state_def)
  moreover have "ctx = ctx\<lparr>ctx_outcome := OutcomeContinue\<rparr>" using assms by (cases ctx) simp
  ultimately show ?thesis using assms
    by (intro that [of "snd (evaluateTaskOutcome content ctx e)"])
       (auto simp: evaluateTaskOutcome_def answer_kind_def kind_outcome_def Let_def set_state_def)
qed

lemma answer_kind_not_error: "answer_kind p st c \<noteq> KError k"
  by (auto simp: answer_kind_def Let_def)

text \<open>The \<open>try\<close> block and its handler report the outcome of the turn's kind.\<close>

lemma body_quiet:
  assumes "quiet t" "\<not> en_native e" "st_pendingPrompt (en_state e) = None" "\<not> integrity_invalid (en_state e)" "\<not> en_aborted e"
  defines "k \<equiv> kind_of (inPlanMode e) (en_stopDetector e) t"
  obtains c e' where "catching (iteration_body t False it) failed_iteration e = (Inr c, e')"
    "same_control e e'" "en_lastPromptMode e' = EngineContext" "ctx_outcome c = kind_outcome k"
    "\<And>key. k = KError key \<Longrightarrow> error_key (ctx_errorCode c) = key"
proof -
  obtain e1 where x: "same_control e e1" "en_lastPromptMode e1 = EngineContext"
    "executeIterationPrompt t e = (case tn_signal t of
        Answered \<Rightarrow> (Inr \<lparr>ctx_outcome = OutcomeContinue, ctx_error = None, ctx_errorCode = None\<rparr>, e1)
      | ErrorReported m c \<Rightarrow> (Inr \<lparr>ctx_outcome = OutcomeError, ctx_error = Some m, ctx_errorCode = Some c\<rparr>, e1)
      | QuestionAsked \<Rightarrow> (Inr \<lparr>ctx_outcome = OutcomeBlocked,
          ctx_error = Some ''The harness requested human input during an unattended task.'', ctx_errorCode = None\<rparr>, e1)
      | StreamFailed x \<Rightarrow> (Inl x, e1))"
    using execute_quiet [OF assms(1,3-5)] .
  from x(1) assms(2,5) have n: "\<not> en_native e1" "\<not> en_aborted e1" by (simp_all add: same_control_def)
  have sf: "\<not> is_status_failure (tn_commit t)" "tn_atCommit t = []" using assms(1) by (simp_all add: quiet_def)
  note defs = iteration_body_def catching_def bind_def seq_def ret_def failed_iteration_def kind_of_def kind_outcome_def
  show ?thesis
  proof (cases "tn_signal t")
    case Answered
    let ?c = "\<lparr>ctx_outcome = OutcomeContinue, ctx_error = None, ctx_errorCode = None\<rparr>"
    obtain e2 where ev: "evaluateTaskOutcome (tn_content t) ?c e1 =
        (Inr (?c\<lparr>ctx_outcome := kind_outcome (answer_kind (inPlanMode e1) (en_stopDetector e1) (tn_content t))\<rparr>), e2)"
      "same_control e1 e2" "en_lastPromptMode e2 = EngineContext"
      using evaluate_quiet [of ?c "tn_content t" e1] x(2) by auto
    have k: "answer_kind (inPlanMode e1) (en_stopDetector e1) (tn_content t) = k"
      using x(1) by (simp add: k_def kind_of_def Answered same_control_plan) (simp add: same_control_def)
    obtain b e3 where cm: "commitIteration t it e2 = (Inr b, e3)" "same_control e2 e3" "en_lastPromptMode e3 = EngineContext"
      using commit_quiet [OF sf(1), of e2 it] n(1) ev(2,3) by (metis same_control_def)
    have ne: "\<forall>key. k \<noteq> KError key" using answer_kind_not_error k by metis
    show ?thesis
    proof (rule that)
      show "catching (iteration_body t False it) failed_iteration e =
          (Inr (?c\<lparr>ctx_outcome := kind_outcome k\<rparr>), if kind_outcome k = OutcomeComplete then e2 else e3)"
        using x n ev(1) k cm(1) sf(2) Answered ne
        by (cases k) (simp_all add: iteration_body_def catching_def bind_def seq_def ret_def Let_def kind_outcome_def)
      show "same_control e (if kind_outcome k = OutcomeComplete then e2 else e3)"
        using x(1) ev(2) cm(2) by (auto intro: same_control_trans)
      show "en_lastPromptMode (if kind_outcome k = OutcomeComplete then e2 else e3) = EngineContext"
        using ev(3) cm(3) by simp
    qed (use ne in auto)
  next
    case (ErrorReported m c)
    then show ?thesis using x n
      by (intro that [of "\<lparr>ctx_outcome = OutcomeError, ctx_error = Some m, ctx_errorCode = Some c\<rparr>" e1])
         (auto simp: defs k_def Let_def error_key_def)
  next
    case QuestionAsked
    obtain b e3 where cm: "commitIteration t it e1 = (Inr b, e3)" "same_control e1 e3" "en_lastPromptMode e3 = EngineContext"
      using commit_quiet [OF sf(1) n(1), of it] x(2) by metis
    show ?thesis
      by (rule that [of "\<lparr>ctx_outcome = OutcomeBlocked,
          ctx_error = Some ''The harness requested human input during an unattended task.'', ctx_errorCode = None\<rparr>" e3])
         (use x n cm sf(2) QuestionAsked in \<open>auto simp: defs k_def Let_def intro: same_control_trans\<close>)
  next
    case (StreamFailed z)
    then show ?thesis using x n
      by (intro that [of "\<lparr>ctx_outcome = OutcomeError, ctx_error = Some (error_message z), ctx_errorCode = error_code z\<rparr>" e1])
         (auto simp: defs k_def Let_def)
  qed
qed

lemma build_result_quiet:
  "\<exists>r e'. buildIterationResult t it s0 c e = (Inr r, e') \<and> same_control e e'
     \<and> ir_promptMode r = en_lastPromptMode e \<and> ir_outcome r = ctx_outcome c \<and> ir_errorCode r = ctx_errorCode c"
  by (cases "ctx_outcome c = OutcomeContinue"; cases "en_persisting e")
     (simp_all add: buildIterationResult_def triggerPersistence_def engine_ops same_control_def)

definition started :: "engine \<Rightarrow> engine" where
  "started e = set_state (\<lambda>s. s\<lparr>st_status := (if inPlanMode e then Planning else Running),
     st_currentIteration := Suc (st_currentIteration s)\<rparr>) e"

lemma iteration_quiet:
  assumes "quiet t" "ready e"
  defines "k \<equiv> kind_of (inPlanMode e) (en_stopDetector e) t"
  obtains r e' where "runIteration t False e = (Inr r, e')" "same_control (started e) e'"
    "ir_promptMode r = EngineContext" "ir_outcome r = kind_outcome k"
    "\<And>key. k = KError key \<Longrightarrow> error_key (ir_errorCode r) = key"
proof -
  let ?next = "if inPlanMode e then Planning else Running"
  let ?e0 = "e\<lparr>en_lastPromptMode := EngineContext\<rparr>"
  let ?upd = "\<lambda>s. s\<lparr>st_currentIteration := st_currentIteration (en_state e) + 1, st_lastActivityAt := Some (en_clock e)\<rparr>"
  have st: "st_status (en_state e) = Planning \<longleftrightarrow> inPlanMode e"
    using assms(2) by (auto simp: ready_def inPlanMode_def)
  have "\<exists>e1. updateState (Some ?next) ?upd ?e0 = (Inr (), e1) \<and> same_control (started e) e1"
    using assms(2) st
    by (auto simp: updateState_def ready_def assertValidTransition_def isValidTransition_def set_state_def started_def
        same_control_def)
  then obtain e1 where e1: "updateState (Some ?next) ?upd ?e0 = (Inr (), e1)" "same_control (started e) e1" by blast
  let ?e2 = "snd (emit (EvIterationStart (st_currentIteration (en_state e) + 1)) e1)"
  have e2: "same_control (started e) ?e2" using e1(2) by (simp add: emit_def modify_def same_control_def)
  have p: "inPlanMode (started e) = inPlanMode e" using st by (auto simp: started_def inPlanMode_def set_state_def)
  have "\<not> en_native ?e2" "st_pendingPrompt (en_state ?e2) = None" "\<not> integrity_invalid (en_state ?e2)" "\<not> en_aborted ?e2"
    using assms(2) e2 by (auto simp: ready_def same_control_def started_def set_state_def)
  note b = body_quiet [OF assms(1) this, of "st_currentIteration (en_state e) + 1"]
  have "kind_of (inPlanMode ?e2) (en_stopDetector ?e2) t = k"
    using e2 p same_control_plan [OF e2] by (simp add: k_def) (simp add: same_control_def started_def set_state_def)
  note kk = this
  obtain c e3 where c: "catching (iteration_body t False (st_currentIteration (en_state e) + 1)) failed_iteration ?e2 = (Inr c, e3)"
    "same_control ?e2 e3" "en_lastPromptMode e3 = EngineContext" "ctx_outcome c = kind_outcome k"
    "\<And>key. k = KError key \<Longrightarrow> error_key (ctx_errorCode c) = key"
    using b [unfolded kk] by blast
  obtain r e4 where r: "buildIterationResult t (st_currentIteration (en_state e) + 1) (en_clock e) c e3 = (Inr r, e4)"
    "same_control e3 e4" "ir_promptMode r = EngineContext" "ir_outcome r = ctx_outcome c" "ir_errorCode r = ctx_errorCode c"
    using build_result_quiet [of t "st_currentIteration (en_state e) + 1" "en_clock e" c e3] c(3) by auto
  have "runIteration t False e = (Inr r, e4)"
    using e1(1) c(1) r(1) by (simp add: runIteration_def Let_def seq_def bind_def modify_def emit_def)
  then show ?thesis
    by (rule that) (use e2 c r in \<open>auto intro: same_control_trans\<close>)
qed

section \<open>The loop refines the abstract machine\<close>

text \<open>What carries over to the next round.\<close>

definition loop_result :: "(engine_error + bool) \<times> engine \<Rightarrow> (engine_error + bool) \<times> control" where
  "loop_result p = (fst p, control_of (snd p))"

lemma control_same: "same_control e e' \<Longrightarrow> control_of e' = control_of e"
  by (simp add: control_of_def same_control_def)

lemma ready_same: "same_control e e' \<Longrightarrow> ready e \<Longrightarrow> ready e'"
  using same_control_plan [of e e'] by (auto simp: ready_def same_control_def)

lemma ready_planning: "ready e \<Longrightarrow> st_status (en_state e) = Planning \<longleftrightarrow> inPlanMode e"
  by (auto simp: ready_def inPlanMode_def)

lemma started_ready: "ready e \<Longrightarrow> ready (started e)"
  by (auto simp: ready_def started_def inPlanMode_def set_state_def)

lemma control_started: "ready e \<Longrightarrow> control_of (started e) =
    (control_of e)\<lparr>ct_status := turn_status (control_of e), ct_iteration := Suc (ct_iteration (control_of e))\<rparr>"
  by (simp add: control_of_def started_def set_state_def turn_status_def ready_planning [symmetric])

lemma triggerPersistence_eq: "triggerPersistence e = (Inr (), if en_persisting e then e\<lparr>en_saved := Some (en_state e)\<rparr> else e)"
  by (simp add: triggerPersistence_def modify_def)

text \<open>The check of the iteration limit.\<close>

lemma limit_quiet:
  assumes "st_status (en_state e) = Running \<or> st_status (en_state e) = Planning"
  shows "loop_result (hasReachedMaxIterations e) = limit_check (cfg_maxIterations (en_config e)) (control_of e)"
    and "fst (hasReachedMaxIterations e) = Inr False \<Longrightarrow> snd (hasReachedMaxIterations e) = e"
  using assms
  by (auto simp: loop_result_def hasReachedMaxIterations_def limit_check_def Let_def engine_ops triggerPersistence_eq
      control_of_def assertValidTransition_def isValidTransition_def split: if_splits)

text \<open>\<open>ended s e\<close> is the engine after an outcome that moved the task to \<open>s\<close> and cleared the error counter.\<close>

definition ended :: "task_status \<Rightarrow> engine \<Rightarrow> engine" where
  "ended st e = set_state (\<lambda>s. s\<lparr>st_status := st, st_consecutiveErrors := None\<rparr>) e"

text \<open>Operations of an ACP engine that neither throw nor touch the control state.\<close>

definition calm :: "'a eng \<Rightarrow> bool" where
  "calm m \<longleftrightarrow> (\<forall>e. \<not> en_native e \<longrightarrow> (\<exists>y e'. m e = (Inr y, e') \<and> same_control e e'))"

lemma calmD: "calm m \<Longrightarrow> \<not> en_native e \<Longrightarrow> \<exists>y e'. m e = (Inr y, e') \<and> same_control e e'"
  by (simp add: calm_def)

lemma calm_bind: "calm m \<Longrightarrow> (\<And>y. calm (f y)) \<Longrightarrow> calm (bind m f)"
  unfolding calm_def bind_def by (fastforce simp: same_control_def)

lemma calm_seq: "calm m \<Longrightarrow> calm n \<Longrightarrow> calm (seq m n)"
  unfolding seq_def by (rule calm_bind)

lemma calm_ret [simp]: "calm (ret x)"
  by (simp add: calm_def ret_def)

lemma calm_modify: "(\<And>e. same_control e (f e)) \<Longrightarrow> calm (modify f)"
  by (simp add: calm_def modify_def)

lemma calm_emit [simp]: "calm (emit ev)"
  by (simp add: emit_def calm_modify same_control_def)

lemma calm_persist [simp]: "calm triggerPersistence"
  unfolding triggerPersistence_def by (intro calm_modify) (simp add: same_control_def)

lemma calm_whenever: "calm m \<Longrightarrow> calm (whenever b m)"
  by (simp add: whenever_def)

lemma calm_commit: "\<not> is_status_failure (tn_commit t) \<Longrightarrow> calm (commitIteration t it)"
  unfolding calm_def using commit_quiet by metis

lemma calm_read: "(\<And>e. calm (f e)) \<Longrightarrow> calm (\<lambda>e. f e e)"
  by (simp add: calm_def)

lemma calm_safety: "calm (checkHarnessGitSafety g)"
  by (auto simp: calm_def checkHarnessGitSafety_def)

lemma calm_finalize:
  assumes "\<not> is_status_failure (tn_commit t)"
  shows "calm (finalizeWorkspace t)"
proof -
  have "\<exists>b e'. finalizeWorkspace t e = (Inr b, e') \<and> same_control e e'" if n: "\<not> en_native e" for e
  proof -
    obtain b e' where "commitIteration t (st_currentIteration (en_state e)) e = (Inr b, e')" "same_control e e'"
      using commit_quiet [OF assms n] by metis
    then show ?thesis using n
      by (simp add: finalizeWorkspace_def checkHarnessGitSafety_def catching_def bind_def)
  qed
  then show ?thesis by (simp add: calm_def)
qed

lemma bind_calm:
  assumes "m e = (Inr y, e1)" "same_control e0 e1" "\<not> en_native e1" "calm (f y)"
  shows "\<exists>z e'. bind m f e = (Inr z, e') \<and> same_control e0 e'"
  using calmD [OF assms(4,3)] assms(1,2) by (auto simp: bind_def intro: same_control_trans)

lemma move_status:
  assumes "isValidTransition (st_status (en_state e)) st" "st_status (en_state e) \<noteq> st"
    and "same_control (ended st e) (set_state (\<lambda>x. (f x)\<lparr>st_status := st\<rparr>) e)"
  shows "\<exists>e1. updateState (Some st) f e = (Inr (), e1) \<and> same_control (ended st e) e1"
  using assms by (auto simp: updateState_def assertValidTransition_def)

lemma native_same: "same_control e e' \<Longrightarrow> en_native e' = en_native e"
  by (simp add: same_control_def)

lemma native_ended [simp]: "en_native (ended st e) = en_native e"
  by (simp add: ended_def set_state_def)

text \<open>An operation that moves the status and then stays calm.\<close>

lemma seq_move:
  assumes "\<exists>e1. updateState (Some st) f e = (Inr (), e1) \<and> same_control (ended st e) e1" "\<not> en_native e" "calm m"
  shows "\<exists>y e'. seq (updateState (Some st) f) m e = (Inr y, e') \<and> same_control (ended st e) e'"
proof -
  obtain e1 where 1: "updateState (Some st) f e = (Inr (), e1)" "same_control (ended st e) e1" using assms(1) by blast
  with assms(2) have "\<not> en_native e1" by (simp add: native_same)
  with bind_calm [of "updateState (Some st) f" e "()" e1 "ended st e" "\<lambda>_. m"] 1 assms(3) show ?thesis
    by (simp add: seq_def)
qed

lemma seq_ret_value: "seq m (ret x) e = (Inr y, e') \<Longrightarrow> y = x"
  by (auto simp: seq_def bind_def ret_def split: prod.splits sum.splits)

lemma complete_quiet:
  assumes "\<not> is_status_failure (tn_commit t)" "\<not> en_native e"
    and "st_status (en_state e) = Running \<or> st_status (en_state e) = Planning"
  shows "\<exists>y e'. finalizeCompletedOutcome t e = (Inr y, e') \<and> same_control (ended Completed e) e'"
  unfolding finalizeCompletedOutcome_def
  by (intro seq_move move_status assms calm_seq calm_bind calm_modify calm_finalize calm_emit calm_persist calm_ret
        same_control_git_outcome)
     (use assms(3) in \<open>auto simp: isValidTransition_def same_control_def ended_def set_state_def
        intro!: calm_whenever split: option.splits\<close>)

lemma finalize_value: "finalizeCompletedOutcome t e = (Inr y, e') \<Longrightarrow> y"
  unfolding finalizeCompletedOutcome_def seq_def
  by (auto simp: bind_def ret_def split: prod.splits sum.splits)

lemma blocked_quiet:
  assumes "\<not> en_native e" "st_status (en_state e) = Running \<or> st_status (en_state e) = Planning"
  shows "\<exists>y e'. handleBlockedOutcome e = (Inr y, e') \<and> same_control (ended Stopped e) e'"
  unfolding handleBlockedOutcome_def
  by (intro seq_move move_status assms calm_seq calm_emit calm_persist calm_ret)
     (use assms(2) in \<open>auto simp: isValidTransition_def same_control_def ended_def set_state_def\<close>)

lemma blocked_value: "handleBlockedOutcome e = (Inr y, e') \<Longrightarrow> y"
  unfolding handleBlockedOutcome_def seq_def
  by (auto simp: bind_def ret_def split: prod.splits sum.splits)

text \<open>Clearing the error counter without a status change.\<close>

definition cleared :: "engine \<Rightarrow> engine" where
  "cleared e = set_state (\<lambda>s. s\<lparr>st_consecutiveErrors := None\<rparr>) e"

lemma plan_ready_quiet:
  assumes "\<not> en_native e"
  shows "\<exists>e'. handlePlanReadyOutcome t e = (Inr True, e') \<and> same_control (cleared e) e'"
  using assms
  by (cases "st_planMode (en_state e)"; cases "cfg_autoAcceptPlan (en_config e) = Some True \<and> en_onPlanReady e")
     (auto simp: handlePlanReadyOutcome_def Let_def engine_ops triggerPersistence_eq cleared_def same_control_def)

text \<open>The error branch of an ACP engine without an injection.\<close>

definition failed_engine :: "string \<Rightarrow> engine \<Rightarrow> engine" where
  "failed_engine key e = set_state (\<lambda>s. s\<lparr>st_currentIteration := st_currentIteration s - 1,
     st_consecutiveErrors := Some \<lparr>lastErrorMessage = [], lastErrorCode = Some key,
       error_count = next_count key (control_of e)\<rparr>\<rparr>) e"

definition same_but_message :: "engine \<Rightarrow> engine \<Rightarrow> bool" where
  "same_but_message e e' \<longleftrightarrow> control_of e' = control_of e \<and> en_native e' = en_native e \<and> en_aborted e' = en_aborted e
     \<and> en_injectionPending e' = en_injectionPending e \<and> en_stopDetector e' = en_stopDetector e
     \<and> cfg_maxIterations (en_config e') = cfg_maxIterations (en_config e)
     \<and> cfg_maxConsecutiveErrors (en_config e') = cfg_maxConsecutiveErrors (en_config e)
     \<and> integrity_invalid (en_state e') = integrity_invalid (en_state e)
     \<and> st_pendingPrompt (en_state e') = st_pendingPrompt (en_state e)
     \<and> map_option pm_active (st_planMode (en_state e')) = map_option pm_active (st_planMode (en_state e))"

lemma next_count_tracker:
  "next_count key (control_of e) = (case st_consecutiveErrors (en_state e) of
     Some t \<Rightarrow> if lastErrorCode t = Some key then Suc (error_count t) else 1 | None \<Rightarrow> 1)"
  by (simp add: next_count_def control_of_def split: option.split)

lemma error_quiet:
  fixes r :: iteration_result
  assumes "\<not> en_native e" "\<not> en_injectionPending e" "st_status (en_state e) = Running \<or> st_status (en_state e) = Planning"
  defines "key \<equiv> error_key (ir_errorCode r)"
  defines "halt \<equiv> cfg_maxConsecutiveErrors (en_config e) \<noteq> 0
     \<and> cfg_maxConsecutiveErrors (en_config e) \<le> enat (next_count key (control_of e))"
  shows "\<exists>e'. handleErrorOutcome r e = (Inr halt, e')
     \<and> same_but_message (if halt then set_state (\<lambda>s. s\<lparr>st_status := Failed\<rparr>) (failed_engine key e) else failed_engine key e) e'"
proof -
  have k: "(case ir_errorCode r of None \<Rightarrow> ''unknown_error'' | Some c \<Rightarrow> c) = key"
    by (simp add: key_def error_key_def)
  let ?t = "\<lparr>lastErrorMessage = error_text r, lastErrorCode = Some key, error_count = next_count key (control_of e)\<rparr>"
  let ?e1 = "set_state (\<lambda>s. s\<lparr>st_currentIteration := st_currentIteration s - 1, st_consecutiveErrors := Some ?t\<rparr>) e"
  have track: "trackConsecutiveError (error_text r) (ir_errorCode r)
      (set_state (\<lambda>s. s\<lparr>st_currentIteration := st_currentIteration s - 1\<rparr>) e) = (Inr halt, ?e1)"
    by (simp add: trackConsecutiveError_def Let_def k engine_ops halt_def next_count_tracker set_state_def)
  have v: "isValidTransition (st_status (en_state e)) Failed" "st_status (en_state e) \<noteq> Failed"
    using assms(3) by (auto simp: isValidTransition_def)
  show ?thesis
  proof (cases halt)
    case True
    then show ?thesis using assms(1,2) track v
      by (simp add: handleErrorOutcome_def Let_def seq_def bind_def updateState_def fail_task_def triggerPersistence_eq emit_def
          modify_def ret_def set_state_def assertValidTransition_def same_but_message_def control_of_def failed_engine_def)
  next
    case False
    then show ?thesis using assms(1,2) track
      by (simp add: handleErrorOutcome_def Let_def seq_def bind_def updateState_def triggerPersistence_eq emit_def
          modify_def ret_def set_state_def same_but_message_def control_of_def failed_engine_def)
  qed
qed

text \<open>What stays fixed over the rounds.\<close>

definition same_settings :: "engine \<Rightarrow> engine \<Rightarrow> bool" where
  "same_settings e e' \<longleftrightarrow> en_stopDetector e' = en_stopDetector e \<and> inPlanMode e' = inPlanMode e
     \<and> cfg_maxIterations (en_config e') = cfg_maxIterations (en_config e)
     \<and> cfg_maxConsecutiveErrors (en_config e') = cfg_maxConsecutiveErrors (en_config e)"

lemma same_settings_control: "same_control e e' \<Longrightarrow> same_settings e e'"
  using same_control_plan [of e e'] by (simp add: same_settings_def same_control_def)

lemma same_settings_started: "ready e \<Longrightarrow> same_settings e (started e)"
  by (auto simp: same_settings_def started_def inPlanMode_def set_state_def ready_def)

lemma same_settings_trans: "same_settings a b \<Longrightarrow> same_settings b c \<Longrightarrow> same_settings a c"
  by (simp add: same_settings_def)

lemma started_status: "st_status (en_state (started e)) = Running \<or> st_status (en_state (started e)) = Planning"
  by (simp add: started_def set_state_def)

text \<open>An outcome that does not exit is followed by the check of the iteration limit.\<close>

lemma after_outcome:
  assumes h: "handleIterationOutcome t r e1 = (Inr False, e2)" and late: "tn_late t = []"
    and e2: "ready e2" "same_settings e0 e2" "st_status (en_state e2) = Running \<or> st_status (en_state e2) = Planning"
    and run: "runIteration t False e0 = (Inr r, e1)" "ir_promptMode r = EngineContext" "\<not> en_aborted e1"
  shows "loop_result (loop_turn t e0) = limit_check (cfg_maxIterations (en_config e0)) (control_of e2)"
    and "fst (loop_turn t e0) = Inr False \<Longrightarrow> ready (snd (loop_turn t e0)) \<and> same_settings e0 (snd (loop_turn t e0))"
proof -
  have na: "\<not> en_aborted e2" using e2(1) by (simp add: ready_def)
  have L: "loop_turn t e0 = bind hasReachedMaxIterations (\<lambda>reached e.
           if reached then (Inr True, e)
           else if en_aborted e then
             (if en_injectionPending e then (Inr False, resetRestartFlags e) else (Inr True, e))
           else (Inr False, e)) e2"
    using h late run by (simp add: loop_turn_def bind_def seq_def ret_def)
  have "loop_turn t e0 = hasReachedMaxIterations e2"
  proof (cases "hasReachedMaxIterations e2")
    case (Pair x e3)
    show ?thesis
    proof (cases x)
      case (Inr b)
      show ?thesis
      proof (cases b)
        case False
        with Pair Inr limit_quiet(2) [OF e2(3)] have "e3 = e2" by simp
        with Pair Inr False na show ?thesis by (simp add: L bind_def)
      qed (simp add: L bind_def Pair Inr)
    qed (simp add: L bind_def Pair)
  qed
  moreover have "cfg_maxIterations (en_config e2) = cfg_maxIterations (en_config e0)"
    using e2(2) by (simp add: same_settings_def)
  ultimately show "loop_result (loop_turn t e0) = limit_check (cfg_maxIterations (en_config e0)) (control_of e2)"
    and "fst (loop_turn t e0) = Inr False \<Longrightarrow> ready (snd (loop_turn t e0)) \<and> same_settings e0 (snd (loop_turn t e0))"
    using limit_quiet [OF e2(3)] e2(1,2) by simp_all
qed

text \<open>An outcome that exits ends the loop.\<close>

lemma after_exit:
  assumes "handleIterationOutcome t r e1 = (Inr True, e2)" "tn_late t = []" "\<not> en_injectionPending e2"
    and "runIteration t False e0 = (Inr r, e1)" "ir_promptMode r = EngineContext" "\<not> en_aborted e1"
  shows "loop_turn t e0 = (Inr True, e2)"
  using assms by (simp add: loop_turn_def bind_def seq_def ret_def)

lemma control_update_all [simp]:
  "(c :: control)\<lparr>ct_status := a, ct_iteration := b, ct_errors := d\<rparr> = \<lparr>ct_status = a, ct_iteration = b, ct_errors = d\<rparr>"
  by (cases c) simp

lemma control_ended: "control_of (ended st e) = (control_of e)\<lparr>ct_status := st, ct_errors := None\<rparr>"
  and control_cleared: "control_of (cleared e) = (control_of e)\<lparr>ct_errors := None\<rparr>"
  and control_failed: "control_of (failed_engine key e) = (control_of e)\<lparr>ct_iteration := ct_iteration (control_of e) - 1,
        ct_errors := Some (Some key, next_count key (control_of e))\<rparr>"
  and control_status: "control_of (set_state (\<lambda>s. s\<lparr>st_status := st\<rparr>) e) = (control_of e)\<lparr>ct_status := st\<rparr>"
  by (simp_all add: control_of_def ended_def cleared_def failed_engine_def set_state_def)

lemma same_control_cleared: "same_control e e' \<Longrightarrow> same_control (cleared e) (cleared e')"
  by (simp add: same_control_def cleared_def set_state_def)

lemma cleared_keeps:
  "ready e \<Longrightarrow> ready (cleared e)" "same_settings e (cleared e)" "st_status (en_state (cleared e)) = st_status (en_state e)"
  by (auto simp: ready_def same_settings_def cleared_def set_state_def inPlanMode_def)

lemma failed_keeps:
  assumes "same_but_message (failed_engine key e) e'" "ready e"
  shows "ready e'" "same_settings e e'" "st_status (en_state e') = st_status (en_state e)"
proof -
  from assms(1) have s: "st_status (en_state e') = st_status (en_state e)"
    "map_option pm_active (st_planMode (en_state e')) = map_option pm_active (st_planMode (en_state e))"
    by (auto simp: same_but_message_def failed_engine_def set_state_def control_of_def)
  then have p: "inPlanMode e' = inPlanMode e" by (auto simp: inPlanMode_def split: option.splits)
  show "st_status (en_state e') = st_status (en_state e)" by (rule s)
  show "ready e'" "same_settings e e'"
    using assms s p
    by (auto simp: same_but_message_def ready_def same_settings_def failed_engine_def set_state_def)
qed

lemma loop_turn_quiet:
  assumes q: "quiet t" and e: "ready e"
  defines "k \<equiv> kind_of (inPlanMode e) (en_stopDetector e) t"
  shows "loop_result (loop_turn t e)
      = control_turn (cfg_maxIterations (en_config e)) (cfg_maxConsecutiveErrors (en_config e)) k (control_of e)"
    and "fst (loop_turn t e) = Inr False \<Longrightarrow> ready (snd (loop_turn t e)) \<and> same_settings e (snd (loop_turn t e))"
proof -
  obtain r e1 where run: "runIteration t False e = (Inr r, e1)" "ir_promptMode r = EngineContext"
    and s1: "same_control (started e) e1" and o1: "ir_outcome r = kind_outcome k"
    and key: "\<And>key. k = KError key \<Longrightarrow> error_key (ir_errorCode r) = key"
    using iteration_quiet [OF q e] unfolding k_def by blast
  have r1: "ready e1" using ready_same [OF s1] started_ready [OF e] by blast
  have st1: "st_status (en_state e1) = Running \<or> st_status (en_state e1) = Planning"
    using started_status [of e] s1 by (simp add: same_control_def)
  have set1: "same_settings e e1"
    using same_settings_started [OF e] same_settings_control [OF s1] same_settings_trans by blast
  have c1: "control_of e1 = (control_of e)\<lparr>ct_status := turn_status (control_of e), ct_iteration := Suc (ct_iteration (control_of e))\<rparr>"
    using control_started [OF e] control_same [OF s1] by simp
  have cfg: "cfg_maxConsecutiveErrors (en_config e1) = cfg_maxConsecutiveErrors (en_config e)"
    using set1 by (simp add: same_settings_def)
  have f: "\<not> en_native e1" "\<not> en_injectionPending e1" "\<not> en_aborted e1" using r1 by (simp_all add: ready_def)
  have t: "tn_late t = []" "\<not> is_status_failure (tn_commit t)" using q by (simp_all add: quiet_def)
  note exit = after_exit [OF _ t(1) _ run f(3)] and cont = after_outcome [OF _ t(1) _ _ _ run f(3)]
  have "loop_result (loop_turn t e)
      = control_turn (cfg_maxIterations (en_config e)) (cfg_maxConsecutiveErrors (en_config e)) k (control_of e)
    \<and> (fst (loop_turn t e) = Inr False \<longrightarrow> ready (snd (loop_turn t e)) \<and> same_settings e (snd (loop_turn t e)))"
  proof (cases k)
    case KContinue
    then have h: "handleIterationOutcome t r e1 = (Inr False, cleared e1)"
      by (simp add: handleIterationOutcome_def o1 kind_outcome_def engine_ops cleared_def)
    have "st_status (en_state (cleared e1)) = Running \<or> st_status (en_state (cleared e1)) = Planning"
      using st1 by (simp add: cleared_keeps)
    note A = cont [OF h cleared_keeps(1) [OF r1] same_settings_trans [OF set1 cleared_keeps(2)] this]
    then show ?thesis by (simp add: control_cleared c1 KContinue control_turn_def Let_def)
  next
    case KComplete
    obtain y e2 where h: "finalizeCompletedOutcome t e1 = (Inr y, e2)" "same_control (ended Completed e1) e2"
      using complete_quiet [OF t(2) f(1) st1] by blast
    with finalize_value have y by blast
    with h have "handleIterationOutcome t r e1 = (Inr True, e2)"
      by (simp add: handleIterationOutcome_def o1 KComplete kind_outcome_def)
    moreover have "\<not> en_injectionPending e2" using h(2) f(2) by (simp add: same_control_def ended_def set_state_def)
    ultimately have "loop_turn t e = (Inr True, e2)" by (rule exit)
    with control_same [OF h(2)] show ?thesis
      by (simp add: loop_result_def control_ended c1 KComplete control_turn_def Let_def)
  next
    case KBlocked
    obtain y e2 where h: "handleBlockedOutcome e1 = (Inr y, e2)" "same_control (ended Stopped e1) e2"
      using blocked_quiet [OF f(1) st1] by blast
    with blocked_value have y by blast
    with h have "handleIterationOutcome t r e1 = (Inr True, e2)"
      by (simp add: handleIterationOutcome_def o1 KBlocked kind_outcome_def)
    moreover have "\<not> en_injectionPending e2" using h(2) f(2) by (simp add: same_control_def ended_def set_state_def)
    ultimately have "loop_turn t e = (Inr True, e2)" by (rule exit)
    with control_same [OF h(2)] show ?thesis
      by (simp add: loop_result_def control_ended c1 KBlocked control_turn_def Let_def)
  next
    case KPlanReady
    obtain e2 where h: "handlePlanReadyOutcome t e1 = (Inr True, e2)" "same_control (cleared e1) e2"
      using plan_ready_quiet [OF f(1)] by blast
    then have "handleIterationOutcome t r e1 = (Inr True, e2)"
      by (simp add: handleIterationOutcome_def o1 KPlanReady kind_outcome_def)
    moreover have "\<not> en_injectionPending e2" using h(2) f(2) by (simp add: same_control_def cleared_def set_state_def)
    ultimately have "loop_turn t e = (Inr True, e2)" by (rule exit)
    with control_same [OF h(2)] show ?thesis
      by (simp add: loop_result_def control_cleared c1 KPlanReady control_turn_def Let_def)
  next
    case (KError ky)
    let ?n = "next_count ky (control_of e)"
    let ?halt = "cfg_maxConsecutiveErrors (en_config e) \<noteq> 0 \<and> cfg_maxConsecutiveErrors (en_config e) \<le> enat ?n"
    have n: "next_count ky (control_of e1) = ?n" by (simp add: c1 next_count_def)
    obtain e2 where h: "handleErrorOutcome r e1 = (Inr ?halt, e2)"
      "same_but_message (if ?halt then set_state (\<lambda>s. s\<lparr>st_status := Failed\<rparr>) (failed_engine ky e1) else failed_engine ky e1) e2"
      using error_quiet [OF f(1,2) st1, of r] unfolding key [OF KError] n cfg by blast
    have h': "handleIterationOutcome t r e1 = (Inr ?halt, e2)"
      using h(1) by (simp add: handleIterationOutcome_def o1 KError kind_outcome_def)
    show ?thesis
    proof (cases ?halt)
      case True
      with h(2) have b: "same_but_message (set_state (\<lambda>s. s\<lparr>st_status := Failed\<rparr>) (failed_engine ky e1)) e2" by simp
      then have x: "control_of e2 = (control_of (failed_engine ky e1))\<lparr>ct_status := Failed\<rparr>"
        by (simp add: same_but_message_def control_status)
      from b f(2) have i: "\<not> en_injectionPending e2"
        by (simp add: same_but_message_def failed_engine_def set_state_def)
      from True have "loop_turn t e = (Inr True, e2)" using exit [OF _ i] h' by simp
      with x True show ?thesis
        by (simp add: loop_result_def control_failed c1 KError control_turn_def Let_def)
    next
      case False
      with h(2) have x: "same_but_message (failed_engine ky e1) e2" by simp
      note F = failed_keeps [OF x r1]
      have "st_status (en_state e2) = Running \<or> st_status (en_state e2) = Planning" using F(3) st1 by simp
      note A = cont [OF _ F(1) same_settings_trans [OF set1 F(2)] this]
      have "control_of e2 = control_of (failed_engine ky e1)" using x by (simp add: same_but_message_def)
      with A False h' show ?thesis
        by (auto simp: control_failed c1 KError control_turn_def Let_def)
    qed
  qed
  then show "loop_result (loop_turn t e)
      = control_turn (cfg_maxIterations (en_config e)) (cfg_maxConsecutiveErrors (en_config e)) k (control_of e)"
    and "fst (loop_turn t e) = Inr False \<Longrightarrow> ready (snd (loop_turn t e)) \<and> same_settings e (snd (loop_turn t e))" by blast+
qed


lemma ready_continues: "ready e \<Longrightarrow> \<not> (en_aborted e \<or> \<not> shouldContinue e)"
  "ready e \<Longrightarrow> ct_status (control_of e) \<in> {Running, Starting, Planning}"
  by (auto simp: ready_def shouldContinue_def inPlanMode_def control_of_def)

lemma run_loop_quiet:
  assumes "list_all quiet ts" "ready e"
  shows "map_option (\<lambda>p. (fst p, control_of (snd p))) (run_loop ts e)
    = run_control (cfg_maxIterations (en_config e)) (cfg_maxConsecutiveErrors (en_config e))
        (map (kind_of (inPlanMode e) (en_stopDetector e)) ts) (control_of e)"
  using assms
proof (induction ts arbitrary: e)
  case Nil
  then show ?case using ready_continues [of e] by simp
next
  case (Cons t ts)
  then have t: "quiet t" "list_all quiet ts" by simp_all
  note L = loop_turn_quiet [OF t(1) Cons.prems(2)] and c = ready_continues [OF Cons.prems(2)]
  obtain x e1 where l: "loop_turn t e = (x, e1)" by fastforce
  show ?case
  proof (cases "x = Inr False")
    case True
    with L(2) l have "ready e1" "same_settings e e1" by simp_all
    with Cons.IH [OF t(2)] have "map_option (\<lambda>p. (fst p, control_of (snd p))) (run_loop ts e1)
      = run_control (cfg_maxIterations (en_config e)) (cfg_maxConsecutiveErrors (en_config e))
          (map (kind_of (inPlanMode e) (en_stopDetector e)) ts) (control_of e1)"
      by (simp add: same_settings_def)
    with L(1) [symmetric] l True c show ?thesis by (simp add: loop_result_def)
  next
    case False
    with L(1) [symmetric] l c show ?thesis
      by (cases x) (auto simp: loop_result_def)
  qed
qed

end
