(* ===== verification/EngineLimits.thy ===== *)
theory EngineLimits
  imports EngineLoop
begin

text \<open>
  The limits of the engine's loop (\<open>src/core/engine/engine-core.ts\<close>): the failsafe for identical errors,
  the iteration limit, and what they leave unbounded. They are proved of the abstract machine of
  \<open>EngineLoop\<close> and carried over to the engine.
\<close>

section \<open>The machine's limits\<close>

text \<open>The iteration limit is not reached.\<close>

definition below_limit :: "enat \<Rightarrow> control \<Rightarrow> bool" where
  "below_limit m c \<longleftrightarrow> m = 0 \<or> enat (ct_iteration c) < m"

lemma limit_check_below: "below_limit m c \<Longrightarrow> limit_check m c = (Inr False, c)"
  by (auto simp: below_limit_def limit_check_def)

lemma below_limit_error [simp]: "below_limit m (c\<lparr>ct_status := s, ct_errors := x\<rparr>) = below_limit m c"
  by (simp add: below_limit_def)

lemma looping_turn_status: "ct_status c \<in> {Running, Starting, Planning} \<Longrightarrow> turn_status c \<in> {Running, Planning}"
  by (auto simp: turn_status_def)

lemma turn_status_idem [simp]: "turn_status (c\<lparr>ct_status := turn_status c, ct_errors := x\<rparr>) = turn_status c"
  by (simp add: turn_status_def)

text \<open>One error code again and again.\<close>

definition counted :: "string \<Rightarrow> control \<Rightarrow> control" where
  "counted key c = c\<lparr>ct_status := turn_status c, ct_errors := Some (Some key, next_count key c)\<rparr>"

lemma counted_facts:
  "next_count key (counted key c) = Suc (next_count key c)"
  "ct_status c \<in> {Running, Starting, Planning} \<Longrightarrow> ct_status (counted key c) \<in> {Running, Starting, Planning}"
  "below_limit m (counted key c) = below_limit m c"
  "(counted key c)\<lparr>ct_status := s, ct_errors := x\<rparr> = c\<lparr>ct_status := s, ct_errors := x\<rparr>"
  "0 < next_count key c"
  by (simp_all add: counted_def next_count_def turn_status_def split: option.split)

lemma control_error_step:
  assumes "below_limit maxIt c" "maxErr = 0 \<or> enat (next_count key c) < maxErr"
  shows "control_turn maxIt maxErr (KError key) c = (Inr False, counted key c)"
  using assms by (auto simp: control_turn_def Let_def counted_def limit_check_below)

lemma control_errors_continue:
  assumes "ct_status c \<in> {Running, Starting, Planning}" "below_limit maxIt c" "next_count key c + j \<le> K"
  shows "run_control maxIt (enat K) (replicate j (KError key)) c = None"
  using assms
proof (induction j arbitrary: c)
  case (Suc j)
  have "run_control maxIt (enat K) (replicate j (KError key)) (counted key c) = None"
    by (rule Suc.IH) (use Suc.prems counted_facts in auto)
  with control_error_step [of maxIt c "enat K" key] Suc.prems show ?case by simp
qed simp

lemma control_errors_fail:
  assumes "ct_status c \<in> {Running, Starting, Planning}" "below_limit maxIt c" "next_count key c + j = K"
  shows "run_control maxIt (enat K) (replicate (Suc j) (KError key)) c
      = Some (Inr (), c\<lparr>ct_status := Failed, ct_errors := Some (Some key, K)\<rparr>)"
  using assms
proof (induction j arbitrary: c)
  case 0
  then have "0 < K" "next_count key c = K" using counted_facts(5) [of key c] by simp_all
  then show ?case using 0 by (simp add: control_turn_def Let_def zero_enat_def)
next
  case (Suc j)
  have "run_control maxIt (enat K) (replicate (Suc j) (KError key)) (counted key c)
      = Some (Inr (), (counted key c)\<lparr>ct_status := Failed, ct_errors := Some (Some key, K)\<rparr>)"
    by (rule Suc.IH) (use Suc.prems counted_facts in auto)
  with control_error_step [of maxIt c "enat K" key] Suc.prems show ?case by (simp add: counted_facts(4))
qed

text \<open>Two codes that alternate never reach a limit of two or more.\<close>

lemma control_alternating:
  assumes "ct_status c \<in> {Running, Starting, Planning}" "below_limit maxIt c" "maxErr = 0 \<or> 1 < maxErr"
    and "distinct_adj ks" "ks \<noteq> [] \<Longrightarrow> next_count (hd ks) c = 1"
  shows "run_control maxIt maxErr (map KError ks) c = None"
  using assms
proof (induction ks arbitrary: c)
  case (Cons k ks)
  have k: "next_count k c = 1" using Cons.prems(5) by simp
  have n: "ks \<noteq> [] \<Longrightarrow> next_count (hd ks) (counted k c) = 1"
    using Cons.prems(4) by (cases ks) (auto simp: counted_def next_count_def)
  have d: "distinct_adj ks" using Cons.prems(4) by (cases ks) auto
  have "run_control maxIt maxErr (map KError ks) (counted k c) = None"
    using Cons.IH [OF counted_facts(2) [OF Cons.prems(1)] _ Cons.prems(3) d n] Cons.prems(2)
    by (simp add: counted_facts(3))
  with control_error_step [of maxIt c maxErr k] Cons.prems(1-3) k show ?case
    by (simp add: one_enat_def)
qed simp

text \<open>
  Finite limits bound the run: a continued turn brings the task one iteration closer to its limit and
  resets the error counter, a failed one brings the counter one closer to the failsafe.
\<close>

definition errors_left :: "nat \<Rightarrow> nat \<Rightarrow> string \<Rightarrow> control \<Rightarrow> nat" where
  "errors_left M K key c = (M - Suc (ct_iteration c)) * K + (Suc K - next_count key c)"

lemma control_returns:
  assumes "\<And>k'. KError k' \<in> set ks \<Longrightarrow> k' = key" "0 < M" "0 < K"
    and "ks \<noteq> []" "errors_left M K key c \<le> length ks" "next_count key c \<le> K"
  shows "run_control (enat M) (enat K) ks c \<noteq> None"
  using assms
proof (induction ks arbitrary: c)
  case (Cons k ks)
  show ?case
  proof (cases "ct_status c \<in> {Running, Starting, Planning}")
    case st: True
    obtain x c1 where t: "control_turn (enat M) (enat K) k c = (x, c1)" by fastforce
    show ?thesis
    proof (cases "x = Inr False")
      case True
      have M: "enat M \<noteq> 0" "enat K \<noteq> 0" using Cons.prems(2,3) by (simp_all add: zero_enat_def)
      have z: "errors_left M K key c1 < errors_left M K key c \<and> next_count key c1 \<le> K \<and> 0 < errors_left M K key c1"
      proof (cases k)
        case (KError k')
        then have k': "k' = key" using Cons.prems(1) by simp
        from t True M have "next_count key c < K" "Suc (ct_iteration c) \<le> M" "c1 = counted key c"
          by (auto simp: KError k' control_turn_def Let_def limit_check_def counted_def split: if_splits)
        then show ?thesis by (simp add: errors_left_def counted_facts(1)) (simp add: counted_def)
      next
        case KContinue
        from t True M have "Suc (ct_iteration c) < M" "ct_iteration c1 = Suc (ct_iteration c)" "ct_errors c1 = None"
          by (auto simp: KContinue control_turn_def Let_def limit_check_def split: if_splits)
        then have "errors_left M K key c1 + (Suc K - next_count key c) = errors_left M K key c" "next_count key c1 = 1"
            "0 < errors_left M K key c1"
          using Cons.prems(3) by (simp_all add: errors_left_def next_count_def Suc_diff_Suc [symmetric])
        then show ?thesis using Cons.prems(3,6) by simp
      qed (use t True in \<open>simp_all add: control_turn_def Let_def\<close>)
      then have "ks \<noteq> []" using Cons.prems(5) by (cases ks) auto
      then have "run_control (enat M) (enat K) ks c1 \<noteq> None"
        using Cons.IH [of c1] Cons.prems z by auto
      with t True st show ?thesis by simp
    next
      case False
      with t st show ?thesis by (cases x) auto
    qed
  qed simp
qed simp

section \<open>Planning tasks and the iteration limit\<close>

lemma control_plan_limit:
  assumes "ct_status c = Planning" "ct_iteration c + length ks = M" "set ks \<subseteq> {KContinue}" "ks \<noteq> []"
  shows "run_control (enat M) maxErr ks c = Some (Inl (BadTransition (InvalidTransition Planning MaxIterations)),
    \<lparr>ct_status = Planning, ct_iteration = M, ct_errors = None\<rparr>)"
  using assms
proof (induction ks arbitrary: c)
  case (Cons k ks)
  show ?case
  proof (cases ks)
    case Nil
    with Cons.prems show ?thesis
      by (auto simp: control_turn_def turn_status_def limit_check_def zero_enat_def)
  next
    case (Cons k' ks')
    let ?c = "\<lparr>ct_status = Planning, ct_iteration = Suc (ct_iteration c), ct_errors = None\<rparr>"
    have "run_control (enat M) maxErr ks ?c = Some (Inl (BadTransition (InvalidTransition Planning MaxIterations)),
        \<lparr>ct_status = Planning, ct_iteration = M, ct_errors = None\<rparr>)"
      by (rule Cons.IH) (use Cons.prems Cons in auto)
    moreover have "control_turn (enat M) maxErr k c = (Inr False, ?c)"
      using Cons.prems Cons by (auto simp: control_turn_def turn_status_def limit_check_def)
    ultimately show ?thesis using Cons.prems(1) by simp
  qed
qed simp

section \<open>Carrying the machine's runs over\<close>

abbreviation kinds :: "engine \<Rightarrow> turn list \<Rightarrow> turn_kind list" where
  "kinds e \<equiv> map (kind_of (inPlanMode e) (en_stopDetector e))"

lemma run_loop_None:
  assumes "list_all quiet ts" "ready e"
    and "run_control (cfg_maxIterations (en_config e)) (cfg_maxConsecutiveErrors (en_config e)) (kinds e ts) (control_of e) = None"
  shows "run_loop ts e = None"
  using run_loop_quiet [OF assms(1,2)] assms(3) by simp

lemma run_loop_Some:
  assumes "list_all quiet ts" "ready e"
    and "run_control (cfg_maxIterations (en_config e)) (cfg_maxConsecutiveErrors (en_config e)) (kinds e ts) (control_of e) = Some (x, c)"
  obtains e' where "run_loop ts e = Some (x, e')" "control_of e' = c"
  using run_loop_quiet [OF assms(1,2)] assms(3) by auto

section \<open>Sample engines\<close>

definition sample_engine_config :: "enat \<Rightarrow> enat \<Rightarrow> task_config" where
  "sample_engine_config mi me = \<lparr>cfg_id = ''t'', cfg_creator = None, cfg_name = ''n'', cfg_directory = ''/d'',
     cfg_prompt = ''p'', cfg_issueNumber = None, cfg_createdAt = 1, cfg_updatedAt = 1, cfg_isPrivate = None,
     cfg_workspaceId = ''w'', cfg_model = \<lparr>providerID = ''a'', modelID = ''m'', variant = []\<rparr>, cfg_cheapModel = None,
     cfg_maxIterations = mi, cfg_maxConsecutiveErrors = me, cfg_activityTimeoutSeconds = None,
     cfg_stopPattern = default_stopPattern, cfg_git = default_git, cfg_baseBranch = None, cfg_useWorktree = True,
     cfg_clearPlanningFolder = False, cfg_autoAcceptPlan = None, cfg_fullyAutonomous = None\<rparr>"

definition sample_plan_mode :: plan_mode where
  "sample_plan_mode = \<lparr>pm_active = True, pm_planSessionId = None, pm_planServerUrl = None, pm_feedbackRounds = 0,
     pm_planContent = None, pm_planningFolderCleared = False, pm_isPlanReady = False\<rparr>"

definition sample_engine :: "task_status \<Rightarrow> enat \<Rightarrow> enat \<Rightarrow> engine" where
  "sample_engine s mi me = \<lparr>en_config = sample_engine_config mi me,
     en_state = (createInitialState ''t'')\<lparr>st_status := s,
       st_planMode := (if s = Planning then Some sample_plan_mode else None)\<rparr>,
     en_native = False, en_stopDetector = (\<lambda>_. False), en_aborted = False, en_injectionPending = False,
     en_isTaskRunning = False, en_isStarting = False, en_lastPromptMode = EngineContext, en_skipGitSetup = False,
     en_singleTurn = False, en_onPlanReady = False, en_onCompleted = False, en_completionFollowUp = False,
     en_prompts = [], en_events = [], en_persisting = True, en_saved = None, en_clock = 0\<rparr>"

definition sample_turn :: "turn_signal \<Rightarrow> turn" where
  "sample_turn sig = \<lparr>tn_early = [], tn_refused = None, tn_recovered = False, tn_during = [], tn_elapsed = 1, tn_signal = sig,
     tn_content = [], tn_messages = 1, tn_tools = 0, tn_commitSafety = GitSafe 1, tn_beforeCommit = True,
     tn_commit = NothingToCommit, tn_atCommit = [], tn_settled = True, tn_finalSafety = GitSafe 1, tn_planFile = None, tn_late = []\<rparr>"

lemma sample_ready [simp]: "s = Running \<or> s = Starting \<or> s = Planning \<Longrightarrow> ready (sample_engine s mi me)"
  by (auto simp: ready_def sample_engine_def createInitialState_def integrity_invalid_def inPlanMode_def sample_plan_mode_def)

lemma sample_quiet [simp]: "quiet (sample_turn sig)"
  by (simp add: quiet_def sample_turn_def)

lemma sample_config [simp]:
  "cfg_maxIterations (en_config (sample_engine s mi me)) = mi"
  "cfg_maxConsecutiveErrors (en_config (sample_engine s mi me)) = me"
  "control_of (sample_engine s mi me) = \<lparr>ct_status = s, ct_iteration = 0, ct_errors = None\<rparr>"
  "inPlanMode (sample_engine s mi me) = (s = Planning)"
  "en_stopDetector (sample_engine s mi me) = (\<lambda>_. False)"
  "st_consecutiveErrors (en_state (sample_engine s mi me)) = None"
  "st_currentIteration (en_state (sample_engine s mi me)) = 0" "\<not> en_isTaskRunning (sample_engine s mi me)"
  by (auto simp: sample_engine_def sample_engine_config_def control_of_def createInitialState_def inPlanMode_def
      sample_plan_mode_def)

lemma empty_answer [simp]: "detectTrailingPromiseMarker [] = None" "\<not> planReadyPattern []"
  by (simp_all add: detectTrailingPromiseMarker_def trailing_marker_def planReadyPattern_def drop_trailing_def
      drop_one_def strip_suffix_def close_tag_def starts_with_def)

lemma sample_kind [simp]:
  "kind_of p st (sample_turn (ErrorReported m c)) = KError c"
  "kind_of p (\<lambda>_. False) (sample_turn Answered) = KContinue"
  by (simp_all add: kind_of_def sample_turn_def answer_kind_def)

section \<open>Properties\<close>







text \<open>
  The failsafe counts only identical errors in a row: errors whose code changes from turn to turn
  never fail the task and never reach an iteration limit, so a run of them never returns, however long it is.
\<close>

theorem alternating_errors_never_return:
  assumes "list_all quiet ts" "ready e" "st_consecutiveErrors (en_state e) = None"
    and "below_limit (cfg_maxIterations (en_config e)) (control_of e)" "1 < cfg_maxConsecutiveErrors (en_config e)"
    and "kinds e ts = map KError ks" "distinct_adj ks"
  shows "run_loop ts e = None"
proof -
  have n: "\<And>k. next_count k (control_of e) = 1" using assms(3) by (simp add: next_count_def control_of_def)
  show ?thesis
    using control_alternating [OF ready_continues(2) [OF assms(2)] assms(4) _ assms(7)] assms(5) n
    by (intro run_loop_None assms(1,2)) (simp add: assms(6))
qed

lemma distinct_adj_cycle: "a \<noteq> b \<Longrightarrow> distinct_adj (concat (replicate n [a, b]))"
proof (induction n)
  case (Suc n)
  then show ?case by (cases n) auto
qed simp

theorem alternating_errors_never_return_witness:
  "run_loop (concat (replicate 50 [sample_turn (ErrorReported ''m'' ''c''), sample_turn (ErrorReported ''m'' ''d'')]))
     (sample_engine Running 3 2) = None"
proof -
  have k: "kinds (sample_engine Running 3 2) (concat (replicate n [sample_turn (ErrorReported ''m'' ''c''), sample_turn (ErrorReported ''m'' ''d'')]))
     = map KError (concat (replicate n [''c'', ''d'']))" for n
    by (induction n) auto
  show ?thesis
    by (rule alternating_errors_never_return [OF _ _ _ _ _ k distinct_adj_cycle])
       (auto simp: list_all_iff below_limit_def one_enat_def numeral_eq_enat)
qed

text \<open>
  A planning task has no valid way to its iteration limit: when the plan is still not ready after
  \<open>maxIterations\<close> turns, \<open>runPlanIteration\<close> throws the refused move from planning to max_iterations and
  the task stays in planning.
\<close>

theorem plan_limit_throws:
  assumes "list_all quiet ts" "ts \<noteq> []" "ready e" "inPlanMode e" "\<not> en_isTaskRunning e"
    and "set (kinds e ts) \<subseteq> {KContinue}"
    and "cfg_maxIterations (en_config e) = enat (st_currentIteration (en_state e) + length ts)"
  shows "\<exists>e'. runPlanIteration ts e = Some (Inl (BadTransition (InvalidTransition Planning MaxIterations)), e')
    \<and> st_status (en_state e') = Planning"
proof -
  let ?e = "(resetRestartFlags e)\<lparr>en_isTaskRunning := True\<rparr>"
  have st: "st_status (en_state e) = Planning" using assms(4) by (simp add: inPlanMode_def)
  have e: "ready ?e" "kinds ?e ts = kinds e ts" "control_of ?e = control_of e" "en_config ?e = en_config e"
    using assms(3) by (simp_all add: ready_def inPlanMode_def control_of_def resetRestartFlags_def)
  have "run_control (enat (st_currentIteration (en_state e) + length ts)) (cfg_maxConsecutiveErrors (en_config e))
      (kinds e ts) (control_of e) = Some (Inl (BadTransition (InvalidTransition Planning MaxIterations)),
        \<lparr>ct_status = Planning, ct_iteration = st_currentIteration (en_state e) + length ts, ct_errors = None\<rparr>)"
    by (rule control_plan_limit) (use assms(2,6) st in \<open>auto simp: control_of_def\<close>)
  then have r: "run_control (cfg_maxIterations (en_config ?e)) (cfg_maxConsecutiveErrors (en_config ?e))
      (kinds ?e ts) (control_of ?e) = Some (Inl (BadTransition (InvalidTransition Planning MaxIterations)),
        \<lparr>ct_status = Planning, ct_iteration = st_currentIteration (en_state e) + length ts, ct_errors = None\<rparr>)"
    unfolding e(2-4) assms(7) .
  obtain e1 where "run_loop ts ?e = Some (Inl (BadTransition (InvalidTransition Planning MaxIterations)), e1)"
    "control_of e1 = \<lparr>ct_status = Planning, ct_iteration = st_currentIteration (en_state e) + length ts, ct_errors = None\<rparr>"
    by (rule run_loop_Some [OF assms(1) e(1) r])
  then show ?thesis using st assms(5)
    by (auto simp: runPlanIteration_def runTask_def finish_run_def control_of_def resetRestartFlags_def)
qed

theorem plan_limit_throws_witness:
  "\<exists>e'. runPlanIteration [sample_turn Answered, sample_turn Answered] (sample_engine Planning 2 10)
      = Some (Inl (BadTransition (InvalidTransition Planning MaxIterations)), e') \<and> st_status (en_state e') = Planning"
  by (rule plan_limit_throws) (simp_all add: numeral_eq_enat)

end
