(* ===== verification/EngineInvariants.thy ===== *)
theory EngineInvariants
  imports EngineLimits
begin

text \<open>
  What holds of every run of the engine (\<open>TaskEngine\<close>), whatever the environment answers and whatever
  calls arrive. The locale \<open>engine_relation\<close> collects the laws of a relation between the engine before
  and after an operation; each operation is shown once to respect them. Two relations are interpreted:
  a settled engine stays settled, and the iteration history is left alone.
\<close>

section \<open>Relations between engines\<close>

definition plan_ready :: "task_state \<Rightarrow> bool" where
  "plan_ready s = (case st_planMode s of Some p \<Rightarrow> pm_isPlanReady p | None \<Rightarrow> False)"

definition state_core :: "task_state \<Rightarrow> task_status \<times> bool \<times> iteration_summary list" where
  "state_core s = (st_status s, plan_ready s, st_recentIterations s)"

definition core :: "engine \<Rightarrow> bool \<times> task_status \<times> bool \<times> iteration_summary list" where
  "core e = (en_aborted e, state_core (en_state e))"

lemma state_core_update [simp]:
  "state_core (s\<lparr>st_currentIteration := n\<rparr>) = state_core s" "state_core (s\<lparr>st_startedAt := t\<rparr>) = state_core s"
  "state_core (s\<lparr>st_completedAt := t\<rparr>) = state_core s" "state_core (s\<lparr>st_lastActivityAt := t\<rparr>) = state_core s"
  "state_core (s\<lparr>st_session := ss\<rparr>) = state_core s" "state_core (s\<lparr>st_harness := h\<rparr>) = state_core s"
  "state_core (s\<lparr>st_error := x\<rparr>) = state_core s" "state_core (s\<lparr>st_git := g\<rparr>) = state_core s"
  "state_core (s\<lparr>st_consecutiveErrors := c\<rparr>) = state_core s" "state_core (s\<lparr>st_pendingPrompt := p\<rparr>) = state_core s"
  "state_core (s\<lparr>st_pendingPromptMode := m\<rparr>) = state_core s" "state_core (s\<lparr>st_pendingInput := i\<rparr>) = state_core s"
  "state_core (s\<lparr>st_initialPromptAttachments := a\<rparr>) = state_core s" "state_core (s\<lparr>st_pendingModel := mo\<rparr>) = state_core s"
  by (simp_all add: state_core_def plan_ready_def)

lemma state_core_content [simp]:
  "state_core (s\<lparr>st_planMode := map_option (\<lambda>p. p\<lparr>pm_planContent := c\<rparr>) (st_planMode s)\<rparr>) = state_core s"
  by (simp add: state_core_def plan_ready_def split: option.split)

lemma core_update [simp]:
  "core (e\<lparr>en_config := c\<rparr>) = core e" "core (e\<lparr>en_injectionPending := b\<rparr>) = core e"
  "core (e\<lparr>en_isTaskRunning := b\<rparr>) = core e" "core (e\<lparr>en_isStarting := b\<rparr>) = core e"
  "core (e\<lparr>en_lastPromptMode := m\<rparr>) = core e" "core (e\<lparr>en_completionFollowUp := b\<rparr>) = core e"
  "core (e\<lparr>en_prompts := ps\<rparr>) = core e" "core (e\<lparr>en_events := es\<rparr>) = core e"
  "core (e\<lparr>en_persisting := b\<rparr>) = core e" "core (e\<lparr>en_saved := sv\<rparr>) = core e" "core (e\<lparr>en_clock := t\<rparr>) = core e"
  by (simp_all add: core_def)

lemma core_state: "state_core s = state_core (en_state e) \<Longrightarrow> core (e\<lparr>en_state := s\<rparr>) = core e"
  by (simp add: core_def)

lemma core_set_state: "(\<And>s. state_core (f s) = state_core s) \<Longrightarrow> core (set_state f e) = core e"
  by (simp add: core_def set_state_def)

lemma inputs_core:
  "inputs_set i m a n s = Inr s' \<Longrightarrow> state_core s' = state_core s"
  "inputs_setAttachments a s = Inr s' \<Longrightarrow> state_core s' = state_core s"
  "inputs_clear s = Inr s' \<Longrightarrow> state_core s' = state_core s"
  "inputs_consume s = Inr (p, s') \<Longrightarrow> state_core s' = state_core s"
  by (auto simp: inputs_set_def inputs_setAttachments_def inputs_clear_def inputs_consume_def clear_pending_def
      split: sum.splits option.splits)

abbreviation looping :: "task_status set" where
  "looping \<equiv> {Running, Starting, Planning}"

text \<open>What follows the move to \<open>completed\<close>.\<close>

definition complete_tail :: "turn \<Rightarrow> engine \<Rightarrow> bool eng" where
  "complete_tail tn e =
     seq (modify (recordHarnessGitOutcome OutcomePending))
     (seq (case st_reviewMode (en_state e) of
             Some m \<Rightarrow> whenever (rm_reviewCycles m > 0) (emit (EvCommentsAddressed (rm_reviewCycles m)))
           | None \<Rightarrow> ret ())
     (seq (emit (EvCompleted (st_currentIteration (en_state e))))
     (seq triggerPersistence
     (bind (finalizeWorkspace tn) (\<lambda>safe.
       seq triggerPersistence
       (seq (modify (\<lambda>e. if en_onCompleted e \<and> safe then e\<lparr>en_completionFollowUp := True\<rparr> else e)) (ret True)))))))"

locale engine_relation = op_relation R for R :: "engine \<Rightarrow> engine \<Rightarrow> bool" +
  assumes frame: "core e' = core e \<Longrightarrow> R e e'"
    and abort: "R e (e\<lparr>en_aborted := True\<rparr>)"
    and halt: "st \<notin> looping \<Longrightarrow> R e (set_state (\<lambda>s. s\<lparr>st_status := st\<rparr>) e)"
    and ready: "R e (set_state (\<lambda>s. s\<lparr>st_planMode := map_option (\<lambda>p. p\<lparr>pm_isPlanReady := True\<rparr>) (st_planMode s)\<rparr>) e)"
begin

lemma keeps_emit: "keeps (emit ev)"
  unfolding emit_def by (intro keeps_modify frame) simp

lemma keeps_persist: "keeps triggerPersistence"
  unfolding triggerPersistence_def by (intro keeps_modify frame) simp

lemma keeps_update: "(\<And>s. state_core (f s) = state_core s) \<Longrightarrow> keeps (updateState None f)"
  by (simp add: keeps_def updateState_def frame core_set_state)

lemma keeps_halt:
  assumes "\<And>s. state_core (f s) = state_core s" "st \<notin> looping"
  shows "keeps (updateState (Some st) f)"
proof -
  have "R e (set_state (\<lambda>x. (f x)\<lparr>st_status := st\<rparr>) e)" for e
    using trans [OF frame [OF core_set_state [of f e, OF assms(1)]] halt [OF assms(2)]]
    by (simp add: set_state_def)
  then show ?thesis
    using assms(1) by (auto simp: keeps_def updateState_def refl frame core_set_state split: sum.split)
qed

lemma keeps_inputs:
  assumes "\<And>s s'. f s = Inr s' \<Longrightarrow> state_core s' = state_core s"
  shows "keeps (lift_inputs f)"
  unfolding keeps_def lift_inputs_def using assms by (auto simp: refl intro!: frame core_state split: sum.split)

lemmas keeps_basic = keeps_ret keeps_throw keeps_bind keeps_seq keeps_catching keeps_whenever keeps_emit keeps_persist

lemmas at_basic = at_bind at_seq keeps_ret [THEN keeps_at] keeps_throw [THEN keeps_at] keeps_emit [THEN keeps_at]
  keeps_persist [THEN keeps_at]

lemmas at_halt = keeps_halt [THEN keeps_at]

section \<open>The operations\<close>

lemma R_git_outcome: "R e (recordHarnessGitOutcome o' e)"
  by (auto simp: recordHarnessGitOutcome_def refreshHarnessState_def intro!: refl frame core_set_state split: option.split)

lemma keeps_git_safety: "keeps (checkHarnessGitSafety g)"
  by (auto simp: keeps_def checkHarnessGitSafety_def refreshHarnessState_def intro!: refl frame core_set_state)

lemma keeps_command: "keeps (command_effect c)"
proof (cases c)
  case (InjectPending i msg model atts)
  have "R e (e\<lparr>en_injectionPending := True, en_aborted := True\<rparr>)" for e
    using trans [OF frame abort, of "e\<lparr>en_injectionPending := True\<rparr>" e] by simp
  then show ?thesis unfolding InjectPending command_effect.simps injectPendingNow_def
    by (intro keeps_seq keeps_modify keeps_emit)
       (auto intro!: keeps_inputs keeps_ret keeps_update dest: inputs_core simp: refl split: option.split)
next
  case (InjectFeedback i m atts)
  then show ?thesis unfolding InjectFeedback command_effect.simps injectPlanFeedback_def
    by (intro keeps_bind keeps_seq keeps_emit keeps_ret keeps_inputs inputs_core)
       (auto simp: keeps_def refl intro!: frame)
next
  case (StopSettled reason)
  have "keeps (stop_settle w reason)" for w
    by (rule keepsI) (auto simp: stop_settle_def refl intro!: at_seq at_halt keeps_emit)
  then show ?thesis by (simp add: StopSettled)
next
  case ShutdownRequested
  have "R e (e\<lparr>en_injectionPending := False, en_aborted := True\<rparr>)" for e
    using trans [OF frame abort, of "e\<lparr>en_injectionPending := False\<rparr>" e] by simp
  then show ?thesis by (simp add: ShutdownRequested beginShutdown_def keeps_modify)
qed (simp add: stop_request_def keeps_modify abort)

lemma keeps_commands: "keeps (apply_commands cs)"
proof -
  have "R e (fold (\<lambda>c e. snd (command_effect c e)) cs e)" for e
  proof (induction cs arbitrary: e)
    case (Cons c cs)
    then show ?case using keeps_command [of c] by (simp add: keeps_def) (metis trans)
  qed (simp add: refl)
  then show ?thesis by (simp add: apply_commands_def keeps_modify)
qed

lemma keeps_attachments: "keeps consumeInitialPromptAttachments" "keeps (consumePendingOrInitialAttachments p)"
proof -
  show "keeps consumeInitialPromptAttachments"
    by (simp add: keeps_def consumeInitialPromptAttachments_def frame core_set_state)
  then show "keeps (consumePendingOrInitialAttachments p)"
    by (simp add: consumePendingOrInitialAttachments_def keeps_ret split: option.split)
qed

lemma keeps_send: "keeps (send_prompt b atts r)"
  unfolding send_prompt_def by (intro keeps_modify frame) simp

lemma keeps_take_model: "keeps take_pending_model"
  unfolding take_pending_model_def
  by (intro keeps_modify) (auto simp: set_state_def core_def intro!: refl frame split: option.split)

lemma keeps_consume: "keeps consume_input"
  unfolding keeps_def consume_input_def
  by (auto simp: refl intro!: frame core_state dest: inputs_core split: sum.split prod.split)

lemma keeps_build: "keeps (buildPrompt r)"
proof -
  have plan: "keeps (buildPlanModePrompt r p)" for p
    by (rule keepsI)
       (auto simp: buildPlanModePrompt_def Let_def intro!: at_bind keeps_attachments [THEN keeps_at] keeps_basic keeps_send
         split: option.split)
  have direct: "keeps (buildDirectUserPrompt r p)" for p
    unfolding buildDirectUserPrompt_def by (auto intro!: keeps_basic keeps_attachments keeps_send)
  have execution: "keeps (buildExecutionPrompt p)" for p
    by (rule keepsI)
       (auto simp: buildExecutionPrompt_def Let_def intro!: at_basic keeps_attachments [THEN keeps_at] keeps_basic keeps_send
         split: option.split)
  have "keeps (buildTaskPrompt r)"
    unfolding buildTaskPrompt_def
    by (intro keeps_bind keeps_seq keeps_consume keeps_take_model, rule keepsI)
       (auto intro!: plan [THEN keeps_at] direct [THEN keeps_at] execution [THEN keeps_at] split: option.split)
  moreover have "R e (e\<lparr>en_lastPromptMode := m\<rparr>)" for e m by (intro frame) simp
  ultimately show ?thesis
    by (intro keepsI) (auto simp: buildPrompt_def refl split: sum.split intro: trans [OF _ keeps_at])
qed

lemma keeps_evaluate: "keeps (evaluateTaskOutcome content ctx)"
  by (simp add: keeps_def evaluateTaskOutcome_def Let_def refl ready)

lemma keeps_record_commit: "keeps (record_commit it c)"
  unfolding record_commit_def by (intro keeps_seq keeps_emit keeps_update) simp

lemma keeps_commit: "keeps (commitIteration tn it)"
proof -
  have "keeps (commitTaskIteration tn it)"
    unfolding commitTaskIteration_def
    by (cases "tn_commit tn")
       (auto simp: refl R_git_outcome intro!: keepsI at_seq keeps_ret keeps_record_commit [THEN keeps_at])
  then show ?thesis unfolding commitIteration_def
    by (auto intro!: keeps_basic keeps_git_safety keeps_modify R_git_outcome)
qed

lemma keeps_execute: "keeps (executeIterationPrompt tn)"
  unfolding executeIterationPrompt_def
  by (intro keeps_seq keeps_commands keeps_build keeps_persist keeps_modify)
     (auto intro!: keeps_basic frame simp: core_def set_state_def split: option.split turn_signal.split)

lemma keeps_failed_iteration: "keeps (failed_iteration x)"
  by (simp add: keeps_def failed_iteration_def refl)

lemma keeps_body: "keeps (iteration_body tn skip it)"
  unfolding iteration_body_def Let_def
  by (intro keeps_bind keeps_execute, rule keepsI)
     (auto intro!: at_bind keeps_evaluate [THEN keeps_at] keeps_ret [THEN keeps_at] keeps_basic keeps_commit keeps_commands)

lemma keeps_fail: "keeps (fail_task msg)"
  by (rule keepsI) (auto simp: fail_task_def intro!: at_seq at_halt keeps_emit)

lemma keeps_single: "keeps (handleSingleTurnResult r)"
  by (rule keepsI)
     (auto simp: handleSingleTurnResult_def intro!: at_basic at_halt keeps_fail [THEN keeps_at] keeps_basic)

lemma keeps_blocked: "keeps handleBlockedOutcome"
  by (rule keepsI) (auto simp: handleBlockedOutcome_def intro!: at_seq at_halt keeps_basic)

lemma keeps_finalize: "keeps (finalizeWorkspace tn)"
proof -
  have c: "keeps (catching (bind (checkHarnessGitSafety g) (\<lambda>safe. if safe then commitIteration tn n else ret False))
      (\<lambda>_ e'. (Inr False, recordHarnessGitOutcome OutcomeFailed e')))" for g n
    by (intro keeps_catching keeps_bind keeps_git_safety keepsI)
       (auto simp: R_git_outcome intro!: keeps_commit [THEN keeps_at] keeps_ret [THEN keeps_at])
  show ?thesis by (rule keepsI) (simp add: finalizeWorkspace_def refl c [THEN keeps_at])
qed

lemma keeps_complete: "keeps (complete_tail tn e)" "keeps (finalizeCompletedOutcome tn)"
proof -
  have "keeps (modify (\<lambda>e. if en_onCompleted e \<and> safe then e\<lparr>en_completionFollowUp := True\<rparr> else e))" for safe
    by (intro keeps_modify) (simp add: refl frame)
  moreover have "keeps (modify (recordHarnessGitOutcome OutcomePending))" by (intro keeps_modify R_git_outcome)
  moreover have "keeps (case m of Some r \<Rightarrow> whenever (b r) (emit (ev r)) | None \<Rightarrow> ret ())" for m b ev
    by (simp add: keeps_basic split: option.split)
  ultimately show c: "keeps (complete_tail tn e)" for e
    unfolding complete_tail_def
    by (intro keeps_seq keeps_bind keeps_emit keeps_persist keeps_ret keeps_finalize)
  show "keeps (finalizeCompletedOutcome tn)"
    by (intro keepsI, unfold finalizeCompletedOutcome_def) (intro at_seq at_halt c [unfolded complete_tail_def]; simp)
qed

lemma keeps_plan_ready: "keeps (handlePlanReadyOutcome tn)"
proof -
  have "keeps (updateState None (\<lambda>s. s\<lparr>st_planMode := map_option (\<lambda>p. p\<lparr>pm_planContent := c\<rparr>) (st_planMode s),
      st_consecutiveErrors := None\<rparr>))" for c
    by (intro keeps_update) (simp add: state_core_def plan_ready_def split: option.split)
  then show ?thesis
    by (intro keepsI) (simp add: handlePlanReadyOutcome_def Let_def at_seq keeps_basic keeps_at)
qed

lemma keeps_limit: "keeps hasReachedMaxIterations"
  by (rule keepsI) (auto simp: hasReachedMaxIterations_def Let_def refl intro!: at_seq at_halt keeps_basic)

end

section \<open>The rounds of the loop\<close>

text \<open>The part of a round after its iteration.\<close>

definition round_end :: "bool \<Rightarrow> bool eng" where
  "round_end exit e =
     (if exit then
           (if en_injectionPending e \<and> shouldContinue e then (Inr False, resetRestartFlags e) else (Inr True, e))
         else bind hasReachedMaxIterations (\<lambda>reached e.
           if reached then (Inr True, e)
           else if en_aborted e then
             (if en_injectionPending e then (Inr False, resetRestartFlags e) else (Inr True, e))
           else (Inr False, e)) e)"

definition after_iteration :: "turn \<Rightarrow> iteration_result \<Rightarrow> bool eng" where
  "after_iteration tn r e =
       (if en_aborted e \<and> \<not> en_injectionPending e then (Inr True, e)
       else if ir_promptMode r = DirectUser then
         (if en_injectionPending e \<and> shouldContinue e then (Inr False, resetRestartFlags e)
          else seq (handleSingleTurnResult r) (seq (apply_commands (tn_late tn)) (ret True)) e)
       else bind (handleIterationOutcome tn r) (\<lambda>exit. seq (apply_commands (tn_late tn)) (round_end exit)) e)"

lemma loop_turn_after: "loop_turn tn = bind (runIteration tn False) (after_iteration tn)"
  unfolding loop_turn_def after_iteration_def [abs_def] round_end_def [abs_def] ..

section \<open>Relations that survive a restart\<close>

locale restart_relation = engine_relation +
  assumes restart: "R e (resetRestartFlags e)"
begin

lemma keeps_error: "keeps (handleErrorOutcome r)"
proof -
  have c: "keeps continueWithAbortFallbackInjection"
    unfolding continueWithAbortFallbackInjection_def
    by (intro keeps_seq keeps_modify restart keeps_update keeps_ret) simp
  have t: "keeps (trackConsecutiveError m k)" for m k
    by (rule keepsI) (auto simp: trackConsecutiveError_def Let_def intro!: at_seq keeps_update [THEN keeps_at] keeps_ret)
  have e: "keeps (\<lambda>e. emit (EvError m (st_currentIteration (en_state e))) e)" for m
    by (intro keepsI keeps_emit [THEN keeps_at])
  have m: "keeps (\<lambda>e. if en_injectionPending e then continueWithAbortFallbackInjection e
      else bind (trackConsecutiveError (error_text r) (ir_errorCode r)) (\<lambda>failsafe.
        if failsafe
        then seq (fail_task (''Failsafe: '' @ limit_text (cfg_maxConsecutiveErrors (en_config e))
               @ '' consecutive identical errors - '' @ error_text r)) (seq triggerPersistence (ret True))
        else seq (\<lambda>e. emit (EvError (error_text r) (st_currentIteration (en_state e))) e) (seq triggerPersistence (ret False))) e)"
    by (rule keepsI) (auto intro!: c [THEN keeps_at] at_bind t [THEN keeps_at] keeps_seq keeps_fail keeps_basic e)
  have u: "keeps (updateState None (\<lambda>s. s\<lparr>st_currentIteration := st_currentIteration s - Suc 0\<rparr>))"
    by (intro keeps_update) simp
  show ?thesis
    by (rule keepsI)
       (auto simp: handleErrorOutcome_def Let_def intro!: c [THEN keeps_at] at_seq keeps_fail [THEN keeps_at] keeps_basic
         m u [THEN keeps_at])
qed

lemma keeps_outcome: "keeps (handleIterationOutcome t r)"
  unfolding handleIterationOutcome_def
  by (cases "ir_outcome r")
     (simp_all add: keeps_blocked keeps_complete keeps_plan_ready keeps_error keeps_seq keeps_update keeps_ret)

lemma keeps_after: "keeps (after_iteration tn r)"
proof -
  have m: "keeps (\<lambda>e. if reached then (Inr True, e)
           else if en_aborted e then
             (if en_injectionPending e then (Inr False, resetRestartFlags e) else (Inr True, e))
           else (Inr False, e))" for reached
    by (rule keepsI) (simp add: refl restart)
  have n: "keeps (round_end exit)" for exit
    by (rule keepsI) (auto simp: round_end_def refl restart intro!: at_bind keeps_limit [THEN keeps_at] m)
  show ?thesis
    by (rule keepsI)
       (auto simp: after_iteration_def refl restart
          intro!: at_seq at_bind keeps_single [THEN keeps_at] keeps_outcome [THEN keeps_at] keeps_commands keeps_basic n)
qed

end

section \<open>Settled engines and the iteration history\<close>

text \<open>The loop does not go on from a settled engine, or has its plan ready.\<close>

definition settled :: "engine \<Rightarrow> bool" where
  "settled e \<longleftrightarrow> en_aborted e \<or> st_status (en_state e) \<notin> looping
     \<or> st_status (en_state e) = Planning \<and> plan_ready (en_state e)"

definition history :: "engine \<Rightarrow> iteration_summary list" where
  "history e = st_recentIterations (en_state e)"

interpretation settled: engine_relation "\<lambda>e e'. settled e \<longrightarrow> settled e'"
  by unfold_locales
     (auto simp: settled_def core_def state_core_def set_state_def plan_ready_def split: option.splits)

interpretation history: restart_relation "\<lambda>e e'. history e' = history e"
  by unfold_locales (auto simp: history_def core_def state_core_def set_state_def resetRestartFlags_def)

section \<open>Leaving the loop\<close>

lemma halted_settled:
  assumes "updateState (Some st) f e = (Inr (), e')" "\<And>s. state_core (f s) = state_core s" "st \<notin> looping"
  shows "settled e'"
proof -
  have "st_status (f s) = st_status s" for s using assms(2) [of s] by (simp add: state_core_def)
  then show ?thesis using assms(1,3)
    by (auto simp: updateState_def settled_def set_state_def split: if_splits sum.splits)
qed

lemma halt_then_settled:
  assumes "seq (updateState (Some st) f) m e = (Inr y, e')" "\<And>s. state_core (f s) = state_core s" "st \<notin> looping"
    and "settled.keeps m"
  shows "settled e'"
  using seq_run [OF assms(1)] halted_settled [OF _ assms(2,3)] settled.keepsD [OF assms(4)] by blast

lemma fail_settled: "fail_task msg e = (Inr y, e') \<Longrightarrow> settled e'"
  unfolding fail_task_def by (erule halt_then_settled) (simp_all add: settled.keeps_emit)

lemma single_settled:
  assumes "handleSingleTurnResult r e = (Inr y, e')"
  shows "settled e'"
proof (cases "en_aborted e \<or> st_status (en_state e) = Stopped")
  case True
  then have "settled e" by (auto simp: settled_def)
  then show ?thesis using settled.keepsD [OF settled.keeps_single assms] by blast
next
  case False
  show ?thesis
  proof (cases "ir_outcome r = OutcomeError")
    case True
    have "seq (fail_task (error_text r)) triggerPersistence e = (Inr y, e')"
      using assms False True by (simp add: handleSingleTurnResult_def)
    from seq_run [OF this] obtain e1 where 1: "fail_task (error_text r) e = (Inr (), e1)" "triggerPersistence e1 = (Inr y, e')"
      by blast
    from settled.keepsD [OF settled.keeps_persist 1(2)] fail_settled [OF 1(1)] show ?thesis by blast
  next
    case other: False
    with assms False have "seq (updateState (Some Stopped) (\<lambda>s. s\<lparr>st_completedAt := Some (en_clock e), st_consecutiveErrors := None\<rparr>))
        (seq (emit (EvStopped ''Single-turn execution finished'' False)) triggerPersistence) e = (Inr y, e')"
      by (simp add: handleSingleTurnResult_def)
    then show ?thesis
      by (rule halt_then_settled) (simp_all add: settled.keeps_seq settled.keeps_emit settled.keeps_persist)
  qed
qed

lemma error_exit_settled:
  assumes "handleErrorOutcome r e = (Inr True, e')"
  shows "settled e'"
proof -
  have a: False if "continueWithAbortFallbackInjection x = (Inr True, x')" for x x'
    using that by (auto simp: continueWithAbortFallbackInjection_def ret_def dest!: seq_run)
  have p: "settled x \<longrightarrow> settled x'" if "triggerPersistence x = (Inr (), x')" for x x'
    using settled.keepsD [OF settled.keeps_persist that] .
  have g: False if "seq (\<lambda>e. emit (ev e) e) (seq triggerPersistence (ret False)) x = (Inr True, x')" for ev x x'
    using that by (auto simp: ret_def dest!: seq_run)
  from assms show ?thesis
    by (auto simp: handleErrorOutcome_def Let_def ret_def split: if_splits dest!: a g seq_run bind_run
        fail_settled p)
qed

lemma complete_settled:
  assumes "finalizeCompletedOutcome t e = (Inr y, e')"
  shows "settled e'"
  using assms unfolding finalizeCompletedOutcome_def complete_tail_def [symmetric]
  by (rule halt_then_settled) (simp_all add: settled.keeps_complete)

lemma exit_settled:
  assumes "handleIterationOutcome t r e = (Inr True, e')" "ir_outcome r = OutcomePlanReady \<Longrightarrow> settled e"
  shows "settled e'"
proof (cases "ir_outcome r")
  case OutcomeContinue
  with assms(1) show ?thesis by (auto simp: handleIterationOutcome_def ret_def dest!: seq_run)
next
  case OutcomeComplete
  with assms(1) show ?thesis
    by (simp add: handleIterationOutcome_def complete_settled)
next
  case OutcomeBlocked
  with assms(1) show ?thesis
    unfolding handleIterationOutcome_def handleBlockedOutcome_def
    by simp (erule halt_then_settled, simp_all add: settled.keeps_seq settled.keeps_emit settled.keeps_persist settled.keeps_ret)
next
  case OutcomeError
  with assms(1) error_exit_settled show ?thesis by (simp add: handleIterationOutcome_def)
next
  case OutcomePlanReady
  with assms settled.keepsD [OF settled.keeps_plan_ready] show ?thesis by (simp add: handleIterationOutcome_def)
qed

lemma body_plan_ready:
  assumes "iteration_body t False it e = (Inr c, e')" "ctx_outcome c = OutcomePlanReady"
  shows "settled e'"
proof -
  obtain c0 e1 where x: "executeIterationPrompt t e = (Inr c0, e1)" using assms(1) by (auto simp: iteration_body_def dest: bind_run)
  have "ctx_outcome c0 \<in> {OutcomeContinue, OutcomeError, OutcomeBlocked}"
    using x by (auto simp: executeIterationPrompt_def ret_def throw_def dest!: seq_run split: turn_signal.splits)
  define c1 where "c1 = (if en_aborted e1 \<and> ctx_errorCode c0 = Some cancelled_code
                   then c0\<lparr>ctx_outcome := OutcomeContinue, ctx_error := None\<rparr> else c0)"
  with \<open>ctx_outcome c0 \<in> _\<close> have n: "ctx_outcome c1 \<noteq> OutcomePlanReady" by auto
  let ?tail = "\<lambda>c2. if ctx_outcome c2 \<noteq> OutcomeError \<and> ctx_outcome c2 \<noteq> OutcomeComplete
            then bind (commitIteration t it) (\<lambda>_. seq (apply_commands (tn_atCommit t)) (ret c2)) else ret c2"
  have "bind (if ctx_outcome c1 = OutcomeContinue \<and> \<not> False \<and> en_lastPromptMode e1 \<noteq> DirectUser
                then evaluateTaskOutcome (tn_content t) c1 else ret c1) ?tail e1 = (Inr c, e')"
    unfolding c1_def using assms(1) x
    by (simp add: iteration_body_def bind_def [of "executeIterationPrompt t"] Let_def split del: if_split)
  from bind_run [OF this] obtain c2 e2 where
    e: "(if ctx_outcome c1 = OutcomeContinue \<and> \<not> False \<and> en_lastPromptMode e1 \<noteq> DirectUser
                then evaluateTaskOutcome (tn_content t) c1 else ret c1) e1 = (Inr c2, e2)"
    and tail: "?tail c2 e2 = (Inr c, e')" by blast
  have "c2 = c" using tail by (auto simp: ret_def split: if_splits dest!: bind_run seq_run)
  with e assms(2) n have "evaluateTaskOutcome (tn_content t) c1 e1 = (Inr c, e2)" "ctx_outcome c1 = OutcomeContinue"
    by (auto simp: ret_def split: if_splits)
  with assms(2) n have "settled e2"
    by (auto simp: evaluateTaskOutcome_def Let_def settled_def plan_ready_def inPlanMode_def set_state_def
        split: if_splits option.splits)
  moreover have "settled.keeps (?tail c2)"
    by (auto intro!: settled.keeps_bind settled.keeps_seq settled.keeps_commit settled.keeps_commands settled.keeps_ret)
  ultimately show ?thesis using settled.keepsD tail by blast
qed

lemma settled_core: "core e' = core e \<Longrightarrow> settled e' = settled e"
  by (auto simp: core_def state_core_def settled_def)

lemma build_result_run:
  assumes "buildIterationResult t it s0 c e = (Inr r, e')"
  shows "settled e' = settled e" "ir_outcome r = ctx_outcome c"
    "history e' = last_n 9 (history e) @ [\<lparr>it_iteration = it, it_startedAt = s0, it_completedAt = en_clock e,
       it_messageCount = tn_messages t, it_toolCallCount = tn_tools t, it_outcome = ctx_outcome c\<rparr>]"
  using assms
  by (auto simp: buildIterationResult_def triggerPersistence_eq engine_ops settled_def history_def plan_ready_def
      split: if_splits)

lemma iteration_plan_ready:
  assumes "runIteration t False e = (Inr r, e')" "ir_outcome r = OutcomePlanReady"
  shows "settled e'"
proof -
  obtain c e1 e2 it s0 where c: "catching (iteration_body t False it) failed_iteration e1 = (Inr c, e2)"
    and r: "buildIterationResult t it s0 c e2 = (Inr r, e')"
    using assms(1) by (auto simp: runIteration_def Let_def dest!: seq_run bind_run)
  from build_result_run [OF r] assms(2) have o': "ctx_outcome c = OutcomePlanReady" and s: "settled e' = settled e2" by simp_all
  with c have "iteration_body t False it e1 = (Inr c, e2)"
    by (auto simp: catching_def failed_iteration_def split: prod.splits sum.splits if_splits)
  with body_plan_ready o' s show ?thesis by blast
qed

lemma loop_exit_settled:
  assumes "loop_turn t e = (Inr True, e')"
  shows "settled e'"
proof -
  obtain r e1 where r: "runIteration t False e = (Inr r, e1)" and a: "after_iteration t r e1 = (Inr True, e')"
    using bind_run [OF assms [unfolded loop_turn_after]] by blast
  have l: "settled.keeps (seq (apply_commands cs) (ret True))" for cs
    by (intro settled.keeps_seq settled.keeps_commands settled.keeps_ret)
  consider "en_aborted e1" "\<not> en_injectionPending e1"
    | "ir_promptMode r = DirectUser" "\<not> (en_aborted e1 \<and> \<not> en_injectionPending e1)"
    | "ir_promptMode r \<noteq> DirectUser" "\<not> (en_aborted e1 \<and> \<not> en_injectionPending e1)" by blast
  then show ?thesis
  proof cases
    case 1
    with a show ?thesis by (simp add: after_iteration_def settled_def)
  next
    case 2
    with a have "seq (handleSingleTurnResult r) (seq (apply_commands (tn_late t)) (ret True)) e1 = (Inr True, e')"
      by (simp add: after_iteration_def split: if_splits)
    from seq_run [OF this] obtain e2 where s: "handleSingleTurnResult r e1 = (Inr (), e2)"
      "seq (apply_commands (tn_late t)) (ret True) e2 = (Inr True, e')" by blast
    from settled.keepsD [OF l s(2)] single_settled [OF s(1)] show ?thesis by simp
  next
    case 3
    from 3 a have "bind (handleIterationOutcome t r) (\<lambda>exit. seq (apply_commands (tn_late t)) (round_end exit)) e1 = (Inr True, e')"
      by (auto simp: after_iteration_def)
    from bind_run [OF this] obtain exit e2 where h: "handleIterationOutcome t r e1 = (Inr exit, e2)"
      "seq (apply_commands (tn_late t)) (round_end exit) e2 = (Inr True, e')" by blast
    from seq_run [OF h(2)] obtain e3 where 3: "apply_commands (tn_late t) e2 = (Inr (), e3)" "round_end exit e3 = (Inr True, e')" by blast
    show ?thesis
    proof (cases exit)
      case True
      have "settled e2"
        by (rule exit_settled [of t r e1]) (use h(1) True iteration_plan_ready [OF r] in simp_all)
      with settled.keepsD [OF settled.keeps_commands 3(1)] have "settled e3" by blast
      with 3(2) True show ?thesis by (simp add: round_end_def split: if_splits)
    next
      case False
      have "bind hasReachedMaxIterations (\<lambda>reached e.
           if reached then (Inr True, e)
           else if en_aborted e then
             (if en_injectionPending e then (Inr False, resetRestartFlags e) else (Inr True, e))
           else (Inr False, e)) e3 = (Inr True, e')"
        using 3(2) False by (simp add: round_end_def)
      from bind_run [OF this] obtain reached e4 where m: "hasReachedMaxIterations e3 = (Inr reached, e4)"
        "(if reached then (Inr True, e4) else if en_aborted e4 then
             (if en_injectionPending e4 then (Inr False, resetRestartFlags e4) else (Inr True, e4))
           else (Inr False, e4)) = ((Inr True, e') :: (engine_error + bool) \<times> engine)"
        by blast
      show ?thesis
      proof (cases reached)
        case True
        with m(1) have "settled e4"
          by (auto simp: hasReachedMaxIterations_def Let_def split: if_splits
              intro: halt_then_settled [OF _ _ _ settled.keeps_seq [OF settled.keeps_emit settled.keeps_seq [OF settled.keeps_persist settled.keeps_ret]]])
        with m(2) True show ?thesis by simp
      next
        case False
        with m(2) show ?thesis by (auto simp: settled_def split: if_splits)
      qed
    qed
  qed
qed

lemma run_loop_settled: "run_loop ts e = Some (Inr (), e') \<Longrightarrow> settled e'"
proof (induction ts arbitrary: e)
  case Nil
  then show ?case by (auto simp: settled_def shouldContinue_def split: if_splits)
next
  case (Cons t ts)
  show ?case
  proof (cases "en_aborted e \<or> \<not> shouldContinue e")
    case True
    with Cons.prems show ?thesis by (auto simp: settled_def shouldContinue_def split: if_splits)
  next
    case False
    with Cons loop_exit_settled [of t e] show ?thesis
      by (auto split: prod.splits sum.splits if_splits)
  qed
qed

section \<open>The history\<close>

lemma started_update:
  assumes "shouldContinue e0" "st_status (en_state e0) = Planning \<Longrightarrow> inPlanMode e0" "en_state e = en_state e0"
  shows "\<exists>e1. updateState (Some (if inPlanMode e0 then Planning else Running))
      (\<lambda>s. s\<lparr>st_currentIteration := it, st_lastActivityAt := Some x\<rparr>) e = (Inr (), e1) \<and> history e1 = history e"
  using assms
  by (auto simp: shouldContinue_def inPlanMode_def updateState_def assertValidTransition_def isValidTransition_def
      set_state_def history_def)

lemma body_total: "\<exists>c e'. catching (iteration_body t skip it) failed_iteration e = (Inr c, e')"
  by (auto simp: catching_def failed_iteration_def split: prod.split sum.split)

lemma build_result_total: "\<exists>r e'. buildIterationResult t it s0 c e = (Inr r, e')"
  using build_result_quiet by blast

lemma iteration_history:
  assumes "shouldContinue e" "st_status (en_state e) = Planning \<Longrightarrow> inPlanMode e"
  shows "\<exists>r e' x. runIteration t skip e = (Inr r, e') \<and> history e' = last_n 9 (history e) @ [x]
     \<and> it_iteration x = Suc (st_currentIteration (en_state e)) \<and> it_outcome x = ir_outcome r"
proof -
  let ?it = "st_currentIteration (en_state e) + 1"
  let ?e0 = "e\<lparr>en_lastPromptMode := EngineContext\<rparr>"
  obtain e1 where u: "updateState (Some (if inPlanMode e then Planning else Running))
      (\<lambda>s. s\<lparr>st_currentIteration := ?it, st_lastActivityAt := Some (en_clock e)\<rparr>) ?e0 = (Inr (), e1)"
    "history e1 = history ?e0" using started_update [OF assms, where it = ?it and x = "en_clock e" and e = ?e0] by auto
  let ?e2 = "snd (emit (EvIterationStart ?it) e1)"
  obtain c e3 where c: "catching (iteration_body t skip ?it) failed_iteration ?e2 = (Inr c, e3)"
    using body_total by blast
  obtain r e4 where r: "buildIterationResult t ?it (en_clock e) c e3 = (Inr r, e4)" using build_result_total by blast
  have "runIteration t skip e = (Inr r, e4)"
    using u(1) c r by (simp add: runIteration_def Let_def seq_def bind_def modify_def emit_def)
  moreover have k: "history.keeps (catching (iteration_body t skip ?it) failed_iteration)"
    by (intro history.keeps_catching history.keeps_body history.keeps_failed_iteration)
  have "history e3 = history e"
    using history.keeps_at [OF k, of ?e2] c history.keeps_at [OF history.keeps_emit, of "EvIterationStart ?it" e1] u(2)
    by (simp add: history_def)
  ultimately show ?thesis using build_result_run [OF r] by auto
qed

lemma loop_history:
  assumes "shouldContinue e" "st_status (en_state e) = Planning \<Longrightarrow> inPlanMode e"
  shows "\<exists>x. history (snd (loop_turn t e)) = last_n 9 (history e) @ [x]
    \<and> it_iteration x = Suc (st_currentIteration (en_state e))"
proof -
  obtain r e' x where "runIteration t False e = (Inr r, e')" "history e' = last_n 9 (history e) @ [x]"
    "it_iteration x = Suc (st_currentIteration (en_state e))"
    using iteration_history [OF assms] by blast
  then show ?thesis using history.keeps_at [OF history.keeps_after, of t r e'] by (simp add: loop_turn_after bind_def)
qed

lemma last_n_length [simp]: "length (last_n n xs) = min n (length xs)"
  by (simp add: last_n_def)

section \<open>Properties\<close>

text \<open>
  C15. Whatever the agent answers and whatever calls arrive, a run of the loop that returns normally
  leaves the engine idle, and the loop had a reason to stop: the engine was aborted, the task is in none
  of the statuses the loop goes on from, or it is planning with a plan that is ready.
\<close>

theorem run_leaves_settled_engine:
  assumes "runTask ts e = Some (Inr (), e')" "\<not> en_isTaskRunning e"
  shows "\<not> en_isTaskRunning e' \<and> (en_aborted e' \<or> \<not> shouldContinue e'
    \<or> st_status (en_state e') = Planning \<and> (\<exists>p. st_planMode (en_state e') = Some p \<and> pm_isPlanReady p))"
proof -
  obtain e1 where e1: "run_loop ts (e\<lparr>en_isTaskRunning := True\<rparr>) = Some (Inr (), e1)" "e' = e1\<lparr>en_isTaskRunning := False\<rparr>"
    using assms by (auto simp: runTask_def finish_run_def)
  from run_loop_settled [OF e1(1)] e1(2) show ?thesis
    by (auto simp: settled_def plan_ready_def shouldContinue_def split: option.splits)
qed

theorem run_leaves_settled_engine_witness:
  "\<exists>e'. runTask [sample_turn (ErrorReported ''m'' ''c'')] (sample_engine Running 3 1) = Some (Inr (), e')
     \<and> \<not> en_isTaskRunning e' \<and> \<not> shouldContinue e'"
proof -
  let ?e = "(sample_engine Running 3 1)\<lparr>en_isTaskRunning := True\<rparr>"
  have r: "ready ?e" "control_of ?e = \<lparr>ct_status = Running, ct_iteration = 0, ct_errors = None\<rparr>"
    "cfg_maxIterations (en_config ?e) = 3" "cfg_maxConsecutiveErrors (en_config ?e) = 1"
    using sample_ready [of Running 3 1] sample_config [where s = Running and mi = 3 and me = 1]
    by (simp_all add: ready_def inPlanMode_def control_of_def)
  have "run_control 3 1 (kinds ?e [sample_turn (ErrorReported ''m'' ''c'')]) (control_of ?e)
      = Some (Inr (), \<lparr>ct_status = Failed, ct_iteration = 0, ct_errors = Some (Some ''c'', 1)\<rparr>)"
    unfolding r(2) by (simp add: control_turn_def turn_status_def next_count_def one_enat_def zero_enat_def)
  then obtain e1 where e1: "run_loop [sample_turn (ErrorReported ''m'' ''c'')] ?e = Some (Inr (), e1)"
    "control_of e1 = \<lparr>ct_status = Failed, ct_iteration = 0, ct_errors = Some (Some ''c'', 1)\<rparr>"
    using run_loop_Some [of "[sample_turn (ErrorReported ''m'' ''c'')]" ?e] r by auto
  let ?e' = "e1\<lparr>en_isTaskRunning := False\<rparr>"
  have run: "runTask [sample_turn (ErrorReported ''m'' ''c'')] (sample_engine Running 3 1) = Some (Inr (), ?e')"
    using e1(1) by (simp add: runTask_def finish_run_def sample_engine_def)
  have "st_status (en_state ?e') = Failed" using e1(2) by (simp add: control_of_def)
  then show ?thesis using run run_leaves_settled_engine [OF run]
    by (auto simp: shouldContinue_def sample_engine_def)
qed

text \<open>
  Each round of the loop records exactly one iteration, whatever happens in it (a task that is planning
  has an active plan mode, else the round throws at its first step): the history keeps
  its last nine entries and gains one for the iteration after the current one, so it never exceeds ten.
\<close>

theorem each_round_records_one_iteration:
  assumes "shouldContinue e" "st_status (en_state e) = Planning \<Longrightarrow> inPlanMode e"
  shows "\<exists>x. st_recentIterations (en_state (snd (loop_turn t e))) = last_n 9 (st_recentIterations (en_state e)) @ [x]
    \<and> it_iteration x = Suc (st_currentIteration (en_state e))
    \<and> length (st_recentIterations (en_state (snd (loop_turn t e)))) \<le> 10"
  using loop_history [OF assms, of t] by (auto simp: history_def)

theorem each_round_records_one_iteration_witness:
  "\<exists>x. st_recentIterations (en_state (snd (loop_turn (sample_turn Answered) (sample_engine Running 3 1)))) = [x]
     \<and> it_iteration x = 1"
  using each_round_records_one_iteration [of "sample_engine Running 3 1" "sample_turn Answered"]
  by (auto simp: shouldContinue_def sample_engine_def createInitialState_def last_n_def)

end
