(* ===== verification/TaskRepository.thy ===== *)
theory TaskRepository
  imports TaskStore
begin

text \<open>
  What the lifecycle operations rely on of the task store, as an interface: the laws of loading, of the
  operational update and of removal, with the facts its clients use proved once from them. The store of
  \<open>TaskStore\<close> is an instance, for every user and at every time.
\<close>

definition loaded_status :: "store_error + task option \<Rightarrow> task_status option" where
  "loaded_status r = (case r of Inr (Some t) \<Rightarrow> Some (st_status (task_state t)) | _ \<Rightarrow> None)"

locale task_repository =
  fixes load :: "'db \<Rightarrow> ident \<Rightarrow> store_error + task option"
    and update :: "'db \<Rightarrow> ident \<Rightarrow> task_state \<Rightarrow> store_error + (bool \<times> 'db)"
    and remove :: "'db \<Rightarrow> ident \<Rightarrow> bool \<times> 'db"
    and stored :: "task_state \<Rightarrow> task_state \<Rightarrow> task_state"
    and ok :: "'db \<Rightarrow> bool"
  assumes load_total: "ok db \<Longrightarrow> \<exists>t. load db i = Inr t"
    and update_some: "\<lbrakk>ok db; load db i = Inr (Some t); st_status (task_state t) = Deleted \<Longrightarrow> st_status s = Deleted\<rbrakk>
      \<Longrightarrow> \<exists>db'. update db i s = Inr (True, db') \<and> ok db'
        \<and> load db' i = Inr (Some \<lparr>task_config = task_config t, task_state = stored (task_state t) s\<rparr>)
        \<and> (\<forall>j. j \<noteq> i \<longrightarrow> load db' j = load db j)"
    and update_deleted: "\<lbrakk>ok db; load db i = Inr (Some t); st_status (task_state t) = Deleted; st_status s \<noteq> Deleted\<rbrakk>
      \<Longrightarrow> update db i s = Inr (False, db)"
    and update_none: "\<lbrakk>ok db; load db i = Inr None\<rbrakk> \<Longrightarrow> update db i s = Inr (False, db)"
    and remove_some: "\<lbrakk>ok db; load db i = Inr (Some t)\<rbrakk>
      \<Longrightarrow> \<exists>db'. remove db i = (True, db') \<and> ok db' \<and> load db' i = Inr None \<and> (\<forall>j. j \<noteq> i \<longrightarrow> load db' j = load db j)"
    and remove_none: "\<lbrakk>ok db; load db i = Inr None\<rbrakk> \<Longrightarrow> remove db i = (False, db)"
    and stored_status: "st_status (stored a b) = st_status b"
begin

definition status :: "'db \<Rightarrow> ident \<Rightarrow> task_status option" where
  "status db i = loaded_status (load db i)"

lemma loaded: "ok db \<Longrightarrow> load db i = Inr None \<and> status db i = None
    \<or> (\<exists>t. load db i = Inr (Some t) \<and> status db i = Some (st_status (task_state t)))"
  using load_total [of db i] by (auto simp: status_def loaded_status_def split: option.splits)

lemma update_total:
  assumes "ok db"
  obtains b db' where "update db i s = Inr (b, db')"
proof (cases "load db i = Inr None")
  case True
  from that [OF update_none [OF assms True]] show ?thesis .
next
  case False
  then obtain t where t: "load db i = Inr (Some t)" using loaded [OF assms, of i] by auto
  show ?thesis
  proof (cases "st_status (task_state t) = Deleted \<and> st_status s \<noteq> Deleted")
    case True
    with update_deleted [OF assms t] that show ?thesis by blast
  next
    case False
    with update_some [OF assms t, of s] that show ?thesis by blast
  qed
qed

text \<open>Every update either wrote the new state of its task, or left the database as it was.\<close>

lemma update_cases:
  assumes "ok db" "update db i s = Inr (b, db')"
  obtains (written) t where "b" "load db i = Inr (Some t)" "ok db'"
      "load db' i = Inr (Some \<lparr>task_config = task_config t, task_state = stored (task_state t) s\<rparr>)"
      "\<And>j. j \<noteq> i \<Longrightarrow> load db' j = load db j" "st_status (task_state t) = Deleted \<Longrightarrow> st_status s = Deleted"
  | (unchanged) "\<not> b" "db' = db" "status db i = None \<or> status db i = Some Deleted \<and> st_status s \<noteq> Deleted"
proof (cases "load db i = Inr None")
  case True
  with update_none [OF assms(1) True, of s] assms(2) unchanged show ?thesis
    by (simp add: status_def loaded_status_def)
next
  case False
  then obtain t where t: "load db i = Inr (Some t)" "status db i = Some (st_status (task_state t))"
    using loaded [OF assms(1), of i] by auto
  show ?thesis
  proof (cases "st_status (task_state t) = Deleted \<and> st_status s \<noteq> Deleted")
    case True
    with update_deleted [OF assms(1) t(1), of s] assms(2) t(2) unchanged show ?thesis by simp
  next
    case False
    with update_some [OF assms(1) t(1), of s] assms(2) written [OF _ t(1)] show ?thesis by auto
  qed
qed

lemma update_ok:
  assumes "ok db" "update db i s = Inr (b, db')"
  shows "ok db'"
  using assms by (rule update_cases) (use assms in simp_all)

lemma update_status:
  assumes "ok db" "update db i s = Inr (b, db')"
  shows "status db' j = (if j = i \<and> b then Some (st_status s) else status db j)"
  using assms by (rule update_cases) (auto simp: status_def loaded_status_def stored_status)

lemma update_frame: "ok db \<Longrightarrow> update db i s = Inr (b, db') \<Longrightarrow> j \<noteq> i \<Longrightarrow> load db' j = load db j"
  by (erule (1) update_cases) simp_all

lemma update_succeeds:
  "ok db \<Longrightarrow> update db i s = Inr (b, db') \<Longrightarrow>
    b = (status db i \<noteq> None \<and> (status db i = Some Deleted \<longrightarrow> st_status s = Deleted))"
  by (erule (1) update_cases) (auto simp: status_def loaded_status_def)

lemma remove_cases:
  assumes "ok db" "remove db i = (b, db')"
  shows "ok db'" "status db' j = (if j = i then None else status db j)" "b = (status db i \<noteq> None)"
    "j \<noteq> i \<Longrightarrow> load db' j = load db j" "b \<Longrightarrow> load db' i = Inr None"
proof -
  have "ok db' \<and> status db' j = (if j = i then None else status db j) \<and> b = (status db i \<noteq> None)
    \<and> (j \<noteq> i \<longrightarrow> load db' j = load db j) \<and> (b \<longrightarrow> load db' i = Inr None)"
    using loaded [OF assms(1), of i]
  proof (elim disjE exE conjE)
    assume n: "load db i = Inr None" "status db i = None"
    with remove_none [OF assms(1) n(1)] assms show ?thesis by auto
  next
    fix t assume t: "load db i = Inr (Some t)" "status db i = Some (st_status (task_state t))"
    with remove_some [OF assms(1) t(1)] assms(2) show ?thesis by (auto simp: status_def loaded_status_def)
  qed
  then show "ok db'" "status db' j = (if j = i then None else status db j)" "b = (status db i \<noteq> None)"
    "j \<noteq> i \<Longrightarrow> load db' j = load db j" "b \<Longrightarrow> load db' i = Inr None" by auto
qed

end

text \<open>
  A repository that can also write over a deleted task, and whose configuration updates leave every status
  alone.
\<close>

locale reviving_repository = task_repository load update remove stored ok
  for load :: "'db \<Rightarrow> ident \<Rightarrow> store_error + task option" and update remove stored ok +
  fixes revive :: "'db \<Rightarrow> ident \<Rightarrow> task_state \<Rightarrow> store_error + (bool \<times> 'db)"
    and configure :: "'db \<Rightarrow> ident \<Rightarrow> task_config \<Rightarrow> store_error + (bool \<times> 'db)"
  assumes revive_some: "\<lbrakk>ok db; load db i = Inr (Some t)\<rbrakk>
      \<Longrightarrow> \<exists>db'. revive db i s = Inr (True, db') \<and> ok db'
        \<and> load db' i = Inr (Some \<lparr>task_config = task_config t, task_state = stored (task_state t) s\<rparr>)
        \<and> (\<forall>j. j \<noteq> i \<longrightarrow> load db' j = load db j)"
    and revive_none: "\<lbrakk>ok db; load db i = Inr None\<rbrakk> \<Longrightarrow> revive db i s = Inr (False, db)"
    and configure_total: "ok db \<Longrightarrow> \<exists>b db'. configure db i cfg = Inr (b, db') \<and> ok db'
      \<and> (\<forall>j. loaded_status (load db' j) = loaded_status (load db j))"
begin

lemma revive_run:
  assumes "ok db"
  obtains b db' where "revive db i s = Inr (b, db')" "ok db'" "b = (status db i \<noteq> None)"
    "\<And>j. status db' j = (if j = i \<and> b then Some (st_status s) else status db j)"
proof (cases "load db i = Inr None")
  case True
  from that [OF revive_none [OF assms True] assms] True show ?thesis by (simp add: status_def loaded_status_def)
next
  case False
  then obtain t where t: "load db i = Inr (Some t)" using loaded [OF assms, of i] by auto
  obtain db' where r: "revive db i s = Inr (True, db')" "ok db'"
    "load db' i = Inr (Some \<lparr>task_config = task_config t, task_state = stored (task_state t) s\<rparr>)"
    "\<And>j. j \<noteq> i \<Longrightarrow> load db' j = load db j"
    using revive_some [OF assms t, of s] by blast
  show ?thesis
    by (rule that [OF r(1,2)]) (use t r(3,4) in \<open>auto simp: status_def loaded_status_def stored_status\<close>)
qed

end

section \<open>The task store is a repository\<close>

lemma rows_of_removed: "j \<noteq> i \<Longrightarrow> rows_of (filter (\<lambda>x. tr_resource x \<noteq> i) tab) j u = rows_of tab j u"
  by (auto simp: rows_of_def intro!: filter_cong)

lemma deleted_task:
  assumes "db_ok db" "stored_task db u i = Some t"
  shows "\<exists>db'. deleteTask db u i = (True, db') \<and> db_ok db' \<and> stored_task db' u i = None
    \<and> (\<forall>j. j \<noteq> i \<longrightarrow> stored_task db' u j = stored_task db u j)"
proof -
  obtain r where r: "amap_get (tdb_rows db) i = Some r" "owned_by u r"
    using assms(2) by (auto simp: stored_task_def split: option.splits if_splits)
  let ?P = "\<lambda>p. \<not> (fst p = i \<and> owned_by u (snd p))"
  let ?db = "db\<lparr>tdb_rows := filter ?P (tdb_rows db), tdb_transcripts := filter (\<lambda>x. tr_resource x \<noteq> i) (tdb_transcripts db)\<rparr>"
  have d: "deleteTask db u i = (True, ?db)" using r by (simp add: deleteTask_def select_task_def)
  have g: "amap_get (filter ?P (tdb_rows db)) j = (if j = i then None else amap_get (tdb_rows db) j)" for j
  proof (cases "j = i")
    case True
    have w: "amap_wf (tdb_rows db)" using assms(1) by (simp add: db_ok_def)
    have "amap_get (filter ?P (tdb_rows db)) i = None"
    proof (rule ccontr)
      assume "amap_get (filter ?P (tdb_rows db)) i \<noteq> None"
      then obtain v where "amap_get (filter ?P (tdb_rows db)) i = Some v" by blast
      then have v: "(i, v) \<in> set (tdb_rows db)" "\<not> owned_by u v"
        using amap_get_iff_mem [OF amap_wf_filter [OF w], of ?P i v] by simp_all
      from v(1) have "amap_get (tdb_rows db) i = Some v" by (simp add: amap_get_iff_mem [OF w])
      with r v(2) show False by simp
    qed
    with True show ?thesis by simp
  qed (simp add: amap_get_filter_other)
  have "db_ok ?db" using assms(1) by (auto simp: db_ok_def list_all_iff intro: amap_wf_filter)
  moreover have "stored_task ?db u j = stored_task db u j" if j: "j \<noteq> i" for j
  proof -
    have "hydrateTranscriptStateForUser (tdb_transcripts ?db) j u = hydrateTranscriptStateForUser (tdb_transcripts db) j u"
      "last_user_message (tdb_transcripts ?db) j u = last_user_message (tdb_transcripts db) j u"
      using rows_of_removed [OF j]
      by (simp_all add: hydrateTranscriptStateForUser_def listTranscriptEntriesForUser_def last_user_message_def)
    moreover have "collaborationCreatorProjection ?db u j x = collaborationCreatorProjection db u j x" for x
      unfolding collaborationCreatorProjection_def owner_creator_def by (simp split: option.split prod.split)
    ultimately have "read_task ?db u j x = read_task db u j x" for x
      unfolding read_task_def task_list_columns_def by simp
    then show ?thesis using g [of j] j by (simp add: stored_task_def split: option.split)
  qed
  moreover have "stored_task ?db u i = None" using g [of i] by (simp add: stored_task_def)
  ultimately show ?thesis using d by blast
qed

lemma stored_status_updated [simp]: "st_status (updated_state a b) = st_status b"
  by (simp add: updated_state_def)

interpretation store: task_repository "\<lambda>db. loadTaskForUser db u" "\<lambda>db i s. updateTaskOperationalState db u i s False now"
    "\<lambda>db. deleteTask db u" updated_state db_ok
  for u :: ident and now :: timestamp
proof unfold_locales
  fix db i t s
  assume ok: "db_ok db" and l: "loadTaskForUser db u i = Inr (Some t)"
  have t: "stored_task db u i = Some t" using l by (simp add: loadTask_ok [OF ok])
  show "\<exists>db'. deleteTask db u i = (True, db') \<and> db_ok db' \<and> loadTaskForUser db' u i = Inr None
      \<and> (\<forall>j. j \<noteq> i \<longrightarrow> loadTaskForUser db' u j = loadTaskForUser db u j)"
    using deleted_task [OF ok t] ok by (auto simp: loadTask_ok)
  show "updateTaskOperationalState db u i s False now = Inr (False, db)"
    if "st_status (task_state t) = Deleted" "st_status s \<noteq> Deleted"
    using operational_update_blocked [OF ok t] that by simp
  show "\<exists>db'. updateTaskOperationalState db u i s False now = Inr (True, db') \<and> db_ok db'
      \<and> loadTaskForUser db' u i = Inr (Some \<lparr>task_config = task_config t, task_state = updated_state (task_state t) s\<rparr>)
      \<and> (\<forall>j. j \<noteq> i \<longrightarrow> loadTaskForUser db' u j = loadTaskForUser db u j)"
    if "st_status (task_state t) = Deleted \<Longrightarrow> st_status s = Deleted"
  proof -
    have "st_status (task_state t) = Deleted \<Longrightarrow> st_status s = Deleted \<or> False" using that by simp
    from operational_update [OF ok t this, of now] show ?thesis using ok by (metis loadTask_ok)
  qed
next
  fix db i s
  assume ok: "db_ok db" and l: "loadTaskForUser db u i = Inr None"
  then have n: "stored_task db u i = None" by (simp add: loadTask_ok)
  then show "updateTaskOperationalState db u i s False now = Inr (False, db)" by (rule operational_update_missing)
  show "deleteTask db u i = (False, db)"
    using n by (auto simp: deleteTask_def select_task_def stored_task_def split: option.splits if_splits)
qed (simp_all add: loadTask_ok)

lemma loaded_status_row: "db_ok db \<Longrightarrow> loaded_status (loadTaskForUser db u i) = row_status db u i"
  by (auto simp: loadTask_ok loaded_status_def stored_task_def row_status_get readable_row_def Let_def
      dest: db_ok_row split: option.splits)

lemma readable_configured:
  "readable_row (i, r) \<Longrightarrow> readable_row (i, set_columns r (filter (\<lambda>kv. fst kv \<noteq> Col_id \<and> fst kv \<noteq> Col_user_id) (taskToRow u t)))"
  by (auto simp: readable_row_def Let_def config_columns_eq sim_simps row_pending_input_def row_attachments_def opt_def
      split: option.splits list.splits)

lemma readable_where:
  assumes "list_all readable_row rows" "\<And>r. readable_row (i, r) \<Longrightarrow> readable_row (i, g r)"
  shows "list_all readable_row (map (\<lambda>p. if fst p = i \<and> Q (snd p) then (fst p, g (snd p)) else p) rows)"
  using assms(1) by (induction rows) (auto intro: assms(2))

lemma config_update:
  assumes ok: "db_ok db"
  shows "\<exists>b db'. updateTaskConfig db u i cfg = Inr (b, db') \<and> db_ok db'
    \<and> (\<forall>j. loaded_status (loadTaskForUser db' u j) = loaded_status (loadTaskForUser db u j))"
proof (cases "stored_task db u i")
  case None
  then have "updateTaskConfig db u i cfg = Inr (False, db)"
    by (auto simp: stored_task_def updateTaskConfig_def select_task_def split: option.splits if_splits)
  with ok show ?thesis by blast
next
  case (Some t)
  obtain r where r: "amap_get (tdb_rows db) i = Some r" "owned_by u r"
    using Some by (auto simp: stored_task_def split: option.splits if_splits)
  have rd: "readable_row (i, r)" by (rule db_ok_row [OF ok r(1)])
  let ?x = "task_list_columns db u i r"
  let ?t = "\<lparr>task_config = row_config ?x (nonempty (as_text (r Col_model_provider_id)))
                                  (nonempty (as_text (r Col_model_model_id))), task_state = row_state ?x\<rparr>"
  let ?cols = "filter (\<lambda>kv. fst kv \<noteq> Col_id \<and> fst kv \<noteq> Col_user_id)
      (taskToRow u (?t\<lparr>task_config := cfg\<lparr>cfg_creator := cfg_creator (task_config ?t)\<rparr>\<rparr>))"
  let ?C = "\<lambda>p. fst p = i \<and> owned_by u (snd p)"
  let ?db = "db\<lparr>tdb_rows := map (\<lambda>p. if ?C p then (fst p, set_columns (snd p) ?cols) else p) (tdb_rows db)\<rparr>"
  have upd: "updateTaskConfig db u i cfg = Inr (True, ?db)"
    by (simp add: updateTaskConfig_def select_task_def r rowToTask_readable [OF rd] Let_def)
  have "list_all readable_row (tdb_rows ?db)"
  proof -
    have l: "list_all readable_row (tdb_rows db)" using ok by (simp add: db_ok_def)
    have "tdb_rows ?db = map (\<lambda>p. if ?C p then (fst p, set_columns (snd p) ?cols) else p) (tdb_rows db)" by simp
    then show ?thesis using readable_where [OF l, of i "\<lambda>x. set_columns x ?cols" "owned_by u"] readable_configured by simp
  qed
  moreover have "amap_wf (tdb_rows ?db)" using ok by (auto simp: db_ok_def intro!: amap_wf_map_keys)
  ultimately have ok': "db_ok ?db" by (simp add: db_ok_def)
  have st: "as_status (r Col_status) = Some (st_status (row_state ?x))"
    using rd by (auto simp: readable_row_def Let_def row_state_def split: option.split)
  have "row_status ?db u j = row_status db u j" for j
    using r st by (auto simp: row_status_get amap_get_map_where config_columns_eq sim_simps owned_by_def split: option.split)
  with ok ok' have "loaded_status (loadTaskForUser ?db u j) = loaded_status (loadTaskForUser db u j)" for j
    by (simp add: loaded_status_row)
  with upd ok' show ?thesis by blast
qed

interpretation revival: reviving_repository "\<lambda>db. loadTaskForUser db u" "\<lambda>db i s. updateTaskOperationalState db u i s False now"
    "\<lambda>db. deleteTask db u" updated_state db_ok "\<lambda>db i s. updateTaskOperationalState db u i s True now"
    "\<lambda>db. updateTaskConfig db u"
  for u :: ident and now :: timestamp
proof unfold_locales
  fix db i t and s :: task_state
  assume ok: "db_ok db" and l: "loadTaskForUser db u i = Inr (Some t)"
  have t: "stored_task db u i = Some t" using l by (simp add: loadTask_ok [OF ok])
  have "st_status (task_state t) = Deleted \<Longrightarrow> st_status s = Deleted \<or> True" by simp
  from operational_update [OF ok t this, of now]
  show "\<exists>db'. updateTaskOperationalState db u i s True now = Inr (True, db') \<and> db_ok db'
      \<and> loadTaskForUser db' u i = Inr (Some \<lparr>task_config = task_config t, task_state = updated_state (task_state t) s\<rparr>)
      \<and> (\<forall>j. j \<noteq> i \<longrightarrow> loadTaskForUser db' u j = loadTaskForUser db u j)"
    using ok by (metis loadTask_ok)
next
  fix db i s
  assume ok: "db_ok db" and "loadTaskForUser db u i = Inr None"
  then show "updateTaskOperationalState db u i s True now = Inr (False, db)"
    by (simp add: loadTask_ok operational_update_missing)
next
  fix db i cfg
  assume "db_ok db"
  then show "\<exists>b db'. updateTaskConfig db u i cfg = Inr (b, db') \<and> db_ok db'
      \<and> (\<forall>j. loaded_status (loadTaskForUser db' u j) = loaded_status (loadTaskForUser db u j))"
    by (rule config_update)
qed

end
