(* ===== verification/TaskLifecycle.thy ===== *)
theory TaskLifecycle
  imports TaskRepository TaskEngine
begin

text \<open>
  The lifecycle operations of the task manager (\<open>src/core/task/task-lifecycle.ts\<close>,
  \<open>task-git-accept.ts\<close>, \<open>task-state-persistence.ts\<close>, \<open>task-git-validation.ts\<close>, \<open>review-history.ts\<close> and
  \<open>getTaskImpl\<close> of \<open>task-crud.ts\<close>): accepting, closing, merging, completing by hand, deleting, discarding and
  purging tasks, the reset of everything, and the cleanup that a deletion defers.

  The state is the database, the map of live engines, the two sets of locks and the events emitted. What
  lies outside is a parameter: the answer of the backend manager to a disconnect, the check that a native
  workspace is settled (any operation on the state), how an engine's \<open>stop\<close> ends, and the outcomes of the
  cleanup steps.
\<close>

section \<open>State and results\<close>

datatype task_error_code =
  TaskNotFound | TaskNotRunning | TaskNotPlanning | PlanNotReady | TaskAlreadyRunning | InvalidTaskState
| InvalidModelConfig | TaskBranchMissing | TaskWorktreeMissing | OperationInProgress | InvalidTaskInput
| WorkspaceGitRequired | TaskNotAddressable | AutomaticPrFlowDisabled | AutomaticPrFlowBusy | TaskNoRemote
| TaskOperationFailed | TaskGitOperationFailed | TaskBackgroundWorkUnsettled | TaskFinalGitFailed
| TaskFinalGitPending | TaskInputUnresolved | TaskTerminalSessionFailed | TaskFileOperationFailed
| TaskSessionReconnectFailed | UncommittedChanges | DirectoryInUse

datatype life_error =
  StoreFailed store_error
| MoveRefused transition_error
| Coded task_error_code
| BackendFailed string

datatype task_result = TaskSuccess | TaskFailure task_error_code

text \<open>The events emitted and, as \<open>EngineRun\<close>, the engine runs that are left to go on in the background.\<close>

datatype run_kind = RunStart | RunContinue | RunPlanIteration

datatype life_event =
  EventDeleted ident ident
| EventDiscarded ident
| EventMerged ident
| EventAccepted ident
| EventCompleted ident nat
| EventStarting ident
| EventTaskError ident string nat
| EventPendingUpdated ident "string option" "model_config option"
| EventPlanFeedback ident nat
| EventPlanDiscarded ident
| EventPlanReady ident string
| EventPrFlow ident "pr_flow_state option"
| EngineRun ident run_kind

record lifecycle =
  lc_db :: task_db
  lc_engines :: "(ident, engine) amap"
  lc_accepting :: "ident set"
  lc_starting :: "ident set"
  lc_events :: "life_event list"

type_synonym 'a life = "(lifecycle, life_error, 'a) op"

definition taskFailureFromUnknown :: "life_error \<Rightarrow> task_error_code \<Rightarrow> task_result" where
  "taskFailureFromUnknown x fallback = TaskFailure (case x of Coded c \<Rightarrow> c | _ \<Rightarrow> fallback)"

definition reading :: "(task_db \<Rightarrow> store_error + 'a) \<Rightarrow> 'a life" where
  "reading f c = (case f (lc_db c) of Inl x \<Rightarrow> (Inl (StoreFailed x), c) | Inr y \<Rightarrow> (Inr y, c))"

definition writing :: "(task_db \<Rightarrow> store_error + ('a \<times> task_db)) \<Rightarrow> 'a life" where
  "writing f c = (case f (lc_db c) of
     Inl x \<Rightarrow> (Inl (StoreFailed x), c)
   | Inr (y, db) \<Rightarrow> (Inr y, c\<lparr>lc_db := db\<rparr>))"

definition loadTask :: "ident \<Rightarrow> ident \<Rightarrow> task option life" where
  "loadTask u i = reading (\<lambda>db. loadTaskForUser db u i)"

definition save_operational :: "ident \<Rightarrow> timestamp \<Rightarrow> ident \<Rightarrow> task_state \<Rightarrow> bool life" where
  "save_operational u now i s = writing (\<lambda>db. updateTaskOperationalState db u i s False now)"

definition assert_move :: "task_status \<Rightarrow> task_status \<Rightarrow> unit life" where
  "assert_move a b c = (case assertValidTransition a b of Inl x \<Rightarrow> (Inl (MoveRefused x), c) | Inr _ \<Rightarrow> (Inr (), c))"

definition announce :: "life_event \<Rightarrow> unit life" where
  "announce ev = modify (\<lambda>c. c\<lparr>lc_events := lc_events c @ [ev]\<rparr>)"

definition drop_engine :: "ident \<Rightarrow> unit life" where
  "drop_engine i = modify (\<lambda>c. c\<lparr>lc_engines := amap_delete (lc_engines c) i\<rparr>)"

text \<open>\<open>backendManager.disconnectTask\<close>: it returns whether it released the backend, or throws.\<close>

definition disconnect :: "life_error + bool \<Rightarrow> bool life" where
  "disconnect d c = (d, c)"

section \<open>Reading a task\<close>

text \<open>A live engine answers for its task, with the creator, the usage and the harness state of the database.\<close>

definition getTask :: "ident \<Rightarrow> ident \<Rightarrow> task option life" where
  "getTask u i c = (case amap_get (lc_engines c) i of
     None \<Rightarrow> loadTask u i c
   | Some e \<Rightarrow> bind (reading (\<lambda>db. loadTaskSummary db u i)) (\<lambda>p c'. case p of
       None \<Rightarrow> (Inr None, c')
     | Some t \<Rightarrow> (let e' = refreshHarnessState (st_harness (task_state t)) e in
         (Inr (Some \<lparr>task_config = (en_config e')\<lparr>cfg_creator := cfg_creator (task_config t)\<rparr>,
                     task_state = (en_state e')\<lparr>st_usage := st_usage (task_state t)\<rparr>\<rparr>),
          c'\<lparr>lc_engines := amap_set (lc_engines c') i e'\<rparr>))) c)"

text \<open>The git state of the database, or of the live task when the database has none of the task.\<close>

definition current_git :: "task option \<Rightarrow> task \<Rightarrow> git_state option" where
  "current_git persisted t = (case persisted of Some p \<Rightarrow> st_git (task_state p) | None \<Rightarrow> st_git (task_state t))"

definition not_addressable :: "review_mode option \<Rightarrow> review_mode option" where
  "not_addressable = map_option (\<lambda>m. m\<lparr>rm_addressable := False\<rparr>)"

section \<open>Deferred cleanup\<close>

datatype cleanup_operation = CleanDelete | CleanDiscard | CleanPurge

record deferred_cleanup =
  dc_task :: task
  dc_engine :: "engine option"
  dc_operation :: cleanup_operation
  dc_chat :: bool

definition has_text :: "string option \<Rightarrow> bool" where
  "has_text s = (case s of Some x \<Rightarrow> x \<noteq> [] | None \<Rightarrow> False)"

definition branch_of :: "git_state \<Rightarrow> string option" where
  "branch_of g = (if workingBranch g = [] then None else Some (workingBranch g))"

definition needsTaskGitCleanup :: "task \<Rightarrow> cleanup_operation \<Rightarrow> bool" where
  "needsTaskGitCleanup t operation = (let g = st_git (task_state t) in
     if operation = CleanPurge
     then st_status (task_state t) \<noteq> Draft
       \<and> (case g of Some x \<Rightarrow> has_text (worktreePath x) \<or> branch_of x \<noteq> None | None \<Rightarrow> False)
     else \<not> cfg_useWorktree (task_config t) \<and> (case g of Some x \<Rightarrow> branch_of x \<noteq> None | None \<Rightarrow> False))"

text \<open>
  How the steps of a cleanup end. A step that throws is \<open>None\<close>; a step may also report that it is
  incomplete.
\<close>

record cleanup_env =
  ce_stopped :: "bool option"
  ce_checked :: bool
  ce_disconnected :: "bool option"
  ce_terminal :: "bool option"
  ce_attachments :: "bool option"
  ce_directory :: "string option"
  ce_managed :: "string option"
  ce_removed :: bool
  ce_reset :: bool

datatype cleanup_action =
  StopEngine | CheckWorkspace | DisconnectBackend | DeleteTerminal | RevokeCredentials | RemoveAttachments
| RemoveWorktree string string | DeleteBranch string string | ResetHard string string | CheckoutBranch string string

text \<open>\<open>runDeferredTaskCleanupStep\<close>: whether the step is done.\<close>

definition step_done :: "bool option \<Rightarrow> bool" where
  "step_done r = (r = Some True)"

definition stopTaskRuntimeForDeletion :: "cleanup_env \<Rightarrow> task \<Rightarrow> engine option \<Rightarrow> cleanup_operation \<Rightarrow> bool \<times> cleanup_action list" where
  "stopTaskRuntimeForDeletion env t e operation =
     (let needs = needsTaskGitCleanup t operation;
          safe = (case e of
              Some _ \<Rightarrow> \<not> needs \<or> ce_stopped env = Some True
            | None \<Rightarrow> \<not> needs \<or> ce_checked env)
      in (safe \<and> step_done (ce_disconnected env),
          (case e of Some _ \<Rightarrow> [StopEngine] | None \<Rightarrow> if needs then [CheckWorkspace] else []) @ [DisconnectBackend]))"

definition cleanupTaskGit :: "cleanup_env \<Rightarrow> task \<Rightarrow> cleanup_operation \<Rightarrow> cleanup_action list" where
  "cleanupTaskGit env t operation = (case (st_git (task_state t), ce_directory env) of
     (Some g, Some dir) \<Rightarrow>
       if operation = CleanPurge then
         if st_status (task_state t) = Draft then []
         else (let branch = (case branch_of g of
                   Some b \<Rightarrow> if b \<noteq> originalBranch g then [DeleteBranch dir b] else []
                 | None \<Rightarrow> [])
               in if has_text (worktreePath g)
                  then (case ce_managed env of
                      None \<Rightarrow> []
                    | Some path \<Rightarrow> RemoveWorktree dir path # (if ce_removed env then branch else []))
                  else branch)
       else if \<not> cfg_useWorktree (task_config t) \<and> branch_of g \<noteq> None \<and> originalBranch g \<noteq> []
       then ResetHard dir (workingBranch g) # (if ce_reset env then [CheckoutBranch dir (originalBranch g)] else [])
       else []
   | _ \<Rightarrow> [])"

text \<open>
  The actions of a deferred cleanup; the runtime, the terminal session and the credentials are cleaned
  concurrently in the code, here in this order.
\<close>

definition deferredTaskCleanup :: "cleanup_env \<Rightarrow> deferred_cleanup \<Rightarrow> cleanup_action list" where
  "deferredTaskCleanup env d =
     (let t = dc_task d; operation = dc_operation d;
          (safe, runtime) = stopTaskRuntimeForDeletion env t (dc_engine d) operation;
          all = (safe \<and> step_done (ce_terminal env) \<and> dc_chat d);
          attachments = (operation = CleanPurge \<and> all)
      in runtime @ [DeleteTerminal, RevokeCredentials]
         @ (if attachments then [RemoveAttachments] else [])
         @ (if attachments \<and> \<not> step_done (ce_attachments env) then []
            else if needsTaskGitCleanup t operation \<and> all then cleanupTaskGit env t operation else []))"

section \<open>Deleting, discarding and purging\<close>

definition markTaskDeleted :: "ident \<Rightarrow> timestamp \<Rightarrow> task \<Rightarrow> task option life" where
  "markTaskDeleted u now t =
     (let s = (task_state t)\<lparr>st_status := Deleted, st_reviewMode := not_addressable (st_reviewMode (task_state t))\<rparr>
      in seq (if st_status (task_state t) \<noteq> Deleted then assert_move (st_status (task_state t)) Deleted else ret ())
         (bind (save_operational u now (cfg_id (task_config t)) s) (\<lambda>saved.
           ret (if saved then Some (t\<lparr>task_state := s\<rparr>) else None))))"

definition takeTaskEngineForCleanup :: "ident \<Rightarrow> engine option life" where
  "takeTaskEngineForCleanup i c = (Inr (amap_get (lc_engines c) i), c\<lparr>lc_engines := amap_delete (lc_engines c) i\<rparr>)"

definition deferred :: "cleanup_operation \<Rightarrow> bool \<Rightarrow> task \<Rightarrow> engine option \<Rightarrow> deferred_cleanup" where
  "deferred operation chat t e = \<lparr>dc_task = t, dc_engine = e, dc_operation = operation, dc_chat = chat\<rparr>"

text \<open>The result and the cleanup that was deferred; \<open>chat\<close> tells how the linked chat's cleanup ends.\<close>

definition deleteTaskImpl :: "ident \<Rightarrow> timestamp \<Rightarrow> bool \<Rightarrow> ident \<Rightarrow> (bool \<times> deferred_cleanup option) life" where
  "deleteTaskImpl u now chat i =
     bind (loadTask u i) (\<lambda>t. case t of
       None \<Rightarrow> ret (False, None)
     | Some t \<Rightarrow> bind (markTaskDeleted u now t) (\<lambda>d. case d of
         None \<Rightarrow> ret (False, None)
       | Some t' \<Rightarrow> bind (takeTaskEngineForCleanup i) (\<lambda>e.
           seq (announce (EventDeleted i (cfg_workspaceId (task_config t'))))
               (ret (True, Some (deferred CleanDelete chat t' e))))))"

definition discardTaskImpl :: "ident \<Rightarrow> timestamp \<Rightarrow> bool \<Rightarrow> ident \<Rightarrow> (task_result \<times> deferred_cleanup option) life" where
  "discardTaskImpl u now chat i =
     bind (getTask u i) (\<lambda>t. case t of
       None \<Rightarrow> ret (TaskFailure TaskNotFound, None)
     | Some t \<Rightarrow> catching
         (bind (markTaskDeleted u now t) (\<lambda>d. case d of
            None \<Rightarrow> ret (TaskFailure TaskNotFound, None)
          | Some t' \<Rightarrow> bind (takeTaskEngineForCleanup i) (\<lambda>e.
              seq (announce (EventDiscarded i)) (ret (TaskSuccess, Some (deferred CleanDiscard chat t' e))))))
         (\<lambda>x. ret (taskFailureFromUnknown x TaskOperationFailed, None)))"

definition purgeable :: "task_status \<Rightarrow> bool" where
  "purgeable s = (s \<in> {Draft, AcceptedLocal, Merged, Pushed, Deleted})"

definition purgeTaskImpl :: "ident \<Rightarrow> bool \<Rightarrow> ident \<Rightarrow> (task_result \<times> deferred_cleanup option) life" where
  "purgeTaskImpl u chat i =
     bind (loadTask u i) (\<lambda>t. case t of
       None \<Rightarrow> ret (TaskFailure TaskNotFound, None)
     | Some t \<Rightarrow>
         if \<not> purgeable (st_status (task_state t)) then ret (TaskFailure InvalidTaskState, None)
         else bind (writing (\<lambda>db. Inr (deleteTask db u i))) (\<lambda>deleted.
           if \<not> deleted then ret (TaskFailure TaskFileOperationFailed, None)
           else bind (takeTaskEngineForCleanup i) (\<lambda>e. ret (TaskSuccess, Some (deferred CleanPurge chat t e)))))"

section \<open>Merging, closing and completing\<close>

definition markMergedImpl :: "ident \<Rightarrow> timestamp \<Rightarrow> life_error + bool \<Rightarrow> ident \<Rightarrow> task_result life" where
  "markMergedImpl u now d i =
     bind (getTask u i) (\<lambda>t. case t of
       None \<Rightarrow> ret (TaskFailure TaskNotFound)
     | Some t \<Rightarrow>
         if st_status (task_state t) \<notin> {Pushed, Merged} then ret (TaskFailure InvalidTaskState)
         else bind (loadTask u i) (\<lambda>persisted.
           if current_git persisted t = None then ret (TaskFailure TaskBranchMissing)
           else if st_status (task_state t) = Merged then ret TaskSuccess
           else catching
             (seq (assert_move (st_status (task_state t)) Merged)
             (bind (save_operational u now i ((task_state t)\<lparr>st_status := Merged,
                      st_reviewMode := not_addressable (st_reviewMode (task_state t))\<rparr>)) (\<lambda>_.
             bind (disconnect d) (\<lambda>_. seq (drop_engine i) (seq (announce (EventMerged i)) (ret TaskSuccess))))))
             (\<lambda>x. ret (taskFailureFromUnknown x TaskOperationFailed))))"

definition addressable :: "task_state \<Rightarrow> bool" where
  "addressable s = (case st_reviewMode s of Some m \<Rightarrow> rm_addressable m | None \<Rightarrow> False)"

definition closeLocalTaskImpl :: "ident \<Rightarrow> timestamp \<Rightarrow> life_error + bool \<Rightarrow> ident \<Rightarrow> task_result life" where
  "closeLocalTaskImpl u now d i =
     bind (getTask u i) (\<lambda>t. case t of
       None \<Rightarrow> ret (TaskFailure TaskNotFound)
     | Some t \<Rightarrow>
         if st_status (task_state t) \<noteq> AcceptedLocal then ret (TaskFailure InvalidTaskState)
         else if \<not> addressable (task_state t) then ret TaskSuccess
         else catching
           (seq (assert_move (st_status (task_state t)) AcceptedLocal)
           (bind (save_operational u now i ((task_state t)\<lparr>st_reviewMode := not_addressable (st_reviewMode (task_state t))\<rparr>)) (\<lambda>_.
           bind (disconnect d) (\<lambda>_. seq (drop_engine i) (ret TaskSuccess)))))
           (\<lambda>x. ret (taskFailureFromUnknown x TaskOperationFailed)))"

definition manually_completable :: "task_status \<Rightarrow> bool" where
  "manually_completable s = (s \<in> {Stopped, Failed})"

definition manualCompleteTaskLocked ::
  "unit life \<Rightarrow> ident \<Rightarrow> timestamp \<Rightarrow> life_error + bool \<Rightarrow> ident \<Rightarrow> task_result life" where
  "manualCompleteTaskLocked check u now d i =
     bind (getTask u i) (\<lambda>t. case t of
       None \<Rightarrow> ret (TaskFailure TaskNotFound)
     | Some t \<Rightarrow>
         if \<not> manually_completable (st_status (task_state t)) then ret (TaskFailure InvalidTaskState)
         else bind (loadTask u i) (\<lambda>persisted.
           if current_git persisted t = None then ret (TaskFailure TaskBranchMissing)
           else catching
             (seq check (bind (getTask u i) (\<lambda>t. case t of
                None \<Rightarrow> ret (TaskFailure TaskNotFound)
              | Some t \<Rightarrow>
                  if \<not> manually_completable (st_status (task_state t)) then ret (TaskFailure InvalidTaskState)
                  else if st_git (task_state t) = None then ret (TaskFailure TaskBranchMissing)
                  else seq (assert_move (st_status (task_state t)) Completed)
                    (bind (\<lambda>c. (Inr (amap_has (lc_engines c) i), c)) (\<lambda>live.
                    seq (whenever live (seq (drop_engine i) (bind (disconnect d) (\<lambda>_. ret ()))))
                    (bind (save_operational u now i ((task_state t)\<lparr>st_status := Completed, st_completedAt := Some now,
                             st_error := None, st_consecutiveErrors := None\<rparr>)) (\<lambda>_.
                    seq (announce (EventCompleted i (st_currentIteration (task_state t)))) (ret TaskSuccess))))))))
             (\<lambda>x. ret (taskFailureFromUnknown x TaskOperationFailed))))"

section \<open>Accepting\<close>

definition acceptable :: "task_status \<Rightarrow> bool" where
  "acceptable s = (s \<in> {Completed, MaxIterations})"

definition lock_accept :: "ident \<Rightarrow> unit life" where
  "lock_accept i = modify (\<lambda>c. c\<lparr>lc_accepting := insert i (lc_accepting c)\<rparr>)"

definition unlock_accept :: "ident \<Rightarrow> lifecycle \<Rightarrow> lifecycle" where
  "unlock_accept i c = c\<lparr>lc_accepting := lc_accepting c - {i}\<rparr>"

definition local_review :: "review_mode option \<Rightarrow> review_mode" where
  "local_review r = (case r of
     Some m \<Rightarrow> m\<lparr>rm_addressable := True, rm_completionAction := ActionLocal\<rparr>
   | None \<Rightarrow> \<lparr>rm_addressable = True, rm_completionAction = ActionLocal, rm_reviewCycles = 0\<rparr>)"

text \<open>The body of the \<open>try\<close> block.\<close>

definition accept_settled :: "unit life \<Rightarrow> ident \<Rightarrow> timestamp \<Rightarrow> life_error + bool \<Rightarrow> ident \<Rightarrow> task_result life" where
  "accept_settled check u now d i =
     seq check (bind (getTask u i) (\<lambda>t. case t of
       None \<Rightarrow> ret (TaskFailure TaskNotFound)
     | Some t \<Rightarrow>
         if \<not> acceptable (st_status (task_state t)) then ret (TaskFailure InvalidTaskState)
         else if st_git (task_state t) = None then ret (TaskFailure TaskBranchMissing)
         else seq (assert_move (st_status (task_state t)) AcceptedLocal)
           (bind (save_operational u now i ((task_state t)\<lparr>st_status := AcceptedLocal,
                    st_reviewMode := Some (local_review (st_reviewMode (task_state t)))\<rparr>)) (\<lambda>_.
           bind (disconnect d) (\<lambda>_. seq (drop_engine i) (seq (announce (EventAccepted i)) (ret TaskSuccess)))))))"

definition acceptTaskLocked :: "unit life \<Rightarrow> ident \<Rightarrow> timestamp \<Rightarrow> life_error + bool \<Rightarrow> ident \<Rightarrow> task_result life" where
  "acceptTaskLocked check u now d i c =
     (if i \<in> lc_accepting c then (Inr (TaskFailure OperationInProgress), c)
      else bind (getTask u i) (\<lambda>t. case t of
        None \<Rightarrow> ret (TaskFailure TaskNotFound)
      | Some t \<Rightarrow>
          if \<not> acceptable (st_status (task_state t)) then ret (TaskFailure InvalidTaskState)
          else if st_git (task_state t) = None then ret (TaskFailure TaskBranchMissing)
          else seq (lock_accept i) (ensuring
            (catching (accept_settled check u now d i) (\<lambda>x. ret (taskFailureFromUnknown x TaskOperationFailed)))
            (unlock_accept i))) c)"

section \<open>Idle engines, shutdown and reset\<close>

text \<open>
  The result tells whether the supervision of the engine can end; \<open>same\<close> tells whether the engine in the
  map is still the one supervised, \<open>busy\<close> whether an input operation is active.
\<close>

definition cleanupIdleTaskEngine :: "bool \<Rightarrow> bool \<Rightarrow> life_error + bool \<Rightarrow> ident \<Rightarrow> bool life" where
  "cleanupIdleTaskEngine same busy d i c = (case amap_get (lc_engines c) i of
     None \<Rightarrow> (Inr True, c)
   | Some e \<Rightarrow>
       if \<not> same then (Inr True, c)
       else if isExecuting busy e \<or> needsWorkspaceFinalization e
         \<or> st_status (en_state e) \<notin> {Completed, Stopped, Failed, MaxIterations} then (Inr False, c)
       else bind (disconnect d) (\<lambda>released.
         if released then seq (drop_engine i) (ret True) else ret False) c)"

text \<open>
  \<open>engine.shutdown()\<close> of every engine; an engine whose final checkpoint fails stays in the map, with its
  session aborted.
\<close>

definition abort_session :: "unit eng" where
  "abort_session = seq (modify beginShutdown) (seq (modify stop_request) (emit (EvSessionAborted ''Server shutdown'')))"

definition shutdownImpl :: "(ident \<Rightarrow> bool) \<Rightarrow> lifecycle \<Rightarrow> bool \<times> lifecycle" where
  "shutdownImpl checkpointed c =
     (list_all (\<lambda>p. checkpointed (fst p)) (lc_engines c),
      c\<lparr>lc_engines := map (\<lambda>p. (fst p, snd (abort_session (snd p)))) (filter (\<lambda>p. \<not> checkpointed (fst p)) (lc_engines c))\<rparr>)"

text \<open>
  One engine of a reset: a planning task keeps its status, any other is stopped, and the engine's state is
  saved; \<open>halt\<close> is how \<open>stop\<close> ends. Errors are logged.
\<close>

definition reset_engine ::
  "(ident \<Rightarrow> engine \<Rightarrow> (engine_error + unit) \<times> engine) \<Rightarrow> ident \<Rightarrow> timestamp \<Rightarrow> ident \<times> engine \<Rightarrow> task_db \<Rightarrow> task_db" where
  "reset_engine halt u now p db = (case p of (i, e) \<Rightarrow>
     let save = (\<lambda>s. case updateTaskOperationalState db u i s False now of Inl _ \<Rightarrow> db | Inr (_, db') \<Rightarrow> db')
     in if st_status (en_state e) = Planning then save (en_state e)
        else (case halt i e of (Inl _, _) \<Rightarrow> db | (Inr _, e') \<Rightarrow> save (en_state e')))"

definition forceResetAllImpl ::
  "(ident \<Rightarrow> engine \<Rightarrow> (engine_error + unit) \<times> engine) \<Rightarrow> ident \<Rightarrow> timestamp \<Rightarrow> lifecycle \<Rightarrow> (nat \<times> nat) \<times> lifecycle" where
  "forceResetAllImpl halt u now c =
     (let db = fold (reset_engine halt u now) (lc_engines c) (lc_db c);
          (n, db') = resetStaleTasks db u None now
      in ((length (lc_engines c), n),
          c\<lparr>lc_db := db', lc_engines := [], lc_accepting := {}, lc_starting := {}\<rparr>))"

section \<open>Checks before a start and the review history\<close>

definition validateMainCheckoutStart :: "ident \<Rightarrow> bool \<Rightarrow> task \<Rightarrow> unit life" where
  "validateMainCheckoutStart u dirty t =
     (if cfg_useWorktree (task_config t) then ret ()
      else bind (reading (\<lambda>db. getActiveTaskByDirectory db u (cfg_directory (task_config t)) (cfg_workspaceId (task_config t))))
        (\<lambda>active. if (case active of Some a \<Rightarrow> cfg_id (task_config a) \<noteq> cfg_id (task_config t) | None \<Rightarrow> False)
          then throw (Coded DirectoryInUse)
          else if dirty then throw (Coded UncommittedChanges) else ret ()))"

definition getReviewHistory :: "ident \<Rightarrow> ident \<Rightarrow> (task_error_code + review_mode) life" where
  "getReviewHistory u i = bind (loadTask u i) (\<lambda>t. ret (case t of
     None \<Rightarrow> Inl TaskNotFound
   | Some t \<Rightarrow> Inr (case st_reviewMode (task_state t) of
       Some m \<Rightarrow> m
     | None \<Rightarrow> \<lparr>rm_addressable = False, rm_completionAction = ActionLocal, rm_reviewCycles = 0\<rparr>)))"

end
