(* ===== verification/LifecycleProps.thy ===== *)
theory LifecycleProps
  imports TaskLifecycle
begin

text \<open>
  What the lifecycle operations of \<open>TaskLifecycle\<close> do to the stored tasks, over the laws of the task
  repository: the statuses they may write, the locks they release, what a deferred cleanup may touch and
  what a reset leaves.
\<close>

section \<open>Stored statuses\<close>

definition stored_status_of :: "lifecycle \<Rightarrow> ident \<Rightarrow> ident \<Rightarrow> task_status option" where
  "stored_status_of c u i = loaded_status (loadTaskForUser (lc_db c) u i)"

abbreviation live :: "lifecycle \<Rightarrow> ident \<Rightarrow> bool" where
  "live c i \<equiv> amap_get (lc_engines c) i \<noteq> None"

lemmas life_ops = ret_def throw_def bind_def seq_def modify_def whenever_def announce_def drop_engine_def disconnect_def

lemma loaded_id:
  assumes "db_ok db" "loadTaskForUser db u i = Inr (Some t)"
  shows "cfg_id (task_config t) = i"
proof -
  obtain r where r: "amap_get (tdb_rows db) i = Some r" "t = read_task db u i r"
    using assms by (auto simp: loadTask_ok stored_task_def split: option.splits if_splits)
  with db_ok_row [OF assms(1) r(1)] show ?thesis
    by (simp add: readable_row_def Let_def read_task_def with_transcript_def row_config_def nonempty_def)
qed

lemma load_run:
  assumes "db_ok (lc_db c)"
  shows "\<exists>t. loadTask u i c = (Inr t, c) \<and> loadTaskForUser (lc_db c) u i = Inr t"
  using store.load_total [OF assms, of u i] by (auto simp: loadTask_def reading_def)

lemma get_engineless: "\<not> live c i \<Longrightarrow> getTask u i c = loadTask u i c"
  by (simp add: getTask_def)

text \<open>An operational save of the model writes the state of an existing task that is not deleted.\<close>

lemma save_run:
  assumes "db_ok (lc_db c)"
  obtains b db' where "save_operational u now i s c = (Inr b, c\<lparr>lc_db := db'\<rparr>)" "db_ok db'"
    "\<And>j. loaded_status (loadTaskForUser db' u j) = (if j = i \<and> b then Some (st_status s) else stored_status_of c u j)"
    "b = (stored_status_of c u i \<noteq> None \<and> (stored_status_of c u i = Some Deleted \<longrightarrow> st_status s = Deleted))"
proof -
  obtain b db' where u: "updateTaskOperationalState (lc_db c) u i s False now = Inr (b, db')"
    using store.update_total [OF assms] by blast
  show ?thesis
    by (rule that [of b db'])
       (use store.update_ok [OF assms u] store.update_status [OF assms u] store.update_succeeds [OF assms u] in
         \<open>auto simp: save_operational_def writing_def u store.status_def stored_status_of_def\<close>)
qed

lemma to_deleted: "isValidTransition s Deleted \<or> s = Deleted"
  by (cases s) (simp_all add: isValidTransition_def)

lemma mark_deleted_run:
  assumes ok: "db_ok (lc_db c)" and id: "cfg_id (task_config t) = i" and st: "stored_status_of c u i \<noteq> None"
  obtains db' t' where "markTaskDeleted u now t c = (Inr (Some t'), c\<lparr>lc_db := db'\<rparr>)" "db_ok db'"
    "\<And>j. loaded_status (loadTaskForUser db' u j) = (if j = i then Some Deleted else stored_status_of c u j)"
    "t' = t\<lparr>task_state := (task_state t)\<lparr>st_status := Deleted, st_reviewMode := not_addressable (st_reviewMode (task_state t))\<rparr>\<rparr>"
proof -
  let ?s = "(task_state t)\<lparr>st_status := Deleted, st_reviewMode := not_addressable (st_reviewMode (task_state t))\<rparr>"
  obtain b db' where s: "save_operational u now i ?s c = (Inr b, c\<lparr>lc_db := db'\<rparr>)" "db_ok db'"
    "\<And>j. loaded_status (loadTaskForUser db' u j) = (if j = i \<and> b then Some (st_status ?s) else stored_status_of c u j)"
    "b = (stored_status_of c u i \<noteq> None \<and> (stored_status_of c u i = Some Deleted \<longrightarrow> st_status ?s = Deleted))"
    using save_run [OF ok, of u now i ?s] by blast
  with st have b by simp
  with s(1) id to_deleted [of "st_status (task_state t)"]
  have "markTaskDeleted u now t c = (Inr (Some (t\<lparr>task_state := ?s\<rparr>)), c\<lparr>lc_db := db'\<rparr>)"
    by (auto simp: markTaskDeleted_def Let_def seq_def bind_def ret_def assert_move_def assertValidTransition_def)
  then show ?thesis using that s(2,3) \<open>b\<close> by simp
qed

section \<open>Deleting\<close>

lemma delete_run:
  assumes ok: "db_ok (lc_db c)" and st: "stored_status_of c u i = Some s"
  shows "\<exists>d c'. deleteTaskImpl u now chat i c = (Inr (True, Some d), c') \<and> db_ok (lc_db c')
    \<and> (\<forall>j. stored_status_of c' u j = (if j = i then Some Deleted else stored_status_of c u j))
    \<and> lc_engines c' = amap_delete (lc_engines c) i
    \<and> (\<exists>w. lc_events c' = lc_events c @ [EventDeleted i w])
    \<and> dc_engine d = amap_get (lc_engines c) i \<and> cfg_id (task_config (dc_task d)) = i \<and> dc_operation d = CleanDelete"
proof -
  obtain t where t: "loadTask u i c = (Inr (Some t), c)" "loadTaskForUser (lc_db c) u i = Inr (Some t)"
    using load_run [OF ok, of u i] st by (auto simp: stored_status_of_def loaded_status_def split: option.splits)
  obtain db' t' where m: "markTaskDeleted u now t c = (Inr (Some t'), c\<lparr>lc_db := db'\<rparr>)" "db_ok db'"
    "\<And>j. loaded_status (loadTaskForUser db' u j) = (if j = i then Some Deleted else stored_status_of c u j)"
    "t' = t\<lparr>task_state := (task_state t)\<lparr>st_status := Deleted, st_reviewMode := not_addressable (st_reviewMode (task_state t))\<rparr>\<rparr>"
    using mark_deleted_run [OF ok loaded_id [OF ok t(2)], of u now] st by (metis option.distinct(1))
  let ?c = "c\<lparr>lc_db := db', lc_engines := amap_delete (lc_engines c) i,
      lc_events := lc_events c @ [EventDeleted i (cfg_workspaceId (task_config t'))]\<rparr>"
  have "deleteTaskImpl u now chat i c = (Inr (True, Some (deferred CleanDelete chat t' (amap_get (lc_engines c) i))), ?c)"
    using t(1) m(1) by (simp add: deleteTaskImpl_def takeTaskEngineForCleanup_def life_ops)
  then show ?thesis using m(2-4) loaded_id [OF ok t(2)] by (auto simp: stored_status_of_def deferred_def)
qed

section \<open>Moves\<close>

datatype life_op =
  OpDelete bool | OpDiscard bool | OpPurge bool | OpMarkMerged "life_error + bool" | OpCloseLocal "life_error + bool"
| OpComplete "life_error + bool" | OpAccept "life_error + bool"

text \<open>The state an operation leaves, for a task whose workspace check (of an ACP task) passes at once.\<close>

fun run_life_op :: "ident \<Rightarrow> timestamp \<Rightarrow> ident \<Rightarrow> life_op \<Rightarrow> lifecycle \<Rightarrow> lifecycle" where
  "run_life_op u now i (OpDelete chat) c = snd (deleteTaskImpl u now chat i c)"
| "run_life_op u now i (OpDiscard chat) c = snd (discardTaskImpl u now chat i c)"
| "run_life_op u now i (OpPurge chat) c = snd (purgeTaskImpl u chat i c)"
| "run_life_op u now i (OpMarkMerged d) c = snd (markMergedImpl u now d i c)"
| "run_life_op u now i (OpCloseLocal d) c = snd (closeLocalTaskImpl u now d i c)"
| "run_life_op u now i (OpComplete d) c = snd (manualCompleteTaskLocked (ret ()) u now d i c)"
| "run_life_op u now i (OpAccept d) c = snd (acceptTaskLocked (ret ()) u now d i c)"

definition legal_move :: "task_status option \<Rightarrow> task_status option \<Rightarrow> bool" where
  "legal_move a b \<longleftrightarrow> b = a \<or> (\<exists>x y. a = Some x \<and> b = Some y \<and> isValidTransition x y)
     \<or> b = None \<and> (\<exists>x. a = Some x \<and> purgeable x)"

definition legal_step :: "ident \<Rightarrow> ident \<Rightarrow> lifecycle \<Rightarrow> lifecycle \<Rightarrow> bool" where
  "legal_step u i c c' \<longleftrightarrow> db_ok (lc_db c') \<and> (\<forall>j. j \<noteq> i \<longrightarrow> stored_status_of c' u j = stored_status_of c u j)
     \<and> legal_move (stored_status_of c u i) (stored_status_of c' u i)"

lemma legal_refl: "db_ok (lc_db c) \<Longrightarrow> legal_step u i c c"
  by (simp add: legal_step_def legal_move_def)

lemma legal_same_db: "lc_db c' = lc_db c'' \<Longrightarrow> legal_step u i c c' = legal_step u i c c''"
  by (simp add: legal_step_def stored_status_of_def)

text \<open>Saving a state the table allows, and whatever else that leaves the database alone.\<close>

lemma legal_save:
  assumes "db_ok (lc_db c)" "stored_status_of c u i = Some a" "a = st_status s \<or> isValidTransition a (st_status s)"
  obtains b db' where "save_operational u now i s c = (Inr b, c\<lparr>lc_db := db'\<rparr>)"
    "\<And>c'. lc_db c' = db' \<Longrightarrow> legal_step u i c c'"
proof -
  obtain b db' where s: "save_operational u now i s c = (Inr b, c\<lparr>lc_db := db'\<rparr>)" "db_ok db'"
    "\<And>j. loaded_status (loadTaskForUser db' u j) = (if j = i \<and> b then Some (st_status s) else stored_status_of c u j)"
    "b = (stored_status_of c u i \<noteq> None \<and> (stored_status_of c u i = Some Deleted \<longrightarrow> st_status s = Deleted))"
    using save_run [OF assms(1), of u now i s] by blast
  show ?thesis
    by (rule that [OF s(1)]) (use s(2,3) assms(2,3) in \<open>auto simp: legal_step_def legal_move_def stored_status_of_def\<close>)
qed

lemma load_cases:
  assumes "db_ok (lc_db c)"
  obtains (none) "loadTask u i c = (Inr None, c)" "stored_status_of c u i = None"
  | (some) t where "loadTask u i c = (Inr (Some t), c)" "stored_status_of c u i = Some (st_status (task_state t))"
      "cfg_id (task_config t) = i"
proof -
  obtain t where "loadTask u i c = (Inr t, c)" "loadTaskForUser (lc_db c) u i = Inr t"
    using load_run [OF assms, of u i] by blast
  then show ?thesis using that loaded_id [OF assms]
    by (cases t) (auto simp: stored_status_of_def loaded_status_def)
qed

lemma delete_legal:
  assumes "db_ok (lc_db c)"
  shows "legal_step u i c (snd (deleteTaskImpl u now chat i c))"
  using assms
proof (rule load_cases [of c u i])
  assume "loadTask u i c = (Inr None, c)"
  then show ?thesis using legal_refl [OF assms] by (simp add: deleteTaskImpl_def life_ops)
next
  fix t assume st: "stored_status_of c u i = Some (st_status (task_state t))"
  from delete_run [OF assms st, of now chat] to_deleted [of "st_status (task_state t)"] st show ?thesis
    by (auto simp: legal_step_def legal_move_def)
qed

lemma discard_legal:
  assumes ok: "db_ok (lc_db c)" and e: "\<not> live c i"
  shows "legal_step u i c (snd (discardTaskImpl u now chat i c))"
  using ok
proof (rule load_cases [of c u i])
  assume "loadTask u i c = (Inr None, c)"
  then show ?thesis using legal_refl [OF ok] by (simp add: discardTaskImpl_def get_engineless [OF e] life_ops)
next
  fix t assume t: "loadTask u i c = (Inr (Some t), c)" "stored_status_of c u i = Some (st_status (task_state t))"
    "cfg_id (task_config t) = i"
  obtain db' t' where m: "markTaskDeleted u now t c = (Inr (Some t'), c\<lparr>lc_db := db'\<rparr>)" "db_ok db'"
    "\<And>j. loaded_status (loadTaskForUser db' u j) = (if j = i then Some Deleted else stored_status_of c u j)"
    using mark_deleted_run [OF ok t(3), of u now] t(2) by (metis option.distinct(1))
  then show ?thesis using t to_deleted [of "st_status (task_state t)"]
    by (auto simp: discardTaskImpl_def get_engineless [OF e] life_ops catching_def takeTaskEngineForCleanup_def legal_step_def
        legal_move_def stored_status_of_def)
qed

lemma purge_legal:
  assumes ok: "db_ok (lc_db c)"
  shows "legal_step u i c (snd (purgeTaskImpl u chat i c))"
  using ok
proof (rule load_cases [of c u i])
  assume "loadTask u i c = (Inr None, c)"
  then show ?thesis using legal_refl [OF ok] by (simp add: purgeTaskImpl_def life_ops)
next
  fix t assume t: "loadTask u i c = (Inr (Some t), c)" "stored_status_of c u i = Some (st_status (task_state t))"
  obtain b db' where d: "deleteTask (lc_db c) u i = (b, db')" by fastforce
  note r = store.remove_cases [OF ok d]
  have "legal_step u i c c'" if "lc_db c' = db'" "purgeable (st_status (task_state t))" for c'
    using that t(2) r(1,2) by (auto simp: legal_step_def legal_move_def stored_status_of_def store.status_def)
  then show ?thesis using t legal_refl [OF ok] d
    by (auto simp: purgeTaskImpl_def life_ops takeTaskEngineForCleanup_def writing_def)
qed

lemma disconnect_run: "disconnect d c = (d, c)"
  by (simp add: disconnect_def)

lemma merged_legal:
  assumes ok: "db_ok (lc_db c)" and e: "\<not> live c i"
  shows "legal_step u i c (snd (markMergedImpl u now d i c))"
  using ok
proof (rule load_cases [of c u i])
  assume "loadTask u i c = (Inr None, c)"
  then show ?thesis using legal_refl [OF ok] by (simp add: markMergedImpl_def get_engineless [OF e] life_ops)
next
  fix t assume t: "loadTask u i c = (Inr (Some t), c)" "stored_status_of c u i = Some (st_status (task_state t))"
  let ?s = "(task_state t)\<lparr>st_status := Merged, st_reviewMode := not_addressable (st_reviewMode (task_state t))\<rparr>"
  show ?thesis
  proof (cases "st_status (task_state t) = Pushed")
    case True
    have "isValidTransition Pushed Merged" by (simp add: isValidTransition_def)
    then obtain b db' where s: "save_operational u now i ?s c = (Inr b, c\<lparr>lc_db := db'\<rparr>)"
      "\<And>c'. lc_db c' = db' \<Longrightarrow> legal_step u i c c'"
      using legal_save [OF ok t(2), of ?s now] True by auto
    show ?thesis
      using t(1) s True legal_refl [OF ok] \<open>isValidTransition Pushed Merged\<close>
      by (cases d) (auto simp: markMergedImpl_def get_engineless [OF e] life_ops catching_def assert_move_def assertValidTransition_def)
  next
    case False
    then show ?thesis using t legal_refl [OF ok]
      by (auto simp: markMergedImpl_def get_engineless [OF e] life_ops)
  qed
qed

lemma close_legal:
  assumes ok: "db_ok (lc_db c)" and e: "\<not> live c i"
  shows "legal_step u i c (snd (closeLocalTaskImpl u now d i c))"
  using ok
proof (rule load_cases [of c u i])
  assume "loadTask u i c = (Inr None, c)"
  then show ?thesis using legal_refl [OF ok] by (simp add: closeLocalTaskImpl_def get_engineless [OF e] life_ops)
next
  fix t assume t: "loadTask u i c = (Inr (Some t), c)" "stored_status_of c u i = Some (st_status (task_state t))"
  let ?s = "(task_state t)\<lparr>st_reviewMode := not_addressable (st_reviewMode (task_state t))\<rparr>"
  obtain b db' where s: "save_operational u now i ?s c = (Inr b, c\<lparr>lc_db := db'\<rparr>)"
    "\<And>c'. lc_db c' = db' \<Longrightarrow> legal_step u i c c'"
    using legal_save [OF ok t(2), of ?s now] by auto
  show ?thesis
    using t(1) s legal_refl [OF ok]
    by (cases d)
       (auto simp: closeLocalTaskImpl_def get_engineless [OF e] life_ops catching_def assert_move_def split: sum.split)
qed

lemma complete_legal:
  assumes ok: "db_ok (lc_db c)" and e: "\<not> live c i"
  shows "legal_step u i c (snd (manualCompleteTaskLocked (ret ()) u now d i c))"
  using ok
proof (rule load_cases [of c u i])
  assume "loadTask u i c = (Inr None, c)"
  then show ?thesis using legal_refl [OF ok] by (simp add: manualCompleteTaskLocked_def get_engineless [OF e] life_ops)
next
  fix t assume t: "loadTask u i c = (Inr (Some t), c)" "stored_status_of c u i = Some (st_status (task_state t))"
  let ?s = "(task_state t)\<lparr>st_status := Completed, st_completedAt := Some now, st_error := None, st_consecutiveErrors := None\<rparr>"
  show ?thesis
  proof (cases "manually_completable (st_status (task_state t))")
    case True
    then have v: "isValidTransition (st_status (task_state t)) Completed"
      by (auto simp: manually_completable_def isValidTransition_def)
    then obtain b db' where s: "save_operational u now i ?s c = (Inr b, c\<lparr>lc_db := db'\<rparr>)"
      "\<And>c'. lc_db c' = db' \<Longrightarrow> legal_step u i c c'"
      using legal_save [OF ok t(2), of ?s now] by auto
    have "\<not> amap_has (lc_engines c) i" using e by (simp add: amap_has_iff)
    then show ?thesis
      using t(1) s True v legal_refl [OF ok]
      by (auto simp: manualCompleteTaskLocked_def get_engineless [OF e] life_ops catching_def assert_move_def assertValidTransition_def)
  next
    case False
    then show ?thesis using t legal_refl [OF ok]
      by (auto simp: manualCompleteTaskLocked_def get_engineless [OF e] life_ops)
  qed
qed

lemma get_unlocked: "getTask u i (c\<lparr>lc_accepting := L\<rparr>) = (case getTask u i c of (r, c') \<Rightarrow> (r, c'\<lparr>lc_accepting := L\<rparr>))"
  by (auto simp: getTask_def loadTask_def reading_def bind_def Let_def split: option.split sum.split prod.split)

lemma accept_legal:
  assumes ok: "db_ok (lc_db c)" and e: "\<not> live c i"
  shows "legal_step u i c (snd (acceptTaskLocked (ret ()) u now d i c))"
  using ok
proof (rule load_cases [of c u i])
  assume "loadTask u i c = (Inr None, c)"
  then show ?thesis using legal_refl [OF ok] by (simp add: acceptTaskLocked_def get_engineless [OF e] life_ops)
next
  fix t assume t: "loadTask u i c = (Inr (Some t), c)" "stored_status_of c u i = Some (st_status (task_state t))"
  let ?s = "(task_state t)\<lparr>st_status := AcceptedLocal, st_reviewMode := Some (local_review (st_reviewMode (task_state t)))\<rparr>"
  let ?c = "c\<lparr>lc_accepting := insert i (lc_accepting c)\<rparr>"
  have g: "getTask u i ?c = (Inr (Some t), ?c)" using t(1) get_engineless [OF e] by (simp add: get_unlocked)
  have l: "legal_step u i ?c c' = legal_step u i c c'" for c' by (simp add: legal_step_def stored_status_of_def)
  show ?thesis
  proof (cases "acceptable (st_status (task_state t))")
    case True
    then have v: "isValidTransition (st_status (task_state t)) AcceptedLocal"
      by (auto simp: acceptable_def isValidTransition_def)
    have "stored_status_of ?c u i = Some (st_status (task_state t))" using t(2) by (simp add: stored_status_of_def)
    then obtain b db' where s: "save_operational u now i ?s ?c = (Inr b, ?c\<lparr>lc_db := db'\<rparr>)"
      "\<And>c'. lc_db c' = db' \<Longrightarrow> legal_step u i c c'"
      using legal_save [of ?c u i "st_status (task_state t)" ?s now] ok v l by auto
    show ?thesis
      using t(1) g s True v legal_refl [OF ok]
      by (cases d) (auto simp: acceptTaskLocked_def accept_settled_def get_engineless [OF e] life_ops catching_def ensuring_def
          lock_accept_def unlock_accept_def assert_move_def assertValidTransition_def)
  next
    case False
    then show ?thesis using t legal_refl [OF ok]
      by (auto simp: acceptTaskLocked_def get_engineless [OF e] life_ops)
  qed
qed

lemma life_op_legal:
  assumes "db_ok (lc_db c)" "\<not> live c i"
  shows "legal_step u i c (run_life_op u now i x c)"
  using assms
  by (cases x) (simp_all add: delete_legal discard_legal purge_legal merged_legal close_legal complete_legal accept_legal)

lemma ops_keep_no_engine:
  assumes "lc_engines c = []"
  shows "lc_engines (run_life_op u now i x c) = []"
proof -
  note d = life_ops getTask_def loadTask_def reading_def writing_def save_operational_def markTaskDeleted_def Let_def
    assert_move_def takeTaskEngineForCleanup_def amap_delete_def catching_def
  show ?thesis
  proof (cases x)
    case (OpDelete chat)
    then show ?thesis using assms by (auto simp: deleteTaskImpl_def d split: option.split sum.split prod.split)
  next
    case (OpDiscard chat)
    then show ?thesis using assms by (auto simp: discardTaskImpl_def d split: option.split sum.split prod.split)
  next
    case (OpPurge chat)
    then show ?thesis using assms by (auto simp: purgeTaskImpl_def d split: option.split sum.split prod.split)
  next
    case (OpMarkMerged r)
    then show ?thesis using assms by (auto simp: markMergedImpl_def d split: option.split sum.split prod.split)
  next
    case (OpCloseLocal r)
    then show ?thesis using assms by (auto simp: closeLocalTaskImpl_def d split: option.split sum.split prod.split)
  next
    case (OpComplete r)
    then show ?thesis using assms
      by (auto simp: manualCompleteTaskLocked_def d amap_has_def split: option.split sum.split prod.split)
  next
    case (OpAccept r)
    then show ?thesis using assms
      by (auto simp: acceptTaskLocked_def accept_settled_def lock_accept_def unlock_accept_def ensuring_def d
          split: option.split sum.split prod.split)
  qed
qed

definition run_life_ops :: "ident \<Rightarrow> (timestamp \<times> ident \<times> life_op) list \<Rightarrow> lifecycle \<Rightarrow> lifecycle" where
  "run_life_ops u xs c = fold (\<lambda>(now, i, x). run_life_op u now i x) xs c"

lemma life_ops_legal:
  assumes "db_ok (lc_db c)" "lc_engines c = []"
  shows "db_ok (lc_db (run_life_ops u xs c))
    \<and> legal_move\<^sup>*\<^sup>* (stored_status_of c u i) (stored_status_of (run_life_ops u xs c) u i)"
  using assms
proof (induction xs arbitrary: c)
  case (Cons y xs)
  obtain now j x where y: "y = (now, j, x)" by (cases y) auto
  let ?c = "run_life_op u now j x c"
  have l: "legal_step u j c ?c" using Cons.prems by (intro life_op_legal) simp_all
  have "legal_move (stored_status_of c u i) (stored_status_of ?c u i)"
    using l by (cases "i = j") (auto simp: legal_step_def legal_move_def)
  moreover have "db_ok (lc_db ?c)" using l by (simp add: legal_step_def)
  ultimately show ?case
    using Cons.IH [of ?c] ops_keep_no_engine [OF Cons.prems(2)]
    by (auto simp: run_life_ops_def y intro: converse_rtranclp_into_rtranclp)
qed (simp add: run_life_ops_def)

section \<open>The accept lock\<close>

lemma get_keeps_locks: "getTask u i c = (r, c') \<Longrightarrow> lc_accepting c' = lc_accepting c"
  by (auto simp: getTask_def loadTask_def reading_def bind_def Let_def split: option.splits sum.splits)

lemma get_errors: "getTask u i c = (Inl x, c') \<Longrightarrow> \<exists>e. x = StoreFailed e"
  by (auto simp: getTask_def loadTask_def reading_def bind_def Let_def split: option.splits sum.splits)

lemma caught_run:
  "catching m (\<lambda>x. ret (g x)) c = (Inr (case fst (m c) of Inl x \<Rightarrow> g x | Inr y \<Rightarrow> y), snd (m c))"
  by (simp add: catching_def ret_def split: prod.split sum.split)

lemma ret_run: "ret x c = (Inr x, c)"
  by (simp add: ret_def)

lemma accept_unlocks:
  assumes "i \<notin> lc_accepting c" "acceptTaskLocked check u now d i c = (r, c')"
  shows "i \<notin> lc_accepting c' \<and> (case r of Inl (StoreFailed _) \<Rightarrow> True | Inl _ \<Rightarrow> False | Inr _ \<Rightarrow> True)"
proof (cases "getTask u i c")
  case (Pair x c1)
  note L = get_keeps_locks [OF Pair]
  show ?thesis
  proof (cases x)
    case (Inl y)
    with get_errors Pair obtain e where "y = StoreFailed e" by blast
    with assms Pair Inl L show ?thesis by (auto simp: acceptTaskLocked_def bind_def)
  next
    case (Inr t)
    from assms Pair Inr L show ?thesis
      by (cases t) (auto simp: acceptTaskLocked_def bind_def seq_def ret_run modify_def lock_accept_def ensuring_def
          unlock_accept_def caught_run split: if_splits)
  qed
qed

section \<open>The reset\<close>

text \<open>The status a reset saves for the task of an engine, when it saves one.\<close>

definition status_after_halt ::
  "(ident \<Rightarrow> engine \<Rightarrow> (engine_error + unit) \<times> engine) \<Rightarrow> ident \<Rightarrow> engine \<Rightarrow> task_status option" where
  "status_after_halt halt i e = (if st_status (en_state e) = Planning then Some Planning
     else (case halt i e of (Inl _, _) \<Rightarrow> None | (Inr _, e') \<Rightarrow> Some (st_status (en_state e'))))"

definition saved_over :: "task_status option \<Rightarrow> task_status option \<Rightarrow> task_status option" where
  "saved_over n a = (if a = None \<or> n = None \<or> a = Some Deleted \<and> n \<noteq> Some Deleted then a else n)"

lemma reset_engine_status:
  assumes "db_ok db"
  shows "db_ok (reset_engine halt u now (i, e) db)"
    "loaded_status (loadTaskForUser (reset_engine halt u now (i, e) db) u j)
       = (if j = i then saved_over (status_after_halt halt i e) else id) (loaded_status (loadTaskForUser db u j))"
proof -
  have w: "db_ok db' \<and> loaded_status (loadTaskForUser db' u j)
      = (if j = i then saved_over (Some (st_status x)) else id) (loaded_status (loadTaskForUser db u j))"
    if "updateTaskOperationalState db u i x False now = Inr (b, db')" for x b db'
    using store.update_ok [OF assms(1) that] store.update_status [OF assms(1) that] store.update_succeeds [OF assms(1) that]
    by (auto simp: saved_over_def store.status_def)
  have n: "saved_over None a = a" for a by (simp add: saved_over_def)
  have "db_ok (reset_engine halt u now (i, e) db) \<and> loaded_status (loadTaskForUser (reset_engine halt u now (i, e) db) u j)
       = (if j = i then saved_over (status_after_halt halt i e) else id) (loaded_status (loadTaskForUser db u j))"
  proof (cases "st_status (en_state e) = Planning")
    case True
    obtain b db' where x: "updateTaskOperationalState db u i (en_state e) False now = Inr (b, db')"
      using store.update_total [OF assms(1)] by blast
    from w [OF x] True x show ?thesis by (simp add: reset_engine_def status_after_halt_def)
  next
    case False
    obtain r e' where h: "halt i e = (r, e')" by fastforce
    show ?thesis
    proof (cases r)
      case (Inr y)
      obtain b db' where x: "updateTaskOperationalState db u i (en_state e') False now = Inr (b, db')"
        using store.update_total [OF assms(1)] by blast
      from w [OF x] False h Inr x show ?thesis by (simp add: reset_engine_def status_after_halt_def)
    qed (use False h assms n in \<open>simp add: reset_engine_def status_after_halt_def\<close>)
  qed
  then show "db_ok (reset_engine halt u now (i, e) db)"
    "loaded_status (loadTaskForUser (reset_engine halt u now (i, e) db) u j)
       = (if j = i then saved_over (status_after_halt halt i e) else id) (loaded_status (loadTaskForUser db u j))" by auto
qed

lemma reset_engines_status:
  assumes "db_ok db" "distinct (map fst es)"
  shows "db_ok (fold (reset_engine halt u now) es db)
    \<and> loaded_status (loadTaskForUser (fold (reset_engine halt u now) es db) u j)
       = (case map_of es j of None \<Rightarrow> id | Some e \<Rightarrow> saved_over (status_after_halt halt j e)) (loaded_status (loadTaskForUser db u j))"
  using assms
proof (induction es arbitrary: db)
  case (Cons p es)
  obtain i e where p: "p = (i, e)" by fastforce
  have "map_of es i = None" using Cons.prems(2) p by (force simp: map_of_eq_None_iff)
  then show ?case
    using Cons.IH [OF reset_engine_status(1) [OF Cons.prems(1)]] reset_engine_status(2) [OF Cons.prems(1)] Cons.prems(2)
    by (auto simp: p split: option.split)
qed simp

lemma readable_reset: "readable_row (i, r) \<Longrightarrow> readable_row (i, reset_row now r)"
  by (simp add: readable_row_def Let_def reset_row_def row_pending_input_def row_attachments_def)

lemma reset_where_ok: "db_ok db \<Longrightarrow> db_ok (snd (reset_where P now db))"
  by (auto simp: db_ok_def reset_where_def list_all_iff readable_reset intro!: amap_wf_map_keys)

lemma stale_reset_status:
  assumes "db_ok db"
  shows "db_ok (snd (resetStaleTasks db u None now))
    \<and> loaded_status (loadTaskForUser (snd (resetStaleTasks db u None now)) u i)
      = map_option (\<lambda>s. if isStaleTaskStatus s then Stopped else s) (loaded_status (loadTaskForUser db u i))"
proof -
  have ok: "db_ok (snd (resetStaleTasks db u None now))"
    using assms by (simp add: resetStaleTasks_def reset_where_ok)
  have "row_status (snd (resetStaleTasks db u None now)) u i
      = map_option (\<lambda>s. if isStaleTaskStatus s then Stopped else s) (row_status db u i)"
    by (auto simp: resetStaleTasks_def row_status_get reset_where_def amap_get_map_where as_status_stale split: option.splits)
  with ok assms show ?thesis by (simp add: loaded_status_row)
qed

text \<open>The status a task has after a reset, by its stored status and its engine.\<close>

definition status_after_reset ::
  "(ident \<Rightarrow> engine \<Rightarrow> (engine_error + unit) \<times> engine) \<Rightarrow> lifecycle \<Rightarrow> ident \<Rightarrow> ident \<Rightarrow> task_status option" where
  "status_after_reset halt c u i = map_option (\<lambda>s. if isStaleTaskStatus s then Stopped else s)
     ((case amap_get (lc_engines c) i of None \<Rightarrow> id | Some e \<Rightarrow> saved_over (status_after_halt halt i e))
        (stored_status_of c u i))"

lemma reset_run:
  assumes "db_ok (lc_db c)" "amap_wf (lc_engines c)" "forceResetAllImpl halt u now c = ((n, m), c')"
  shows "n = length (lc_engines c)" "lc_engines c' = []" "lc_accepting c' = {}" "lc_starting c' = {}" "db_ok (lc_db c')"
    "stored_status_of c' u i = status_after_reset halt c u i"
proof -
  let ?db = "fold (reset_engine halt u now) (lc_engines c) (lc_db c)"
  note f = reset_engines_status [OF assms(1), of "lc_engines c" halt u now i] 
  have d: "distinct (map fst (lc_engines c))" using assms(2) by (simp add: amap_wf_def)
  have c': "n = length (lc_engines c)" "c' = c\<lparr>lc_db := snd (resetStaleTasks ?db u None now), lc_engines := [], lc_accepting := {}, lc_starting := {}\<rparr>"
    using assms(3) by (auto simp: forceResetAllImpl_def Let_def split: prod.splits)
  note r = stale_reset_status [of ?db u now i]
  from c' f d r show "n = length (lc_engines c)" "lc_engines c' = []" "lc_accepting c' = {}" "lc_starting c' = {}"
    "db_ok (lc_db c')" by simp_all
  from f [OF d] have f1: "db_ok ?db" by blast
  from c' r [OF f1] f [OF d] show "stored_status_of c' u i = status_after_reset halt c u i"
    by (simp add: stored_status_of_def status_after_reset_def amap_get_def)
qed

section \<open>The deferred cleanup\<close>

definition git_action :: "cleanup_action \<Rightarrow> bool" where
  "git_action a = (case a of RemoveWorktree _ _ \<Rightarrow> True | DeleteBranch _ _ \<Rightarrow> True | ResetHard _ _ \<Rightarrow> True
     | CheckoutBranch _ _ \<Rightarrow> True | _ \<Rightarrow> False)"

text \<open>What an action of a cleanup may touch.\<close>

definition permitted :: "cleanup_env \<Rightarrow> deferred_cleanup \<Rightarrow> cleanup_action \<Rightarrow> bool" where
  "permitted env d a = (let t = dc_task d; g = st_git (task_state t); purge = (dc_operation d = CleanPurge) in
     case a of
       RemoveAttachments \<Rightarrow> purge
     | RemoveWorktree dir path \<Rightarrow> purge \<and> ce_directory env = Some dir \<and> ce_managed env = Some path
         \<and> st_status (task_state t) \<noteq> Draft
     | DeleteBranch dir b \<Rightarrow> purge \<and> ce_directory env = Some dir
         \<and> (case g of Some x \<Rightarrow> b = workingBranch x \<and> b \<noteq> [] \<and> b \<noteq> originalBranch x | None \<Rightarrow> False)
     | ResetHard dir b \<Rightarrow> \<not> purge \<and> \<not> cfg_useWorktree (task_config t) \<and> ce_directory env = Some dir
         \<and> (case g of Some x \<Rightarrow> b = workingBranch x \<and> b \<noteq> [] | None \<Rightarrow> False)
     | CheckoutBranch dir b \<Rightarrow> \<not> purge \<and> \<not> cfg_useWorktree (task_config t) \<and> ce_reset env
         \<and> (case g of Some x \<Rightarrow> b = originalBranch x \<and> b \<noteq> [] | None \<Rightarrow> False)
     | _ \<Rightarrow> True)"

text \<open>The steps that must have ended well before the files of the task are touched.\<close>

definition settled_runtime :: "cleanup_env \<Rightarrow> deferred_cleanup \<Rightarrow> bool" where
  "settled_runtime env d = (ce_disconnected env = Some True \<and> ce_terminal env = Some True \<and> dc_chat d
     \<and> (case dc_engine d of Some _ \<Rightarrow> ce_stopped env = Some True | None \<Rightarrow> ce_checked env))"

lemma branch_of_iff: "branch_of g = Some b \<longleftrightarrow> b = workingBranch g \<and> b \<noteq> []"
  by (auto simp: branch_of_def)

lemma purge_git_actions:
  assumes a: "a \<in> set (cleanupTaskGit env t CleanPurge)" and g: "st_git (task_state t) = Some g" "ce_directory env = Some dir"
  shows "st_status (task_state t) \<noteq> Draft \<and>
    ((\<exists>b. branch_of g = Some b \<and> b \<noteq> originalBranch g \<and> a = DeleteBranch dir b) \<or> (\<exists>p. ce_managed env = Some p \<and> a = RemoveWorktree dir p))"
  using a g
  by (cases "branch_of g"; cases "ce_managed env"; cases "st_status (task_state t) = Draft"; cases "has_text (worktreePath g)";
      cases "ce_removed env"; cases "branch_of g = Some (originalBranch g)")
     (auto simp: cleanupTaskGit_def)

lemma checkout_git_actions:
  assumes a: "a \<in> set (cleanupTaskGit env t op)" "op \<noteq> CleanPurge" and g: "st_git (task_state t) = Some g" "ce_directory env = Some dir"
  shows "\<not> cfg_useWorktree (task_config t) \<and> (\<exists>b. branch_of g = Some b \<and> originalBranch g \<noteq> []
    \<and> (a = ResetHard dir b \<or> ce_reset env \<and> a = CheckoutBranch dir (originalBranch g)))"
  using a g by (cases "branch_of g") (auto simp: cleanupTaskGit_def branch_of_def split: if_splits)

lemma git_permitted:
  assumes a: "a \<in> set (cleanupTaskGit env (dc_task d) (dc_operation d))"
  shows "git_action a \<and> permitted env d a"
proof -
  obtain g dir where g: "st_git (task_state (dc_task d)) = Some g" "ce_directory env = Some dir"
    using a by (cases "st_git (task_state (dc_task d))"; cases "ce_directory env") (simp_all add: cleanupTaskGit_def)
  show ?thesis
  proof (cases "dc_operation d = CleanPurge")
    case True
    with purge_git_actions [OF _ g, of a] a g show ?thesis
      by (auto simp: permitted_def git_action_def branch_of_iff)
  next
    case False
    with checkout_git_actions [OF a _ g] g show ?thesis
      by (auto simp: permitted_def git_action_def branch_of_iff)
  qed
qed

lemma runtime_actions:
  "a \<in> set (snd (stopTaskRuntimeForDeletion env t e op)) \<Longrightarrow> a \<in> {StopEngine, CheckWorkspace, DisconnectBackend}"
  by (auto simp: stopTaskRuntimeForDeletion_def Let_def split: option.splits if_splits)

lemma runtime_safe:
  "needsTaskGitCleanup (dc_task d) (dc_operation d) \<Longrightarrow>
   fst (stopTaskRuntimeForDeletion env (dc_task d) (dc_engine d) (dc_operation d)) \<and> step_done (ce_terminal env) \<and> dc_chat d
     \<longleftrightarrow> settled_runtime env d"
  by (auto simp: stopTaskRuntimeForDeletion_def settled_runtime_def step_done_def Let_def split: option.split)

lemma cleanup_actions:
  assumes "a \<in> set (deferredTaskCleanup env d)"
  shows "a \<in> {StopEngine, CheckWorkspace, DisconnectBackend, DeleteTerminal, RevokeCredentials}
    \<or> a = RemoveAttachments \<and> dc_operation d = CleanPurge
    \<or> settled_runtime env d \<and> needsTaskGitCleanup (dc_task d) (dc_operation d) \<and> a \<in> set (cleanupTaskGit env (dc_task d) (dc_operation d))"
proof -
  obtain safe runtime where r: "stopTaskRuntimeForDeletion env (dc_task d) (dc_engine d) (dc_operation d) = (safe, runtime)" by fastforce
  note s = runtime_safe [of d env, unfolded r fst_conv]
  show ?thesis
    using assms runtime_actions [of a env "dc_task d" "dc_engine d" "dc_operation d", unfolded r snd_conv] s
    by (simp add: deferredTaskCleanup_def r Let_def split: if_splits) blast+
qed

lemma cleanup_guarded:
  "list_all (\<lambda>a. permitted env d a \<and> (if git_action a then settled_runtime env d \<and> needsTaskGitCleanup (dc_task d) (dc_operation d) else True))
     (deferredTaskCleanup env d)"
proof -
  have "permitted env d a \<and> (git_action a \<longrightarrow> settled_runtime env d \<and> needsTaskGitCleanup (dc_task d) (dc_operation d))"
    if "a \<in> set (deferredTaskCleanup env d)" for a
    using cleanup_actions [OF that]
  proof (elim disjE conjE)
    assume "a \<in> set (cleanupTaskGit env (dc_task d) (dc_operation d))" "settled_runtime env d"
      "needsTaskGitCleanup (dc_task d) (dc_operation d)"
    with git_permitted [of a env d] show ?thesis by blast
  qed (auto simp: permitted_def git_action_def Let_def)
  then show ?thesis by (simp add: list_all_iff)
qed

section \<open>Properties\<close>

text \<open>
  C17. The cleanup a deletion, discard or purge defers touches the repository only when the engine (or, without one,
  the workspace check) is known to be settled, the backend and the terminal session are closed and the linked chat is
  cleaned up, and only when the operation needs it. A branch is deleted only by a purge, and never the original branch;
  the worktree removed is the canonical managed one; a checkout is reset only when the task works in it, on its working
  branch; attachments go only with a purge.
\<close>

theorem deferred_cleanup_is_guarded:
  "list_all (\<lambda>a. permitted env d a \<and> (if git_action a then settled_runtime env d \<and> needsTaskGitCleanup (dc_task d) (dc_operation d) else True))
     (deferredTaskCleanup env d)"
  by (rule cleanup_guarded)

text \<open>
  Deleting a task that is stored always succeeds, whatever its status: the task is then deleted, no other task
  changes its status, its engine has left the map and is handed to the cleanup, and the deletion is announced.
\<close>

theorem deleting_a_stored_task_succeeds:
  assumes "db_ok (lc_db c)" "stored_status_of c u i = Some s"
  shows "\<exists>d c'. deleteTaskImpl u now chat i c = (Inr (True, Some d), c') \<and> db_ok (lc_db c')
    \<and> (\<forall>j. stored_status_of c' u j = (if j = i then Some Deleted else stored_status_of c u j))
    \<and> lc_engines c' = amap_delete (lc_engines c) i
    \<and> (\<exists>w. lc_events c' = lc_events c @ [EventDeleted i w])
    \<and> dc_engine d = amap_get (lc_engines c) i \<and> cfg_id (task_config (dc_task d)) = i \<and> dc_operation d = CleanDelete"
  by (rule delete_run [OF assms])

definition sample_lifecycle :: "task_status \<Rightarrow> (ident, engine) amap \<Rightarrow> lifecycle" where
  "sample_lifecycle st es = \<lparr>lc_db = sample_db st, lc_engines = es, lc_accepting = {}, lc_starting = {}, lc_events = []\<rparr>"

lemma sample_status: "stored_status_of (sample_lifecycle st es) ''u'' ''t'' = Some st"
  by (simp add: stored_status_of_def sample_lifecycle_def loaded_status_row sample_db_ok sample_db_status)

lemma sample_lifecycle_ok: "db_ok (lc_db (sample_lifecycle st es))" "lc_engines (sample_lifecycle st es) = es"
  by (simp_all add: sample_lifecycle_def sample_db_ok)

theorem deleting_a_stored_task_succeeds_witness:
  "\<exists>d c'. deleteTaskImpl ''u'' 7 True ''t'' (sample_lifecycle Running []) = (Inr (True, Some d), c')
    \<and> stored_status_of c' ''u'' ''t'' = Some Deleted"
  using deleting_a_stored_task_succeeds [of "sample_lifecycle Running []" "''u''" "''t''" Running 7 True]
  by (auto simp: sample_lifecycle_ok sample_status)



text \<open>
  C18. Accepting a task releases its lock however it ends, the workspace check and the disconnection included, and
  the only error that escapes as an exception is one of reading the task before the lock is taken.
\<close>

theorem accepting_releases_its_lock:
  assumes "i \<notin> lc_accepting c" "acceptTaskLocked check u now d i c = (r, c')"
  shows "i \<notin> lc_accepting c' \<and> (case r of Inl (StoreFailed _) \<Rightarrow> True | Inl _ \<Rightarrow> False | Inr _ \<Rightarrow> True)"
  by (rule accept_unlocks [OF assms])

theorem accepting_releases_its_lock_witness:
  "''t'' \<notin> lc_accepting (snd (acceptTaskLocked (throw (Coded TaskFinalGitPending)) ''u'' 7 (Inr True) ''t'' (sample_lifecycle Completed [])))"
  using accepting_releases_its_lock [of "''t''" "sample_lifecycle Completed []" "throw (Coded TaskFinalGitPending)" "''u''" 7 "Inr True"
      "fst (acceptTaskLocked (throw (Coded TaskFinalGitPending)) ''u'' 7 (Inr True) ''t'' (sample_lifecycle Completed []))"]
  by (simp add: sample_lifecycle_def)

text \<open>
  A forced reset counts the engines, drops them all and every lock, keeps the database well-formed and leaves
  each task with the status its engine had once stopped (planning tasks keep planning, deleted tasks stay deleted), or
  its stored status when it has no engine or the engine fails to stop; a stale status becomes stopped in every case.
\<close>

theorem forced_reset_leaves_no_engine:
  assumes "db_ok (lc_db c)" "amap_wf (lc_engines c)" "forceResetAllImpl halt u now c = ((n, m), c')"
  shows "n = length (lc_engines c) \<and> lc_engines c' = [] \<and> lc_accepting c' = {} \<and> lc_starting c' = {} \<and> db_ok (lc_db c')
    \<and> (\<forall>i. stored_status_of c' u i = status_after_reset halt c u i)"
  using reset_run [OF assms] by blast

theorem forced_reset_leaves_no_engine_witness:
  "stored_status_of (snd (forceResetAllImpl (\<lambda>_ e. (Inl (InputFailure InputUnresolved), e)) ''u'' 7 (sample_lifecycle Running []))) ''u'' ''t'' = Some Stopped"
proof -
  let ?f = "forceResetAllImpl (\<lambda>_ e. (Inl (InputFailure InputUnresolved), e)) ''u'' 7 (sample_lifecycle Running [])"
  have "?f = ((fst (fst ?f), snd (fst ?f)), snd ?f)" by simp
  from forced_reset_leaves_no_engine [OF _ _ this]
  have "stored_status_of (snd ?f) ''u'' ''t'' = status_after_reset (\<lambda>_ e. (Inl (InputFailure InputUnresolved), e)) (sample_lifecycle Running []) ''u'' ''t''"
    by (simp add: sample_lifecycle_ok)
  also have "\<dots> = Some Stopped"
    by (simp add: status_after_reset_def sample_lifecycle_ok sample_status) code_simp
  finally show ?thesis .
qed

end
