(* ===== verification/TaskRuns.thy ===== *)
theory TaskRuns
  imports TaskLifecycle
begin

text \<open>
  Starting and resuming tasks (\<open>task-execution.ts\<close>, \<open>task-jumpstart.ts\<close>, \<open>task-follow-up.ts\<close>,
  \<open>task-plan-mode.ts\<close>, \<open>task-engine-recovery.ts\<close>, \<open>task-pending-engine.ts\<close>, \<open>review-engine.ts\<close> and \<open>task-planning-files.ts\<close> of
  \<open>src/core/task\<close>): creating an engine for a stored task, the locks and checks around it, and leaving the
  run to go on in the background.

  The answers of the backend manager, of Git and of the planning directory, the identifier and the time of
  the operation are a record of the environment. A run that is left to go on in the background is recorded
  as an event; what it then does is the theory of the engine.
\<close>

section \<open>The environment of an operation\<close>

record run_env =
  re_now :: timestamp
  re_uuid :: ident
  re_native :: bool
  re_stop :: "string \<Rightarrow> string \<Rightarrow> bool"
  re_text :: "life_error \<Rightarrow> string"
  re_worktreesDisabled :: bool
  re_canonical :: "life_error + string"
  re_worktreeExists :: "life_error + bool"
  re_executor :: "life_error + unit"
  re_dirty :: bool
  re_checkout :: "life_error + unit"
  re_branch :: "life_error + git_state option"
  re_planningDirectory :: "life_error + unit"
  re_cleared :: bool
  re_reconnect :: "life_error + session_info option"

definition answer :: "life_error + 'a \<Rightarrow> 'a life" where
  "answer x c = (x, c)"

definition set_task_state :: "(task_state \<Rightarrow> task_state) \<Rightarrow> task \<Rightarrow> task" where
  "set_task_state f t = t\<lparr>task_state := f (task_state t)\<rparr>"

definition put_engine :: "ident \<Rightarrow> engine \<Rightarrow> unit life" where
  "put_engine i e = modify (\<lambda>c. c\<lparr>lc_engines := amap_set (lc_engines c) i e\<rparr>)"

definition save_task_state :: "ident \<Rightarrow> timestamp \<Rightarrow> ident \<Rightarrow> task_state \<Rightarrow> unit life" where
  "save_task_state u now i s = bind (save_operational u now i s) (\<lambda>_. ret ())"

text \<open>
  The constructor of an engine for a task: the input service gives a stored prompt an identifier, and
  attachments of the call replace the stored ones.
\<close>

record engine_options =
  eo_skipGitSetup :: bool
  eo_singleTurn :: bool
  eo_onPlanReady :: bool
  eo_onCompleted :: bool
  eo_attachments :: "message_attachment list"

definition plain_engine :: engine_options where
  "plain_engine = \<lparr>eo_skipGitSetup = False, eo_singleTurn = False, eo_onPlanReady = False, eo_onCompleted = False,
     eo_attachments = []\<rparr>"

definition new_engine :: "run_env \<Rightarrow> engine_options \<Rightarrow> task \<Rightarrow> engine" where
  "new_engine env o' t = \<lparr>
     en_config = task_config t,
     en_state = (let s = initialize_inputs (re_uuid env) (task_state t) in
       if eo_attachments o' = [] then s else s\<lparr>st_initialPromptAttachments := Some (eo_attachments o')\<rparr>),
     en_native = re_native env, en_stopDetector = re_stop env (cfg_stopPattern (task_config t)),
     en_aborted = False, en_injectionPending = False, en_isTaskRunning = False, en_isStarting = False,
     en_lastPromptMode = EngineContext, en_skipGitSetup = eo_skipGitSetup o', en_singleTurn = eo_singleTurn o',
     en_onPlanReady = eo_onPlanReady o', en_onCompleted = eo_onCompleted o', en_completionFollowUp = False,
     en_prompts = [], en_events = [], en_persisting = True, en_saved = None, en_clock = re_now env\<rparr>"

section \<open>Checks before a run\<close>

definition worktrees_disabled :: life_error where
  "worktrees_disabled = BackendFailed ''Worktrees are disabled for this workspace.''"

definition assertTaskWorktreesAllowed :: "run_env \<Rightarrow> task \<Rightarrow> unit life" where
  "assertTaskWorktreesAllowed env t =
     (if \<not> cfg_useWorktree (task_config t) \<or> \<not> re_worktreesDisabled env then ret ()
      else case Option.bind (st_git (task_state t)) worktreePath of
        None \<Rightarrow> throw worktrees_disabled
      | Some p \<Rightarrow>
          if p = [] then throw worktrees_disabled
          else bind (answer (re_canonical env)) (\<lambda>canonical.
            if p \<noteq> canonical then throw worktrees_disabled
            else bind (answer (re_worktreeExists env)) (\<lambda>there. if there then ret () else throw worktrees_disabled)))"

definition working_branch :: "task \<Rightarrow> string option" where
  "working_branch t = Option.bind (st_git (task_state t)) branch_of"

definition ensureTaskBranchCheckedOut :: "run_env \<Rightarrow> task \<Rightarrow> unit life" where
  "ensureTaskBranchCheckedOut env t =
     (if cfg_useWorktree (task_config t) \<or> working_branch t = None then ret () else answer (re_checkout env))"

definition canReuseExistingBranch :: "run_env \<Rightarrow> task \<Rightarrow> bool life" where
  "canReuseExistingBranch env t =
     (if working_branch t = None then ret False
      else if \<not> cfg_useWorktree (task_config t) then ret True
      else case Option.bind (st_git (task_state t)) worktreePath of
        None \<Rightarrow> ret False
      | Some p \<Rightarrow> if p = [] then ret False
          else seq (answer (re_executor env)) (bind (answer (re_canonical env)) (\<lambda>_. answer (re_worktreeExists env))))"

text \<open>The attachments of the call are stored with the task before anything else is checked.\<close>

definition store_attachments :: "ident \<Rightarrow> timestamp \<Rightarrow> ident \<Rightarrow> message_attachment list \<Rightarrow> task \<Rightarrow> task life" where
  "store_attachments u now i atts t =
     (if atts = [] then ret t
      else let t' = set_task_state (\<lambda>s. s\<lparr>st_initialPromptAttachments := Some atts\<rparr>) t
           in seq (save_task_state u now i (task_state t')) (ret t'))"

definition no_engine :: "ident \<Rightarrow> unit life" where
  "no_engine i c = (if amap_has (lc_engines c) i then (Inl (Coded TaskAlreadyRunning), c) else (Inr (), c))"

section \<open>Starting and stopping\<close>

definition startTaskImpl :: "run_env \<Rightarrow> ident \<Rightarrow> message_attachment list \<Rightarrow> ident \<Rightarrow> unit life" where
  "startTaskImpl env u atts i =
     bind (loadTask u i) (\<lambda>t. case t of
       None \<Rightarrow> throw (Coded TaskNotFound)
     | Some t \<Rightarrow> seq (no_engine i)
         (if st_status (task_state t) = Deleted then throw (Coded InvalidTaskState)
          else bind (store_attachments u (re_now env) i atts t) (\<lambda>t.
            seq (assertTaskWorktreesAllowed env t)
            (seq (answer (re_executor env))
            (seq (validateMainCheckoutStart u (re_dirty env) t)
            (seq (put_engine i (new_engine env (plain_engine\<lparr>eo_onCompleted := True, eo_attachments := atts\<rparr>) t))
              (announce (EngineRun i RunStart))))))))"

text \<open>
  \<open>halt\<close> is how \<open>stop\<close> and the wait for the engine end; the engine leaves the map however they do, and an
  error of the disconnection replaces theirs.
\<close>

definition stopTaskImpl ::
  "(engine \<Rightarrow> (life_error + unit) \<times> engine) \<Rightarrow> ident \<Rightarrow> timestamp \<Rightarrow> life_error + bool \<Rightarrow> ident \<Rightarrow> unit life" where
  "stopTaskImpl halt u now d i c = (case amap_get (lc_engines c) i of
     None \<Rightarrow> (Inl (Coded TaskNotRunning), c)
   | Some e \<Rightarrow> (case halt e of
       (r, e') \<Rightarrow> seq (drop_engine i) (bind (disconnect d) (\<lambda>_. case r of
           Inl x \<Rightarrow> throw x
         | Inr _ \<Rightarrow> save_task_state u now i ((en_state e')\<lparr>st_syncState :=
             map_option (\<lambda>y. y\<lparr>sy_autoPushOnComplete := False\<rparr>) (st_syncState (en_state e'))\<rparr>))) c))"

section \<open>Plan mode\<close>

text \<open>The deletion of the old plan file never fails the operation.\<close>

definition clearPlanningFiles :: "run_env \<Rightarrow> ident \<Rightarrow> ident \<Rightarrow> task \<Rightarrow> task life" where
  "clearPlanningFiles env u i t =
     seq (answer (re_planningDirectory env))
       (case st_planMode (task_state t) of
          None \<Rightarrow> ret t
        | Some p \<Rightarrow>
            if cfg_clearPlanningFolder (task_config t) \<and> \<not> pm_planningFolderCleared p \<and> re_cleared env
            then let t' = set_task_state (\<lambda>s. s\<lparr>st_planMode := Some (p\<lparr>pm_planningFolderCleared := True\<rparr>)\<rparr>) t
                 in catching (seq (save_task_state u (re_now env) i (task_state t')) (ret t')) (\<lambda>_. ret t')
            else ret t)"

definition git_for_plan :: "run_env \<Rightarrow> task \<Rightarrow> task life" where
  "git_for_plan env t c = (case re_branch env of
     Inl _ \<Rightarrow> (Inl (Coded TaskGitOperationFailed), c)
   | Inr g \<Rightarrow> (Inr (case g of None \<Rightarrow> t | Some x \<Rightarrow> set_task_state (\<lambda>s. s\<lparr>st_git := Some x\<rparr>) t), c))"

text \<open>\<open>engine.workingDirectory\<close> of a task with a worktree throws when no worktree was set up.\<close>

definition engine_directory :: "task \<Rightarrow> unit life" where
  "engine_directory t =
     (if cfg_useWorktree (task_config t)
        \<and> (case Option.bind (st_git (task_state t)) worktreePath of Some p \<Rightarrow> p = [] | None \<Rightarrow> True)
      then throw (BackendFailed ''Task has no worktree path.'') else ret ())"

definition mark_started :: "timestamp \<Rightarrow> task_state \<Rightarrow> task_state" where
  "mark_started now s = s\<lparr>st_startedAt := (case st_startedAt s of Some x \<Rightarrow> Some x | None \<Rightarrow> Some now)\<rparr>"

definition startPlanModeImpl :: "run_env \<Rightarrow> ident \<Rightarrow> message_attachment list \<Rightarrow> ident \<Rightarrow> unit life" where
  "startPlanModeImpl env u atts i =
     bind (loadTask u i) (\<lambda>t. case t of
       None \<Rightarrow> throw (Coded TaskNotFound)
     | Some t \<Rightarrow>
         if st_status (task_state t) \<noteq> Planning then throw (Coded TaskNotPlanning)
         else seq (no_engine i)
           (bind (store_attachments u (re_now env) i atts t) (\<lambda>t.
            seq (assertTaskWorktreesAllowed env t)
            (seq (answer (re_executor env))
            (seq (validateMainCheckoutStart u (re_dirty env) t)
            (let t1 = set_task_state (mark_started (re_now env)) t
             in seq (save_task_state u (re_now env) i (task_state t1))
               (bind (git_for_plan env (t1\<lparr>task_state := en_state (new_engine env (plain_engine\<lparr>eo_attachments := atts\<rparr>) t1)\<rparr>)) (\<lambda>t2.
                seq (engine_directory t2)
                (bind (clearPlanningFiles env u i t2) (\<lambda>t3.
                seq (put_engine i (new_engine env (plain_engine\<lparr>eo_onPlanReady := True, eo_onCompleted := True\<rparr>) t3))
                  (announce (EngineRun i RunStart))))))))))))"

section \<open>Starting a draft\<close>

definition persistDraftStartFailure :: "run_env \<Rightarrow> ident \<Rightarrow> ident \<Rightarrow> life_error \<Rightarrow> unit life" where
  "persistDraftStartFailure env u i x c =
     (if amap_has (lc_engines c) i then (Inr (), c)
      else bind (loadTask u i) (\<lambda>t. case t of
        None \<Rightarrow> ret ()
      | Some t \<Rightarrow>
          if st_status (task_state t) \<notin> {Starting, Planning} then ret ()
          else seq (assert_move (st_status (task_state t)) Failed)
            (seq (save_task_state u (re_now env) i ((task_state t)\<lparr>st_status := Failed, st_completedAt := Some (re_now env),
                    st_error := Some \<lparr>err_message = re_text env x, err_iteration = st_currentIteration (task_state t),
                                     err_timestamp = re_now env\<rparr>\<rparr>))
              (announce (EventTaskError i (re_text env x) (st_currentIteration (task_state t)))))) c)"

definition lock_start :: "ident \<Rightarrow> unit life" where
  "lock_start i = modify (\<lambda>c. c\<lparr>lc_starting := insert i (lc_starting c)\<rparr>)"

definition unlock_start :: "ident \<Rightarrow> lifecycle \<Rightarrow> lifecycle" where
  "unlock_start i c = c\<lparr>lc_starting := lc_starting c - {i}\<rparr>"

definition fresh_plan :: plan_mode where
  "fresh_plan = \<lparr>pm_active = True, pm_planSessionId = None, pm_planServerUrl = None, pm_feedbackRounds = 0,
     pm_planContent = None, pm_planningFolderCleared = False, pm_isPlanReady = False\<rparr>"

text \<open>The body of the \<open>try\<close> block.\<close>

definition startDraft_body :: "run_env \<Rightarrow> ident \<Rightarrow> message_attachment list \<Rightarrow> ident \<Rightarrow> task life" where
  "startDraft_body env u atts i =
     bind (loadTask u i) (\<lambda>t. case t of
       None \<Rightarrow> throw (Coded TaskNotFound)
     | Some t \<Rightarrow>
         if st_status (task_state t) \<noteq> Draft then throw (Coded InvalidTaskState)
         else seq (assertTaskWorktreesAllowed env t)
           (seq (if cfg_useWorktree (task_config t) then ret ()
                 else seq (answer (re_executor env)) (validateMainCheckoutStart u (re_dirty env) t))
           (seq (assert_move (st_status (task_state t)) Planning)
           (let t' = set_task_state (\<lambda>s. (mark_started (re_now env) s)\<lparr>st_status := Planning, st_completedAt := None,
                       st_error := None, st_planMode := Some fresh_plan\<rparr>) t
            in seq (save_task_state u (re_now env) i (task_state t'))
              (seq (announce (EventStarting i))
              (seq (startPlanModeImpl env u atts i)
              (bind (getTask u i) (\<lambda>updated. ret (case updated of Some x \<Rightarrow> x | None \<Rightarrow> t')))))))))"

definition startDraftImpl :: "run_env \<Rightarrow> ident \<Rightarrow> message_attachment list \<Rightarrow> ident \<Rightarrow> task life" where
  "startDraftImpl env u atts i c =
     (if i \<in> lc_starting c then (Inl (Coded OperationInProgress), c)
      else seq (lock_start i) (ensuring
        (catching (startDraft_body env u atts i) (\<lambda>x. seq (persistDraftStartFailure env u i x) (throw x)))
        (unlock_start i)) c)"

section \<open>Jumpstarting and reviving\<close>

definition jumpstartable :: "task_status \<Rightarrow> bool" where
  "jumpstartable s = (s \<in> {Completed, Stopped, Failed, MaxIterations, Planning, Deleted})"

definition plan_active :: "task_state \<Rightarrow> bool" where
  "plan_active s = (case st_planMode s of Some p \<Rightarrow> pm_active p | None \<Rightarrow> False)"

definition plan_not_ready :: "plan_mode option \<Rightarrow> plan_mode option" where
  "plan_not_ready = map_option (\<lambda>p. p\<lparr>pm_isPlanReady := False\<rparr>)"

definition forget_outcome :: "task_state \<Rightarrow> task_state" where
  "forget_outcome s = s\<lparr>st_completedAt := None, st_error := None, st_syncState := None\<rparr>"

definition jumpstartOnExistingBranch :: "run_env \<Rightarrow> ident \<Rightarrow> message_attachment list \<Rightarrow> task \<Rightarrow> task_result life" where
  "jumpstartOnExistingBranch env i atts t =
     catching
       (if getTaskWorkingDirectory t = None then ret (TaskFailure TaskWorktreeMissing)
        else seq (answer (re_executor env))
          (seq (ensureTaskBranchCheckedOut env t)
          (seq (put_engine i (new_engine env (plain_engine\<lparr>eo_skipGitSetup := True, eo_attachments := atts\<rparr>) t))
          (seq (announce (EngineRun i RunStart)) (ret TaskSuccess)))))
       (\<lambda>x. ret (taskFailureFromUnknown x TaskOperationFailed))"

text \<open>The task as a jumpstart stores it, or the refused move.\<close>

definition jumpstart_request :: "string option \<Rightarrow> model_config option \<Rightarrow> task \<Rightarrow> task" where
  "jumpstart_request msg model t =
     (let t1 = set_task_state (\<lambda>s. case msg of
            Some m \<Rightarrow> s\<lparr>st_pendingPrompt := Some m, st_pendingPromptMode := Some DirectUser\<rparr>
          | None \<Rightarrow> if st_pendingPrompt s = None then s\<lparr>st_pendingPromptMode := None\<rparr> else s) t
      in case model of
          None \<Rightarrow> t1
        | Some m \<Rightarrow> set_task_state (\<lambda>s. s\<lparr>st_pendingModel := Some m\<rparr>) (t1\<lparr>task_config := (task_config t1)\<lparr>cfg_model := m\<rparr>\<rparr>))"

definition revived :: "bool \<Rightarrow> task_state \<Rightarrow> task_state" where
  "revived planning s = (let s' = (if planning then s\<lparr>st_status := Planning, st_planMode := plan_not_ready (st_planMode s)\<rparr>
       else s\<lparr>st_status := Stopped\<rparr>) in forget_outcome s')"

definition save_over_deleted :: "ident \<Rightarrow> timestamp \<Rightarrow> bool \<Rightarrow> ident \<Rightarrow> task_state \<Rightarrow> unit life" where
  "save_over_deleted u now allow i s =
     bind (writing (\<lambda>db. updateTaskOperationalState db u i s allow now)) (\<lambda>_. ret ())"

definition save_config :: "ident \<Rightarrow> ident \<Rightarrow> task_config \<Rightarrow> unit life" where
  "save_config u i cfg = bind (writing (\<lambda>db. updateTaskConfig db u i cfg)) (\<lambda>_. ret ())"

definition result_of :: "unit life \<Rightarrow> task_result life" where
  "result_of m = catching (seq m (ret TaskSuccess)) (\<lambda>x. ret (taskFailureFromUnknown x TaskOperationFailed))"

definition jumpstartTaskFromEngineLocked ::
  "run_env \<Rightarrow> ident \<Rightarrow> string option \<Rightarrow> model_config option \<Rightarrow> message_attachment list \<Rightarrow> ident \<Rightarrow> task_result life" where
  "jumpstartTaskFromEngineLocked env u msg model atts i =
     bind (loadTask u i) (\<lambda>t. case t of
       None \<Rightarrow> ret (TaskFailure TaskNotFound)
     | Some t \<Rightarrow>
         if \<not> jumpstartable (st_status (task_state t)) then ret (TaskFailure InvalidTaskState)
         else
           let planning = plan_active (task_state t);
               t' = set_task_state (revived planning) (jumpstart_request msg model t)
           in seq (assert_move (st_status (task_state t)) (if planning then Planning else Stopped))
             (seq (save_over_deleted u (re_now env) (st_status (task_state t) = Deleted) i (task_state t'))
             (seq (save_config u i (task_config t'))
             (seq (announce (EventPendingUpdated i msg model))
             (bind (canReuseExistingBranch env t') (\<lambda>reuse.
               if reuse then jumpstartOnExistingBranch env i atts t'
               else if planning then result_of (startPlanModeImpl env u atts i)
               else result_of (startTaskImpl env u atts i)))))))"

definition reviveDeletedTaskLocked :: "ident \<Rightarrow> timestamp \<Rightarrow> ident \<Rightarrow> task_result life" where
  "reviveDeletedTaskLocked u now i =
     bind (loadTask u i) (\<lambda>t. case t of
       None \<Rightarrow> ret (TaskFailure TaskNotFound)
     | Some t \<Rightarrow>
         if st_status (task_state t) \<noteq> Deleted then ret (TaskFailure InvalidTaskState)
         else
           let target = (if plan_active (task_state t) then Planning else Stopped)
           in seq (assert_move (st_status (task_state t)) target)
             (seq (save_over_deleted u now True i
                 ((forget_outcome (task_state t))\<lparr>st_status := target, st_planMode := plan_not_ready (st_planMode (task_state t))\<rparr>))
               (ret TaskSuccess)))"

section \<open>Feedback on finished work\<close>

datatype feedback_result = FollowUpStarted | FeedbackStarted nat string "ident option" | FeedbackRefused task_error_code

definition follow_up_result :: "task_result \<Rightarrow> feedback_result" where
  "follow_up_result r = (case r of TaskFailure x \<Rightarrow> FeedbackRefused x | TaskSuccess \<Rightarrow> FollowUpStarted)"

definition engine_failure :: "engine_error \<Rightarrow> life_error" where
  "engine_failure x = (case x of InputFailure _ \<Rightarrow> Coded TaskInputUnresolved | _ \<Rightarrow> BackendFailed (error_message x))"

definition lift_engine :: "ident \<Rightarrow> unit eng \<Rightarrow> unit life" where
  "lift_engine i m c = (case amap_get (lc_engines c) i of
     None \<Rightarrow> (Inr (), c)
   | Some e \<Rightarrow> (case m e of
       (Inl x, e') \<Rightarrow> (Inl (engine_failure x), c\<lparr>lc_engines := amap_set (lc_engines c) i e'\<rparr>)
     | (Inr _, e') \<Rightarrow> (Inr (), c\<lparr>lc_engines := amap_set (lc_engines c) i e'\<rparr>)))"

text \<open>
  The new engine is in the map before its prompt is set; setting the prompt throws when the stored input
  is not resolved.
\<close>

definition startFeedbackEngine ::
  "run_env \<Rightarrow> string \<Rightarrow> model_config option \<Rightarrow> message_attachment list \<Rightarrow> ident \<Rightarrow> task \<Rightarrow> unit life" where
  "startFeedbackEngine env prompt model atts i t =
     seq (put_engine i (new_engine env (plain_engine\<lparr>eo_skipGitSetup := True, eo_attachments := atts\<rparr>) t))
     (seq (case model of Some m \<Rightarrow> lift_engine i (setPendingModel m) | None \<Rightarrow> ret ())
     (seq (lift_engine i (setPendingPrompt (re_uuid env) prompt [] EngineContext))
       (announce (EngineRun i RunStart))))"

text \<open>\<open>comment\<close> is the outcome of storing the review comment, when there is one.\<close>

definition transitionToFeedbackCycleAndStart ::
  "run_env \<Rightarrow> ident \<Rightarrow> string \<Rightarrow> model_config option \<Rightarrow> message_attachment list \<Rightarrow> life_error + unit \<Rightarrow> ident \<Rightarrow> task \<Rightarrow> unit life" where
  "transitionToFeedbackCycleAndStart env u prompt model atts comment i t =
     (let t' = set_task_state (\<lambda>s. (forget_outcome s)\<lparr>st_status := Idle, st_pendingPrompt := None, st_pendingModel := None\<rparr>)
                 (case model of None \<Rightarrow> t | Some m \<Rightarrow> t\<lparr>task_config := (task_config t)\<lparr>cfg_model := m\<rparr>\<rparr>)
      in seq (assert_move (st_status (task_state t)) Idle)
         (seq (save_task_state u (re_now env) i (task_state t'))
         (seq (if model = None then ret () else save_config u i (task_config t'))
         (seq (answer comment)
           (startFeedbackEngine env prompt model atts i t')))))"

text \<open>
  The \<open>try\<close> block: the feedback cycle is returned from inside it without being awaited, so that its errors
  are not caught there.
\<close>

definition start_feedback_cycle ::
  "run_env \<Rightarrow> ident \<Rightarrow> string \<Rightarrow> model_config option \<Rightarrow> ident option \<Rightarrow> message_attachment list \<Rightarrow> life_error + unit \<Rightarrow> ident
   \<Rightarrow> task \<Rightarrow> review_mode \<Rightarrow> feedback_result life" where
  "start_feedback_cycle env u prompt model comment_id atts comment i t rm = (case re_executor env of
     Inl x \<Rightarrow> ret (FeedbackRefused (case x of Coded y \<Rightarrow> y | _ \<Rightarrow> TaskOperationFailed))
   | Inr _ \<Rightarrow> (case working_branch t of
       None \<Rightarrow> ret (FeedbackRefused TaskBranchMissing)
     | Some b \<Rightarrow>
         let t' = set_task_state (\<lambda>s. s\<lparr>st_reviewMode := Some (rm\<lparr>rm_reviewCycles := rm_reviewCycles rm + 1\<rparr>)\<rparr>) t
         in seq (transitionToFeedbackCycleAndStart env u prompt model atts (if comment_id = None then Inr () else comment) i t')
              (ret (FeedbackStarted (rm_reviewCycles rm + 1) b comment_id))))"

definition unless_live :: "ident \<Rightarrow> feedback_result life \<Rightarrow> feedback_result life" where
  "unless_live i m c = (if amap_has (lc_engines c) i then (Inr (FeedbackRefused TaskAlreadyRunning), c) else m c)"

definition startFeedbackCycleImpl ::
  "run_env \<Rightarrow> ident \<Rightarrow> string \<Rightarrow> model_config option \<Rightarrow> ident option \<Rightarrow> message_attachment list \<Rightarrow> life_error + unit \<Rightarrow> ident
   \<Rightarrow> feedback_result life" where
  "startFeedbackCycleImpl env u prompt model comment_id atts comment i =
     bind (loadTask u i) (\<lambda>t. case t of
       None \<Rightarrow> ret (FeedbackRefused TaskNotFound)
     | Some t \<Rightarrow> (case st_reviewMode (task_state t) of
         None \<Rightarrow> ret (FeedbackRefused TaskNotAddressable)
       | Some rm \<Rightarrow>
           if \<not> rm_addressable rm then ret (FeedbackRefused TaskNotAddressable)
           else if st_status (task_state t) \<notin> {Pushed, AcceptedLocal} then ret (FeedbackRefused InvalidTaskState)
           else unless_live i (start_feedback_cycle env u prompt model comment_id atts comment i t rm)))"

section \<open>Follow-ups\<close>

definition active_single_turn :: "task_status \<Rightarrow> bool" where
  "active_single_turn s = (s \<in> {Starting, Running, Planning, ResolvingConflicts})"

definition set_session :: "session_info option \<Rightarrow> engine \<Rightarrow> engine" where
  "set_session x = set_state (\<lambda>s. s\<lparr>st_session := (case x of Some y \<Rightarrow> Some y | None \<Rightarrow> st_session s)\<rparr>)"

text \<open>The moves are asserted also when the status does not change.\<close>

definition checked_move :: "task_status \<Rightarrow> unit eng" where
  "checked_move s e = (case assertValidTransition (st_status (en_state e)) s of
     Inl x \<Rightarrow> (Inl (BadTransition x), e)
   | Inr _ \<Rightarrow> (Inr (), set_state (\<lambda>x. x\<lparr>st_status := s\<rparr>) e))"

definition prepareSingleTurnFollowUpState ::
  "run_env \<Rightarrow> string \<Rightarrow> model_config option \<Rightarrow> message_attachment list \<Rightarrow> unit eng" where
  "prepareSingleTurnFollowUpState env msg model atts =
     seq (\<lambda>e. whenever (st_status (en_state e) \<in> {Completed, Pushed}) (checked_move Starting) e)
     (seq (checked_move Running)
     (seq (modify (set_state (\<lambda>s. forget_outcome (mark_started (re_now env) s))))
     (seq (setPendingPrompt (re_uuid env) msg atts DirectUser)
       (case model of Some m \<Rightarrow> setPendingModel m | None \<Rightarrow> ret ()))))"

text \<open>The engine enters the map once its session is reconnected and its state is stored.\<close>

definition launch_single_turn ::
  "run_env \<Rightarrow> ident \<Rightarrow> string \<Rightarrow> model_config option \<Rightarrow> message_attachment list \<Rightarrow> ident \<Rightarrow> task \<Rightarrow> feedback_result life" where
  "launch_single_turn env u msg model atts i t = (case re_reconnect env of
     Inl _ \<Rightarrow> ret (FeedbackRefused TaskSessionReconnectFailed)
   | Inr x \<Rightarrow>
       (case prepareSingleTurnFollowUpState env msg model atts
               (set_session x (new_engine env (plain_engine\<lparr>eo_skipGitSetup := True, eo_singleTurn := True\<rparr>) t)) of
          (Inl y, _) \<Rightarrow> throw (engine_failure y)
        | (Inr _, e) \<Rightarrow> seq (save_task_state u (re_now env) i (en_state e))
            (seq (put_engine i e) (seq (announce (EngineRun i RunContinue)) (ret FollowUpStarted)))))"

definition unless_active :: "ident \<Rightarrow> feedback_result life \<Rightarrow> feedback_result life" where
  "unless_active i m c =
     (if (case amap_get (lc_engines c) i of Some e \<Rightarrow> active_single_turn (st_status (en_state e)) | None \<Rightarrow> False)
      then (Inr (FeedbackRefused TaskAlreadyRunning), c) else m c)"

definition startSingleTurnFollowUp ::
  "run_env \<Rightarrow> ident \<Rightarrow> string \<Rightarrow> model_config option \<Rightarrow> message_attachment list \<Rightarrow> task \<Rightarrow> feedback_result life" where
  "startSingleTurnFollowUp env u msg model atts t =
     (let i = cfg_id (task_config t) in unless_active i
       (if plan_active (task_state t) \<or> st_status (task_state t) = Planning then ret (FeedbackRefused TaskNotPlanning)
        else if st_status (task_state t) \<notin> {Completed, Pushed} then ret (FeedbackRefused InvalidTaskState)
        else bind (canReuseExistingBranch env t) (\<lambda>reuse.
          if \<not> reuse then ret (FeedbackRefused TaskBranchMissing)
          else if getTaskWorkingDirectory t = None then ret (FeedbackRefused TaskWorktreeMissing)
          else seq (answer (re_executor env))
            (seq (ensureTaskBranchCheckedOut env t)
            (seq (drop_engine i) (launch_single_turn env u msg model atts i t))))))"

text \<open>What the failure handler of the background run does with the engine's state.\<close>

definition singleTurnFailed :: "run_env \<Rightarrow> string \<Rightarrow> task_state \<Rightarrow> task_state option" where
  "singleTurnFailed env msg s =
     (if st_status s \<in> {Running, Starting} \<and> isValidTransition (st_status s) Failed
      then Some (s\<lparr>st_status := Failed, st_completedAt := Some (re_now env),
             st_error := Some \<lparr>err_message = msg, err_iteration = st_currentIteration s, err_timestamp = re_now env\<rparr>\<rparr>)
      else None)"

definition sendFollowUpLocked ::
  "run_env \<Rightarrow> ident \<Rightarrow> string \<Rightarrow> model_config option \<Rightarrow> message_attachment list \<Rightarrow> ident \<Rightarrow> feedback_result life" where
  "sendFollowUpLocked env u msg model atts i =
     bind (loadTask u i) (\<lambda>t. case t of
       None \<Rightarrow> ret (FeedbackRefused TaskNotFound)
     | Some t \<Rightarrow>
         if st_status (task_state t) \<in> {Completed, Pushed} then startSingleTurnFollowUp env u msg model atts t
         else if st_status (task_state t) = AcceptedLocal
         then startFeedbackCycleImpl env u msg model None atts (Inr ()) i
         else bind (jumpstartTaskFromEngineLocked env u (Some msg) model atts i) (\<lambda>r. ret (follow_up_result r)))"

definition invalid_model :: "model_config option \<Rightarrow> bool" where
  "invalid_model m = (case m of Some x \<Rightarrow> providerID x = [] \<or> modelID x = [] | None \<Rightarrow> False)"

definition sendFollowUpImpl ::
  "run_env \<Rightarrow> ident \<Rightarrow> string \<Rightarrow> model_config option \<Rightarrow> message_attachment list \<Rightarrow> ident \<Rightarrow> feedback_result life" where
  "sendFollowUpImpl env u raw model atts i =
     (let msg = js_trim raw in
      if msg = [] then ret (FeedbackRefused InvalidTaskInput)
      else if invalid_model model then ret (FeedbackRefused InvalidModelConfig)
      else sendFollowUpLocked env u msg model atts i)"

section \<open>Plan feedback\<close>

text \<open>The engine stands in the map while its session is reconnected and leaves it when that fails.\<close>

definition recoverPlanningEngine :: "run_env \<Rightarrow> ident \<Rightarrow> ident \<Rightarrow> engine life" where
  "recoverPlanningEngine env u i =
     bind (loadTask u i) (\<lambda>t. case t of
       None \<Rightarrow> throw (Coded TaskNotFound)
     | Some t \<Rightarrow>
         if st_status (task_state t) \<noteq> Planning then throw (Coded TaskNotPlanning)
         else if getTaskWorkingDirectory t = None then throw (Coded TaskWorktreeMissing)
         else seq (answer (re_executor env))
           (seq (ensureTaskBranchCheckedOut env t)
           (let e = new_engine env (plain_engine\<lparr>eo_onPlanReady := True, eo_onCompleted := True\<rparr>) t in
            seq (put_engine i e)
              (if (case st_session (task_state t) of Some x \<Rightarrow> session_id x \<noteq> [] | None \<Rightarrow> False)
               then (case re_reconnect env of
                   Inl _ \<Rightarrow> seq (drop_engine i) (throw (Coded TaskSessionReconnectFailed))
                 | Inr x \<Rightarrow> seq (put_engine i (set_session x e)) (ret (set_session x e)))
               else ret e))))"

definition planning_engine :: "run_env \<Rightarrow> ident \<Rightarrow> ident \<Rightarrow> engine life" where
  "planning_engine env u i c = (case amap_get (lc_engines c) i of
     Some e \<Rightarrow> (Inr e, c)
   | None \<Rightarrow> recoverPlanningEngine env u i c)"

definition sendPlanFeedbackImpl :: "run_env \<Rightarrow> ident \<Rightarrow> string \<Rightarrow> message_attachment list \<Rightarrow> ident \<Rightarrow> unit life" where
  "sendPlanFeedbackImpl env u feedback atts i =
     bind (planning_engine env u i) (\<lambda>e.
       if st_status (en_state e) \<noteq> Planning then throw (Coded TaskNotPlanning)
       else
         let e1 = set_state (\<lambda>s. s\<lparr>st_planMode := map_option (\<lambda>p. p\<lparr>pm_feedbackRounds := pm_feedbackRounds p + 1,
                    pm_isPlanReady := False\<rparr>) (st_planMode s)\<rparr>) e;
             rounds = (case st_planMode (en_state e1) of Some p \<Rightarrow> pm_feedbackRounds p | None \<Rightarrow> 0)
         in seq (put_engine i e1)
           (seq (save_task_state u (re_now env) i (en_state e1))
           (seq (announce (EventPlanFeedback i rounds))
           (case injectPlanFeedback (re_uuid env) feedback atts e1 of
              (Inl x, e2) \<Rightarrow> seq (put_engine i e2) (throw (engine_failure x))
            | (Inr idle, e2) \<Rightarrow> seq (put_engine i e2) (if idle then announce (EngineRun i RunPlanIteration) else ret ())))))"

definition discardPlanImpl ::
  "(engine \<Rightarrow> (life_error + unit) \<times> engine) \<Rightarrow> ident \<Rightarrow> timestamp \<Rightarrow> life_error + bool \<Rightarrow> bool \<Rightarrow> ident \<Rightarrow> bool life" where
  "discardPlanImpl halt u now d chat i =
     seq (\<lambda>c. if amap_has (lc_engines c) i then stopTaskImpl halt u now d i c else (Inr (), c))
     (seq (announce (EventPlanDiscarded i))
     (bind (deleteTaskImpl u now chat i) (\<lambda>r. ret (fst r))))"

section \<open>Pending values\<close>

text \<open>
  \<open>task-pending-engine.ts\<close>: the pending prompt and model of a live engine. Without an engine the
  database is asked only to tell a missing task from one that does not run.
\<close>

definition with_engine :: "ident \<Rightarrow> ident \<Rightarrow> (engine \<Rightarrow> task_result life) \<Rightarrow> task_result life" where
  "with_engine u i f c = (case amap_get (lc_engines c) i of
     Some e \<Rightarrow> f e c
   | None \<Rightarrow> bind (loadTask u i) (\<lambda>t. ret (TaskFailure (if t = None then TaskNotFound else TaskNotRunning))) c)"

definition updatePendingInput :: "ident \<Rightarrow> unit eng \<Rightarrow> task_result life" where
  "updatePendingInput i m = result_of (lift_engine i (seq m triggerPersistence))"

definition runs_now :: "task_status \<Rightarrow> bool" where
  "runs_now s = (s \<in> {Running, Starting})"

definition accepts_pending :: "task_status \<Rightarrow> bool" where
  "accepts_pending s = (s \<in> {Running, Waiting, Planning, Starting})"

definition setPendingPromptImpl :: "ident \<Rightarrow> ident \<Rightarrow> string \<Rightarrow> message_attachment list \<Rightarrow> ident \<Rightarrow> task_result life" where
  "setPendingPromptImpl uuid u prompt atts i = with_engine u i (\<lambda>e.
     if \<not> runs_now (st_status (en_state e)) then ret (TaskFailure TaskNotRunning)
     else updatePendingInput i (setPendingPrompt uuid prompt atts DirectUser))"

definition clearPendingPromptImpl :: "ident \<Rightarrow> ident \<Rightarrow> task_result life" where
  "clearPendingPromptImpl u i = with_engine u i (\<lambda>e.
     if \<not> runs_now (st_status (en_state e)) then ret (TaskFailure TaskNotRunning)
     else updatePendingInput i clearPendingPrompt)"

definition setPendingModelImpl :: "ident \<Rightarrow> model_config \<Rightarrow> ident \<Rightarrow> task_result life" where
  "setPendingModelImpl u m i = with_engine u i (\<lambda>e.
     if \<not> accepts_pending (st_status (en_state e)) then ret (TaskFailure InvalidTaskState)
     else if invalid_model (Some m) then ret (TaskFailure InvalidModelConfig)
     else seq (lift_engine i (seq (setPendingModel m) triggerPersistence)) (ret TaskSuccess))"

definition clearPendingModelImpl :: "ident \<Rightarrow> ident \<Rightarrow> task_result life" where
  "clearPendingModelImpl u i = with_engine u i (\<lambda>e.
     if \<not> accepts_pending (st_status (en_state e)) then ret (TaskFailure InvalidTaskState)
     else seq (lift_engine i (seq clearPendingModel triggerPersistence)) (ret TaskSuccess))"

definition clearPendingImpl :: "ident \<Rightarrow> ident \<Rightarrow> task_result life" where
  "clearPendingImpl u i = with_engine u i (\<lambda>e.
     if \<not> accepts_pending (st_status (en_state e)) then ret (TaskFailure InvalidTaskState)
     else updatePendingInput i clearPending)"

definition setPendingImpl ::
  "ident \<Rightarrow> ident \<Rightarrow> string option \<Rightarrow> model_config option \<Rightarrow> message_attachment list \<Rightarrow> ident \<Rightarrow> task_result life" where
  "setPendingImpl uuid u msg model atts i = with_engine u i (\<lambda>e.
     if \<not> accepts_pending (st_status (en_state e)) then ret (TaskFailure InvalidTaskState)
     else if invalid_model model then ret (TaskFailure InvalidModelConfig)
     else updatePendingInput i
       (seq (case msg of Some m \<Rightarrow> setPendingPrompt uuid m atts DirectUser | None \<Rightarrow> ret ())
            (case model of Some m \<Rightarrow> setPendingModel m | None \<Rightarrow> ret ())))"

definition reset_stale_task :: "ident \<Rightarrow> timestamp \<Rightarrow> ident \<Rightarrow> bool life" where
  "reset_stale_task u now i = writing (\<lambda>db. Inr (resetStaleTask db u i now))"

text \<open>A message for a task that does not run starts it again.\<close>

definition injectPendingImpl ::
  "run_env \<Rightarrow> ident \<Rightarrow> string option \<Rightarrow> model_config option \<Rightarrow> message_attachment list option \<Rightarrow> ident \<Rightarrow> task_result life" where
  "injectPendingImpl env u msg model atts i c =
     (let jumpstart = jumpstartTaskFromEngineLocked env u msg model (case atts of Some a \<Rightarrow> a | None \<Rightarrow> []) i in
      if invalid_model model then (Inr (TaskFailure InvalidModelConfig), c)
      else case amap_get (lc_engines c) i of
        None \<Rightarrow> bind (loadTask u i) (\<lambda>t. case t of
            None \<Rightarrow> ret (TaskFailure TaskNotFound)
          | Some t \<Rightarrow>
              bind (if isStaleTaskStatus (st_status (task_state t)) then reset_stale_task u (re_now env) i else ret False) (\<lambda>reconciled.
              if reconciled \<or> st_status (task_state t) \<in> {Completed, Stopped, Failed, MaxIterations, Planning} then jumpstart
              else ret (TaskFailure TaskNotRunning))) c
      | Some e \<Rightarrow>
          if \<not> accepts_pending (st_status (en_state e)) then
            (if st_status (en_state e) \<in> {Completed, Stopped, Failed, MaxIterations} then jumpstart c
             else (Inr (TaskFailure InvalidTaskState), c))
          else updatePendingInput i (injectPendingNow (re_uuid env) msg model atts) c)"

end
