(* ===== verification/RunProps.thy ===== *)
theory RunProps
  imports TaskRuns LifecycleProps
begin

text \<open>
  What starting, resuming, reviving and follow-ups do to the stored tasks (\<open>TaskRuns\<close>): whatever the
  environment answers and whichever engines are live, a stored status moves only along edges of the status
  machine; a draft that fails to start is never left planning; a deleted task comes back as it was.
\<close>

section \<open>Moves of one task\<close>

definition moves :: "ident \<Rightarrow> ident \<Rightarrow> lifecycle \<Rightarrow> lifecycle \<Rightarrow> bool" where
  "moves u i c c' \<longleftrightarrow> (db_ok (lc_db c) \<longrightarrow> db_ok (lc_db c')
     \<and> (\<forall>j. j \<noteq> i \<longrightarrow> stored_status_of c' u j = stored_status_of c u j)
     \<and> legal_move\<^sup>*\<^sup>* (stored_status_of c u i) (stored_status_of c' u i))"

interpretation moves: op_relation "moves u i" for u i :: ident
  by unfold_locales (auto simp: moves_def)

lemma moves_same: "lc_db c' = lc_db c \<Longrightarrow> moves u i c c'"
  by (simp add: moves_def stored_status_of_def)

lemma moves_legal: "db_ok (lc_db c) \<Longrightarrow> legal_step u i c c' \<Longrightarrow> moves u i c c'"
  by (auto simp: moves_def legal_step_def)

text \<open>Operations that leave the database alone.\<close>

definition quiet_op :: "'a life \<Rightarrow> bool" where
  "quiet_op m \<longleftrightarrow> (\<forall>c. lc_db (snd (m c)) = lc_db c)"

lemma quiet_run: "quiet_op m \<Longrightarrow> m c = (r, c') \<Longrightarrow> lc_db c' = lc_db c"
  by (metis quiet_op_def snd_conv)

interpretation quietly: op_relation "\<lambda>c c'. lc_db c' = lc_db c"
  by unfold_locales auto

lemma quiet_keeps: "quiet_op m = quietly.keeps m"
  by (simp add: quiet_op_def quietly.keeps_def)

lemma quiet_moves: "quiet_op m \<Longrightarrow> moves.keeps u i m"
  by (simp add: quiet_op_def moves.keeps_def moves_same)

lemmas quiet_rules = quietly.keeps_ret quietly.keeps_throw quietly.keeps_bind quietly.keeps_seq
  quietly.keeps_catching quietly.keeps_modify quietly.keeps_whenever

lemma quiet_basic [simp]:
  "quiet_op (ret x)" "quiet_op (throw y)" "quiet_op (answer a)" "quiet_op (disconnect d)" "quiet_op (loadTask u k)" "quiet_op (reading f)"
  by (simp_all add: quiet_op_def ret_def throw_def answer_def disconnect_def loadTask_def reading_def split: sum.split)

lemma quiet_unit [simp]:
  "quiet_op (announce ev)" "quiet_op (drop_engine k)" "quiet_op (put_engine k e)" "quiet_op (no_engine k)"
  "quiet_op (lock_start k)" "quiet_op (lift_engine k m)" "quiet_op (answer b)"
  by (auto simp: quiet_op_def answer_def announce_def drop_engine_def put_engine_def no_engine_def
      modify_def lock_start_def lift_engine_def
      split: sum.split option.split prod.split)

lemma quiet_bind: "quiet_op m \<Longrightarrow> (\<And>x. quiet_op (f x)) \<Longrightarrow> quiet_op (bind m f)"
  and quiet_seq: "quiet_op p \<Longrightarrow> quiet_op n \<Longrightarrow> quiet_op (seq p n)"
  and quiet_catching: "quiet_op m \<Longrightarrow> (\<And>x. quiet_op (h x)) \<Longrightarrow> quiet_op (catching m h)"
  unfolding quiet_keeps by (rule quietly.keeps_bind quietly.keeps_seq quietly.keeps_catching; assumption)+

lemma seq_ret [simp]: "seq (ret ()) m = m"
  by (simp add: seq_def bind_def ret_def fun_eq_iff)

lemma seq_assoc [simp]: "seq (seq a b) m = seq a (seq b m)"
  by (auto simp: seq_def bind_def fun_eq_iff split: prod.split sum.split)

section \<open>Operations on a task in a known status\<close>

definition from_status :: "ident \<Rightarrow> ident \<Rightarrow> task_status \<Rightarrow> 'a life \<Rightarrow> bool" where
  "from_status u i s m \<longleftrightarrow>
     (\<forall>c. db_ok (lc_db c) \<longrightarrow> stored_status_of c u i = Some s \<longrightarrow> moves u i c (snd (m c)))"

lemma from_keeps: "moves.keeps u i m \<Longrightarrow> from_status u i s m"
  by (simp add: from_status_def moves.keeps_def)

lemma from_quiet: "quiet_op m \<Longrightarrow> from_status u i s m"
  by (intro from_keeps quiet_moves)

lemma from_leaf [simp]: "from_status u i s (ret x)" "from_status u i s (throw y)" "from_status u i s (announce ev)"
  by (simp_all add: from_quiet)

lemma from_bind:
  assumes "quiet_op m" "\<And>x. from_status u i s (f x)"
  shows "from_status u i s (bind m f)"
  unfolding from_status_def
proof (intro allI impI)
  fix c assume c: "db_ok (lc_db c)" "stored_status_of c u i = Some s"
  obtain r c' where m: "m c = (r, c')" by fastforce
  have db: "lc_db c' = lc_db c" by (rule quiet_run [OF assms(1) m])
  show "moves u i c (snd (bind m f c))"
  proof (cases r)
    case (Inl x)
    with m db show ?thesis by (simp add: bind_def moves_same)
  next
    case (Inr x)
    have "moves u i c' (snd (f x c'))"
      using assms(2) [of x] c db by (simp add: from_status_def stored_status_of_def)
    with m Inr db moves.trans [OF moves_same [OF db]] show ?thesis by (simp add: bind_def)
  qed
qed

lemma from_seq: "quiet_op m \<Longrightarrow> from_status u i s n \<Longrightarrow> from_status u i s (seq m n)"
  unfolding seq_def by (rule from_bind)

lemma from_move: "(isValidTransition s x \<Longrightarrow> from_status u i s n) \<Longrightarrow> from_status u i s (seq (assert_move s x) n)"
  by (cases "isValidTransition s x")
     (auto simp: from_status_def seq_def bind_def assert_move_def assertValidTransition_def moves_same)

lemma from_catching: "from_status u i s m \<Longrightarrow> (\<And>x. moves.keeps u i (h x)) \<Longrightarrow> from_status u i s (catching m h)"
  by (auto simp: from_status_def intro: moves.at_catching)

lemma from_write:
  assumes w: "\<And>c. db_ok (lc_db c) \<Longrightarrow> stored_status_of c u i = Some s \<Longrightarrow>
      \<exists>b db'. m c = (Inr b, c\<lparr>lc_db := db'\<rparr>) \<and> db_ok db'
        \<and> (\<forall>j. loaded_status (loadTaskForUser db' u j) = (if j = i then Some t else stored_status_of c u j))"
    and l: "legal_move\<^sup>*\<^sup>* (Some s) (Some t)" and n: "\<And>x. from_status u i t (n x)"
  shows "from_status u i s (bind m n)"
  unfolding from_status_def
proof (intro allI impI)
  fix c assume c: "db_ok (lc_db c)" "stored_status_of c u i = Some s"
  obtain b db' where m: "m c = (Inr b, c\<lparr>lc_db := db'\<rparr>)" "db_ok db'"
    "\<And>j. loaded_status (loadTaskForUser db' u j) = (if j = i then Some t else stored_status_of c u j)"
    using w [OF c] by blast
  let ?c = "c\<lparr>lc_db := db'\<rparr>"
  have st: "stored_status_of ?c u j = (if j = i then Some t else stored_status_of c u j)" for j
    using m(3) by (simp add: stored_status_of_def)
  have 1: "moves u i c ?c" using c m(2) st l by (auto simp: moves_def)
  have 2: "moves u i ?c (snd (n b ?c))" using n [of b] m(2) st by (simp add: from_status_def)
  show "moves u i c (snd (bind m n c))" using moves.trans [OF 1 2] m(1) by (simp add: bind_def)
qed

lemma from_save_path:
  assumes "legal_move\<^sup>*\<^sup>* (Some s) (Some (st_status x))" "s = Deleted \<Longrightarrow> st_status x = Deleted"
    and "from_status u i (st_status x) n"
  shows "from_status u i s (seq (save_task_state u now i x) n)"
proof -
  have w: "\<exists>b db'. save_operational u now i x c = (Inr b, c\<lparr>lc_db := db'\<rparr>) \<and> db_ok db'
        \<and> (\<forall>j. loaded_status (loadTaskForUser db' u j) = (if j = i then Some (st_status x) else stored_status_of c u j))"
    if c: "db_ok (lc_db c)" "stored_status_of c u i = Some s" for c
  proof -
    obtain b db' where w: "save_operational u now i x c = (Inr b, c\<lparr>lc_db := db'\<rparr>)" "db_ok db'"
      "\<And>j. loaded_status (loadTaskForUser db' u j) = (if j = i \<and> b then Some (st_status x) else stored_status_of c u j)"
      "b = (stored_status_of c u i \<noteq> None \<and> (stored_status_of c u i = Some Deleted \<longrightarrow> st_status x = Deleted))"
      using save_run [OF c(1), of u now i x] by blast
    then show ?thesis using assms(2) c(2) by (intro exI [of _ b] exI [of _ db']) auto
  qed
  have "from_status u i s (bind (save_operational u now i x) (\<lambda>_. n))"
    by (rule from_write [OF w assms(1,3)])
  moreover have "seq (save_task_state u now i x) n = bind (save_operational u now i x) (\<lambda>_. n)"
    by (auto simp: seq_def save_task_state_def bind_def ret_def split: prod.split sum.split)
  ultimately show ?thesis by simp
qed

lemma one_move: "s = t \<or> isValidTransition s t \<Longrightarrow> legal_move\<^sup>*\<^sup>* (Some s) (Some t)"
  by (rule r_into_rtranclp) (auto simp: legal_move_def)

lemma from_save:
  assumes "s = st_status x \<or> isValidTransition s (st_status x)" "s = Deleted \<Longrightarrow> st_status x = Deleted"
    and "from_status u i (st_status x) n"
  shows "from_status u i s (seq (save_task_state u now i x) n)"
  using assms by (intro from_save_path one_move)

lemma from_save_over:
  assumes "s = st_status x \<or> isValidTransition s (st_status x)" "s = Deleted \<Longrightarrow> st_status x = Deleted \<or> allow"
    and "from_status u i (st_status x) n"
  shows "from_status u i s (seq (save_over_deleted u now allow i x) n)"
proof -
  let ?w = "writing (\<lambda>db. updateTaskOperationalState db u i x allow now)"
  have w: "\<exists>b db'. ?w c = (Inr b, c\<lparr>lc_db := db'\<rparr>) \<and> db_ok db'
        \<and> (\<forall>j. loaded_status (loadTaskForUser db' u j) = (if j = i then Some (st_status x) else stored_status_of c u j))"
    if c: "db_ok (lc_db c)" "stored_status_of c u i = Some s" for c
  proof (cases allow)
    case True
    obtain b db' where r: "updateTaskOperationalState (lc_db c) u i x True now = Inr (b, db')" "db_ok db'"
      "b = (store.status u (lc_db c) i \<noteq> None)"
      "\<And>j. store.status u db' j = (if j = i \<and> b then Some (st_status x) else store.status u (lc_db c) j)"
      using revival.revive_run [OF c(1)] by blast
    then show ?thesis using True c(2)
      by (auto simp: writing_def store.status_def store.status_def stored_status_of_def)
  next
    case False
    obtain b db' where w: "save_operational u now i x c = (Inr b, c\<lparr>lc_db := db'\<rparr>)" "db_ok db'"
      "\<And>j. loaded_status (loadTaskForUser db' u j) = (if j = i \<and> b then Some (st_status x) else stored_status_of c u j)"
      "b = (stored_status_of c u i \<noteq> None \<and> (stored_status_of c u i = Some Deleted \<longrightarrow> st_status x = Deleted))"
      using save_run [OF c(1), of u now i x] by blast
    moreover have "?w c = save_operational u now i x c" using False by (simp add: save_operational_def)
    ultimately show ?thesis using assms(2) c(2) False by (intro exI [of _ b] exI [of _ db']) auto
  qed
  have "from_status u i s (bind ?w (\<lambda>_. n))" by (rule from_write [OF w one_move assms(3)]) (use assms(1) in simp_all)
  moreover have "seq (save_over_deleted u now allow i x) n = bind ?w (\<lambda>_. n)"
    by (auto simp: seq_def save_over_deleted_def bind_def ret_def split: prod.split sum.split)
  ultimately show ?thesis by simp
qed

lemma from_config:
  assumes "from_status u i s n"
  shows "from_status u i s (seq (save_config u i cfg) n)"
proof -
  let ?w = "writing (\<lambda>db. updateTaskConfig db u i cfg)"
  have w: "\<exists>b db'. ?w c = (Inr b, c\<lparr>lc_db := db'\<rparr>) \<and> db_ok db'
        \<and> (\<forall>j. loaded_status (loadTaskForUser db' u j) = (if j = i then Some s else stored_status_of c u j))"
    if c: "db_ok (lc_db c)" "stored_status_of c u i = Some s" for c
    using revival.configure_total [OF c(1), of u i cfg] c(2) by (fastforce simp: writing_def stored_status_of_def)
  have "from_status u i s (bind ?w (\<lambda>_. n))" by (rule from_write [OF w _ assms]) (simp_all add: one_move)
  moreover have "seq (save_config u i cfg) n = bind ?w (\<lambda>_. n)"
    by (auto simp: seq_def save_config_def bind_def ret_def split: prod.split sum.split)
  ultimately show ?thesis by simp
qed

lemma keeps_load:
  assumes "quiet_op a"
    and "\<And>t. cfg_id (task_config t) = i \<Longrightarrow> from_status u i (st_status (task_state t)) (f t)"
  shows "moves.keeps u i (bind (loadTask u i) (\<lambda>t. case t of None \<Rightarrow> a | Some t \<Rightarrow> f t))"
proof (rule moves.keepsI)
  fix c
  show "moves u i c (snd (bind (loadTask u i) (\<lambda>t. case t of None \<Rightarrow> a | Some t \<Rightarrow> f t) c))"
  proof (cases "db_ok (lc_db c)")
    case True
    then show ?thesis
    proof (rule load_cases [of c u i])
      assume "loadTask u i c = (Inr None, c)"
      then show ?thesis using moves.keeps_at [OF quiet_moves [OF assms(1)], of u i c] by (simp add: bind_def)
    next
      fix t assume "loadTask u i c = (Inr (Some t), c)" "stored_status_of c u i = Some (st_status (task_state t))"
        "cfg_id (task_config t) = i"
      then show ?thesis using assms(2) [of t] True by (simp add: bind_def from_status_def)
    qed
  qed (simp add: moves_def)
qed

section \<open>Starting\<close>

lemma set_task_state_sel [simp]: "task_state (set_task_state f t) = f (task_state t)" "task_config (set_task_state f t) = task_config t"
  by (simp_all add: set_task_state_def)

lemma mark_started_status [simp]: "st_status (mark_started now s) = st_status s"
  by (simp add: mark_started_def)

lemma initialize_status [simp]: "st_status (initialize_inputs k s) = st_status s"
  by (simp add: initialize_inputs_def)

lemma new_engine_status [simp]: "st_status (en_state (new_engine env o' t)) = st_status (task_state t)"
  by (simp add: new_engine_def Let_def)

lemma quiet_checks [simp]:
  "quiet_op (assertTaskWorktreesAllowed env t)" "quiet_op (ensureTaskBranchCheckedOut env t)"
  "quiet_op (validateMainCheckoutStart u dirty t)" "quiet_op (engine_directory t)"
  by (auto simp: assertTaskWorktreesAllowed_def ensureTaskBranchCheckedOut_def
      validateMainCheckoutStart_def engine_directory_def intro!: quiet_bind split: option.split)

lemma quiet_reuse [simp]: "quiet_op (canReuseExistingBranch env t)" "quiet_op (git_for_plan env t)"
  by (auto simp: canReuseExistingBranch_def intro!: quiet_bind quiet_seq split: option.split)
     (simp add: quiet_op_def git_for_plan_def split: sum.split)

lemma from_attachments:
  assumes "st_status (task_state t) = s" "s \<noteq> Deleted \<or> atts = []"
    and "\<And>t'. st_status (task_state t') = s \<Longrightarrow> from_status u i s (n t')"
  shows "from_status u i s (bind (store_attachments u now i atts t) n)"
proof (cases "atts = []")
  case True
  have "bind (ret t) n = n t" by (simp add: fun_eq_iff bind_def ret_def)
  with True assms(1) show ?thesis using assms(3) by (simp add: store_attachments_def)
next
  case False
  let ?t = "set_task_state (\<lambda>s. s\<lparr>st_initialPromptAttachments := Some atts\<rparr>) t"
  have "bind (store_attachments u now i atts t) n = seq (save_task_state u now i (task_state ?t)) (n ?t)"
    using False by (auto simp: store_attachments_def Let_def seq_def bind_def ret_def fun_eq_iff split: prod.split sum.split)
  moreover have "from_status u i s (seq (save_task_state u now i (task_state ?t)) (n ?t))"
    by (rule from_save) (use assms in simp_all)
  ultimately show ?thesis by simp
qed

lemma start_moves: "moves.keeps u i (startTaskImpl env u atts i)"
  unfolding startTaskImpl_def
  by (rule keeps_load) (auto intro!: from_seq from_attachments intro: from_quiet)

text \<open>The steps that leave the database alone, by name.\<close>

lemmas from_steps = quiet_unit [THEN from_seq] quiet_checks [THEN from_seq] quiet_reuse(1) [THEN from_bind]

lemma from_bind_git:
  assumes "st_status (task_state t) = s" "\<And>t'. st_status (task_state t') = s \<Longrightarrow> from_status u i s (n t')"
  shows "from_status u i s (bind (git_for_plan env t) n)"
proof (cases "re_branch env")
  case (Inl x)
  then show ?thesis by (simp add: from_status_def bind_def git_for_plan_def moves_same)
next
  case (Inr g)
  then have "bind (git_for_plan env t) n = n (case g of None \<Rightarrow> t | Some x \<Rightarrow> set_task_state (\<lambda>s. s\<lparr>st_git := Some x\<rparr>) t)"
    by (simp add: fun_eq_iff bind_def git_for_plan_def)
  with assms show ?thesis by (simp split: option.split)
qed

lemma from_clear:
  assumes "st_status (task_state t) = s" "s \<noteq> Deleted" "\<And>t'. st_status (task_state t') = s \<Longrightarrow> from_status u i s (n t')"
  shows "from_status u i s (bind (clearPlanningFiles env u i t) n)"
proof -
  let ?p = "\<lambda>p. set_task_state (\<lambda>s. s\<lparr>st_planMode := Some (p\<lparr>pm_planningFolderCleared := True\<rparr>)\<rparr>) t"
  have save: "from_status u i s (bind (catching (seq (save_task_state u now i (task_state (?p p))) (ret (?p p))) (\<lambda>_. ret (?p p))) n)"
    for p and now :: timestamp
  proof -
    have "from_status u i s (seq (save_task_state u now i (task_state (?p p))) (n (?p p)))"
      by (rule from_save) (use assms in simp_all)
    moreover have "bind (catching (seq (save_task_state u now i (task_state (?p p))) (ret (?p p))) (\<lambda>_. ret (?p p))) n c
        = seq (save_task_state u now i (task_state (?p p))) (n (?p p)) c" if ok: "db_ok (lc_db c)" for c
    proof -
      obtain b db' where "save_operational u now i (task_state (?p p)) c = (Inr b, c\<lparr>lc_db := db'\<rparr>)"
        using save_run [OF ok, of u now i "task_state (?p p)"] by blast
      then show ?thesis by (simp add: save_task_state_def catching_def seq_def bind_def ret_def)
    qed
    ultimately show ?thesis by (simp add: from_status_def)
  qed
  have t: "from_status u i s (bind (ret t) n)"
    using assms(3) [OF assms(1)] by (simp add: from_status_def bind_def ret_def)
  have q: "from_status u i s (bind (seq (answer a) m) n)" if "from_status u i s (bind m n)" for a and m :: "task life"
  proof -
    have "bind (seq (answer a) m) n = seq (answer a) (bind m n)"
      by (auto simp: seq_def bind_def fun_eq_iff split: prod.split sum.split)
    with that show ?thesis by (simp add: from_seq)
  qed
  show ?thesis
    unfolding clearPlanningFiles_def Let_def
  proof (rule q)
    show "from_status u i s (bind (case st_planMode (task_state t) of None \<Rightarrow> ret t
        | Some p \<Rightarrow> if cfg_clearPlanningFolder (task_config t) \<and> \<not> pm_planningFolderCleared p \<and> re_cleared env
            then catching (seq (save_task_state u (re_now env) i (task_state (?p p))) (ret (?p p))) (\<lambda>_. ret (?p p))
            else ret t) n)"
      using t save by (cases "st_planMode (task_state t)") (auto simp del: set_task_state_sel)
  qed
qed

lemma plan_moves: "moves.keeps u i (startPlanModeImpl env u atts i)"
  unfolding startPlanModeImpl_def Let_def
  by (rule keeps_load) (auto intro!: from_steps from_attachments from_bind_git from_clear from_save intro: from_quiet)

lemma draft_failure_moves: "moves.keeps u i (persistDraftStartFailure env u i x)"
proof -
  have "moves.keeps u i (bind (loadTask u i) (\<lambda>t. case t of
        None \<Rightarrow> ret ()
      | Some t \<Rightarrow>
          if st_status (task_state t) \<notin> {Starting, Planning} then ret ()
          else seq (assert_move (st_status (task_state t)) Failed)
            (seq (save_task_state u (re_now env) i ((task_state t)\<lparr>st_status := Failed, st_completedAt := Some (re_now env),
                    st_error := Some \<lparr>err_message = re_text env x, err_iteration = st_currentIteration (task_state t),
                                     err_timestamp = re_now env\<rparr>\<rparr>))
              (announce (EventTaskError i (re_text env x) (st_currentIteration (task_state t)))))))"
    by (rule keeps_load) (auto intro!: from_move from_save intro: from_quiet)
  then show ?thesis
    by (auto simp: moves.keeps_def persistDraftStartFailure_def moves.refl)
qed

lemma draft_moves: "moves.keeps u i (startDraftImpl env u atts i)"
proof -
  have g: "quiet_op (getTask u j)" for j
    by (auto simp: quiet_op_def getTask_def loadTask_def reading_def bind_def Let_def split: option.split sum.split prod.split)
  have p: "from_status u j x (seq (startPlanModeImpl env u atts j) (bind (getTask u j) (\<lambda>y. ret (h y))))"
    for x j and h :: "task option \<Rightarrow> task"
    by (intro from_keeps moves.keeps_seq plan_moves moves.keeps_bind quiet_moves [OF g] moves.keeps_ret)
  have "moves.keeps u i (startDraft_body env u atts i)"
    unfolding startDraft_body_def Let_def
    by (rule keeps_load)
       (auto intro!: from_steps from_move from_save p intro: from_quiet)
  then have "moves.keeps u i (catching (startDraft_body env u atts i) (\<lambda>x. seq (persistDraftStartFailure env u i x) (throw x)))"
    by (intro moves.keeps_catching moves.keeps_seq draft_failure_moves moves.keeps_throw)
  then have "moves.keeps u i (seq (lock_start i) (ensuring (catching (startDraft_body env u atts i)
      (\<lambda>x. seq (persistDraftStartFailure env u i x) (throw x))) (unlock_start i)))"
    by (intro moves.keeps_seq moves.keeps_ensuring quiet_moves [OF quiet_unit(5)]) (simp_all add: moves_same unlock_start_def)
  then show ?thesis by (simp add: moves.keeps_def startDraftImpl_def moves.refl)
qed

section \<open>Jumpstart, revival, feedback and follow-ups\<close>

lemma jumpstart_request_status [simp]: "st_status (task_state (jumpstart_request msg model t)) = st_status (task_state t)"
  by (simp add: jumpstart_request_def Let_def split: option.split)

lemma revived_status [simp]: "st_status (revived planning s) = (if planning then Planning else Stopped)"
  by (simp add: revived_def Let_def forget_outcome_def)

lemma existing_branch_moves: "moves.keeps u i (jumpstartOnExistingBranch env k atts t)"
proof -
  have "quiet_op (jumpstartOnExistingBranch env k atts t)"
    unfolding jumpstartOnExistingBranch_def by (intro quiet_catching) (auto intro!: quiet_seq)
  then show ?thesis by (rule quiet_moves)
qed

lemma result_moves: "moves.keeps u i m \<Longrightarrow> moves.keeps u i (result_of m)"
  unfolding result_of_def by (intro moves.keeps_catching moves.keeps_seq) (simp_all add: moves.keeps_ret)

lemmas from_runs = existing_branch_moves [THEN from_keeps] plan_moves [THEN result_moves, THEN from_keeps]
  start_moves [THEN result_moves, THEN from_keeps]

lemma jumpstart_moves: "moves.keeps u i (jumpstartTaskFromEngineLocked env u msg model atts i)"
  unfolding jumpstartTaskFromEngineLocked_def Let_def
  by (rule keeps_load) (auto intro!: from_steps from_move from_save_over from_config from_runs intro: from_quiet)

lemma revive_moves: "moves.keeps u i (reviveDeletedTaskLocked u now i)"
  unfolding reviveDeletedTaskLocked_def Let_def
  by (rule keeps_load) (auto intro!: from_move from_save_over intro: from_quiet)

lemma quiet_feedback_engine [simp]: "quiet_op (startFeedbackEngine env prompt model atts i t)"
  unfolding startFeedbackEngine_def by (auto intro!: quiet_seq split: option.split)

lemma feedback_moves: "moves.keeps u i (startFeedbackCycleImpl env u prompt model comment_id atts comment i)"
proof -
  have tr: "from_status u j s (seq (transitionToFeedbackCycleAndStart env u prompt model atts comment j t) m)"
    if "st_status (task_state t) = s" "s \<noteq> Deleted" "quiet_op m" for j s t and m :: "feedback_result life" and comment
    unfolding transitionToFeedbackCycleAndStart_def Let_def seq_assoc that(1)
    by (cases model) (use that in \<open>auto intro!: from_move from_save from_config from_steps quiet_feedback_engine [THEN from_seq]
        intro: from_quiet simp: forget_outcome_def\<close>)
  have "from_status u j s (start_feedback_cycle env u prompt model comment_id atts comment j t rm)"
    if "st_status (task_state t) = s" "s \<noteq> Deleted" for j s t rm
    unfolding start_feedback_cycle_def Let_def using that
    by (auto intro: from_quiet tr split: sum.split option.split)
  then have "from_status u j s (unless_live j (start_feedback_cycle env u prompt model comment_id atts comment j t rm))"
    if "st_status (task_state t) = s" "s \<noteq> Deleted" for j s t rm
    using that by (auto simp: from_status_def unless_live_def moves_same)
  then show ?thesis
    unfolding startFeedbackCycleImpl_def
    by (intro keeps_load) (auto intro: from_quiet split: option.split)
qed

lemma checked_move_status: "checked_move x e = (Inr (), e') \<Longrightarrow> isValidTransition (st_status (en_state e)) x \<and> st_status (en_state e') = x"
  by (auto simp: checked_move_def assertValidTransition_def set_state_def split: if_splits)

lemma prepared_status:
  assumes "prepareSingleTurnFollowUpState env msg model atts e = (Inr (), e')" "st_status (en_state e) \<in> {Completed, Pushed}"
  shows "isValidTransition (st_status (en_state e)) Starting \<and> isValidTransition Starting Running \<and> st_status (en_state e') = Running"
proof -
  obtain e1 where 1: "checked_move Starting e = (Inr (), e1)"
    and r: "seq (checked_move Running) (seq (modify (set_state (\<lambda>s. forget_outcome (mark_started (re_now env) s))))
     (seq (setPendingPrompt (re_uuid env) msg atts DirectUser)
       (case model of Some m \<Rightarrow> setPendingModel m | None \<Rightarrow> ret ()))) e1 = (Inr (), e')"
    using seq_run [OF assms(1) [unfolded prepareSingleTurnFollowUpState_def]] assms(2) by (auto simp: whenever_def)
  obtain e2 where 2: "checked_move Running e1 = (Inr (), e2)"
    and r2: "seq (modify (set_state (\<lambda>s. forget_outcome (mark_started (re_now env) s))))
     (seq (setPendingPrompt (re_uuid env) msg atts DirectUser)
       (case model of Some m \<Rightarrow> setPendingModel m | None \<Rightarrow> ret ())) e2 = (Inr (), e')"
    using seq_run [OF r] by blast
  have "st_status (en_state e') = st_status (en_state e2)"
    using r2 by (auto simp: seq_def bind_def modify_def set_state_def forget_outcome_def setPendingPrompt_def lift_inputs_def
        inputs_set_def setPendingModel_def updateState_def emit_def ret_def split: sum.splits option.splits prod.splits)
  then show ?thesis using checked_move_status [OF 1] checked_move_status [OF 2] by auto
qed

lemma launch_moves:
  assumes t: "st_status (task_state t) = s" and s: "s = Completed \<or> s = Pushed"
  shows "from_status u i s (launch_single_turn env u msg model atts i t)"
proof (cases "re_reconnect env")
  case (Inr x)
  let ?e = "set_session x (new_engine env (plain_engine\<lparr>eo_skipGitSetup := True, eo_singleTurn := True\<rparr>) t)"
  obtain r e where p: "prepareSingleTurnFollowUpState env msg model atts ?e = (r, e)" by fastforce
  show ?thesis
  proof (cases r)
    case (Inr y)
    have st: "st_status (en_state ?e) = st_status (task_state t)" by (simp add: set_session_def set_state_def)
    with t have st: "st_status (en_state ?e) = s" by simp
    have "prepareSingleTurnFollowUpState env msg model atts ?e = (Inr (), e)" using p Inr by simp
    from prepared_status [OF this] s st
    have m: "isValidTransition s Starting" "isValidTransition Starting Running" "st_status (en_state e) = Running"
      by auto
    have "legal_move\<^sup>*\<^sup>* (Some s) (Some (st_status (en_state e)))"
      using m by (intro rtranclp_trans [OF one_move [of _ Starting] one_move [of Starting]]) auto
    then have "from_status u i s (seq (save_task_state u (re_now env) i (en_state e))
         (seq (put_engine i e) (seq (announce (EngineRun i RunContinue)) (ret FollowUpStarted))))"
      by (rule from_save_path) (use s in \<open>auto intro!: from_steps intro: from_quiet\<close>)
    then show ?thesis using \<open>re_reconnect env = Inr x\<close> p Inr by (simp add: launch_single_turn_def)
  qed (use Inr p in \<open>simp add: from_quiet launch_single_turn_def\<close>)
qed (simp add: from_quiet launch_single_turn_def)

lemma from_unless_active: "from_status u i s m \<Longrightarrow> from_status u i s (unless_active i m)"
  by (auto simp: from_status_def unless_active_def moves_same)

lemma single_turn_moves:
  assumes "cfg_id (task_config t) = i" "st_status (task_state t) = s"
  shows "from_status u i s (startSingleTurnFollowUp env u msg model atts t)"
  unfolding startSingleTurnFollowUp_def Let_def assms
  by (rule from_unless_active, use assms(2) in \<open>auto intro!: from_steps launch_moves intro: from_quiet\<close>)

lemma follow_up_moves: "moves.keeps u i (sendFollowUpImpl env u raw model atts i)"
proof -
  have r: "moves.keeps u j (bind (jumpstartTaskFromEngineLocked env u m model atts j) (\<lambda>r. ret (follow_up_result r)))" for m j
    by (intro moves.keeps_bind jumpstart_moves moves.keeps_ret)
  have "moves.keeps u i (sendFollowUpLocked env u msg model atts i)" for msg
    unfolding sendFollowUpLocked_def
    by (rule keeps_load) (auto intro: single_turn_moves from_keeps feedback_moves r)
  then show ?thesis by (simp add: sendFollowUpImpl_def Let_def moves.keeps_ret)
qed

section \<open>Sequences of runs\<close>

datatype start_op =
  OpStart "message_attachment list" | OpStartPlan "message_attachment list" | OpStartDraft "message_attachment list"
| OpJumpstart "string option" "model_config option" "message_attachment list" | OpRevive
| OpFollowUp string "model_config option" "message_attachment list"
| OpFeedback string "model_config option" "ident option" "message_attachment list" "life_error + unit"

fun run_op :: "run_env \<Rightarrow> ident \<Rightarrow> ident \<Rightarrow> start_op \<Rightarrow> lifecycle \<Rightarrow> lifecycle" where
  "run_op env u i (OpStart atts) c = snd (startTaskImpl env u atts i c)"
| "run_op env u i (OpStartPlan atts) c = snd (startPlanModeImpl env u atts i c)"
| "run_op env u i (OpStartDraft atts) c = snd (startDraftImpl env u atts i c)"
| "run_op env u i (OpJumpstart m x atts) c = snd (jumpstartTaskFromEngineLocked env u m x atts i c)"
| "run_op env u i OpRevive c = snd (reviveDeletedTaskLocked u (re_now env) i c)"
| "run_op env u i (OpFollowUp m x atts) c = snd (sendFollowUpImpl env u m x atts i c)"
| "run_op env u i (OpFeedback p x cid atts r) c = snd (startFeedbackCycleImpl env u p x cid atts r i c)"

lemma run_op_moves: "moves u i c (run_op env u i x c)"
  by (cases x) (simp_all add: moves.keeps_at start_moves plan_moves draft_moves jumpstart_moves revive_moves follow_up_moves feedback_moves)

definition run_ops :: "ident \<Rightarrow> (run_env \<times> ident \<times> start_op) list \<Rightarrow> lifecycle \<Rightarrow> lifecycle" where
  "run_ops u xs c = fold (\<lambda>(env, i, x). run_op env u i x) xs c"

lemma run_ops_moves:
  assumes "db_ok (lc_db c)"
  shows "db_ok (lc_db (run_ops u xs c))
    \<and> legal_move\<^sup>*\<^sup>* (stored_status_of c u i) (stored_status_of (run_ops u xs c) u i)"
  using assms
proof (induction xs arbitrary: c)
  case (Cons y xs)
  obtain env j x where y: "y = (env, j, x)" by (cases y) auto
  let ?c = "run_op env u j x c"
  have m: "db_ok (lc_db ?c)" "legal_move\<^sup>*\<^sup>* (stored_status_of c u i) (stored_status_of ?c u i)"
    using run_op_moves [of u j c env x] Cons.prems by (cases "i = j"; simp add: moves_def)+
  have r: "run_ops u (y # xs) c = run_ops u xs ?c" by (simp add: run_ops_def y)
  from Cons.IH [OF m(1)] m(2) show ?case unfolding r by (auto intro: rtranclp_trans)
qed (simp add: run_ops_def)

section \<open>Starting a draft\<close>

text \<open>The task is stored in a status and has no engine.\<close>

definition idle_in :: "ident \<Rightarrow> ident \<Rightarrow> task_status \<Rightarrow> lifecycle \<Rightarrow> bool" where
  "idle_in u i s c \<longleftrightarrow> db_ok (lc_db c) \<and> stored_status_of c u i = Some s \<and> \<not> live c i"

definition live_in :: "ident \<Rightarrow> ident \<Rightarrow> task_status \<Rightarrow> lifecycle \<Rightarrow> bool" where
  "live_in u i s c \<longleftrightarrow> db_ok (lc_db c) \<and> stored_status_of c u i = Some s \<and> live c i"

lemma idle_leaf:
  "triple (idle_in u i s) (answer a) (\<lambda>_. idle_in u i s) (idle_in u i s)"
  "triple (idle_in u i s) (announce ev) (\<lambda>_. idle_in u i s) E"
  "triple (idle_in u i s) (no_engine i) (\<lambda>_. idle_in u i s) E"
  "triple (idle_in u i s) (reading f) (\<lambda>_. idle_in u i s) (idle_in u i s)"
  by (simp_all add: triple_def idle_in_def answer_def announce_def modify_def no_engine_def reading_def stored_status_of_def
      amap_has_iff split: prod.split sum.split)

lemma idle_load:
  "triple (idle_in u i s) (loadTask u i)
     (\<lambda>t c. idle_in u i s c \<and> (\<exists>t'. t = Some t' \<and> st_status (task_state t') = s \<and> cfg_id (task_config t') = i)) (\<lambda>_. False)"
  unfolding triple_def
proof (intro allI impI)
  fix c assume c: "idle_in u i s c"
  then have "db_ok (lc_db c)" by (simp add: idle_in_def)
  then show "case loadTask u i c of (Inl _, s') \<Rightarrow> False
      | (Inr t, c) \<Rightarrow> idle_in u i s c \<and> (\<exists>t'. t = Some t' \<and> st_status (task_state t') = s \<and> cfg_id (task_config t') = i)"
    by (rule load_cases [of c u i]) (use c in \<open>simp_all add: idle_in_def\<close>)
qed

lemma idle_save:
  assumes "s = Deleted \<Longrightarrow> st_status x = Deleted"
  shows "triple (idle_in u i s) (save_task_state u now i x) (\<lambda>_. idle_in u i (st_status x)) (\<lambda>_. False)"
  unfolding triple_def
proof (intro allI impI)
  fix c assume c: "idle_in u i s c"
  then have ok: "db_ok (lc_db c)" by (simp add: idle_in_def)
  obtain b db' where w: "save_operational u now i x c = (Inr b, c\<lparr>lc_db := db'\<rparr>)" "db_ok db'"
    "\<And>j. loaded_status (loadTaskForUser db' u j) = (if j = i \<and> b then Some (st_status x) else stored_status_of c u j)"
    "b = (stored_status_of c u i \<noteq> None \<and> (stored_status_of c u i = Some Deleted \<longrightarrow> st_status x = Deleted))"
    using save_run [OF ok, of u now i x] by blast
  moreover from w(4) c assms have b by (simp add: idle_in_def)
  ultimately show "case save_task_state u now i x c of (Inl _, s') \<Rightarrow> False | (Inr _, c) \<Rightarrow> idle_in u i (st_status x) c"
    using c by (simp add: save_task_state_def bind_def ret_def idle_in_def stored_status_of_def)
qed

lemma idle_checks:
  "triple (idle_in u i s) (assertTaskWorktreesAllowed env t) (\<lambda>_. idle_in u i s) (idle_in u i s)"
  "triple (idle_in u i s) (validateMainCheckoutStart u dirty t) (\<lambda>_. idle_in u i s) (idle_in u i s)"
  "triple (idle_in u i s) (engine_directory t) (\<lambda>_. idle_in u i s) (idle_in u i s)"
  by (auto simp: assertTaskWorktreesAllowed_def validateMainCheckoutStart_def engine_directory_def
      intro!: triple_ret triple_throw triple_bind [OF idle_leaf(1)] triple_bind [OF idle_leaf(4)] split: option.split)

lemma triple_fact_bind:
  "triple P m (\<lambda>x c. R c \<and> F x) E \<Longrightarrow> (\<And>x. F x \<Longrightarrow> triple R (f x) Q E) \<Longrightarrow> triple P (bind m f) Q E"
  by (rule triple_bind, assumption) (auto simp: triple_def)

lemma idle_save_then:
  assumes "st_status x = s" "triple (idle_in u i s) n Q (idle_in u i s)"
  shows "triple (idle_in u i s) (seq (save_task_state u now i x) n) Q (idle_in u i s)"
  by (rule triple_seq [where R = "idle_in u i s", OF triple_conseq [OF idle_save [of s x u i now]]]) (use assms in auto)

lemma idle_attachments:
  assumes "st_status (task_state t) = s"
  shows "triple (idle_in u i s) (store_attachments u now i atts t) (\<lambda>t' c. idle_in u i s c \<and> st_status (task_state t') = s) (idle_in u i s)"
proof (cases "atts = []")
  case True
  with assms show ?thesis by (simp add: store_attachments_def triple_ret)
next
  case False
  with assms show ?thesis by (auto simp: store_attachments_def Let_def intro!: idle_save_then triple_ret)
qed

lemma idle_clear:
  assumes "st_status (task_state t) = s"
  shows "triple (idle_in u i s) (clearPlanningFiles env u i t) (\<lambda>t' c. idle_in u i s c \<and> st_status (task_state t') = s) (idle_in u i s)"
  using assms by (auto simp: clearPlanningFiles_def Let_def
      intro!: triple_seq [OF idle_leaf(1)] triple_catching idle_save_then triple_ret split: option.split)

lemma idle_git:
  assumes "st_status (task_state t) = s"
  shows "triple (idle_in u i s) (git_for_plan env t) (\<lambda>t' c. idle_in u i s c \<and> st_status (task_state t') = s) (idle_in u i s)"
  using assms by (auto simp: triple_def git_for_plan_def idle_in_def split: sum.split option.split)

lemma idle_launch:
  "triple (idle_in u i s) (seq (put_engine i e) (announce ev)) (\<lambda>_. live_in u i s) E"
  by (simp add: triple_def idle_in_def live_in_def put_engine_def announce_def modify_def seq_def bind_def
      stored_status_of_def amap_has_iff)

lemma idle_loaded:
  assumes "\<And>t. st_status (task_state t) = s \<Longrightarrow> cfg_id (task_config t) = i \<Longrightarrow> triple (idle_in u i s) (f (Some t)) Q E"
  shows "triple (idle_in u i s) (bind (loadTask u i) f) Q E"
proof (rule triple_fact_bind [OF triple_conseq [OF idle_load]])
  show "triple (idle_in u i s) (f t) Q E"
    if "\<exists>t'. t = Some t' \<and> st_status (task_state t') = s \<and> cfg_id (task_config t') = i" for t
    using that assms by auto
qed auto

lemmas idle_seqs = triple_seq [OF idle_leaf(1)] triple_seq [OF idle_leaf(2)] triple_seq [OF idle_leaf(3)]
  triple_seq [OF idle_checks(1)] triple_seq [OF idle_checks(2)] triple_seq [OF idle_checks(3)]

lemma plan_start_triple:
  "triple (idle_in u i s) (startPlanModeImpl env u atts i) (\<lambda>_. live_in u i s) (idle_in u i s)"
  unfolding startPlanModeImpl_def Let_def
  by (rule idle_loaded)
     (auto intro!: triple_throw idle_seqs triple_fact_bind [OF idle_attachments] triple_fact_bind [OF idle_git]
        triple_fact_bind [OF idle_clear] idle_save_then idle_launch simp: mark_started_def)

lemma draft_failed_triple:
  "triple (idle_in u i s) (persistDraftStartFailure env u i x)
     (\<lambda>_. idle_in u i (if s \<in> {Starting, Planning} then Failed else s)) (\<lambda>_. False)"
proof -
  have "triple (idle_in u i s) (bind (loadTask u i) (\<lambda>t. case t of
        None \<Rightarrow> ret ()
      | Some t \<Rightarrow>
          if st_status (task_state t) \<notin> {Starting, Planning} then ret ()
          else seq (assert_move (st_status (task_state t)) Failed)
            (seq (save_task_state u (re_now env) i ((task_state t)\<lparr>st_status := Failed, st_completedAt := Some (re_now env),
                    st_error := Some \<lparr>err_message = re_text env x, err_iteration = st_currentIteration (task_state t),
                                     err_timestamp = re_now env\<rparr>\<rparr>))
              (announce (EventTaskError i (re_text env x) (st_currentIteration (task_state t)))))))
     (\<lambda>_. idle_in u i (if s \<in> {Starting, Planning} then Failed else s)) (\<lambda>_. False)"
    (is "triple _ _ ?Q _")
  proof (rule idle_loaded)
    fix t assume t: "st_status (task_state t) = s"
    have m: "seq (assert_move s Failed) n = n" if "s = Starting \<or> s = Planning" for n :: "unit life"
      using that by (auto simp: fun_eq_iff seq_def bind_def assert_move_def assertValidTransition_def isValidTransition_def)
    have "triple (idle_in u i s) (seq (save_task_state u now i y) (announce ev)) ?Q (\<lambda>_. False)"
      if "st_status y = Failed" "s = Starting \<or> s = Planning" for now y ev
      by (rule triple_seq [OF idle_save [of s y]]) (use that idle_leaf(2) [of u i Failed ev] in auto)
    then show "triple (idle_in u i s) (case Some t of
        None \<Rightarrow> ret ()
      | Some t \<Rightarrow>
          if st_status (task_state t) \<notin> {Starting, Planning} then ret ()
          else seq (assert_move (st_status (task_state t)) Failed)
            (seq (save_task_state u (re_now env) i ((task_state t)\<lparr>st_status := Failed, st_completedAt := Some (re_now env),
                    st_error := Some \<lparr>err_message = re_text env x, err_iteration = st_currentIteration (task_state t),
                                     err_timestamp = re_now env\<rparr>\<rparr>))
              (announce (EventTaskError i (re_text env x) (st_currentIteration (task_state t)))))) ?Q (\<lambda>_. False)"
      using t m by (auto intro!: triple_ret)
  qed
  then show ?thesis by (auto simp: triple_def persistDraftStartFailure_def idle_in_def amap_has_iff)
qed

lemma triple_weak: "triple P m Q E \<Longrightarrow> (\<And>s. E s \<Longrightarrow> E' s) \<Longrightarrow> triple P m Q E'"
  by (rule triple_conseq)

text \<open>The summary of a well-formed row is always read.\<close>

lemma summary_status:
  assumes "db_ok db"
  shows "\<exists>t. loadTaskSummary db u i = Inr t"
  using assms by (auto simp: loadTaskSummary_def select_task_def rowToTask_readable db_ok_row split: option.split)

lemma live_get: "triple (live_in u i s) (getTask u i) (\<lambda>_. live_in u i s) (\<lambda>_. False)"
proof -
  have "case getTask u i c of (Inl _, _) \<Rightarrow> False | (Inr _, c) \<Rightarrow> live_in u i s c" if c: "live_in u i s c" for c
  proof -
    obtain t where "loadTaskSummary (lc_db c) u i = Inr t"
      using c summary_status [of "lc_db c" u i] by (auto simp: live_in_def)
    moreover obtain e where "amap_get (lc_engines c) i = Some e" using c by (auto simp: live_in_def amap_has_iff)
    ultimately show ?thesis using c
      by (auto simp: getTask_def bind_def reading_def live_in_def Let_def stored_status_of_def amap_has_iff split: option.split)
  qed
  then show ?thesis by (simp add: triple_def)
qed

lemma draft_body_triple:
  "triple (idle_in u i Draft) (startDraft_body env u atts i) (\<lambda>_. live_in u i Planning)
     (\<lambda>c. idle_in u i Draft c \<or> idle_in u i Planning c)" (is "triple ?P _ ?Q ?E")
  unfolding startDraft_body_def Let_def
proof (rule idle_loaded)
  fix t :: task assume t: "st_status (task_state t) = Draft"
  have plan: "triple (idle_in u i Draft) (seq (save_task_state u now i x) (seq (announce ev)
      (seq (startPlanModeImpl env u atts i) (bind (getTask u i) (\<lambda>y. ret (h y)))))) ?Q ?E"
    if "st_status x = Planning" for x now ev and h :: "task option \<Rightarrow> task"
  proof (rule triple_seq)
    show "triple (idle_in u i Draft) (save_task_state u now i x) (\<lambda>_. idle_in u i Planning) ?E"
      using triple_weak [OF idle_save [of Draft x u i now]] that by simp
    show "triple (idle_in u i Planning) (seq (announce ev)
      (seq (startPlanModeImpl env u atts i) (bind (getTask u i) (\<lambda>y. ret (h y))))) ?Q ?E"
      by (rule triple_seq [OF idle_leaf(2)], rule triple_seq [OF triple_weak [OF plan_start_triple]], simp,
          rule triple_bind [OF triple_weak [OF live_get]]) (auto intro: triple_ret)
  qed
  have move: "seq (assert_move Draft Planning) n = n" for n :: "task life"
    by (auto simp: fun_eq_iff seq_def bind_def assert_move_def assertValidTransition_def isValidTransition_def)
  show "triple ?P (case Some t of None \<Rightarrow> throw (Coded TaskNotFound)
     | Some t \<Rightarrow>
         if st_status (task_state t) \<noteq> Draft then throw (Coded InvalidTaskState)
         else seq (assertTaskWorktreesAllowed env t)
           (seq (if cfg_useWorktree (task_config t) then ret ()
                 else seq (answer (re_executor env)) (validateMainCheckoutStart u (re_dirty env) t))
           (seq (assert_move (st_status (task_state t)) Planning)
           (seq (save_task_state u (re_now env) i (task_state (set_task_state (\<lambda>s. (mark_started (re_now env) s)\<lparr>st_status := Planning,
                       st_completedAt := None, st_error := None, st_planMode := Some fresh_plan\<rparr>) t)))
              (seq (announce (EventStarting i))
              (seq (startPlanModeImpl env u atts i)
              (bind (getTask u i) (\<lambda>updated. ret (case updated of Some x \<Rightarrow> x
                 | None \<Rightarrow> set_task_state (\<lambda>s. (mark_started (re_now env) s)\<lparr>st_status := Planning,
                       st_completedAt := None, st_error := None, st_planMode := Some fresh_plan\<rparr>) t))))))))) ?Q ?E"
    by (auto simp: t move intro!: triple_seq [OF triple_weak [OF idle_checks(1)]]
        triple_seq [OF triple_weak [OF idle_leaf(1)]] triple_seq [OF triple_weak [OF idle_checks(2)]] plan)
qed

lemma draft_triple:
  assumes "i \<notin> lc_starting c" "idle_in u i Draft c" "startDraftImpl env u atts i c = (r, c')"
  shows "i \<notin> lc_starting c' \<and> (case r of
     Inr _ \<Rightarrow> live_in u i Planning c'
   | Inl _ \<Rightarrow> idle_in u i Draft c' \<or> idle_in u i Failed c')"
proof -
  let ?m = "catching (startDraft_body env u atts i) (\<lambda>x. seq (persistDraftStartFailure env u i x) (throw x))"
  let ?E = "\<lambda>c. idle_in u i Draft c \<or> idle_in u i Failed c"
  have fail: "triple (\<lambda>c. idle_in u i Draft c \<or> idle_in u i Planning c)
      (seq (persistDraftStartFailure env u i x) (throw x)) Q ?E" for x and Q :: "task \<Rightarrow> lifecycle \<Rightarrow> bool"
  proof (rule triple_seq)
    show "triple (\<lambda>c. idle_in u i Draft c \<or> idle_in u i Planning c) (persistDraftStartFailure env u i x) (\<lambda>_. ?E) ?E"
      using draft_failed_triple [of u i Draft env x] draft_failed_triple [of u i Planning env x]
      unfolding triple_def by (fastforce split: prod.splits sum.splits)
  qed (simp add: triple_throw)
  have "triple (idle_in u i Draft) ?m (\<lambda>_. live_in u i Planning) ?E"
    by (rule triple_catching [OF draft_body_triple fail])
  moreover obtain c0 where l: "lock_start i c = (Inr (), c0)" "idle_in u i Draft c0"
    using assms(2) by (simp add: lock_start_def modify_def idle_in_def stored_status_of_def)
  moreover obtain r1 c1 where m: "?m c0 = (r1, c1)" by (cases "?m c0")
  ultimately have "case r1 of Inr _ \<Rightarrow> live_in u i Planning c1 | Inl _ \<Rightarrow> ?E c1"
    by (auto simp: triple_def split: sum.splits)
  moreover have "r = r1 \<and> c' = unlock_start i c1"
    using assms(1,3) m l(1) by (simp add: startDraftImpl_def seq_def bind_def ensuring_def)
  ultimately show ?thesis
    by (auto simp: unlock_start_def idle_in_def live_in_def stored_status_of_def split: sum.splits)
qed

section \<open>Deleting and reviving\<close>

definition deleted_state :: "task_state \<Rightarrow> task_state" where
  "deleted_state s = s\<lparr>st_status := Deleted, st_reviewMode := not_addressable (st_reviewMode s)\<rparr>"

definition revived_state :: "task_state \<Rightarrow> task_state" where
  "revived_state s = (forget_outcome s)\<lparr>st_status := (if plan_active s then Planning else Stopped),
     st_planMode := plan_not_ready (st_planMode s)\<rparr>"

definition stored_as :: "task \<Rightarrow> task_state \<Rightarrow> task" where
  "stored_as t s = \<lparr>task_config = task_config t, task_state = updated_state (task_state t) s\<rparr>"

lemma delete_stores:
  assumes ok: "db_ok (lc_db c)" and t: "loadTaskForUser (lc_db c) u i = Inr (Some t)"
  shows "\<exists>d c'. deleteTaskImpl u now chat i c = (Inr (True, d), c') \<and> db_ok (lc_db c')
    \<and> loadTaskForUser (lc_db c') u i = Inr (Some (stored_as t (deleted_state (task_state t))))
    \<and> (\<forall>j. j \<noteq> i \<longrightarrow> loadTaskForUser (lc_db c') u j = loadTaskForUser (lc_db c) u j)"
proof -
  let ?s = "deleted_state (task_state t)"
  obtain db' where w: "updateTaskOperationalState (lc_db c) u i ?s False now = Inr (True, db')" "db_ok db'"
    "loadTaskForUser db' u i = Inr (Some (stored_as t ?s))"
    "\<And>j. j \<noteq> i \<Longrightarrow> loadTaskForUser db' u j = loadTaskForUser (lc_db c) u j"
    using store.update_some [OF ok t, of ?s now] by (auto simp: deleted_state_def stored_as_def)
  have l: "loadTask u i c = (Inr (Some t), c)" using t by (simp add: loadTask_def reading_def)
  have m: "markTaskDeleted u now t c = (Inr (Some (t\<lparr>task_state := ?s\<rparr>)), c\<lparr>lc_db := db'\<rparr>)"
    using w(1) loaded_id [OF ok t] to_deleted [of "st_status (task_state t)"]
    by (auto simp: markTaskDeleted_def Let_def life_ops assert_move_def assertValidTransition_def save_operational_def
        writing_def deleted_state_def)
  show ?thesis using w(2-4) l m
    by (simp add: deleteTaskImpl_def takeTaskEngineForCleanup_def life_ops)
qed

lemma revive_stores:
  assumes ok: "db_ok (lc_db c)" and t: "loadTaskForUser (lc_db c) u i = Inr (Some t)" and st: "st_status (task_state t) = Deleted"
  shows "\<exists>c'. reviveDeletedTaskLocked u now i c = (Inr TaskSuccess, c') \<and> db_ok (lc_db c')
    \<and> loadTaskForUser (lc_db c') u i = Inr (Some (stored_as t (revived_state (task_state t))))
    \<and> (\<forall>j. j \<noteq> i \<longrightarrow> loadTaskForUser (lc_db c') u j = loadTaskForUser (lc_db c) u j)"
proof -
  let ?s = "revived_state (task_state t)"
  obtain db' where w: "updateTaskOperationalState (lc_db c) u i ?s True now = Inr (True, db')" "db_ok db'"
    "loadTaskForUser db' u i = Inr (Some (stored_as t ?s))"
    "\<And>j. j \<noteq> i \<Longrightarrow> loadTaskForUser db' u j = loadTaskForUser (lc_db c) u j"
    using revival.revive_some [OF ok t, of ?s now] by (auto simp: stored_as_def)
  have l: "loadTask u i c = (Inr (Some t), c)" using t by (simp add: loadTask_def reading_def)
  have "reviveDeletedTaskLocked u now i c = (Inr TaskSuccess, c\<lparr>lc_db := db'\<rparr>)"
    using w(1) l st by (auto simp: reviveDeletedTaskLocked_def Let_def life_ops assert_move_def assertValidTransition_def
        isValidTransition_def save_over_deleted_def writing_def revived_state_def)
  with w show ?thesis by simp
qed

lemma delete_then_revive:
  assumes "db_ok (lc_db c)" "loadTaskForUser (lc_db c) u i = Inr (Some t)"
  shows "\<exists>d c1 c2 t'. deleteTaskImpl u now chat i c = (Inr (True, d), c1)
    \<and> reviveDeletedTaskLocked u later i c1 = (Inr TaskSuccess, c2)
    \<and> loadTaskForUser (lc_db c2) u i = Inr (Some t')
    \<and> task_config t' = task_config t
    \<and> st_status (task_state t') = (if plan_active (task_state t) then Planning else Stopped)
    \<and> st_git (task_state t') = st_git (task_state t) \<and> st_messages (task_state t') = st_messages (task_state t)
    \<and> st_pendingPrompt (task_state t') = st_pendingPrompt (task_state t)
    \<and> st_completedAt (task_state t') = None \<and> st_error (task_state t') = None
    \<and> (\<forall>j. j \<noteq> i \<longrightarrow> loadTaskForUser (lc_db c2) u j = loadTaskForUser (lc_db c) u j)"
proof -
  obtain d c1 where d: "deleteTaskImpl u now chat i c = (Inr (True, d), c1)" "db_ok (lc_db c1)"
    "loadTaskForUser (lc_db c1) u i = Inr (Some (stored_as t (deleted_state (task_state t))))"
    "\<And>j. j \<noteq> i \<Longrightarrow> loadTaskForUser (lc_db c1) u j = loadTaskForUser (lc_db c) u j"
    using delete_stores [OF assms, of now chat] by blast
  have "st_status (task_state (stored_as t (deleted_state (task_state t)))) = Deleted"
    by (simp add: stored_as_def deleted_state_def)
  from revive_stores [OF d(2,3) this, of later] obtain c2 where r:
    "reviveDeletedTaskLocked u later i c1 = (Inr TaskSuccess, c2)"
    "loadTaskForUser (lc_db c2) u i = Inr (Some (stored_as (stored_as t (deleted_state (task_state t)))
        (revived_state (task_state (stored_as t (deleted_state (task_state t)))))))"
    "\<And>j. j \<noteq> i \<Longrightarrow> loadTaskForUser (lc_db c2) u j = loadTaskForUser (lc_db c1) u j"
    by blast
  show ?thesis
    by (rule exI [of _ d], rule exI [of _ c1], rule exI [of _ c2], rule exI, intro conjI, rule d(1), rule r(1), rule r(2))
       (use d(4) r(3) in \<open>auto simp: stored_as_def deleted_state_def revived_state_def forget_outcome_def updated_state_def
          plan_active_def no_plan_mode_def split: option.split\<close>)
qed

section \<open>A feedback cycle on an unresolved input\<close>

lemma mutable_cong:
  "st_harness s' = st_harness s \<Longrightarrow> st_pendingInput s' = st_pendingInput s \<Longrightarrow> assertMutable s' = assertMutable s"
  by (simp add: assertMutable_def integrity_invalid_def receipts_def)

lemma feedback_wedged:
  assumes ok: "db_ok (lc_db c)" and t: "loadTaskForUser (lc_db c) u i = Inr (Some t)"
    and st: "st_status (task_state t) = Pushed \<or> st_status (task_state t) = AcceptedLocal"
    and rm: "st_reviewMode (task_state t) = Some rm" "rm_addressable rm" and idle: "\<not> live c i"
    and env: "re_executor env = Inr ()" "working_branch t = Some b"
    and bad: "assertMutable (task_state t) = Inl x"
  shows "\<exists>c'. startFeedbackCycleImpl env u prompt None comment_id atts (Inr ()) i c = (Inl (Coded TaskInputUnresolved), c')
    \<and> stored_status_of c' u i = Some Idle \<and> live c' i \<and> lc_events c' = lc_events c
    \<and> fst (startTaskImpl env u atts i c') = Inl (Coded TaskAlreadyRunning)"
proof -
  define t1 where "t1 = set_task_state (\<lambda>s. s\<lparr>st_reviewMode := Some (rm\<lparr>rm_reviewCycles := rm_reviewCycles rm + 1\<rparr>)\<rparr>) t"
  define t' where "t' = set_task_state (\<lambda>s. (forget_outcome s)\<lparr>st_status := Idle, st_pendingPrompt := None, st_pendingModel := None\<rparr>) t1"
  have s': "st_status (task_state t') = Idle" "st_harness (task_state t') = st_harness (task_state t)"
    "st_pendingInput (task_state t') = st_pendingInput (task_state t)" "st_pendingPrompt (task_state t') = None"
    by (simp_all add: t'_def t1_def forget_outcome_def)
  obtain db' where w: "updateTaskOperationalState (lc_db c) u i (task_state t') False (re_now env) = Inr (True, db')" "db_ok db'"
    "loadTaskForUser db' u i = Inr (Some (stored_as t (task_state t')))"
    using store.update_some [OF ok t, of "task_state t'" "re_now env"] st by (auto simp: stored_as_def)
  define e where "e = new_engine env (plain_engine\<lparr>eo_skipGitSetup := True, eo_attachments := atts\<rparr>) t'"
  have "assertMutable (en_state e) = Inl x"
    using bad mutable_cong [of "en_state e" "task_state t"] s'
    by (simp add: e_def new_engine_def initialize_inputs_def Let_def)
  then have set: "setPendingPrompt (re_uuid env) prompt [] EngineContext e = (Inl (InputFailure x), e)"
    by (simp add: setPendingPrompt_def lift_inputs_def inputs_set_def)
  let ?c = "c\<lparr>lc_db := db', lc_engines := amap_set (amap_set (lc_engines c) i e) i e\<rparr>"
  have start: "startFeedbackEngine env prompt None atts i t' (c\<lparr>lc_db := db'\<rparr>) = (Inl (Coded TaskInputUnresolved), ?c)"
    using set by (simp add: startFeedbackEngine_def life_ops put_engine_def lift_engine_def e_def [symmetric] engine_failure_def)
  have m: "assert_move (st_status (task_state t1)) Idle c = (Inr (), c)"
    using st by (auto simp: t1_def assert_move_def assertValidTransition_def isValidTransition_def)
  have tr: "transitionToFeedbackCycleAndStart env u prompt None atts (Inr ()) i t1 c = (Inl (Coded TaskInputUnresolved), ?c)"
    unfolding transitionToFeedbackCycleAndStart_def Let_def
    using w(1) m start by (simp add: life_ops save_task_state_def save_operational_def writing_def answer_def t'_def)
  have l: "loadTask u i c = (Inr (Some t), c)" using t by (simp add: loadTask_def reading_def)
  have run: "startFeedbackCycleImpl env u prompt None comment_id atts (Inr ()) i c = (Inl (Coded TaskInputUnresolved), ?c)"
    unfolding startFeedbackCycleImpl_def
    using l st rm idle tr env
    by (auto simp: bind_def seq_def unless_live_def start_feedback_cycle_def Let_def t1_def amap_has_iff)
  have "amap_has (lc_engines ?c) i" by (simp add: amap_has_iff)
  moreover have "stored_status_of ?c u i = Some Idle"
    using w(3) s'(1) by (simp add: stored_status_of_def loaded_status_def stored_as_def)
  moreover have "fst (startTaskImpl env u atts i ?c) = Inl (Coded TaskAlreadyRunning)"
    using w(3) by (simp add: startTaskImpl_def life_ops loadTask_def reading_def no_engine_def amap_has_iff stored_as_def)
  ultimately show ?thesis using run by auto
qed

section \<open>Properties\<close>

definition sample_env :: run_env where
  "sample_env = \<lparr>re_now = 7, re_uuid = ''q'', re_native = False, re_stop = (\<lambda>_ _. False), re_text = (\<lambda>_. ''lost''),
     re_worktreesDisabled = False, re_canonical = Inr ''/w'', re_worktreeExists = Inr True, re_executor = Inr (),
     re_dirty = False, re_checkout = Inr (), re_branch = Inl (BackendFailed ''git''), re_planningDirectory = Inr (), re_cleared = True,
     re_reconnect = Inr None\<rparr>"



text \<open>
  C20. Starting a draft is all or nothing, whatever the backend, Git and the file system answer: the lock on the start
  is released; the task is planning with an engine when the call returns, and has no engine and is a draft still, or
  failed, when it throws. It is never left planning with nothing to run the plan.
\<close>

theorem draft_start_all_or_nothing:
  assumes "db_ok (lc_db c)" "stored_status_of c u i = Some Draft" "\<not> live c i" "i \<notin> lc_starting c"
    and "startDraftImpl env u atts i c = (r, c')"
  shows "i \<notin> lc_starting c' \<and> db_ok (lc_db c') \<and> (case r of
     Inr _ \<Rightarrow> stored_status_of c' u i = Some Planning \<and> live c' i
   | Inl _ \<Rightarrow> (stored_status_of c' u i = Some Draft \<or> stored_status_of c' u i = Some Failed) \<and> \<not> live c' i)"
proof -
  have "idle_in u i Draft c" using assms by (simp add: idle_in_def)
  from draft_triple [OF assms(4) this assms(5)] show ?thesis
    by (auto simp: idle_in_def live_in_def split: sum.splits)
qed

theorem draft_start_all_or_nothing_witness:
  "\<exists>r c'. startDraftImpl sample_env ''u'' [] ''t'' (sample_lifecycle Draft []) = (r, c')
     \<and> ''t'' \<notin> lc_starting c' \<and> stored_status_of c' ''u'' ''t'' \<noteq> Some Running"
proof -
  obtain r c' where r: "startDraftImpl sample_env ''u'' [] ''t'' (sample_lifecycle Draft []) = (r, c')"
    by (cases "startDraftImpl sample_env ''u'' [] ''t'' (sample_lifecycle Draft [])")
  have "\<not> live (sample_lifecycle Draft []) ''t''" "''t'' \<notin> lc_starting (sample_lifecycle Draft [])"
    by (simp_all add: sample_lifecycle_def)
  from draft_start_all_or_nothing [OF sample_lifecycle_ok(1) sample_status this r]
  show ?thesis using r by (cases r) auto
qed

text \<open>
  C21. Deleting a stored task and reviving it later succeeds, and brings back the task with its configuration, its Git
  state, its messages and its queued prompt; it is planning when its plan mode was active and stopped otherwise, with
  no outcome, and no other task has changed.
\<close>

theorem deleted_task_comes_back:
  assumes "db_ok (lc_db c)" "loadTaskForUser (lc_db c) u i = Inr (Some t)"
  shows "\<exists>d c1 c2 t'. deleteTaskImpl u now chat i c = (Inr (True, d), c1)
    \<and> reviveDeletedTaskLocked u later i c1 = (Inr TaskSuccess, c2)
    \<and> loadTaskForUser (lc_db c2) u i = Inr (Some t')
    \<and> task_config t' = task_config t
    \<and> st_status (task_state t') = (if plan_active (task_state t) then Planning else Stopped)
    \<and> st_git (task_state t') = st_git (task_state t) \<and> st_messages (task_state t') = st_messages (task_state t)
    \<and> st_pendingPrompt (task_state t') = st_pendingPrompt (task_state t)
    \<and> st_completedAt (task_state t') = None \<and> st_error (task_state t') = None
    \<and> (\<forall>j. j \<noteq> i \<longrightarrow> loadTaskForUser (lc_db c2) u j = loadTaskForUser (lc_db c) u j)"
  by (rule delete_then_revive [OF assms])

text \<open>A stored task whose harness record was found broken.\<close>

definition broken_task :: task where
  "broken_task = set_task_state (\<lambda>s. s\<lparr>st_harness := Some invalid_harness,
     st_reviewMode := Some \<lparr>rm_addressable = True, rm_completionAction = ActionPush, rm_reviewCycles = 0\<rparr>\<rparr>) (sample_task ''t'' Pushed)"

definition broken_lifecycle :: lifecycle where
  "broken_lifecycle = \<lparr>lc_db = empty_db\<lparr>tdb_rows := [(''t'', set_columns default_row (taskToRow ''u'' broken_task))]\<rparr>,
     lc_engines = [], lc_accepting = {}, lc_starting = {}, lc_events = []\<rparr>"

lemma listed_written:
  "task_list_columns db u i (set_columns r (taskToRow u t))
     = set_columns (r(Col_last_user_message_at := last_user_message (tdb_transcripts db) i u,
         Col_collaboration_creator_json := collaborationCreatorProjection db u i (set_columns r (taskToRow u t)))) (taskToRow u t)"
proof -
  have "map_of (taskToRow u t) Col_last_user_message_at = None" "map_of (taskToRow u t) Col_collaboration_creator_json = None"
    by (simp_all add: taskToRow_def Let_def)
  then show ?thesis by (auto simp: task_list_columns_def set_columns_def fun_eq_iff split: option.split)
qed

lemma broken_loaded:
  "db_ok (lc_db broken_lifecycle)"
  "\<exists>t. loadTaskForUser (lc_db broken_lifecycle) ''u'' ''t'' = Inr (Some t) \<and> st_status (task_state t) = Pushed
    \<and> st_reviewMode (task_state t) = st_reviewMode (task_state broken_task)
    \<and> st_harness (task_state t) = Some invalid_harness \<and> st_git (task_state t) = Some sample_git"
proof -
  show "db_ok (lc_db broken_lifecycle)"
    by (simp add: broken_lifecycle_def db_ok_def amap_wf_def readable_written broken_task_def set_task_state_def sample_task_def sample_config_def)
  have "select_task (lc_db broken_lifecycle) ''u'' ''t'' = Some (task_list_columns (lc_db broken_lifecycle) ''u'' ''t''
      (set_columns default_row (taskToRow ''u'' broken_task)))"
    by (simp add: select_task_def broken_lifecycle_def amap_get_def)
  then show "\<exists>t. loadTaskForUser (lc_db broken_lifecycle) ''u'' ''t'' = Inr (Some t) \<and> st_status (task_state t) = Pushed
    \<and> st_reviewMode (task_state t) = st_reviewMode (task_state broken_task)
    \<and> st_harness (task_state t) = Some invalid_harness \<and> st_git (task_state t) = Some sample_git"
    by (simp add: loadTaskForUser_def listed_written rowToTask_written with_transcript_def stored_state_def broken_task_def
        sample_task_def)
qed

theorem deleted_task_comes_back_witness:
  "\<exists>d c1 c2 t'. deleteTaskImpl ''u'' 7 True ''t'' broken_lifecycle = (Inr (True, d), c1)
    \<and> reviveDeletedTaskLocked ''u'' 9 ''t'' c1 = (Inr TaskSuccess, c2)
    \<and> loadTaskForUser (lc_db c2) ''u'' ''t'' = Inr (Some t') \<and> st_git (task_state t') = Some sample_git"
proof -
  obtain t where t: "loadTaskForUser (lc_db broken_lifecycle) ''u'' ''t'' = Inr (Some t)" "st_git (task_state t) = Some sample_git"
    using broken_loaded(2) by blast
  from deleted_task_comes_back [OF broken_loaded(1) t(1), of 7 True 9] t(2) show ?thesis by fastforce
qed

text \<open>
  C22. Review feedback on a task whose stored input cannot be changed (its harness record is broken, or the backend
  already has its queued prompt) does not end in a refusal: the call throws, the task is idle, an engine that was never
  started stays in the map, and every later start of the task is refused because it runs already.
\<close>

theorem feedback_on_unresolved_input_wedges:
  assumes "db_ok (lc_db c)" "loadTaskForUser (lc_db c) u i = Inr (Some t)"
    and "st_status (task_state t) = Pushed \<or> st_status (task_state t) = AcceptedLocal"
    and "st_reviewMode (task_state t) = Some rm" "rm_addressable rm" "\<not> live c i"
    and "re_executor env = Inr ()" "working_branch t = Some b" "assertMutable (task_state t) = Inl x"
  shows "\<exists>c'. startFeedbackCycleImpl env u prompt None comment_id atts (Inr ()) i c = (Inl (Coded TaskInputUnresolved), c')
    \<and> stored_status_of c' u i = Some Idle \<and> live c' i \<and> lc_events c' = lc_events c
    \<and> fst (startTaskImpl env u atts i c') = Inl (Coded TaskAlreadyRunning)"
  by (rule feedback_wedged [OF assms])

theorem feedback_on_unresolved_input_wedges_witness:
  "\<exists>c'. startFeedbackCycleImpl sample_env ''u'' ''fix it'' None None [] (Inr ()) ''t'' broken_lifecycle = (Inl (Coded TaskInputUnresolved), c')
    \<and> stored_status_of c' ''u'' ''t'' = Some Idle \<and> live c' ''t''"
proof -
  obtain t where t: "loadTaskForUser (lc_db broken_lifecycle) ''u'' ''t'' = Inr (Some t)" "st_status (task_state t) = Pushed"
    "st_reviewMode (task_state t) = st_reviewMode (task_state broken_task)"
    "st_harness (task_state t) = Some invalid_harness" "st_git (task_state t) = Some sample_git"
    using broken_loaded(2) by blast
  have "st_reviewMode (task_state t) = Some \<lparr>rm_addressable = True, rm_completionAction = ActionPush, rm_reviewCycles = 0\<rparr>"
    using t(3) by (simp add: broken_task_def)
  moreover have "working_branch t = Some (workingBranch sample_git)"
    using t(5) by (simp add: working_branch_def sample_git_def branch_of_def)
  moreover have "assertMutable (task_state t) = Inl InputUnresolved"
    using t(4) by (simp add: assertMutable_def integrity_invalid_def invalid_harness_def)
  moreover have "re_executor sample_env = Inr ()" by (simp add: sample_env_def)
  moreover have "\<not> live broken_lifecycle ''t''" by (simp add: broken_lifecycle_def)
  ultimately show ?thesis
    using feedback_on_unresolved_input_wedges [OF broken_loaded(1) t(1), of _ sample_env _ InputUnresolved "''fix it''" None "[]"] t(2)
    by fastforce
qed

end
