(* ===== verification/AccountStore.thy ===== *)
theory AccountStore
  imports Prelude
begin

text \<open>
  The account store on SQLite (\<open>src/persistence/accounts/sqlite-store.ts\<close>, with the records of
  \<open>src/platform/server/auth/store.ts\<close>): users, setup links, passkeys, API keys, device authorization requests,
  refresh sessions, the signing key, preferences and the audit log.

  A table is the list of its rows in insertion order. A statement that breaks a \<open>UNIQUE\<close> or \<open>FOREIGN KEY\<close>
  clause throws, and a transaction that throws leaves the database as it was. Times are ISO texts of one
  length in the database, whose order is the order of the times, so a time is a number here.
\<close>

section \<open>Rows\<close>

datatype user_role = RoleOwner | RoleAdmin | RoleUser

record user_row =
  us_id :: ident
  us_username :: string
  us_role :: user_role
  us_authVersion :: nat
  us_createdAt :: timestamp
  us_updatedAt :: timestamp
  us_lastLoginAt :: "timestamp option"
  us_disabledAt :: "timestamp option"

record user_record = user_row +
  us_passkeyConfigured :: bool

datatype link_kind = LinkInvite | LinkReset | LinkOwnerReset

record setup_link =
  sl_id :: ident
  sl_userId :: ident
  sl_tokenHash :: string
  sl_kind :: link_kind
  sl_createdByUserId :: "ident option"
  sl_createdAt :: timestamp
  sl_expiresAt :: timestamp
  sl_consumedAt :: "timestamp option"

record audit_event =
  au_id :: ident
  au_eventType :: string
  au_actorUserId :: "ident option"
  au_targetUserId :: "ident option"
  au_metadata :: string
  au_createdAt :: timestamp

record passkey =
  pk_id :: ident
  pk_userId :: ident
  pk_name :: string
  pk_credentialId :: string
  pk_publicKey :: string
  pk_counter :: nat
  pk_deviceType :: string
  pk_backedUp :: bool
  pk_transports :: "string list"
  pk_createdAt :: timestamp
  pk_updatedAt :: timestamp
  pk_lastUsedAt :: "timestamp option"

datatype api_key_kind = UserKey | ManagedKey

record api_key =
  ak_id :: ident
  ak_userId :: ident
  ak_name :: string
  ak_prefix :: string
  ak_tokenHash :: string
  ak_scopes :: "string list"
  ak_createdAt :: timestamp
  ak_lastUsedAt :: "timestamp option"
  ak_expiresAt :: "timestamp option"
  ak_kind :: api_key_kind
  ak_managedBy :: "string option"

datatype device_status = DevicePending | DeviceApproved | DeviceDenied | DeviceConsumed

record device_request =
  dv_deviceCodeHash :: string
  dv_userCode :: string
  dv_clientId :: string
  dv_scope :: string
  dv_status :: device_status
  dv_approvedByUserId :: "ident option"
  dv_createdAt :: timestamp
  dv_updatedAt :: timestamp
  dv_expiresAt :: timestamp

record signing_key =
  sk_alg :: string
  sk_kid :: string
  sk_publicJwk :: string
  sk_privateJwk :: string
  sk_createdAt :: timestamp

record refresh_session =
  rs_id :: ident
  rs_userId :: ident
  rs_familyId :: ident
  rs_clientId :: string
  rs_scope :: string
  rs_refreshTokenHash :: string
  rs_createdAt :: timestamp
  rs_updatedAt :: timestamp
  rs_expiresAt :: timestamp
  rs_lastUsedAt :: "timestamp option"
  rs_revokedAt :: "timestamp option"

text \<open>\<open>ac_preferences\<close> is keyed by the preference and the user, who is empty for a global one.\<close>

record account_db =
  ac_users :: "user_row list"
  ac_preferences :: "(string \<times> ident, string) amap"
  ac_links :: "setup_link list"
  ac_audit :: "audit_event list"
  ac_passkeys :: "passkey list"
  ac_keys :: "api_key list"
  ac_devices :: "device_request list"
  ac_signing :: "signing_key list"
  ac_sessions :: "refresh_session list"

section \<open>Statements\<close>

datatype sql_error = UniqueViolation | ForeignKeyViolation

type_synonym 'a acct = "(account_db, sql_error, 'a) op"

definition update_where :: "('r \<Rightarrow> bool) \<Rightarrow> ('r \<Rightarrow> 'r) \<Rightarrow> 'r list \<Rightarrow> 'r list" where
  "update_where P f rs = map (\<lambda>r. if P r then f r else r) rs"

definition delete_where :: "('r \<Rightarrow> bool) \<Rightarrow> 'r list \<Rightarrow> 'r list" where
  "delete_where P rs = filter (\<lambda>r. \<not> P r) rs"

definition immediateTransaction :: "'a acct \<Rightarrow> 'a acct" where
  "immediateTransaction m db = (case m db of (Inl x, _) \<Rightarrow> (Inl x, db) | (Inr y, db') \<Rightarrow> (Inr y, db'))"

definition has_user :: "account_db \<Rightarrow> ident \<Rightarrow> bool" where
  "has_user db i = list_ex (\<lambda>u. us_id u = i) (ac_users db)"

definition refers_to_user :: "account_db \<Rightarrow> ident option \<Rightarrow> bool" where
  "refers_to_user db i = (case i of None \<Rightarrow> True | Some u \<Rightarrow> has_user db u)"

text \<open>\<open>optionalText\<close>: an empty text reads as absent.\<close>

definition optionalText :: "string option \<Rightarrow> string option" where
  "optionalText v = (case v of Some (c # s) \<Rightarrow> Some (c # s) | _ \<Rightarrow> None)"

section \<open>Preferences\<close>

definition getPreference :: "account_db \<Rightarrow> string \<Rightarrow> ident option \<Rightarrow> string option" where
  "getPreference db k u = optionalText (amap_get (ac_preferences db) (k, case u of Some i \<Rightarrow> i | None \<Rightarrow> []))"

definition setPreference :: "string \<Rightarrow> string \<Rightarrow> ident option \<Rightarrow> account_db \<Rightarrow> account_db" where
  "setPreference k v u db = db\<lparr>ac_preferences := amap_set (ac_preferences db) (k, case u of Some i \<Rightarrow> i | None \<Rightarrow> []) v\<rparr>"

definition deletePreference :: "string \<Rightarrow> ident option \<Rightarrow> account_db \<Rightarrow> account_db" where
  "deletePreference k u db = db\<lparr>ac_preferences := amap_delete (ac_preferences db) (k, case u of Some i \<Rightarrow> i | None \<Rightarrow> [])\<rparr>"

definition getServerLogsEnabledPreference :: "account_db \<Rightarrow> bool option" where
  "getServerLogsEnabledPreference db = (let v = getPreference db ''serverLogsEnabled'' None in
     if v = Some ''true'' then Some True else if v = Some ''false'' then Some False else None)"

definition setServerLogsEnabledPreference :: "bool \<Rightarrow> account_db \<Rightarrow> account_db" where
  "setServerLogsEnabledPreference b = setPreference ''serverLogsEnabled'' (if b then ''true'' else ''false'') None"

section \<open>Users\<close>

text \<open>\<open>userSelect\<close>: a row of the users with the passkey joined to it.\<close>

definition mapUser :: "account_db \<Rightarrow> user_row \<Rightarrow> user_record" where
  "mapUser db r = \<lparr>us_id = us_id r, us_username = us_username r, us_role = us_role r, us_authVersion = us_authVersion r,
     us_createdAt = us_createdAt r, us_updatedAt = us_updatedAt r, us_lastLoginAt = us_lastLoginAt r,
     us_disabledAt = us_disabledAt r, us_passkeyConfigured = list_ex (\<lambda>p. pk_userId p = us_id r) (ac_passkeys db)\<rparr>"

definition getUserById :: "account_db \<Rightarrow> ident \<Rightarrow> user_record option" where
  "getUserById db i = map_option (mapUser db) (find (\<lambda>u. us_id u = i) (ac_users db))"

text \<open>SQLite's \<open>lower\<close> changes the ASCII letters only.\<close>

definition sql_lower :: "string \<Rightarrow> string" where
  "sql_lower = map (\<lambda>c. if 65 \<le> (of_char c :: nat) \<and> (of_char c :: nat) \<le> 90 then char_of ((of_char c :: nat) + 32) else c)"

definition getUserByUsername :: "account_db \<Rightarrow> string \<Rightarrow> user_record option" where
  "getUserByUsername db n = map_option (mapUser db) (find (\<lambda>u. sql_lower (us_username u) = sql_lower n) (ac_users db))"

definition countUsers :: "account_db \<Rightarrow> nat" where
  "countUsers db = length (ac_users db)"

definition listUsers :: "account_db \<Rightarrow> user_record list" where
  "listUsers db = map (mapUser db) (sort_key us_createdAt (ac_users db))"

definition getOwnerUser :: "account_db \<Rightarrow> user_record option" where
  "getOwnerUser db = (case sort_key us_createdAt (filter (\<lambda>u. us_role u = RoleOwner) (ac_users db)) of
     [] \<Rightarrow> None | u # _ \<Rightarrow> Some (mapUser db u))"

definition createUser :: "user_row \<Rightarrow> unit acct" where
  "createUser u db =
     (if list_ex (\<lambda>v. us_id v = us_id u \<or> us_username v = us_username u) (ac_users db) then (Inl UniqueViolation, db)
      else (Inr (), db\<lparr>ac_users := ac_users db @ [u]\<rparr>))"

definition update_user :: "ident \<Rightarrow> (user_row \<Rightarrow> user_row) \<Rightarrow> account_db \<Rightarrow> account_db" where
  "update_user i f db = db\<lparr>ac_users := update_where (\<lambda>u. us_id u = i) f (ac_users db)\<rparr>"

definition setUserRole :: "ident \<Rightarrow> user_role \<Rightarrow> timestamp \<Rightarrow> account_db \<Rightarrow> bool \<times> account_db" where
  "setUserRole i r now db = (has_user db i, update_user i (\<lambda>u. u\<lparr>us_role := r, us_updatedAt := now\<rparr>) db)"

definition markUserLogin :: "ident \<Rightarrow> timestamp \<Rightarrow> account_db \<Rightarrow> account_db" where
  "markUserLogin i now = update_user i (\<lambda>u. u\<lparr>us_lastLoginAt := Some now, us_updatedAt := now\<rparr>)"

definition incrementUserAuthVersion :: "ident \<Rightarrow> timestamp \<Rightarrow> account_db \<Rightarrow> account_db" where
  "incrementUserAuthVersion i now = update_user i (\<lambda>u. u\<lparr>us_authVersion := us_authVersion u + 1, us_updatedAt := now\<rparr>)"

text \<open>\<open>ON DELETE CASCADE\<close> and \<open>ON DELETE SET NULL\<close>.\<close>

definition forget_user :: "ident \<Rightarrow> ident option \<Rightarrow> ident option" where
  "forget_user i v = (if v = Some i then None else v)"

definition cascade_user :: "ident \<Rightarrow> account_db \<Rightarrow> account_db" where
  "cascade_user i db = db\<lparr>
     ac_users := delete_where (\<lambda>u. us_id u = i) (ac_users db),
     ac_links := map (\<lambda>l. l\<lparr>sl_createdByUserId := forget_user i (sl_createdByUserId l)\<rparr>)
                   (delete_where (\<lambda>l. sl_userId l = i) (ac_links db)),
     ac_audit := map (\<lambda>a. a\<lparr>au_actorUserId := forget_user i (au_actorUserId a),
                            au_targetUserId := forget_user i (au_targetUserId a)\<rparr>) (ac_audit db),
     ac_passkeys := delete_where (\<lambda>p. pk_userId p = i) (ac_passkeys db),
     ac_keys := delete_where (\<lambda>k. ak_userId k = i) (ac_keys db),
     ac_devices := map (\<lambda>d. d\<lparr>dv_approvedByUserId := forget_user i (dv_approvedByUserId d)\<rparr>) (ac_devices db),
     ac_sessions := delete_where (\<lambda>s. rs_userId s = i) (ac_sessions db)\<rparr>"

definition deleteUser :: "ident \<Rightarrow> account_db \<Rightarrow> bool \<times> account_db" where
  "deleteUser i db = (if list_ex (\<lambda>u. us_id u = i \<and> us_role u \<noteq> RoleOwner) (ac_users db) then (True, cascade_user i db)
     else (False, db))"

section \<open>Setup links, audit and passkeys\<close>

definition createSetupLink :: "setup_link \<Rightarrow> unit acct" where
  "createSetupLink l db =
     (if list_ex (\<lambda>k. sl_id k = sl_id l \<or> sl_tokenHash k = sl_tokenHash l) (ac_links db) then (Inl UniqueViolation, db)
      else if \<not> has_user db (sl_userId l) \<or> \<not> refers_to_user db (sl_createdByUserId l) then (Inl ForeignKeyViolation, db)
      else (Inr (), db\<lparr>ac_links := ac_links db @ [l]\<rparr>))"

definition getSetupLinkByTokenHash :: "account_db \<Rightarrow> string \<Rightarrow> setup_link option" where
  "getSetupLinkByTokenHash db h = find (\<lambda>l. sl_tokenHash l = h) (ac_links db)"

definition deletePendingSetupLinksForUser :: "ident \<Rightarrow> timestamp \<Rightarrow> account_db \<Rightarrow> account_db" where
  "deletePendingSetupLinksForUser i now db = db\<lparr>ac_links :=
     update_where (\<lambda>l. sl_userId l = i \<and> sl_consumedAt l = None) (\<lambda>l. l\<lparr>sl_consumedAt := Some now\<rparr>) (ac_links db)\<rparr>"

definition saveAuditEvent :: "audit_event \<Rightarrow> unit acct" where
  "saveAuditEvent a db =
     (if list_ex (\<lambda>b. au_id b = au_id a) (ac_audit db) then (Inl UniqueViolation, db)
      else if \<not> refers_to_user db (au_actorUserId a) \<or> \<not> refers_to_user db (au_targetUserId a) then (Inl ForeignKeyViolation, db)
      else (Inr (), db\<lparr>ac_audit := ac_audit db @ [a]\<rparr>))"

definition listAuditEvents :: "account_db \<Rightarrow> nat \<Rightarrow> audit_event list" where
  "listAuditEvents db n = take n (rev (sort_key au_createdAt (ac_audit db)))"

definition listPasskeys :: "account_db \<Rightarrow> ident option \<Rightarrow> passkey list" where
  "listPasskeys db u = sort_key pk_createdAt
     (filter (\<lambda>p. case u of Some i \<Rightarrow> i = [] \<or> pk_userId p = i | None \<Rightarrow> True) (ac_passkeys db))"

definition getPasskeyByUserId :: "account_db \<Rightarrow> ident \<Rightarrow> passkey option" where
  "getPasskeyByUserId db i = find (\<lambda>p. pk_userId p = i) (ac_passkeys db)"

definition getPasskeyByCredentialId :: "account_db \<Rightarrow> string \<Rightarrow> passkey option" where
  "getPasskeyByCredentialId db i = find (\<lambda>p. pk_credentialId p = i) (ac_passkeys db)"

text \<open>
  \<open>ON CONFLICT(user_id) DO UPDATE\<close>: the passkey of the user is replaced, its creation time is kept; a
  clash with the identifier or the credential of another user's passkey throws.
\<close>

definition savePasskeyRecord :: "passkey \<Rightarrow> unit acct" where
  "savePasskeyRecord p db =
     (if list_ex (\<lambda>q. pk_userId q \<noteq> pk_userId p \<and> (pk_id q = pk_id p \<or> pk_credentialId q = pk_credentialId p)) (ac_passkeys db)
      then (Inl UniqueViolation, db)
      else if \<not> has_user db (pk_userId p) then (Inl ForeignKeyViolation, db)
      else (Inr (), db\<lparr>ac_passkeys :=
        if list_ex (\<lambda>q. pk_userId q = pk_userId p) (ac_passkeys db)
        then update_where (\<lambda>q. pk_userId q = pk_userId p) (\<lambda>q. p\<lparr>pk_createdAt := pk_createdAt q\<rparr>) (ac_passkeys db)
        else ac_passkeys db @ [p]\<rparr>))"

definition passkeyCredentialOwner :: "account_db \<Rightarrow> string \<Rightarrow> ident option" where
  "passkeyCredentialOwner db c = optionalText (map_option pk_userId (getPasskeyByCredentialId db c))"

definition credential_taken :: "account_db \<Rightarrow> passkey \<Rightarrow> bool" where
  "credential_taken db p = (case passkeyCredentialOwner db (pk_credentialId p) of None \<Rightarrow> False | Some o' \<Rightarrow> o' \<noteq> pk_userId p)"

datatype passkey_result = PasskeySaved user_record | PasskeyMissingUser | PasskeyCredentialConflict | PasskeyConflict

definition read_user :: "ident \<Rightarrow> 'a \<Rightarrow> (user_record \<Rightarrow> 'a) \<Rightarrow> 'a acct" where
  "read_user i none some db = (case getUserById db i of None \<Rightarrow> (Inr none, db) | Some u \<Rightarrow> (Inr (some u), db))"

definition savePasskeyAndIncrementUserAuthVersion :: "passkey \<Rightarrow> timestamp \<Rightarrow> passkey_result acct" where
  "savePasskeyAndIncrementUserAuthVersion p now = immediateTransaction (\<lambda>db.
     if \<not> has_user db (pk_userId p) then (Inr PasskeyMissingUser, db)
     else if credential_taken db p then (Inr PasskeyCredentialConflict, db)
     else seq (savePasskeyRecord p) (seq (modify (incrementUserAuthVersion (pk_userId p) now))
       (read_user (pk_userId p) PasskeyConflict PasskeySaved)) db)"

definition updatePasskeyUsage :: "string \<Rightarrow> nat \<Rightarrow> timestamp \<Rightarrow> account_db \<Rightarrow> account_db" where
  "updatePasskeyUsage c n now db = db\<lparr>ac_passkeys := update_where (\<lambda>p. pk_credentialId p = c)
     (\<lambda>p. p\<lparr>pk_counter := n, pk_lastUsedAt := Some now, pk_updatedAt := now\<rparr>) (ac_passkeys db)\<rparr>"

definition deletePasskeysForUser :: "ident \<Rightarrow> account_db \<Rightarrow> account_db" where
  "deletePasskeysForUser i db = db\<lparr>ac_passkeys := delete_where (\<lambda>p. pk_userId p = i) (ac_passkeys db)\<rparr>"

datatype link_result = LinkCompleted setup_link user_record | LinkNotFound | LinkExpired | LinkConsumed | LinkUserMismatch | LinkConflict

text \<open>
  Within the transaction the claim of the link cannot miss: it was read as unconsumed and unexpired.
\<close>

definition completeSetupLink :: "string \<Rightarrow> ident \<Rightarrow> passkey \<Rightarrow> timestamp \<Rightarrow> link_result acct" where
  "completeSetupLink h u p now = immediateTransaction (\<lambda>db. case getSetupLinkByTokenHash db h of
     None \<Rightarrow> (Inr LinkNotFound, db)
   | Some l \<Rightarrow>
       if sl_consumedAt l \<noteq> None then (Inr LinkConsumed, db)
       else if sl_expiresAt l \<le> now then (Inr LinkExpired, db)
       else if sl_userId l \<noteq> u \<or> pk_userId p \<noteq> sl_userId l then (Inr LinkUserMismatch, db)
       else if \<not> has_user db (sl_userId l) then (Inr LinkNotFound, db)
       else if credential_taken db p then (Inr LinkConflict, db)
       else seq (modify (\<lambda>d. d\<lparr>ac_links := update_where
             (\<lambda>k. sl_tokenHash k = h \<and> sl_consumedAt k = None \<and> now < sl_expiresAt k) (\<lambda>k. k\<lparr>sl_consumedAt := Some now\<rparr>) (ac_links d)\<rparr>))
         (seq (savePasskeyRecord p) (seq (modify (incrementUserAuthVersion (sl_userId l) now))
         (read_user (sl_userId l) LinkConflict (LinkCompleted (l\<lparr>sl_consumedAt := Some now\<rparr>))))) db)"

section \<open>API keys\<close>

definition listApiKeys_of :: "account_db \<Rightarrow> ident option \<Rightarrow> api_key list" where
  "listApiKeys_of db u = rev (sort_key ak_createdAt
     (filter (\<lambda>k. case u of Some i \<Rightarrow> i = [] \<or> ak_userId k = i | None \<Rightarrow> True) (ac_keys db)))"

definition getApiKeyByHash :: "account_db \<Rightarrow> string \<Rightarrow> api_key option" where
  "getApiKeyByHash db h = find (\<lambda>k. ak_tokenHash k = h) (ac_keys db)"

definition saveApiKey :: "api_key \<Rightarrow> unit acct" where
  "saveApiKey k db =
     (if list_ex (\<lambda>j. ak_id j = ak_id k \<or> ak_tokenHash j = ak_tokenHash k) (ac_keys db) then (Inl UniqueViolation, db)
      else if \<not> has_user db (ak_userId k) then (Inl ForeignKeyViolation, db)
      else (Inr (), db\<lparr>ac_keys := ac_keys db @ [k]\<rparr>))"

definition touchApiKey :: "ident \<Rightarrow> timestamp \<Rightarrow> account_db \<Rightarrow> account_db" where
  "touchApiKey i now db = db\<lparr>ac_keys := update_where (\<lambda>k. ak_id k = i) (\<lambda>k. k\<lparr>ak_lastUsedAt := Some now\<rparr>) (ac_keys db)\<rparr>"

definition deleteApiKey_of :: "ident \<Rightarrow> ident option \<Rightarrow> account_db \<Rightarrow> bool \<times> account_db" where
  "deleteApiKey_of i u db =
     (let P = (\<lambda>k. ak_id k = i \<and> (case u of Some j \<Rightarrow> j = [] \<or> ak_userId k = j | None \<Rightarrow> True))
      in (list_ex P (ac_keys db), db\<lparr>ac_keys := delete_where P (ac_keys db)\<rparr>))"

definition deleteApiKeysForUser :: "ident \<Rightarrow> account_db \<Rightarrow> account_db" where
  "deleteApiKeysForUser u db = db\<lparr>ac_keys := delete_where (\<lambda>k. ak_userId k = u) (ac_keys db)\<rparr>"

definition deleteExpiredApiKeys :: "timestamp \<Rightarrow> account_db \<Rightarrow> account_db" where
  "deleteExpiredApiKeys now db = db\<lparr>ac_keys :=
     delete_where (\<lambda>k. case ak_expiresAt k of Some t \<Rightarrow> t \<le> now | None \<Rightarrow> False) (ac_keys db)\<rparr>"

section \<open>Device authorization\<close>

definition saveDeviceAuthRequest :: "device_request \<Rightarrow> unit acct" where
  "saveDeviceAuthRequest d db =
     (if list_ex (\<lambda>e. dv_deviceCodeHash e = dv_deviceCodeHash d \<or> dv_userCode e = dv_userCode d) (ac_devices db)
      then (Inl UniqueViolation, db)
      else if \<not> refers_to_user db (dv_approvedByUserId d) then (Inl ForeignKeyViolation, db)
      else (Inr (), db\<lparr>ac_devices := ac_devices db @ [d]\<rparr>))"

definition getDeviceAuthByUserCode :: "account_db \<Rightarrow> string \<Rightarrow> device_request option" where
  "getDeviceAuthByUserCode db c = find (\<lambda>d. dv_userCode d = c) (ac_devices db)"

definition getDeviceAuthByDeviceCodeHash :: "account_db \<Rightarrow> string \<Rightarrow> device_request option" where
  "getDeviceAuthByDeviceCodeHash db h = find (\<lambda>d. dv_deviceCodeHash d = h) (ac_devices db)"

definition deleteExpiredDeviceAuthRequests :: "timestamp \<Rightarrow> account_db \<Rightarrow> account_db" where
  "deleteExpiredDeviceAuthRequests now db = db\<lparr>ac_devices := delete_where (\<lambda>d. dv_expiresAt d \<le> now) (ac_devices db)\<rparr>"

datatype approval_result =
  ApprovalApproved device_request | ApprovalAlready device_request
| ApprovalNotFound | ApprovalExpired | ApprovalDenied | ApprovalConsumed | ApprovalConflict

text \<open>The update of a request that was read as pending and unexpired; the approving user must exist.\<close>

definition approveDeviceAuth :: "string \<Rightarrow> ident \<Rightarrow> timestamp \<Rightarrow> approval_result acct" where
  "approveDeviceAuth code u now = immediateTransaction (\<lambda>db. case getDeviceAuthByUserCode db code of
     None \<Rightarrow> (Inr ApprovalNotFound, db)
   | Some d \<Rightarrow>
       if dv_expiresAt d \<le> now then (Inr ApprovalExpired, db)
       else (case dv_status d of
           DeviceApproved \<Rightarrow> (Inr (if optionalText (dv_approvedByUserId d) = Some u then ApprovalAlready d else ApprovalConflict), db)
         | DeviceDenied \<Rightarrow> (Inr ApprovalDenied, db)
         | DeviceConsumed \<Rightarrow> (Inr ApprovalConsumed, db)
         | DevicePending \<Rightarrow>
             if \<not> has_user db u then (Inl ForeignKeyViolation, db)
             else (Inr (ApprovalApproved (d\<lparr>dv_status := DeviceApproved, dv_approvedByUserId := Some u, dv_updatedAt := now\<rparr>)),
               db\<lparr>ac_devices := update_where (\<lambda>e. dv_userCode e = code \<and> dv_status e = DevicePending \<and> now < dv_expiresAt e)
                 (\<lambda>e. e\<lparr>dv_status := DeviceApproved, dv_approvedByUserId := Some u, dv_updatedAt := now\<rparr>) (ac_devices db)\<rparr>)))"

datatype denial_result =
  DenialDenied device_request | DenialAlready device_request
| DenialNotFound | DenialExpired | DenialApproved | DenialConsumed

definition denyDeviceAuth :: "string \<Rightarrow> timestamp \<Rightarrow> denial_result acct" where
  "denyDeviceAuth code now = immediateTransaction (\<lambda>db. case getDeviceAuthByUserCode db code of
     None \<Rightarrow> (Inr DenialNotFound, db)
   | Some d \<Rightarrow>
       if dv_expiresAt d \<le> now then (Inr DenialExpired, db)
       else (case dv_status d of
           DeviceDenied \<Rightarrow> (Inr (DenialAlready d), db)
         | DeviceApproved \<Rightarrow> (Inr DenialApproved, db)
         | DeviceConsumed \<Rightarrow> (Inr DenialConsumed, db)
         | DevicePending \<Rightarrow> (Inr (DenialDenied (d\<lparr>dv_status := DeviceDenied, dv_updatedAt := now\<rparr>)),
             db\<lparr>ac_devices := update_where (\<lambda>e. dv_userCode e = code \<and> dv_status e = DevicePending \<and> now < dv_expiresAt e)
               (\<lambda>e. e\<lparr>dv_status := DeviceDenied, dv_updatedAt := now\<rparr>) (ac_devices db)\<rparr>)))"

section \<open>Refresh sessions\<close>

definition insert_session :: "refresh_session \<Rightarrow> unit acct" where
  "insert_session s db =
     (if list_ex (\<lambda>x. rs_id x = rs_id s \<or> rs_refreshTokenHash x = rs_refreshTokenHash s) (ac_sessions db)
      then (Inl UniqueViolation, db)
      else if \<not> has_user db (rs_userId s) then (Inl ForeignKeyViolation, db)
      else (Inr (), db\<lparr>ac_sessions := ac_sessions db @ [s]\<rparr>))"

definition saveRefreshSession :: "refresh_session \<Rightarrow> unit acct" where
  "saveRefreshSession = insert_session"

definition getRefreshSession :: "account_db \<Rightarrow> ident \<Rightarrow> ident \<Rightarrow> refresh_session option" where
  "getRefreshSession db i u = find (\<lambda>s. rs_id s = i \<and> rs_userId s = u) (ac_sessions db)"

definition getRefreshSessionByHash :: "account_db \<Rightarrow> string \<Rightarrow> refresh_session option" where
  "getRefreshSessionByHash db h = find (\<lambda>s. rs_refreshTokenHash s = h) (ac_sessions db)"

definition listRefreshSessions :: "account_db \<Rightarrow> ident option \<Rightarrow> refresh_session list" where
  "listRefreshSessions db u = rev (sort_key rs_createdAt
     (filter (\<lambda>s. case u of Some i \<Rightarrow> i = [] \<or> rs_userId s = i | None \<Rightarrow> True) (ac_sessions db)))"

text \<open>\<open>UPDATE webapp_refresh_sessions SET revoked_at = ?, updated_at = ? WHERE \<dots> AND revoked_at IS NULL\<close>.\<close>

definition revoke_where :: "(refresh_session \<Rightarrow> bool) \<Rightarrow> timestamp \<Rightarrow> account_db \<Rightarrow> account_db" where
  "revoke_where P now db = db\<lparr>ac_sessions := update_where (\<lambda>s. P s \<and> rs_revokedAt s = None)
     (\<lambda>s. s\<lparr>rs_revokedAt := Some now, rs_updatedAt := now\<rparr>) (ac_sessions db)\<rparr>"

definition revokeRefreshSession :: "ident \<Rightarrow> timestamp \<Rightarrow> ident option \<Rightarrow> account_db \<Rightarrow> bool \<times> account_db" where
  "revokeRefreshSession i now u db =
     (let P = (\<lambda>s. rs_id s = i \<and> (case u of Some j \<Rightarrow> j = [] \<or> rs_userId s = j | None \<Rightarrow> True))
      in (list_ex (\<lambda>s. P s \<and> rs_revokedAt s = None) (ac_sessions db), revoke_where P now db))"

definition revokeRefreshFamily :: "ident \<Rightarrow> timestamp \<Rightarrow> account_db \<Rightarrow> account_db" where
  "revokeRefreshFamily f = revoke_where (\<lambda>s. rs_familyId s = f)"

definition revokeRefreshSessionsForUser :: "ident \<Rightarrow> timestamp \<Rightarrow> account_db \<Rightarrow> account_db" where
  "revokeRefreshSessionsForUser u = revoke_where (\<lambda>s. rs_userId s = u)"

definition deleteExpiredRefreshSessions :: "timestamp \<Rightarrow> account_db \<Rightarrow> account_db" where
  "deleteExpiredRefreshSessions now db = db\<lparr>ac_sessions := delete_where (\<lambda>s. rs_expiresAt s \<le> now) (ac_sessions db)\<rparr>"

datatype exchange_result =
  Exchanged device_request user_record refresh_session
| ExchangeNotFound | ExchangePending | ExchangeDenied | ExchangeExpired | ExchangeConsumed
| ExchangeClientMismatch | ExchangeMissingUser | ExchangeDisabledUser | ExchangeConflict

text \<open>
  A client identifier or a candidate's user that is absent or empty is not compared. The candidate is a
  session whose user is empty when the request had none.
\<close>

definition differs :: "string option \<Rightarrow> string \<Rightarrow> bool" where
  "differs given x = (case optionalText given of None \<Rightarrow> False | Some y \<Rightarrow> x \<noteq> y)"

definition exchangeDeviceAuth :: "string \<Rightarrow> string option \<Rightarrow> refresh_session \<Rightarrow> timestamp \<Rightarrow> exchange_result acct" where
  "exchangeDeviceAuth h client next now = immediateTransaction (\<lambda>db. case getDeviceAuthByDeviceCodeHash db h of
     None \<Rightarrow> (Inr ExchangeNotFound, db)
   | Some d \<Rightarrow>
       if dv_expiresAt d \<le> now then (Inr ExchangeExpired, db)
       else if differs client (dv_clientId d) then (Inr ExchangeClientMismatch, db)
       else (case dv_status d of
           DevicePending \<Rightarrow> (Inr ExchangePending, db)
         | DeviceDenied \<Rightarrow> (Inr ExchangeDenied, db)
         | DeviceConsumed \<Rightarrow> (Inr ExchangeConsumed, db)
         | DeviceApproved \<Rightarrow> (case optionalText (dv_approvedByUserId d) of
             None \<Rightarrow> (Inr ExchangeConflict, db)
           | Some i \<Rightarrow> (case getUserById db i of
               None \<Rightarrow> (Inr ExchangeMissingUser, db)
             | Some u \<Rightarrow>
                 if us_disabledAt u \<noteq> None then (Inr ExchangeDisabledUser, db)
                 else if differs (Some (rs_userId next)) (us_id u) \<or> rs_clientId next \<noteq> dv_clientId d \<or> rs_scope next \<noteq> dv_scope d
                 then (Inr ExchangeConflict, db)
                 else seq (modify (\<lambda>x. x\<lparr>ac_devices := update_where
                         (\<lambda>e. dv_deviceCodeHash e = h \<and> dv_status e = DeviceApproved \<and> now < dv_expiresAt e)
                         (\<lambda>e. e\<lparr>dv_status := DeviceConsumed, dv_updatedAt := now\<rparr>) (ac_devices x)\<rparr>))
                   (seq (modify (revoke_where (\<lambda>s. rs_userId s = us_id u \<and> rs_clientId s = dv_clientId d \<and> now < rs_expiresAt s) now))
                   (seq (insert_session (next\<lparr>rs_userId := us_id u\<rparr>))
                     (ret (Exchanged (d\<lparr>dv_status := DeviceConsumed, dv_updatedAt := now\<rparr>) u (next\<lparr>rs_userId := us_id u\<rparr>))))) db))))"

datatype rotation_result =
  Rotated refresh_session refresh_session user_record
| RotationNotFound | RotationExpired | RotationClientMismatch | RotationConflict
| RotationReplayed ident ident | RotationDisabledUser ident ident | RotationMissingUser ident ident

definition same_grant :: "refresh_session \<Rightarrow> refresh_session \<Rightarrow> bool" where
  "same_grant a b = (rs_userId a = rs_userId b \<and> rs_familyId a = rs_familyId b \<and> rs_clientId a = rs_clientId b \<and> rs_scope a = rs_scope b)"

definition rotateRefreshSession :: "string \<Rightarrow> refresh_session \<Rightarrow> timestamp \<Rightarrow> string option \<Rightarrow> rotation_result acct" where
  "rotateRefreshSession h next now client = immediateTransaction (\<lambda>db. case getRefreshSessionByHash db h of
     None \<Rightarrow> (Inr RotationNotFound, db)
   | Some p \<Rightarrow>
       let kill = revoke_where (\<lambda>s. rs_familyId s = rs_familyId p) now in
       if rs_revokedAt p \<noteq> None then (Inr (RotationReplayed (rs_familyId p) (rs_userId p)), kill db)
       else if rs_expiresAt p \<le> now then (Inr RotationExpired, db)
       else if differs client (rs_clientId p) then (Inr RotationClientMismatch, db)
       else (case getUserById db (rs_userId p) of
           None \<Rightarrow> (Inr (RotationMissingUser (rs_familyId p) (rs_userId p)), kill db)
         | Some u \<Rightarrow>
             if us_disabledAt u \<noteq> None then (Inr (RotationDisabledUser (rs_familyId p) (rs_userId p)), kill db)
             else if \<not> same_grant next p then (Inr RotationConflict, db)
             else if list_ex (\<lambda>s. rs_id s = rs_id next \<or> rs_refreshTokenHash s = rs_refreshTokenHash next) (ac_sessions db)
             then (Inr RotationConflict, db)
             else seq (modify (revoke_where (\<lambda>s. rs_refreshTokenHash s = h \<and> now < rs_expiresAt s) now))
               (seq (insert_session next) (ret (Rotated p next u))) db))"

section \<open>Signing keys and disabling\<close>

text \<open>The table has at most one active key; only active ones are kept here.\<close>

definition getSigningKey :: "account_db \<Rightarrow> signing_key option" where
  "getSigningKey db = (case ac_signing db of [] \<Rightarrow> None | k # _ \<Rightarrow> Some k)"

definition getOrCreateSigningKey :: "signing_key \<Rightarrow> account_db \<Rightarrow> signing_key \<times> account_db" where
  "getOrCreateSigningKey k db = (case getSigningKey db of
     Some x \<Rightarrow> (x, db) | None \<Rightarrow> (k, db\<lparr>ac_signing := [k]\<rparr>))"

datatype disable_result = UserDisabled user_record | UserAlreadyDisabled user_record | DisableNotFound | DisableOwner | DisableConflict

definition disableUser :: "ident \<Rightarrow> timestamp \<Rightarrow> disable_result acct" where
  "disableUser i now = immediateTransaction (\<lambda>db. case getUserById db i of
     None \<Rightarrow> (Inr DisableNotFound, db)
   | Some u \<Rightarrow>
       if us_role u = RoleOwner then (Inr DisableOwner, db)
       else if us_disabledAt u \<noteq> None then (Inr (UserAlreadyDisabled u), db)
       else seq (modify (update_user i (\<lambda>v. v\<lparr>us_disabledAt := Some now, us_authVersion := us_authVersion v + 1, us_updatedAt := now\<rparr>)))
         (seq (modify (revoke_where (\<lambda>s. rs_userId s = i) now))
         (read_user i DisableConflict UserDisabled)) db)"

end
