(* ===== verification/DeviceAuth.thy ===== *)
theory DeviceAuth
  imports AccountStore "HOL-Library.Word"
begin

text \<open>
  Users, API keys and device authorization over the account store
  (\<open>src/platform/server/auth/users.ts\<close>, \<open>api-keys.ts\<close>, \<open>device-auth.ts\<close>).

  The hash, the signature of access tokens and its verification are arguments: they are the cryptographic
  library's. A random token or identifier is an argument of the function that draws it, and so is the clock,
  which a synchronous function reads once. Texts are ASCII.
\<close>

section \<open>Errors and primitives\<close>

datatype auth_failure = AuthError string nat | StoreFailure sql_error | CryptoFailure

type_synonym 'a auth_op = "(account_db, auth_failure, 'a) op"

definition stored :: "'a acct \<Rightarrow> 'a auth_op" where
  "stored m db = (case m db of (Inl x, db') \<Rightarrow> (Inl (StoreFailure x), db') | (Inr y, db') \<Rightarrow> (Inr y, db'))"

definition reading :: "(account_db \<Rightarrow> 'a) \<Rightarrow> 'a auth_op" where
  "reading f db = (Inr (f db), db)"

definition updating :: "(account_db \<Rightarrow> 'a \<times> account_db) \<Rightarrow> 'a auth_op" where
  "updating f db = (let (x, db') = f db in (Inr x, db'))"

definition addSeconds :: "nat \<Rightarrow> timestamp \<Rightarrow> timestamp" where "addSeconds s now = now + s * 1000"
definition isExpired :: "timestamp \<Rightarrow> timestamp \<Rightarrow> bool" where "isExpired t now = (t \<le> now)"

definition js_space :: "char \<Rightarrow> bool" where
  "js_space c = (let n = (of_char c :: nat) in n = 32 \<or> (9 \<le> n \<and> n \<le> 13))"

definition js_trim :: "string \<Rightarrow> string" where
  "js_trim s = rev (dropWhile js_space (rev (dropWhile js_space s)))"

definition or_default :: "string option \<Rightarrow> string \<Rightarrow> string" where
  "or_default v d = (case optionalText (map_option js_trim v) of Some x \<Rightarrow> x | None \<Rightarrow> d)"

record runtime_config =
  rc_passkeyDisabled :: bool
  rc_envPrefix :: string
  rc_authIssuer :: "string option"

section \<open>Users\<close>

definition normalizeUsername :: "string \<Rightarrow> string" where
  "normalizeUsername n = sql_lower (js_trim n)"

definition username_char :: "char \<Rightarrow> bool" where
  "username_char c = (let n = (of_char c :: nat) in (97 \<le> n \<and> n \<le> 122) \<or> (48 \<le> n \<and> n \<le> 57) \<or> n = 46 \<or> n = 95 \<or> n = 45)"

definition USERNAME_PATTERN :: "string \<Rightarrow> bool" where
  "USERNAME_PATTERN s = (3 \<le> length s \<and> length s \<le> 32 \<and> list_all username_char s)"

definition assertValidUsername :: "string \<Rightarrow> auth_failure + string" where
  "assertValidUsername n = (let m = normalizeUsername n in
     if USERNAME_PATTERN m then Inr m else Inl (AuthError ''invalid_username'' 400))"

record current_user =
  cu_id :: ident
  cu_username :: string
  cu_role :: user_role
  cu_isOwner :: bool
  cu_isAdmin :: bool

definition toCurrentUser :: "'a user_row_scheme \<Rightarrow> current_user" where
  "toCurrentUser u = \<lparr>cu_id = us_id u, cu_username = us_username u, cu_role = us_role u,
     cu_isOwner = (us_role u = RoleOwner), cu_isAdmin = (us_role u = RoleOwner \<or> us_role u = RoleAdmin)\<rparr>"

definition createUserRecord :: "ident \<Rightarrow> timestamp \<Rightarrow> string \<Rightarrow> user_role \<Rightarrow> auth_failure + user_row" where
  "createUserRecord i now n r = (case assertValidUsername n of Inl x \<Rightarrow> Inl x
   | Inr m \<Rightarrow> Inr \<lparr>us_id = i, us_username = m, us_role = r, us_authVersion = 1, us_createdAt = now, us_updatedAt = now,
       us_lastLoginAt = None, us_disabledAt = None\<rparr>)"

definition SETUP_LINK_TTL_SECONDS :: nat where "SETUP_LINK_TTL_SECONDS = 60 * 60 * 24"

definition createSetupLinkRecord :: "(string \<Rightarrow> string) \<Rightarrow> ident \<Rightarrow> timestamp \<Rightarrow> ident \<Rightarrow> string \<Rightarrow> link_kind \<Rightarrow> ident option \<Rightarrow> setup_link" where
  "createSetupLinkRecord sha256 i now u token k by = \<lparr>sl_id = i, sl_userId = u, sl_tokenHash = sha256 token, sl_kind = k,
     sl_createdByUserId = by, sl_createdAt = now, sl_expiresAt = addSeconds SETUP_LINK_TTL_SECONDS now, sl_consumedAt = None\<rparr>"

definition audit :: "ident \<Rightarrow> timestamp \<Rightarrow> string \<Rightarrow> ident option \<Rightarrow> ident option \<Rightarrow> unit auth_op" where
  "audit i now e actor target = stored (saveAuditEvent \<lparr>au_id = i, au_eventType = e, au_actorUserId = actor,
     au_targetUserId = target, au_metadata = ''{}'', au_createdAt = now\<rparr>)"

section \<open>API keys\<close>

record key_summary =
  ks_id :: ident
  ks_name :: string
  ks_prefix :: string
  ks_scopes :: "string list"
  ks_createdAt :: timestamp
  ks_lastUsedAt :: "timestamp option"
  ks_expiresAt :: "timestamp option"

record managed_key_summary = key_summary +
  ks_managedBy :: "string option"

definition summarize :: "api_key \<Rightarrow> key_summary" where
  "summarize k = \<lparr>ks_id = ak_id k, ks_name = ak_name k, ks_prefix = ak_prefix k, ks_scopes = ak_scopes k,
     ks_createdAt = ak_createdAt k, ks_lastUsedAt = ak_lastUsedAt k, ks_expiresAt = ak_expiresAt k\<rparr>"

definition summarizeManaged :: "api_key \<Rightarrow> managed_key_summary" where
  "summarizeManaged k = key_summary.extend (summarize k) (managed_key_summary.fields (ak_managedBy k))"

definition key_expired :: "api_key \<Rightarrow> timestamp \<Rightarrow> bool" where
  "key_expired k now = (case ak_expiresAt k of Some t \<Rightarrow> isExpired t now | None \<Rightarrow> False)"

definition listApiKeys :: "ident \<Rightarrow> timestamp \<Rightarrow> key_summary list auth_op" where
  "listApiKeys u now = seq (modify (deleteExpiredApiKeys now)) (reading (\<lambda>db.
     map summarize (filter (\<lambda>k. \<not> key_expired k now)
       (filter (\<lambda>k. ak_userId k = u \<and> ak_kind k = UserKey) (listApiKeys_of db (Some u))))))"

record key_options =
  ko_name :: "string option"
  ko_scopes :: "string list"
  ko_prefix :: "string option"
  ko_expiresAt :: "timestamp option"

definition createApiKeyRecord ::
    "(string \<Rightarrow> string) \<Rightarrow> ident \<Rightarrow> string \<Rightarrow> timestamp \<Rightarrow> current_user \<Rightarrow> key_options \<Rightarrow> api_key_kind \<Rightarrow> string option \<Rightarrow> api_key \<times> string" where
  "createApiKeyRecord sha256 i rnd now u inp kind by =
     (let prefix = (case ko_prefix inp of Some p \<Rightarrow> p | None \<Rightarrow> ''wapp'');
          token = prefix @ ''_'' @ rnd
      in (\<lparr>ak_id = i, ak_userId = cu_id u, ak_name = or_default (ko_name inp) ''API key'', ak_prefix = prefix,
           ak_tokenHash = sha256 token, ak_scopes = (if ko_scopes inp = [] then [''*''] else ko_scopes inp),
           ak_createdAt = now, ak_lastUsedAt = None, ak_expiresAt = ko_expiresAt inp, ak_kind = kind, ak_managedBy = by\<rparr>, token))"

definition createApiKey ::
    "(string \<Rightarrow> string) \<Rightarrow> ident \<Rightarrow> string \<Rightarrow> timestamp \<Rightarrow> current_user \<Rightarrow> key_options \<Rightarrow> (key_summary \<times> string) auth_op" where
  "createApiKey sha256 i rnd now u inp = (let (k, token) = createApiKeyRecord sha256 i rnd now u inp UserKey None
     in seq (stored (saveApiKey k)) (ret (summarize k, token)))"

definition deleteApiKey :: "ident \<Rightarrow> ident \<Rightarrow> bool auth_op" where
  "deleteApiKey u i db = (case find (\<lambda>k. ak_id k = i \<and> ak_userId k = u) (listApiKeys_of db (Some u)) of
     None \<Rightarrow> (Inr False, db)
   | Some k \<Rightarrow> if ak_kind k \<noteq> UserKey then (Inr False, db) else updating (deleteApiKey_of i (Some u)) db)"

definition createManagedApiKey ::
    "(string \<Rightarrow> string) \<Rightarrow> ident \<Rightarrow> string \<Rightarrow> timestamp \<Rightarrow> current_user \<Rightarrow> key_options \<Rightarrow> string option
      \<Rightarrow> (managed_key_summary \<times> string) auth_op" where
  "createManagedApiKey sha256 i rnd now u inp by = (let (k, token) = createApiKeyRecord sha256 i rnd now u inp ManagedKey by
     in seq (stored (saveApiKey k)) (ret (summarizeManaged k, token)))"

definition listManagedApiKeys :: "ident \<Rightarrow> string option \<Rightarrow> timestamp \<Rightarrow> managed_key_summary list auth_op" where
  "listManagedApiKeys u by now = seq (modify (deleteExpiredApiKeys now)) (reading (\<lambda>db.
     map summarizeManaged (filter (\<lambda>k. \<not> key_expired k now)
       (filter (\<lambda>k. by = None \<or> ak_managedBy k = by)
       (filter (\<lambda>k. ak_userId k = u \<and> ak_kind k = ManagedKey) (listApiKeys_of db (Some u)))))))"

definition revokeManagedApiKey :: "ident \<Rightarrow> ident option \<Rightarrow> bool auth_op" where
  "revokeManagedApiKey i u db =
     (case find (\<lambda>k. ak_id k = i \<and> ak_kind k = ManagedKey \<and> (u = None \<or> Some (ak_userId k) = u)) (listApiKeys_of db u) of
       None \<Rightarrow> (Inr False, db) | Some k \<Rightarrow> updating (deleteApiKey_of i (Some (ak_userId k))) db)"

record key_identity =
  ki_user :: current_user
  ki_apiKeyId :: ident
  ki_scopes :: "string list"

definition authenticateApiKey :: "(string \<Rightarrow> string) \<Rightarrow> string \<Rightarrow> timestamp \<Rightarrow> key_identity option auth_op" where
  "authenticateApiKey sha256 token now db = (case getApiKeyByHash db (sha256 token) of
     None \<Rightarrow> (Inr None, db)
   | Some k \<Rightarrow>
       if ak_tokenHash k \<noteq> sha256 token \<or> key_expired k now
       then (Inr None, if key_expired k now then snd (deleteApiKey_of (ak_id k) None db) else db)
       else (case getUserById db (ak_userId k) of
           None \<Rightarrow> (Inr None, db)
         | Some u \<Rightarrow>
             if us_disabledAt u \<noteq> None then (Inr None, db)
             else (Inr (Some \<lparr>ki_user = toCurrentUser u, ki_apiKeyId = ak_id k, ki_scopes = ak_scopes k\<rparr>),
                   touchApiKey (ak_id k) now db)))"

definition assertScopes :: "string list \<Rightarrow> string list \<Rightarrow> auth_failure + unit" where
  "assertScopes actual required =
     (if ''*'' \<in> set actual then Inr ()
      else if required = [] then Inl (AuthError ''insufficient_scope'' 403)
      else if list_ex (\<lambda>s. s \<notin> set actual) required then Inl (AuthError ''insufficient_scope'' 403)
      else Inr ())"

section \<open>Device codes\<close>

definition ACCESS_TOKEN_TTL_SECONDS :: nat where "ACCESS_TOKEN_TTL_SECONDS = 60 * 10"
definition REFRESH_TOKEN_TTL_SECONDS :: nat where "REFRESH_TOKEN_TTL_SECONDS = 60 * 60 * 24 * 30"
definition DEVICE_CODE_TTL_SECONDS :: nat where "DEVICE_CODE_TTL_SECONDS = 60 * 10"
definition DEVICE_POLL_INTERVAL_SECONDS :: nat where "DEVICE_POLL_INTERVAL_SECONDS = 5"
definition USER_CODE_ALPHABET :: string where "USER_CODE_ALPHABET = ''ABCDEFGHJKLMNPQRSTUVWXYZ23456789''"

text \<open>\<open>generateUserCode\<close> on the eight random bytes it draws.\<close>

definition generateUserCode :: "8 word list \<Rightarrow> string" where
  "generateUserCode bytes =
     (let chars = map (\<lambda>b. USER_CODE_ALPHABET ! (unat b mod length USER_CODE_ALPHABET)) bytes
      in take 4 chars @ ''-'' @ drop 4 chars)"

text \<open>The loop that draws until the code is not in use; \<open>None\<close> when the draws given are used up.\<close>

fun draw_user_code :: "account_db \<Rightarrow> 8 word list list \<Rightarrow> string option" where
  "draw_user_code db [] = None"
| "draw_user_code db (b # bs) =
     (if getDeviceAuthByUserCode db (generateUserCode b) \<noteq> None then draw_user_code db bs else Some (generateUserCode b))"

record verification_details =
  vd_userCode :: string
  vd_clientId :: string
  vd_scope :: string
  vd_status :: device_status
  vd_expiresAt :: timestamp
  vd_passkeyRequired :: bool

definition deviceVerificationDetails :: "device_request \<Rightarrow> bool \<Rightarrow> verification_details" where
  "deviceVerificationDetails d p = \<lparr>vd_userCode = dv_userCode d, vd_clientId = dv_clientId d, vd_scope = dv_scope d,
     vd_status = dv_status d, vd_expiresAt = dv_expiresAt d, vd_passkeyRequired = p\<rparr>"

record device_response =
  dr_device_code :: string
  dr_user_code :: string
  dr_expires_in :: nat
  dr_interval :: nat

definition createDeviceAuthorization ::
    "(string \<Rightarrow> string) \<Rightarrow> runtime_config \<Rightarrow> string \<Rightarrow> 8 word list list \<Rightarrow> timestamp \<Rightarrow> string option \<Rightarrow> string option
      \<Rightarrow> device_response option auth_op" where
  "createDeviceAuthorization sha256 cfg deviceCode draws now client scope =
     seq (modify (deleteExpiredDeviceAuthRequests now))
       (\<lambda>db. case draw_user_code db draws of None \<Rightarrow> (Inr None, db)
        | Some code \<Rightarrow> seq (stored (saveDeviceAuthRequest \<lparr>dv_deviceCodeHash = sha256 deviceCode, dv_userCode = code,
              dv_clientId = or_default client (sql_lower (rc_envPrefix cfg) @ ''-cli''), dv_scope = or_default scope ''*'',
              dv_status = DevicePending, dv_approvedByUserId = None, dv_createdAt = now, dv_updatedAt = now,
              dv_expiresAt = addSeconds DEVICE_CODE_TTL_SECONDS now\<rparr>))
            (ret (Some \<lparr>dr_device_code = deviceCode, dr_user_code = code, dr_expires_in = DEVICE_CODE_TTL_SECONDS,
              dr_interval = DEVICE_POLL_INTERVAL_SECONDS\<rparr>)) db)"

definition getDeviceVerificationDetails :: "account_db \<Rightarrow> string \<Rightarrow> bool \<Rightarrow> timestamp \<Rightarrow> auth_failure + verification_details" where
  "getDeviceVerificationDetails db code p now = (case getDeviceAuthByUserCode db code of
     None \<Rightarrow> Inl (AuthError ''invalid_user_code'' 404)
   | Some d \<Rightarrow> if isExpired (dv_expiresAt d) now then Inl (AuthError ''invalid_user_code'' 404)
       else Inr (deviceVerificationDetails d p))"

definition approveDevice :: "string \<Rightarrow> ident \<Rightarrow> timestamp \<Rightarrow> verification_details auth_op" where
  "approveDevice code u now = bind (stored (approveDeviceAuth code u now)) (\<lambda>r. case r of
     ApprovalApproved d \<Rightarrow> ret (deviceVerificationDetails d False)
   | ApprovalAlready d \<Rightarrow> ret (deviceVerificationDetails d False)
   | ApprovalNotFound \<Rightarrow> throw (AuthError ''invalid_user_code'' 404)
   | ApprovalExpired \<Rightarrow> throw (AuthError ''invalid_user_code'' 404)
   | _ \<Rightarrow> throw (AuthError ''invalid_request'' 400))"

definition denyDevice :: "string \<Rightarrow> timestamp \<Rightarrow> verification_details auth_op" where
  "denyDevice code now = bind (stored (denyDeviceAuth code now)) (\<lambda>r. case r of
     DenialDenied d \<Rightarrow> ret (deviceVerificationDetails d False)
   | DenialAlready d \<Rightarrow> ret (deviceVerificationDetails d False)
   | DenialNotFound \<Rightarrow> throw (AuthError ''invalid_user_code'' 404)
   | DenialExpired \<Rightarrow> throw (AuthError ''invalid_user_code'' 404)
   | _ \<Rightarrow> throw (AuthError ''invalid_request'' 400))"

section \<open>Tokens\<close>

text \<open>The claims of an access token; a claim that is absent or not a text is \<open>None\<close>.\<close>

record jwt =
  jt_sub :: "string option"
  jt_jti :: "string option"
  jt_iss :: "string option"
  jt_aud :: "string option"
  jt_iat :: "timestamp option"
  jt_exp :: "timestamp option"
  jt_sid :: "string option"
  jt_clientId :: "string option"
  jt_scope :: "string option"
  jt_username :: "string option"
  jt_role :: "string option"

record jose =
  jo_sign :: "signing_key \<Rightarrow> jwt \<Rightarrow> string"
  jo_verify :: "signing_key \<Rightarrow> string \<Rightarrow> string \<Rightarrow> timestamp \<Rightarrow> string \<Rightarrow> jwt option"

definition issuer :: "runtime_config \<Rightarrow> string" where
  "issuer cfg = (case optionalText (rc_authIssuer cfg) of Some i \<Rightarrow> i
     | None \<Rightarrow> ''urn:'' @ sql_lower (rc_envPrefix cfg) @ '':webapp'')"

definition audience :: "runtime_config \<Rightarrow> string" where
  "audience cfg = sql_lower (rc_envPrefix cfg) @ ''-api''"

fun role_name :: "user_role \<Rightarrow> string" where
  "role_name RoleOwner = ''owner''" | "role_name RoleAdmin = ''admin''" | "role_name RoleUser = ''user''"

definition getSigningKey_of :: "signing_key \<Rightarrow> signing_key auth_op" where
  "getSigningKey_of fresh db = (case getSigningKey db of Some k \<Rightarrow> (Inr k, db) | None \<Rightarrow> updating (getOrCreateSigningKey fresh) db)"

definition access_claims :: "runtime_config \<Rightarrow> string \<Rightarrow> timestamp \<Rightarrow> refresh_session \<Rightarrow> current_user \<Rightarrow> jwt" where
  "access_claims cfg jti now s u = \<lparr>jt_sub = Some (cu_id u), jt_jti = Some jti, jt_iss = Some (issuer cfg),
     jt_aud = Some (audience cfg), jt_iat = Some now, jt_exp = Some (addSeconds ACCESS_TOKEN_TTL_SECONDS now),
     jt_sid = Some (rs_id s), jt_clientId = Some (rs_clientId s), jt_scope = Some (rs_scope s),
     jt_username = Some (cu_username u), jt_role = Some (role_name (cu_role u))\<rparr>"

record draws =
  dw_token :: string
  dw_id :: ident
  dw_family :: ident
  dw_jti :: string
  dw_key :: signing_key

definition issueAccessToken :: "jose \<Rightarrow> runtime_config \<Rightarrow> draws \<Rightarrow> timestamp \<Rightarrow> refresh_session \<Rightarrow> current_user \<Rightarrow> string auth_op" where
  "issueAccessToken jo cfg dw now s u = bind (getSigningKey_of (dw_key dw)) (\<lambda>k.
     ret (jo_sign jo k (access_claims cfg (dw_jti dw) now s u)))"

record token_response =
  tr_access_token :: string
  tr_refresh_token :: string
  tr_expires_in :: nat
  tr_scope :: string

definition tokenSet :: "string \<Rightarrow> string \<Rightarrow> string \<Rightarrow> token_response" where
  "tokenSet a r s = \<lparr>tr_access_token = a, tr_refresh_token = r, tr_expires_in = ACCESS_TOKEN_TTL_SECONDS, tr_scope = s\<rparr>"

definition createRefreshRecord ::
    "(string \<Rightarrow> string) \<Rightarrow> draws \<Rightarrow> timestamp \<Rightarrow> ident \<Rightarrow> string \<Rightarrow> string \<Rightarrow> ident \<Rightarrow> refresh_session" where
  "createRefreshRecord sha256 dw now u client scope family = \<lparr>rs_id = dw_id dw, rs_userId = u, rs_familyId = family,
     rs_clientId = client, rs_scope = scope, rs_refreshTokenHash = sha256 (dw_token dw), rs_createdAt = now,
     rs_updatedAt = now, rs_expiresAt = addSeconds REFRESH_TOKEN_TTL_SECONDS now, rs_lastUsedAt = None, rs_revokedAt = None\<rparr>"

definition createDeviceRefreshCandidate ::
    "(string \<Rightarrow> string) \<Rightarrow> draws \<Rightarrow> timestamp \<Rightarrow> string \<Rightarrow> string \<Rightarrow> ident option \<Rightarrow> refresh_session" where
  "createDeviceRefreshCandidate sha256 dw now client scope u =
     createRefreshRecord sha256 dw now (case u of Some i \<Rightarrow> i | None \<Rightarrow> []) client scope (dw_family dw)"

definition exchangeDeviceCode ::
    "(string \<Rightarrow> string) \<Rightarrow> jose \<Rightarrow> runtime_config \<Rightarrow> draws \<Rightarrow> timestamp \<Rightarrow> string \<Rightarrow> string option \<Rightarrow> token_response auth_op" where
  "exchangeDeviceCode sha256 jo cfg dw now deviceCode client db = (case getDeviceAuthByDeviceCodeHash db (sha256 deviceCode) of
     None \<Rightarrow> (Inl (AuthError ''invalid_grant'' 400), db)
   | Some d \<Rightarrow> bind (stored (exchangeDeviceAuth (sha256 deviceCode) client
         (createDeviceRefreshCandidate sha256 dw now (dv_clientId d) (dv_scope d) (optionalText (dv_approvedByUserId d))) now)) (\<lambda>r. case r of
       Exchanged e u s \<Rightarrow> bind (issueAccessToken jo cfg dw now s (toCurrentUser u)) (\<lambda>a. ret (tokenSet a (dw_token dw) (rs_scope s)))
     | ExchangePending \<Rightarrow> throw (AuthError ''authorization_pending'' 400)
     | ExchangeDenied \<Rightarrow> throw (AuthError ''access_denied'' 400)
     | ExchangeExpired \<Rightarrow> throw (AuthError ''expired_token'' 400)
     | ExchangeClientMismatch \<Rightarrow> throw (AuthError ''invalid_client'' 400)
     | _ \<Rightarrow> throw (AuthError ''invalid_grant'' 400)) db)"

definition exchangeRefreshToken ::
    "(string \<Rightarrow> string) \<Rightarrow> jose \<Rightarrow> runtime_config \<Rightarrow> draws \<Rightarrow> timestamp \<Rightarrow> string \<Rightarrow> string option \<Rightarrow> token_response auth_op" where
  "exchangeRefreshToken sha256 jo cfg dw now token client db = (case getRefreshSessionByHash db (sha256 token) of
     None \<Rightarrow> (Inl (AuthError ''invalid_grant'' 400), db)
   | Some p \<Rightarrow> bind (stored (rotateRefreshSession (sha256 token)
         (createRefreshRecord sha256 dw now (rs_userId p) (rs_clientId p) (rs_scope p) (rs_familyId p)) now client)) (\<lambda>r. case r of
       Rotated q s u \<Rightarrow> bind (issueAccessToken jo cfg dw now s (toCurrentUser u)) (\<lambda>a. ret (tokenSet a (dw_token dw) (rs_scope s)))
     | RotationClientMismatch \<Rightarrow> throw (AuthError ''invalid_client'' 400)
     | _ \<Rightarrow> throw (AuthError ''invalid_grant'' 400)) db)"

record token_claims =
  tc_sub :: ident
  tc_username :: "string option"
  tc_role :: "string option"
  tc_jti :: string
  tc_sid :: ident
  tc_clientId :: string
  tc_scope :: string

definition text_or :: "string option \<Rightarrow> string \<Rightarrow> string" where
  "text_or v d = (case v of Some x \<Rightarrow> x | None \<Rightarrow> d)"

definition verifyAccessToken :: "jose \<Rightarrow> runtime_config \<Rightarrow> signing_key \<Rightarrow> timestamp \<Rightarrow> string \<Rightarrow> token_claims auth_op" where
  "verifyAccessToken jo cfg fresh now token = bind (getSigningKey_of fresh) (\<lambda>k db.
     case jo_verify jo k (issuer cfg) (audience cfg) now token of None \<Rightarrow> (Inl CryptoFailure, db)
     | Some p \<Rightarrow>
         (case getRefreshSession db (text_or (jt_sid p) []) (text_or (jt_sub p) []) of
            None \<Rightarrow> (Inl (AuthError ''invalid_token'' 401), db)
          | Some s \<Rightarrow>
              if rs_revokedAt s \<noteq> None \<or> isExpired (rs_expiresAt s) now \<or> jt_clientId p \<noteq> Some (rs_clientId s) \<or> jt_scope p \<noteq> Some (rs_scope s)
              then (Inl (AuthError ''invalid_token'' 401), db)
              else (Inr \<lparr>tc_sub = text_or (jt_sub p) [], tc_username = jt_username p, tc_role = jt_role p, tc_jti = text_or (jt_jti p) [],
                 tc_sid = text_or (jt_sid p) [], tc_clientId = text_or (jt_clientId p) [], tc_scope = text_or (jt_scope p) []\<rparr>, db)))"

section \<open>Sessions of a user\<close>

definition activeRefreshSessions :: "account_db \<Rightarrow> ident \<Rightarrow> timestamp \<Rightarrow> refresh_session list" where
  "activeRefreshSessions db u now = sort_key (\<lambda>s. - int (rs_createdAt s))
     (filter (\<lambda>s. rs_revokedAt s = None \<and> \<not> isExpired (rs_expiresAt s) now) (listRefreshSessions db (Some u)))"

fun unique_clients :: "timestamp \<Rightarrow> ident \<Rightarrow> string list \<Rightarrow> refresh_session list \<Rightarrow> account_db \<Rightarrow> refresh_session list \<times> account_db" where
  "unique_clients now u seen [] db = ([], db)"
| "unique_clients now u seen (s # ss) db =
     (if rs_clientId s \<in> set seen then unique_clients now u seen ss (snd (revokeRefreshSession (rs_id s) now (Some u) db))
      else (let (rest, db') = unique_clients now u (rs_clientId s # seen) ss db in (s # rest, db')))"

definition uniqueActiveClientSessions :: "ident \<Rightarrow> timestamp \<Rightarrow> account_db \<Rightarrow> refresh_session list \<times> account_db" where
  "uniqueActiveClientSessions u now db = unique_clients now u [] (activeRefreshSessions db u now) db"

record session_summary =
  ss_id :: ident
  ss_clientId :: string
  ss_scope :: string
  ss_createdAt :: timestamp
  ss_updatedAt :: timestamp
  ss_expiresAt :: timestamp
  ss_lastUsedAt :: "timestamp option"
  ss_revokedAt :: "timestamp option"
  ss_active :: bool

definition session_summary_of :: "refresh_session \<Rightarrow> session_summary" where
  "session_summary_of s = \<lparr>ss_id = rs_id s, ss_clientId = rs_clientId s, ss_scope = rs_scope s, ss_createdAt = rs_createdAt s,
     ss_updatedAt = rs_updatedAt s, ss_expiresAt = rs_expiresAt s, ss_lastUsedAt = rs_lastUsedAt s, ss_revokedAt = rs_revokedAt s,
     ss_active = True\<rparr>"

definition listAuthSessions :: "ident \<Rightarrow> timestamp \<Rightarrow> session_summary list auth_op" where
  "listAuthSessions u now = seq (modify (deleteExpiredRefreshSessions now))
     (bind (updating (uniqueActiveClientSessions u now)) (\<lambda>ss. ret (map session_summary_of ss)))"

definition revokeAuthSession :: "ident \<Rightarrow> ident \<Rightarrow> timestamp \<Rightarrow> bool auth_op" where
  "revokeAuthSession u i now = updating (revokeRefreshSession i now (Some u))"

definition revokeRefreshToken :: "(string \<Rightarrow> string) \<Rightarrow> string \<Rightarrow> timestamp \<Rightarrow> bool auth_op" where
  "revokeRefreshToken sha256 token now db = (case getRefreshSessionByHash db (sha256 token) of
     None \<Rightarrow> (Inr False, db) | Some s \<Rightarrow> updating (revokeRefreshSession (rs_id s) now None) db)"

end
