(* ===== verification/ClientTickets.thy ===== *)
theory ClientTickets
  imports DeviceAuth
begin

text \<open>
  Client tickets (\<open>src/platform/server/auth/client-tickets.ts\<close>): short-lived credentials in a URL, for requests
  that cannot carry a header. The table of tickets is a map of the process in insertion order.

  The URL parser and the hash are arguments. \<open>prepare\<close> waits for the verification of the token, so it is two
  operations here: what runs before it and what runs after it; other calls may come between.
\<close>

section \<open>State\<close>

definition MAX_TICKETS :: nat where "MAX_TICKETS = 4096"
definition MAX_SESSION_TICKETS :: nat where "MAX_SESSION_TICKETS = 128"

datatype ticket_kind = WebsocketTicket | ResourceTicket

fun TICKET_TTL :: "ticket_kind \<Rightarrow> nat" where
  "TICKET_TTL WebsocketTicket = 30000"
| "TICKET_TTL ResourceTicket = 60000"

definition CLIENT_TICKET_PARAMETER :: string where "CLIENT_TICKET_PARAMETER = ''webapp_ticket''"

record client_ticket =
  ct_token :: string
  ct_target :: string
  ct_kind :: ticket_kind
  ct_origin :: "string option"
  ct_userId :: ident
  ct_sessionId :: ident
  ct_expiresAt :: timestamp

record bearer_auth =
  ba_claims :: token_claims
  ba_user :: current_user

text \<open>The request a ticket was prepared for, with the authentication found for it.\<close>

record ticket_state =
  ts_tickets :: "(string, client_ticket) amap"
  ts_prepared :: "(nat, bearer_auth \<times> ticket_kind \<times> string option) amap"

record url_parts =
  ur_origin :: string
  ur_pathname :: string
  ur_search :: string
  ur_params :: "(string \<times> string) list"

record ticket_env =
  te_sha256 :: "string \<Rightarrow> string"
  te_url :: "string \<Rightarrow> url_parts"

section \<open>Targets\<close>

definition hex_digit :: "char \<Rightarrow> bool" where
  "hex_digit c = (let n = (of_char c :: nat) in (48 \<le> n \<and> n \<le> 57) \<or> (65 \<le> n \<and> n \<le> 70) \<or> (97 \<le> n \<and> n \<le> 102))"

text \<open>Whether some percent sign is not followed by two hexadecimal digits.\<close>

fun bad_percent :: "string \<Rightarrow> bool" where
  "bad_percent [] = False"
| "bad_percent (c # s) = ((c = CHR ''%'' \<and> \<not> (2 \<le> length s \<and> hex_digit (s ! 0) \<and> hex_digit (s ! 1))) \<or> bad_percent s)"

definition forbidden_char :: "char \<Rightarrow> bool" where
  "forbidden_char c = (let n = (of_char c :: nat) in n = 92 \<or> n = 35 \<or> n \<le> 32 \<or> n = 127)"

fun has_null_escape :: "string \<Rightarrow> bool" where
  "has_null_escape [] = False"
| "has_null_escape (c # s) = (starts_with ''%00'' (c # s) \<or> has_null_escape s)"

definition has_param :: "url_parts \<Rightarrow> bool" where
  "has_param u = (CLIENT_TICKET_PARAMETER \<in> fst ` set (ur_params u))"

definition targetUrl :: "ticket_env \<Rightarrow> string \<Rightarrow> ticket_kind \<Rightarrow> string \<Rightarrow> auth_failure + url_parts" where
  "targetUrl E target kind realtimePath =
     (if \<not> starts_with ''/'' target \<or> starts_with ''//'' target \<or> length target > 16384
         \<or> list_ex forbidden_char target \<or> bad_percent target
      then Inl (AuthError ''invalid_ticket_target'' 400)
      else (let u = te_url E target in
        if ur_origin u \<noteq> ''https://ticket.invalid''
          \<or> \<not> (starts_with ''/api/'' (ur_pathname u) \<or> (kind = WebsocketTicket \<and> ur_pathname u = realtimePath))
          \<or> ur_pathname u @ ur_search u \<noteq> target \<or> has_null_escape (ur_pathname u) \<or> has_param u
        then Inl (AuthError ''invalid_ticket_target'' 400)
        else Inr u))"

section \<open>Operations\<close>

definition prune_tickets :: "timestamp \<Rightarrow> ticket_state \<Rightarrow> ticket_state" where
  "prune_tickets now s = s\<lparr>ts_tickets := filter (\<lambda>e. \<not> ct_expiresAt (snd e) \<le> now) (ts_tickets s)\<rparr>"

definition session_tickets :: "ident \<Rightarrow> (string, client_ticket) amap \<Rightarrow> (string \<times> client_ticket) list" where
  "session_tickets sid m = filter (\<lambda>e. ct_sessionId (snd e) = sid) m"

record ticket_request =
  tq_id :: nat
  tq_method :: string
  tq_url :: url_parts
  tq_origin :: "string option"
  tq_upgrade :: "string option"
  tq_has_authorization :: bool

type_synonym 'a ticket_op = "(ticket_state, auth_failure, 'a) op"

definition issue_ticket ::
    "ticket_env \<Rightarrow> string \<Rightarrow> ticket_request \<Rightarrow> bearer_auth \<Rightarrow> string \<Rightarrow> ticket_kind \<Rightarrow> string \<Rightarrow> string \<Rightarrow> timestamp
      \<Rightarrow> (string \<times> timestamp) ticket_op" where
  "issue_ticket E realtimePath req auth target kind token opaque now s =
     (case targetUrl E target kind realtimePath of Inl x \<Rightarrow> (Inl x, s)
      | Inr u \<Rightarrow>
          (let p = prune_tickets now s;
               sid = tc_sid (ba_claims auth)
           in if length (ts_tickets p) \<ge> MAX_TICKETS \<or> length (session_tickets sid (ts_tickets p)) \<ge> MAX_SESSION_TICKETS
              then (Inl (AuthError ''client_ticket_limit'' 429), p)
              else (Inr (target @ (if ur_search u \<noteq> [] then ''&'' else ''?'') @ CLIENT_TICKET_PARAMETER @ ''='' @ opaque, now + TICKET_TTL kind),
                p\<lparr>ts_tickets := amap_set (ts_tickets p) (te_sha256 E opaque)
                   \<lparr>ct_token = token, ct_target = ur_pathname u @ ur_search u, ct_kind = kind, ct_origin = tq_origin req,
                    ct_userId = cu_id (ba_user auth), ct_sessionId = sid, ct_expiresAt = now + TICKET_TTL kind\<rparr>\<rparr>)))"

text \<open>
  \<open>TICKET_SUFFIX\<close>: a final \<open>?webapp_ticket=\<close> or \<open>&webapp_ticket=\<close> with a value of its characters. Those are neither
  \<open>?\<close> nor \<open>&\<close>, so the match starts at the last of these.
\<close>

definition ticket_char :: "char \<Rightarrow> bool" where
  "ticket_char c = (let n = (of_char c :: nat) in (65 \<le> n \<and> n \<le> 90) \<or> (97 \<le> n \<and> n \<le> 122) \<or> (48 \<le> n \<and> n \<le> 57)
     \<or> c = CHR ''_'' \<or> c = CHR ''%'' \<or> c = CHR ''~'' \<or> c = CHR ''-'')"

definition query_mark :: "char \<Rightarrow> bool" where
  "query_mark c = (c = CHR ''?'' \<or> c = CHR ''&'')"

definition strip_ticket :: "string \<Rightarrow> string" where
  "strip_ticket s =
     (let last = rev (takeWhile (\<lambda>c. \<not> query_mark c) (rev s));
          before = rev (dropWhile (\<lambda>c. \<not> query_mark c) (rev s));
          p = CLIENT_TICKET_PARAMETER @ ''='';
          v = drop (length p) last
      in if before \<noteq> [] \<and> starts_with p last \<and> v \<noteq> [] \<and> list_all ticket_char v then butlast before else s)"

definition ticket_refused :: "client_ticket \<Rightarrow> ticket_request \<Rightarrow> bool" where
  "ticket_refused t req =
     (let u = tq_url req; websocket = (map_option sql_lower (tq_upgrade req) = Some ''websocket'')
      in ct_target t \<noteq> strip_ticket (ur_pathname u @ ur_search u) \<or> tq_has_authorization req
       \<or> (case ct_kind t of
            WebsocketTicket \<Rightarrow> tq_method req \<noteq> ''GET'' \<or> \<not> websocket \<or> tq_origin req \<noteq> ct_origin t
          | ResourceTicket \<Rightarrow> tq_method req \<notin> set [''GET'', ''HEAD''] \<or> websocket \<or> (tq_origin req \<noteq> None \<and> tq_origin req \<noteq> ct_origin t)))"

definition ticket_values :: "ticket_request \<Rightarrow> string list" where
  "ticket_values req = map snd (filter (\<lambda>p. fst p = CLIENT_TICKET_PARAMETER) (ur_params (tq_url req)))"

text \<open>
  \<open>prepare\<close> up to the verification: nothing to do, a refusal, or the ticket whose token is verified next.
  A websocket ticket is gone by then.
\<close>

definition prepare_begin :: "ticket_env \<Rightarrow> ticket_request \<Rightarrow> timestamp \<Rightarrow> (string \<times> client_ticket) option ticket_op" where
  "prepare_begin E req now s =
     (if \<not> has_param (tq_url req) then (Inr None, s)
      else (let p = prune_tickets now s; vs = ticket_values req; key = te_sha256 E (hd vs)
            in case (if length vs = 1 then amap_get (ts_tickets p) key else None) of
                 None \<Rightarrow> (Inl (AuthError ''invalid_client_ticket'' 401), p)
               | Some t \<Rightarrow>
                   if ticket_refused t req then (Inl (AuthError ''invalid_client_ticket'' 401), p)
                   else (Inr (Some (key, t)),
                     if ct_kind t = WebsocketTicket then p\<lparr>ts_tickets := amap_delete (ts_tickets p) key\<rparr> else p)))"

text \<open>\<open>prepare\<close> after the verification, with its result; the new request is \<open>r\<close>.\<close>

definition prepare_end :: "string \<Rightarrow> client_ticket \<Rightarrow> bearer_auth option \<Rightarrow> nat \<Rightarrow> nat ticket_op" where
  "prepare_end key t auth r s =
     (let drop = s\<lparr>ts_tickets := amap_delete (ts_tickets s) key\<rparr>; no = Inl (AuthError ''invalid_client_ticket'' 401)
      in case auth of None \<Rightarrow> (no, drop)
         | Some a \<Rightarrow>
             if cu_id (ba_user a) \<noteq> ct_userId t \<or> tc_sid (ba_claims a) \<noteq> ct_sessionId t then (no, drop)
             else (Inr r, s\<lparr>ts_prepared := amap_set (ts_prepared s) r (a, ct_kind t, ct_origin t)\<rparr>))"

definition ticket_authentication :: "ticket_state \<Rightarrow> nat \<Rightarrow> (bearer_auth \<times> ticket_kind \<times> string option) option" where
  "ticket_authentication s r = amap_get (ts_prepared s) r"

definition clear_tickets :: "ticket_state \<Rightarrow> ticket_state" where
  "clear_tickets s = s\<lparr>ts_tickets := []\<rparr>"

end
