(* ===== verification/BrowserAuth.thy ===== *)
theory BrowserAuth
  imports ClientTickets
begin

text \<open>
  Browser sessions and passkeys (\<open>src/platform/server/auth/passkeys.ts\<close>) and the authentication of a request
  (\<open>src/platform/server/authentication.ts\<close>).

  The WebAuthn ceremonies are a package; what they return is an argument. An operation that waits for one is
  two operations here, before and after. The signature of a cookie and the encoding of its payload are
  arguments.
\<close>

section \<open>Signed cookies\<close>

definition SESSION_COOKIE :: string where "SESSION_COOKIE = ''webapp_passkey_session''"
definition CHALLENGE_COOKIE :: string where "CHALLENGE_COOKIE = ''webapp_passkey_challenge''"
definition SESSION_TTL_SECONDS :: nat where "SESSION_TTL_SECONDS = 60 * 60 * 24 * 30"
definition CHALLENGE_TTL_SECONDS :: nat where "CHALLENGE_TTL_SECONDS = 60 * 10"
definition SECRET_KEY :: string where "SECRET_KEY = ''passkey.secret''"

text \<open>
  \<open>ChallengePayload\<close> and \<open>SessionPayload\<close>. Both cookies are signed with one secret and decoded without a check
  of their shape, so a payload is the JSON object: a property it lacks is \<open>None\<close>.
\<close>

record payload =
  py_expiresAt :: timestamp
  py_challenge :: "string option"
  py_type :: "string option"
  py_userId :: "ident option"
  py_username :: "string option"
  py_setupTokenHash :: "string option"
  py_nonce :: "string option"
  py_authVersion :: "nat option"
  py_passkeyId :: "ident option"

record cookie_env =
  ce_encode :: "payload \<Rightarrow> string"
  ce_decode :: "string \<Rightarrow> payload option"
  ce_hmac :: "string \<Rightarrow> string \<Rightarrow> string"

definition getSecret :: "string \<Rightarrow> string auth_op" where
  "getSecret fresh db = (case getPreference db SECRET_KEY None of Some s \<Rightarrow> (Inr s, db)
     | None \<Rightarrow> (Inr fresh, setPreference SECRET_KEY fresh None db))"

definition encodeSigned :: "cookie_env \<Rightarrow> payload \<Rightarrow> string \<Rightarrow> string" where
  "encodeSigned E p secret = (let body = ce_encode E p in body @ ''.'' @ ce_hmac E body secret)"

definition decodeSigned :: "cookie_env \<Rightarrow> string option \<Rightarrow> string \<Rightarrow> payload option" where
  "decodeSigned E v secret = (case v of None \<Rightarrow> None | Some x \<Rightarrow>
     let body = takeWhile (\<lambda>c. c \<noteq> CHR ''.'') x;
         signature = takeWhile (\<lambda>c. c \<noteq> CHR ''.'') (drop 1 (dropWhile (\<lambda>c. c \<noteq> CHR ''.'') x))
     in if body = [] \<or> signature = [] \<or> signature \<noteq> ce_hmac E body secret then None else ce_decode E body)"

text \<open>\<open>String.prototype.split\<close> at a character.\<close>

fun split_at :: "char \<Rightarrow> string \<Rightarrow> string list" where
  "split_at d [] = [[]]"
| "split_at d (c # s) = (if c = d then [] # split_at d s else (case split_at d s of [] \<Rightarrow> [[c]] | w # ws \<Rightarrow> (c # w) # ws))"

definition cookie_name :: "string \<Rightarrow> string" where
  "cookie_name part = takeWhile (\<lambda>c. c \<noteq> CHR ''='') part"

definition getCookie :: "string option \<Rightarrow> string \<Rightarrow> string option" where
  "getCookie header name = (case optionalText header of None \<Rightarrow> None
     | Some h \<Rightarrow> map_option (\<lambda>p. drop 1 (dropWhile (\<lambda>c. c \<noteq> CHR ''='') p))
         (find (\<lambda>p. cookie_name p = name) (map js_trim (split_at (CHR '';'') h))))"

record set_cookie =
  sc_name :: string
  sc_value :: string
  sc_maxAge :: nat

text \<open>\<open>createBrowserSessionHeaders\<close>: the new session cookie, and the challenge cookie expired.\<close>

definition session_payload :: "string \<Rightarrow> timestamp \<Rightarrow> user_record \<Rightarrow> ident option \<Rightarrow> payload" where
  "session_payload nonce now u pk = \<lparr>py_expiresAt = now + SESSION_TTL_SECONDS * 1000, py_challenge = None, py_type = None,
     py_userId = Some (us_id u), py_username = None, py_setupTokenHash = None, py_nonce = Some nonce,
     py_authVersion = Some (us_authVersion u), py_passkeyId = pk\<rparr>"

definition expiredCookie :: "string \<Rightarrow> set_cookie" where
  "expiredCookie n = \<lparr>sc_name = n, sc_value = [], sc_maxAge = 0\<rparr>"

record session_draws =
  sd_secret :: string
  sd_nonce :: string
  sd_audit :: ident

definition createBrowserSessionHeaders ::
    "cookie_env \<Rightarrow> session_draws \<Rightarrow> timestamp \<Rightarrow> user_record \<Rightarrow> ident option \<Rightarrow> set_cookie list auth_op" where
  "createBrowserSessionHeaders E sd now u pk = bind (getSecret (sd_secret sd)) (\<lambda>secret. ret
     [\<lparr>sc_name = SESSION_COOKIE, sc_value = encodeSigned E (session_payload (sd_nonce sd) now u pk) secret,
       sc_maxAge = SESSION_TTL_SECONDS\<rparr>, expiredCookie CHALLENGE_COOKIE])"

definition challenge_payload :: "timestamp \<Rightarrow> string \<Rightarrow> string \<Rightarrow> ident option \<Rightarrow> string option \<Rightarrow> string option \<Rightarrow> payload" where
  "challenge_payload now challenge type u name token = \<lparr>py_expiresAt = now + CHALLENGE_TTL_SECONDS * 1000,
     py_challenge = Some challenge, py_type = Some type, py_userId = u, py_username = name, py_setupTokenHash = token,
     py_nonce = None, py_authVersion = None, py_passkeyId = None\<rparr>"

definition setChallengeHeaders :: "cookie_env \<Rightarrow> string \<Rightarrow> payload \<Rightarrow> set_cookie list auth_op" where
  "setChallengeHeaders E fresh p = bind (getSecret fresh) (\<lambda>secret. ret
     [\<lparr>sc_name = CHALLENGE_COOKIE, sc_value = encodeSigned E p secret, sc_maxAge = CHALLENGE_TTL_SECONDS\<rparr>])"

definition readChallenge :: "cookie_env \<Rightarrow> string option \<Rightarrow> string \<Rightarrow> string \<Rightarrow> timestamp \<Rightarrow> payload auth_op" where
  "readChallenge E cookies fresh type now = bind (getSecret fresh) (\<lambda>secret.
     case decodeSigned E (getCookie cookies CHALLENGE_COOKIE) secret of
       None \<Rightarrow> throw (AuthError ''challenge_invalid'' 400)
     | Some c \<Rightarrow> if py_type c \<noteq> Some type \<or> py_expiresAt c \<le> now then throw (AuthError ''challenge_invalid'' 400) else ret c)"

section \<open>Registration\<close>

definition raise_of :: "auth_failure + 'a \<Rightarrow> 'a auth_op" where
  "raise_of r = (case r of Inl x \<Rightarrow> throw x | Inr y \<Rightarrow> ret y)"

text \<open>\<open>beginRegistrationForUser\<close>, with the challenge of the ceremony.\<close>

definition beginRegistrationForUser ::
    "cookie_env \<Rightarrow> string \<Rightarrow> timestamp \<Rightarrow> auth_failure + string \<Rightarrow> ident \<Rightarrow> string \<Rightarrow> string \<Rightarrow> string option
      \<Rightarrow> (string \<times> set_cookie list) auth_op" where
  "beginRegistrationForUser E fresh now ceremony u name type token = bind (raise_of ceremony) (\<lambda>c.
     bind (setChallengeHeaders E fresh (challenge_payload now c type (Some u) (Some name) token)) (\<lambda>hs. ret (c, hs)))"

record registration_info =
  ri_credentialId :: string
  ri_publicKey :: string
  ri_counter :: nat
  ri_deviceType :: string
  ri_backedUp :: bool
  ri_transports :: "string list"

definition new_passkey :: "ident \<Rightarrow> timestamp \<Rightarrow> ident \<Rightarrow> registration_info \<Rightarrow> passkey" where
  "new_passkey i now u info = \<lparr>pk_id = i, pk_userId = u, pk_name = ''Primary passkey'', pk_credentialId = ri_credentialId info,
     pk_publicKey = ri_publicKey info, pk_counter = ri_counter info, pk_deviceType = ri_deviceType info,
     pk_backedUp = ri_backedUp info, pk_transports = ri_transports info, pk_createdAt = now, pk_updatedAt = now, pk_lastUsedAt = None\<rparr>"

definition verified_passkey :: "ident \<Rightarrow> timestamp \<Rightarrow> ident \<Rightarrow> auth_failure + registration_info \<Rightarrow> passkey auth_op" where
  "verified_passkey i now u ceremony = bind (raise_of ceremony) (\<lambda>info. ret (new_passkey i now u info))"

definition persistPasskey :: "passkey \<Rightarrow> timestamp \<Rightarrow> user_record auth_op" where
  "persistPasskey p now = bind (stored (savePasskeyAndIncrementUserAuthVersion p now)) (\<lambda>r. case r of
     PasskeySaved u \<Rightarrow> ret u | _ \<Rightarrow> throw (AuthError ''registration_failed'' 400))"

definition beginBootstrapRegistration ::
    "cookie_env \<Rightarrow> string \<Rightarrow> timestamp \<Rightarrow> ident \<Rightarrow> auth_failure + string \<Rightarrow> string \<Rightarrow> (string \<times> set_cookie list) auth_op" where
  "beginBootstrapRegistration E fresh now i ceremony name db =
     (if countUsers db > 0 then (Inl (AuthError ''owner_exists'' 409), db)
      else bind (raise_of (assertValidUsername name)) (\<lambda>m. beginRegistrationForUser E fresh now ceremony i m ''bootstrap'' None) db)"

text \<open>\<open>completeBootstrapRegistration\<close> before the verification of the passkey: the owner to create.\<close>

definition completeBootstrap_begin ::
    "cookie_env \<Rightarrow> string option \<Rightarrow> string \<Rightarrow> ident \<Rightarrow> timestamp \<Rightarrow> user_row auth_op" where
  "completeBootstrap_begin E cookies fresh i now db =
     (if countUsers db > 0 then (Inl (AuthError ''owner_exists'' 409), db)
      else bind (readChallenge E cookies fresh ''bootstrap'' now) (\<lambda>c.
        case (optionalText (py_userId c), optionalText (py_username c)) of
          (Some u, Some n) \<Rightarrow> bind (raise_of (createUserRecord i now n RoleOwner)) (\<lambda>r. ret (r\<lparr>us_id := u\<rparr>))
        | _ \<Rightarrow> throw (AuthError ''challenge_invalid'' 400)) db)"

text \<open>The rest of it.\<close>

definition completeBootstrap_end ::
    "cookie_env \<Rightarrow> session_draws \<Rightarrow> timestamp \<Rightarrow> ident \<Rightarrow> user_row \<Rightarrow> auth_failure + registration_info \<Rightarrow> set_cookie list auth_op" where
  "completeBootstrap_end E sd now i owner ceremony = bind (verified_passkey i now (us_id owner) ceremony) (\<lambda>p.
     seq (stored (createUser owner)) (bind (persistPasskey p now) (\<lambda>u.
     bind (createBrowserSessionHeaders E sd now u (Some (pk_id p))) (\<lambda>hs.
     seq (audit (sd_audit sd) now ''owner_created'' None (Some (us_id owner))) (ret hs)))))"

definition owner_setup_open :: "user_record option \<Rightarrow> bool" where
  "owner_setup_open u = (case u of None \<Rightarrow> False | Some x \<Rightarrow> us_role x = RoleOwner \<and> \<not> us_passkeyConfigured x)"

definition beginOwnerPasskeySetup ::
    "cookie_env \<Rightarrow> string \<Rightarrow> timestamp \<Rightarrow> auth_failure + string \<Rightarrow> (string \<times> set_cookie list) auth_op" where
  "beginOwnerPasskeySetup E fresh now ceremony db = (case getOwnerUser db of
     None \<Rightarrow> (Inl (AuthError ''owner_setup_unavailable'' 409), db)
   | Some u \<Rightarrow> if us_passkeyConfigured u then (Inl (AuthError ''owner_setup_unavailable'' 409), db)
       else beginRegistrationForUser E fresh now ceremony (us_id u) (us_username u) ''owner-reset'' None db)"

definition completeOwnerSetup_begin :: "cookie_env \<Rightarrow> string option \<Rightarrow> string \<Rightarrow> timestamp \<Rightarrow> user_record auth_op" where
  "completeOwnerSetup_begin E cookies fresh now = bind (readChallenge E cookies fresh ''owner-reset'' now) (\<lambda>c db.
     let u = Option.bind (optionalText (py_userId c)) (getUserById db)
     in if owner_setup_open u then (Inr (the u), db) else (Inl (AuthError ''owner_setup_unavailable'' 409), db))"

definition completeOwnerSetup_end ::
    "cookie_env \<Rightarrow> session_draws \<Rightarrow> timestamp \<Rightarrow> ident \<Rightarrow> user_record \<Rightarrow> auth_failure + registration_info \<Rightarrow> set_cookie list auth_op" where
  "completeOwnerSetup_end E sd now i owner ceremony = bind (verified_passkey i now (us_id owner) ceremony) (\<lambda>p.
     bind (persistPasskey p now) (\<lambda>u.
     bind (createBrowserSessionHeaders E sd now u (Some (pk_id p))) (\<lambda>hs.
     seq (audit (sd_audit sd) now ''owner_passkey_configured'' None (Some (us_id owner))) (ret hs))))"

text \<open>A link that is usable, with its user.\<close>

definition usable_link :: "account_db \<Rightarrow> string \<Rightarrow> timestamp \<Rightarrow> (setup_link \<times> user_record) option" where
  "usable_link db h now = (case getSetupLinkByTokenHash db h of None \<Rightarrow> None
     | Some l \<Rightarrow> if sl_consumedAt l \<noteq> None \<or> isExpired (sl_expiresAt l) now then None
         else map_option (\<lambda>u. (l, u)) (getUserById db (sl_userId l)))"

record setup_details =
  st_username :: string
  st_role :: user_role
  st_reset :: bool
  st_expiresAt :: timestamp

definition getSetupDetails :: "account_db \<Rightarrow> string \<Rightarrow> timestamp \<Rightarrow> auth_failure + setup_details" where
  "getSetupDetails db h now = (case usable_link db h now of None \<Rightarrow> Inl (AuthError ''setup_link_invalid'' 404)
     | Some (l, u) \<Rightarrow> Inr \<lparr>st_username = us_username u, st_role = us_role u, st_reset = (sl_kind l = LinkReset), st_expiresAt = sl_expiresAt l\<rparr>)"

definition beginSetupRegistration ::
    "cookie_env \<Rightarrow> string \<Rightarrow> timestamp \<Rightarrow> auth_failure + string \<Rightarrow> string \<Rightarrow> (string \<times> set_cookie list) auth_op" where
  "beginSetupRegistration E fresh now ceremony h db = (case usable_link db h now of
     None \<Rightarrow> (Inl (AuthError ''setup_link_invalid'' 404), db)
   | Some (l, u) \<Rightarrow> beginRegistrationForUser E fresh now ceremony (us_id u) (us_username u) ''setup'' (Some h) db)"

definition completeSetup_begin :: "cookie_env \<Rightarrow> string option \<Rightarrow> string \<Rightarrow> timestamp \<Rightarrow> string \<Rightarrow> (setup_link \<times> user_record) auth_op" where
  "completeSetup_begin E cookies fresh now h = bind (readChallenge E cookies fresh ''setup'' now) (\<lambda>c.
     if py_setupTokenHash c \<noteq> Some h \<or> optionalText (py_userId c) = None then throw (AuthError ''challenge_invalid'' 400)
     else (\<lambda>db. case usable_link db h now of
         None \<Rightarrow> (Inl (AuthError ''setup_link_invalid'' 404), db)
       | Some (l, u) \<Rightarrow> if Some (us_id u) \<noteq> py_userId c then (Inl (AuthError ''setup_link_invalid'' 404), db) else (Inr (l, u), db)))"

definition completeSetup_end ::
    "cookie_env \<Rightarrow> session_draws \<Rightarrow> timestamp \<Rightarrow> ident \<Rightarrow> string \<Rightarrow> setup_link \<times> user_record \<Rightarrow> auth_failure + registration_info
      \<Rightarrow> set_cookie list auth_op" where
  "completeSetup_end E sd now i h lu ceremony = (case lu of (l, u) \<Rightarrow>
     bind (verified_passkey i now (us_id u) ceremony) (\<lambda>p.
     bind (stored (completeSetupLink h (us_id u) p now)) (\<lambda>r. case r of
       LinkCompleted k v \<Rightarrow> bind (createBrowserSessionHeaders E sd now v (Some (pk_id p))) (\<lambda>hs.
         seq (audit (sd_audit sd) now (if sl_kind l = LinkReset then ''user_reset_completed'' else ''user_invite_completed'')
           None (Some (us_id u))) (ret hs))
     | LinkConflict \<Rightarrow> throw (AuthError ''registration_failed'' 400)
     | _ \<Rightarrow> throw (AuthError ''setup_link_invalid'' 404))))"

section \<open>Login, sessions and passkey removal\<close>

definition beginAuthentication :: "cookie_env \<Rightarrow> string \<Rightarrow> timestamp \<Rightarrow> auth_failure + string \<Rightarrow> (string \<times> set_cookie list) auth_op" where
  "beginAuthentication E fresh now ceremony db =
     (if listPasskeys db None = [] then (Inl (AuthError ''passkey_missing'' 409), db)
      else bind (raise_of ceremony) (\<lambda>c.
        bind (setChallengeHeaders E fresh (challenge_payload now c ''authentication'' None None None)) (\<lambda>hs. ret (c, hs))) db)"

text \<open>\<open>completeAuthentication\<close> before the verification of the assertion: the credential and its user.\<close>

definition completeAuthentication_begin ::
    "cookie_env \<Rightarrow> string option \<Rightarrow> string \<Rightarrow> timestamp \<Rightarrow> string \<Rightarrow> (passkey \<times> user_record) auth_op" where
  "completeAuthentication_begin E cookies fresh now credential = bind (readChallenge E cookies fresh ''authentication'' now) (\<lambda>c db.
     case getPasskeyByCredentialId db credential of None \<Rightarrow> (Inl (AuthError ''passkey_not_found'' 404), db)
     | Some p \<Rightarrow> (case getUserById db (pk_userId p) of None \<Rightarrow> (Inl (AuthError ''passkey_not_found'' 404), db)
         | Some u \<Rightarrow> (Inr (p, u), db)))"

definition completeAuthentication_end ::
    "cookie_env \<Rightarrow> session_draws \<Rightarrow> timestamp \<Rightarrow> passkey \<times> user_record \<Rightarrow> auth_failure + nat \<Rightarrow> set_cookie list auth_op" where
  "completeAuthentication_end E sd now pu ceremony = (case pu of (p, u) \<Rightarrow> bind (raise_of ceremony) (\<lambda>counter.
     seq (modify (updatePasskeyUsage (pk_credentialId p) counter now))
     (seq (modify (markUserLogin (us_id u) now))
     (seq (audit (sd_audit sd) now ''user_login'' (Some (us_id u)) None)
     (createBrowserSessionHeaders E sd now u (Some (pk_id p)))))))"

definition logoutHeaders :: "set_cookie list" where
  "logoutHeaders = [expiredCookie SESSION_COOKIE, expiredCookie CHALLENGE_COOKIE]"

definition deletePasskey :: "ident \<Rightarrow> timestamp \<Rightarrow> ident \<Rightarrow> set_cookie list auth_op" where
  "deletePasskey a now u =
     seq (modify (deletePasskeysForUser u))
     (seq (modify (incrementUserAuthVersion u now))
     (seq (modify (deleteApiKeysForUser u))
     (seq (modify (revokeRefreshSessionsForUser u now))
     (seq (audit a now ''passkey_deleted'' (Some u) (Some u)) (ret logoutHeaders)))))"

record passkey_session =
  ps_user :: current_user
  ps_passkeyId :: "ident option"

definition getPasskeySession :: "cookie_env \<Rightarrow> runtime_config \<Rightarrow> string option \<Rightarrow> timestamp \<Rightarrow> account_db \<Rightarrow> passkey_session option" where
  "getPasskeySession E cfg cookies now db =
     (if rc_passkeyDisabled cfg then map_option (\<lambda>o'. \<lparr>ps_user = toCurrentUser o', ps_passkeyId = None\<rparr>) (getOwnerUser db)
      else (case getPreference db SECRET_KEY None of None \<Rightarrow> None
        | Some secret \<Rightarrow> (case decodeSigned E (getCookie cookies SESSION_COOKIE) secret of None \<Rightarrow> None
            | Some p \<Rightarrow> if py_expiresAt p \<le> now then None
                else (case Option.bind (py_userId p) (getUserById db) of None \<Rightarrow> None
                    | Some u \<Rightarrow> if us_disabledAt u \<noteq> None \<or> py_authVersion p \<noteq> Some (us_authVersion u) then None
                        else Some \<lparr>ps_user = toCurrentUser u, ps_passkeyId = (case py_passkeyId p of None \<Rightarrow> None
                          | Some k \<Rightarrow> map_option pk_id (find (\<lambda>q. pk_id q = k) (listPasskeys db (Some (us_id u)))))\<rparr>))))"

definition isPasskeyAuthRequired :: "runtime_config \<Rightarrow> account_db \<Rightarrow> bool" where
  "isPasskeyAuthRequired cfg db = (\<not> rc_passkeyDisabled cfg \<and> countUsers db > 0)"

record passkey_status =
  pz_enabled :: bool
  pz_passkeyConfigured :: bool
  pz_passkeyDisabled :: bool
  pz_passkeyRequired :: bool
  pz_authenticated :: bool
  pz_bootstrapRequired :: bool
  pz_ownerPasskeySetupRequired :: bool

definition passkeyStatus :: "cookie_env \<Rightarrow> runtime_config \<Rightarrow> string option \<Rightarrow> timestamp \<Rightarrow> bool \<Rightarrow> account_db \<Rightarrow> passkey_status" where
  "passkeyStatus E cfg cookies now enabled db = (let users = countUsers db; own = getOwnerUser db in
     \<lparr>pz_enabled = enabled, pz_passkeyConfigured = (listPasskeys db None \<noteq> []), pz_passkeyDisabled = rc_passkeyDisabled cfg,
      pz_passkeyRequired = (enabled \<and> users > 0 \<and> \<not> rc_passkeyDisabled cfg),
      pz_authenticated = (\<not> enabled \<or> rc_passkeyDisabled cfg \<or> getPasskeySession E cfg cookies now db \<noteq> None),
      pz_bootstrapRequired = (enabled \<and> \<not> rc_passkeyDisabled cfg \<and> users = 0),
      pz_ownerPasskeySetupRequired = (enabled \<and> \<not> rc_passkeyDisabled cfg \<and> users > 0
        \<and> (case own of Some u \<Rightarrow> \<not> us_passkeyConfigured u | None \<Rightarrow> False))\<rparr>)"

section \<open>Authentication of a request\<close>

datatype auth_state =
  Anonymous
| Delegated current_user
| ServerAuth current_user
| PasskeyAuth current_user "ident option"
| ApiKeyAuth current_user ident "string list"
| BearerAuth token_claims current_user "(ticket_kind \<times> string option) option"

definition currentUser :: "auth_state \<Rightarrow> current_user option" where
  "currentUser a = (case a of Anonymous \<Rightarrow> None | Delegated u \<Rightarrow> Some u | ServerAuth u \<Rightarrow> Some u | PasskeyAuth u _ \<Rightarrow> Some u
     | ApiKeyAuth u _ _ \<Rightarrow> Some u | BearerAuth _ u _ \<Rightarrow> Some u)"

definition requireUser :: "auth_state \<Rightarrow> auth_failure + current_user" where
  "requireUser a = (case currentUser a of None \<Rightarrow> Inl (AuthError ''authentication_required'' 401) | Some u \<Rightarrow> Inr u)"

definition is_delegated :: "auth_state \<Rightarrow> bool" where
  "is_delegated a = (case a of Delegated _ \<Rightarrow> True | _ \<Rightarrow> False)"

definition requireAdmin :: "auth_state \<Rightarrow> auth_failure + current_user" where
  "requireAdmin a = (case requireUser a of Inl x \<Rightarrow> Inl x
     | Inr u \<Rightarrow> if is_delegated a \<or> \<not> cu_isAdmin u then Inl (AuthError ''admin_required'' 403) else Inr u)"

definition requireOwner :: "auth_state \<Rightarrow> auth_failure + current_user" where
  "requireOwner a = (case requireUser a of Inl x \<Rightarrow> Inl x
     | Inr u \<Rightarrow> if is_delegated a \<or> \<not> cu_isOwner u then Inl (AuthError ''owner_required'' 403) else Inr u)"

definition assertUser :: "auth_state \<Rightarrow> ident \<Rightarrow> auth_failure + current_user" where
  "assertUser a i = (case requireUser a of Inl x \<Rightarrow> Inl x
     | Inr u \<Rightarrow> if cu_id u \<noteq> i then Inl (AuthError ''forbidden'' 403) else Inr u)"

text \<open>\<open>requireOwned\<close> and \<open>filterOwned\<close>, with the selector of a resource's user.\<close>

definition requireOwned :: "auth_state \<Rightarrow> ('r \<Rightarrow> ident option) \<Rightarrow> 'r option \<Rightarrow> auth_failure + 'r" where
  "requireOwned a sel r = (case requireUser a of Inl x \<Rightarrow> Inl x
     | Inr u \<Rightarrow> (case r of None \<Rightarrow> Inl (AuthError ''not_found'' 404)
         | Some y \<Rightarrow> if sel y \<noteq> Some (cu_id u) then Inl (AuthError ''not_found'' 404) else Inr y))"

definition filterOwned :: "auth_state \<Rightarrow> ('r \<Rightarrow> ident option) \<Rightarrow> 'r list \<Rightarrow> auth_failure + 'r list" where
  "filterOwned a sel rs = (case requireUser a of Inl x \<Rightarrow> Inl x | Inr u \<Rightarrow> Inr (filter (\<lambda>r. sel r = Some (cu_id u)) rs))"

datatype route_auth = RouteRequired | RoutePublic | RouteOptional | RouteUser | RouteAdmin | RouteOwner

definition requiresAuth :: "route_auth \<Rightarrow> bool" where
  "requiresAuth r = (r \<noteq> RoutePublic \<and> r \<noteq> RouteOptional)"

definition enforceRouteAuth :: "route_auth \<Rightarrow> auth_state \<Rightarrow> auth_failure + unit" where
  "enforceRouteAuth r a =
     (case r of
        RouteUser \<Rightarrow> map_sum id (\<lambda>_. ()) (requireUser a)
      | RouteAdmin \<Rightarrow> map_sum id (\<lambda>_. ()) (requireAdmin a)
      | RouteOwner \<Rightarrow> map_sum id (\<lambda>_. ()) (requireOwner a)
      | _ \<Rightarrow> Inr ())"

record auth_env =
  ae_sha256 :: "string \<Rightarrow> string"
  ae_jose :: jose
  ae_cookies :: cookie_env
  ae_config :: runtime_config
  ae_passkeysEnabled :: bool
  ae_apiKeysEnabled :: bool
  ae_deviceAuthEnabled :: bool

record auth_request =
  ar_id :: nat
  ar_authorization :: "string option"
  ar_cookie :: "string option"

definition non_space :: "char \<Rightarrow> bool" where "non_space c = (\<not> js_space c)"

text \<open>\<open>header.split(/\s+/, 2)\<close> of a trimmed header: its first two words.\<close>

definition bearerToken :: "string option \<Rightarrow> string option" where
  "bearerToken header = (case optionalText (map_option js_trim header) of None \<Rightarrow> None
     | Some h \<Rightarrow>
         (let scheme = takeWhile non_space h; rest = dropWhile js_space (dropWhile non_space h)
          in if sql_lower scheme = ''bearer'' \<and> rest \<noteq> [] then Some (takeWhile non_space rest) else None))"

definition verifyBearer :: "auth_env \<Rightarrow> signing_key \<Rightarrow> timestamp \<Rightarrow> string \<Rightarrow> bearer_auth auth_op" where
  "verifyBearer E fresh now token =
     (if \<not> ae_deviceAuthEnabled E then throw (AuthError ''invalid_token'' 401)
      else bind (verifyAccessToken (ae_jose E) (ae_config E) fresh now token) (\<lambda>c db.
        case getUserById db (tc_sub c) of None \<Rightarrow> (Inl (AuthError ''invalid_token'' 401), db)
        | Some u \<Rightarrow> if us_disabledAt u \<noteq> None then (Inl (AuthError ''invalid_token'' 401), db)
            else (Inr \<lparr>ba_claims = c, ba_user = toCurrentUser u\<rparr>, db)))"

definition disabledAuthOwner :: "ident \<Rightarrow> timestamp \<Rightarrow> current_user auth_op" where
  "disabledAuthOwner i now db = (case getOwnerUser db of Some u \<Rightarrow> (Inr (toCurrentUser u), db)
     | None \<Rightarrow> bind (raise_of (createUserRecord i now ''admin'' RoleOwner)) (\<lambda>r.
         seq (stored (createUser r)) (ret (toCurrentUser r))) db)"

datatype auth_outcome = Authenticated auth_state | Refused nat string

definition invalid_token :: auth_outcome where "invalid_token = Refused 401 ''invalid_token''"
definition passkey_required :: auth_outcome where "passkey_required = Refused 401 ''authentication_required''"

definition authorize_key :: "auth_env \<Rightarrow> timestamp \<Rightarrow> string \<Rightarrow> auth_outcome auth_op" where
  "authorize_key E now token =
     (if ae_apiKeysEnabled E then bind (authenticateApiKey (ae_sha256 E) token now) (\<lambda>k. ret (case k of
          Some x \<Rightarrow> Authenticated (ApiKeyAuth (ki_user x) (ki_apiKeyId x) (ki_scopes x)) | None \<Rightarrow> invalid_token))
      else ret invalid_token)"

definition authorize_token :: "auth_env \<Rightarrow> signing_key \<Rightarrow> timestamp \<Rightarrow> string \<Rightarrow> auth_outcome auth_op" where
  "authorize_token E fresh now token =
     (if ae_deviceAuthEnabled E
      then catching (bind (verifyBearer E fresh now token) (\<lambda>b. ret (Authenticated (BearerAuth (ba_claims b) (ba_user b) None))))
        (\<lambda>_. authorize_key E now token)
      else authorize_key E now token)"

definition authorize_browser :: "auth_env \<Rightarrow> ident \<Rightarrow> timestamp \<Rightarrow> auth_request \<Rightarrow> bool \<Rightarrow> auth_outcome auth_op" where
  "authorize_browser E i now req required db =
     (let cfg = ae_config E; session = getPasskeySession (ae_cookies E) cfg (ar_cookie req) now db
      in if ae_passkeysEnabled E \<and> rc_passkeyDisabled cfg
         then bind (disabledAuthOwner i now) (\<lambda>u. ret (Authenticated (PasskeyAuth u None))) db
         else if ae_passkeysEnabled E \<and> session \<noteq> None
         then (Inr (Authenticated (PasskeyAuth (ps_user (the session)) (ps_passkeyId (the session)))), db)
         else if ae_passkeysEnabled E \<and> isPasskeyAuthRequired cfg db \<and> session = None
         then (Inr (if required then passkey_required else Authenticated Anonymous), db)
         else if required \<and> ae_passkeysEnabled E \<and> \<not> rc_passkeyDisabled cfg \<and> countUsers db = 0
         then (Inr passkey_required, db)
         else (Inr (Authenticated Anonymous), db))"

definition authorize ::
    "auth_env \<Rightarrow> ticket_state \<Rightarrow> signing_key \<Rightarrow> ident \<Rightarrow> timestamp \<Rightarrow> auth_request \<Rightarrow> bool \<Rightarrow> auth_outcome auth_op" where
  "authorize E tickets fresh i now req required =
     (case ticket_authentication tickets (ar_id req) of
        Some (b, kind, origin) \<Rightarrow> ret (Authenticated (BearerAuth (ba_claims b) (ba_user b) (Some (kind, origin))))
      | None \<Rightarrow> (case optionalText (bearerToken (ar_authorization req)) of
          Some token \<Rightarrow> authorize_token E fresh now token
        | None \<Rightarrow> authorize_browser E i now req required))"

definition configUser :: "auth_env \<Rightarrow> ident \<Rightarrow> timestamp \<Rightarrow> auth_request \<Rightarrow> current_user option auth_op" where
  "configUser E i now req db =
     (if \<not> ae_passkeysEnabled E then (Inr None, db)
      else if rc_passkeyDisabled (ae_config E) then bind (disabledAuthOwner i now) (\<lambda>u. ret (Some u)) db
      else (Inr (map_option ps_user (getPasskeySession (ae_cookies E) (ae_config E) (ar_cookie req) now db)), db))"

definition issueClientTicket ::
    "ticket_env \<Rightarrow> string \<Rightarrow> ticket_request \<Rightarrow> string option \<Rightarrow> auth_state \<Rightarrow> string \<Rightarrow> ticket_kind \<Rightarrow> string \<Rightarrow> timestamp
      \<Rightarrow> (string \<times> timestamp) ticket_op" where
  "issueClientTicket T realtimePath req authorization a target kind opaque now =
     (case (a, optionalText (bearerToken authorization)) of
        (BearerAuth c u None, Some token) \<Rightarrow> issue_ticket T realtimePath req \<lparr>ba_claims = c, ba_user = u\<rparr> target kind token opaque now
      | _ \<Rightarrow> throw (AuthError ''bearer_required'' 401))"

definition scopesFromBearer :: "string \<Rightarrow> string list" where
  "scopesFromBearer scope = filter (\<lambda>w. w \<noteq> []) (split_at CHR '' '' (map (\<lambda>c. if js_space c then CHR '' '' else c) scope))"

end
