(* ===== verification/Runs.thy ===== *)
theory Runs
  imports Prelude
begin

text \<open>
  Sequences of operations on a state, for the components that are driven by calls from outside: a property
  that every admissible step keeps holds after every admissible sequence of steps.
\<close>

locale transitions =
  fixes step :: "'o \<Rightarrow> 's \<Rightarrow> 's"
begin

lemma run_invariant:
  assumes "P s" "list_all ok xs" "\<And>x s. P s \<Longrightarrow> ok x \<Longrightarrow> P (step x s)"
  shows "P (fold step xs s)"
  using assms(1,2) by (induction xs arbitrary: s) (simp_all add: assms(3))

lemma run_relation:
  assumes "\<And>s. R s s" "\<And>a b c. R a b \<Longrightarrow> R b c \<Longrightarrow> R a c" "\<And>x s. ok x \<Longrightarrow> R s (step x s)" "list_all ok xs"
  shows "R s (fold step xs s)"
  using assms(4)
proof (induction xs arbitrary: s)
  case (Cons x xs)
  then have "R s (step x s)" "R (step x s) (fold step xs (step x s))" using assms(3) by simp_all
  then show ?case using assms(2) by simp
qed (simp add: assms(1))

text \<open>What a run made true, one of its steps made true.\<close>

lemma run_responsible:
  assumes "\<not> P s" "P (fold step xs s)"
  obtains ys x zs where "xs = ys @ x # zs" "\<not> P (fold step ys s)" "P (step x (fold step ys s))"
  using assms
proof (induction xs arbitrary: thesis rule: rev_induct)
  case (snoc x xs)
  show ?case
  proof (cases "P (fold step xs s)")
    case True
    with snoc.IH snoc.prems(2) obtain ys y zs where "xs = ys @ y # zs" "\<not> P (fold step ys s)" "P (step y (fold step ys s))"
      by blast
    then show ?thesis using snoc.prems(1) [of ys y "zs @ [x]"] by simp
  next
    case False
    then show ?thesis using snoc.prems(1) [of xs x "[]"] snoc.prems(3) by simp
  qed
qed simp

end

text \<open>How many steps of a run redeem a credential.\<close>

fun redemptions :: "('o \<Rightarrow> 's \<Rightarrow> 's) \<Rightarrow> ('k \<Rightarrow> 'o \<Rightarrow> 's \<Rightarrow> bool) \<Rightarrow> 'k \<Rightarrow> 'o list \<Rightarrow> 's \<Rightarrow> nat" where
  "redemptions step redeems k [] s = 0"
| "redemptions step redeems k (x # xs) s = (if redeems k x s then 1 else 0) + redemptions step redeems k xs (step x s)"

text \<open>
  Credentials that may be redeemed once: redeeming one spends it, a spent credential stays spent until it is
  issued again, and is refused. The provider keeps an invariant of its own.
\<close>

locale one_use = transitions step for step :: "'o \<Rightarrow> 's \<Rightarrow> 's" +
  fixes redeems :: "'k \<Rightarrow> 'o \<Rightarrow> 's \<Rightarrow> bool"
    and issues :: "'k \<Rightarrow> 'o \<Rightarrow> bool"
    and spent :: "'k \<Rightarrow> 's \<Rightarrow> bool"
    and good :: "'s \<Rightarrow> bool"
  assumes good_step: "good s \<Longrightarrow> good (step x s)"
    and redeem_spends: "good s \<Longrightarrow> redeems k x s \<Longrightarrow> \<not> issues k x \<Longrightarrow> spent k (step x s)"
    and spent_step: "good s \<Longrightarrow> spent k s \<Longrightarrow> \<not> issues k x \<Longrightarrow> spent k (step x s)"
    and spent_refused: "good s \<Longrightarrow> spent k s \<Longrightarrow> \<not> redeems k x s"
begin

lemma spent_run:
  assumes "good s" "spent k s" "list_all (\<lambda>x. \<not> issues k x) xs"
  shows "good (fold step xs s) \<and> spent k (fold step xs s)"
  by (rule run_invariant [where P = "\<lambda>s. good s \<and> spent k s" and ok = "\<lambda>x. \<not> issues k x"])
     (use assms good_step spent_step in auto)

lemma spent_never: "good s \<Longrightarrow> spent k s \<Longrightarrow> list_all (\<lambda>x. \<not> issues k x) xs \<Longrightarrow> redemptions step redeems k xs s = 0"
  by (induction xs arbitrary: s) (simp_all add: spent_refused good_step spent_step)

lemma redeemed_once: "good s \<Longrightarrow> list_all (\<lambda>x. \<not> issues k x) xs \<Longrightarrow> redemptions step redeems k xs s \<le> 1"
proof (induction xs arbitrary: s)
  case (Cons x xs)
  show ?case
  proof (cases "redeems k x s")
    case True
    with Cons.prems have "redemptions step redeems k xs (step x s) = 0"
      by (intro spent_never good_step redeem_spends) simp_all
    with True show ?thesis by simp
  next
    case False
    with Cons show ?thesis by (simp add: good_step)
  qed
qed simp

end

section \<open>Tables\<close>

text \<open>A table is a list of rows; statements update or delete the rows that satisfy a condition.\<close>

lemma find_None_iff': "find P xs = None \<longleftrightarrow> \<not> list_ex P xs"
  by (induction xs) auto

lemma find_Some_mem: "find P xs = Some x \<Longrightarrow> x \<in> set xs \<and> P x"
  by (induction xs) (auto split: if_splits)

text \<open>
  A statement keeps the keys of a table: rows are updated without changing their keys or undoing what is done
  to them, rows go, and at most one row of a new key comes, which the statement names.
\<close>

inductive keeps_rows :: "('r \<Rightarrow> 'k) \<Rightarrow> ('r \<Rightarrow> bool) \<Rightarrow> 'k option \<Rightarrow> 'r list \<Rightarrow> 'r list \<Rightarrow> bool" for key d n rows where
  "(\<And>r. key (f r) = key r) \<Longrightarrow> (\<And>r. d r \<Longrightarrow> d (f r)) \<Longrightarrow>
   (new = [] \<or> (\<exists>r. new = [r] \<and> n = Some (key r) \<and> key r \<notin> key ` set rows)) \<Longrightarrow>
   keeps_rows key d n rows (map f (filter P rows) @ new)"

inductive_cases keeps_rowsE: "keeps_rows key d n rows rows'"

lemma keeps_rows_map: "(\<And>r. key (f r) = key r) \<Longrightarrow> (\<And>r. d r \<Longrightarrow> d (f r)) \<Longrightarrow> keeps_rows key d n rows (map f rows)"
  using keeps_rows.intros [of key f d "[]" n rows "\<lambda>_. True"] by simp

lemma keeps_rows_same: "rows' = rows \<Longrightarrow> keeps_rows key d n rows rows'"
  using keeps_rows_map [of key "\<lambda>r. r"] by simp

lemma keeps_rows_refl: "keeps_rows key d n rows rows"
  by (rule keeps_rows_same) simp

lemma keeps_rows_filter: "keeps_rows key d n rows (filter P rows)"
  using keeps_rows.intros [of key "\<lambda>r. r" d "[]" n rows P] by simp

lemma keeps_rows_map_filter:
  "(\<And>r. key (f r) = key r) \<Longrightarrow> (\<And>r. d r \<Longrightarrow> d (f r)) \<Longrightarrow> keeps_rows key d n rows (map f (filter P rows))"
  using keeps_rows.intros [of key f d "[]" n rows P] by simp

lemma keeps_rows_map_add:
  "(\<And>r. key (f r) = key r) \<Longrightarrow> (\<And>r. d r \<Longrightarrow> d (f r)) \<Longrightarrow> key r \<notin> key ` set rows
    \<Longrightarrow> keeps_rows key d (Some (key r)) rows (map f rows @ [r])"
  using keeps_rows.intros [of key f d "[r]" "Some (key r)" rows "\<lambda>_. True"] by simp

lemma keeps_rows_add: "key r \<notin> key ` set rows \<Longrightarrow> keeps_rows key d (Some (key r)) rows (rows @ [r])"
  using keeps_rows_map_add [of key "\<lambda>r. r"] by simp

lemma keeps_rows_keys: "keeps_rows key d n rows rows' \<Longrightarrow> distinct (map key rows) \<Longrightarrow> distinct (map key rows')"
proof (erule keeps_rowsE)
  fix f new P
  assume k: "\<And>r. key (f r) = key r" and new: "new = [] \<or> (\<exists>r. new = [r] \<and> n = Some (key r) \<and> key r \<notin> key ` set rows)"
    and "distinct (map key rows)" and r: "rows' = map f (filter P rows) @ new"
  have "map key (map f (filter P rows)) = map key (filter P rows)" by (simp add: k)
  moreover have "distinct (map key (filter P rows))" by (rule distinct_map_filter) fact
  moreover have "set (map key (filter P rows)) \<subseteq> key ` set rows" by auto
  then have "distinct (map key new)" "set (map key (filter P rows)) \<inter> set (map key new) = {}"
    using new by (elim disjE exE conjE; simp; blast)+
  ultimately show "distinct (map key rows')" unfolding r map_append distinct_append by (simp only: simp_thms)
qed

definition all_done :: "('r \<Rightarrow> 'k) \<Rightarrow> ('r \<Rightarrow> bool) \<Rightarrow> 'k \<Rightarrow> 'r list \<Rightarrow> bool" where
  "all_done key d k rows = list_all (\<lambda>r. key r = k \<longrightarrow> d r) rows"

lemma keeps_rows_done: "keeps_rows key d n rows rows' \<Longrightarrow> n \<noteq> Some k \<Longrightarrow> all_done key d k rows \<Longrightarrow> all_done key d k rows'"
  by (erule keeps_rowsE) (auto simp: all_done_def list_all_iff)

lemma all_done_find: "all_done key d k rows \<Longrightarrow> find (\<lambda>r. key r = k) rows = Some r \<Longrightarrow> d r"
  by (auto simp: all_done_def list_all_iff dest: find_Some_mem)

text \<open>The update of the row a lookup by its unique key found does it for the key.\<close>

lemma all_done_update:
  assumes "distinct (map key rows)" "find (\<lambda>r. key r = k) rows = Some r" "P r"
    "\<And>r. key (f r) = key r" "\<And>r. d (f r)"
  shows "all_done key d k (map (\<lambda>r. if P r then f r else r) rows)"
proof -
  have "r \<in> set rows" "key r = k" using find_Some_mem [OF assms(2)] by simp_all
  then have "x = r" if "x \<in> set rows" "key x = k" for x
    using that assms(1) by (auto simp: distinct_map inj_on_def)
  then show ?thesis using assms(3-5) by (auto simp: all_done_def list_all_iff)
qed

text \<open>
  A table whose rows are credentials: what redeems one finds its row not yet done, and leaves it done. Such a
  table satisfies \<open>one_use\<close>.
\<close>

locale credential_table = transitions step for step :: "'o \<Rightarrow> 's \<Rightarrow> 's" +
  fixes rows :: "'s \<Rightarrow> 'r list"
    and key :: "'r \<Rightarrow> 'k"
    and d :: "'r \<Rightarrow> bool"
    and named :: "'o \<Rightarrow> 'k option"
    and redeems :: "'k \<Rightarrow> 'o \<Rightarrow> 's \<Rightarrow> bool"
    and good :: "'s \<Rightarrow> bool"
  assumes table_good: "good s \<Longrightarrow> good (step x s)"
    and table_rows: "keeps_rows key d (named x) (rows s) (rows (step x s))"
    and redeem_found: "good s \<Longrightarrow> redeems k x s \<Longrightarrow> \<exists>r. find (\<lambda>r. key r = k) (rows s) = Some r \<and> \<not> d r"
    and redeem_done: "good s \<Longrightarrow> redeems k x s \<Longrightarrow> named x \<noteq> Some k \<Longrightarrow> all_done key d k (rows (step x s))"
begin

lemma found_not_done:
  assumes "all_done key d k (rows s)" "good s"
  shows "\<not> redeems k x s"
proof
  assume "redeems k x s"
  from redeem_found [OF assms(2) this] obtain r where "find (\<lambda>r. key r = k) (rows s) = Some r" "\<not> d r" by (elim exE conjE)
  with all_done_find [OF assms(1)] show False by simp
qed

end

sublocale credential_table \<subseteq> one_use step redeems "\<lambda>k x. named x = Some k" "\<lambda>k s. all_done key d k (rows s)" good
proof
  fix s x
  assume "good s"
  then show "good (step x s)" by (rule table_good)
next
  fix s k x
  assume "good s" "redeems k x s" "named x \<noteq> Some k"
  then show "all_done key d k (rows (step x s))" by (rule redeem_done)
next
  fix s k x
  assume "all_done key d k (rows s)" "named x \<noteq> Some k"
  then show "all_done key d k (rows (step x s))" by (rule keeps_rows_done [OF table_rows, rotated])
next
  fix s k x
  assume "good s" "all_done key d k (rows s)"
  then show "\<not> redeems k x s" by (simp add: found_not_done)
qed

end
