(* ===== verification/AccountRuns.thy ===== *)
theory AccountRuns
  imports AccountStore Runs
begin

text \<open>
  Any sequence of calls of the account store: what stays true of refresh sessions, device authorizations and
  disabled users.
\<close>

section \<open>Calls of the store\<close>

datatype store_op =
  SetPreference string string "ident option" | DeletePreference string "ident option"
| CreateUser user_row | SetUserRole ident user_role timestamp | MarkUserLogin ident timestamp
| IncrementAuthVersion ident timestamp | DeleteUser ident
| CreateSetupLink setup_link | DeletePendingLinks ident timestamp | CompleteSetupLink string ident passkey timestamp
| SaveAudit audit_event | SavePasskey passkey | SavePasskeyAndIncrement passkey timestamp
| UpdatePasskeyUsage string nat timestamp | DeletePasskeys ident
| SaveApiKey api_key | TouchApiKey ident timestamp | DeleteApiKey ident "ident option" | DeleteApiKeys ident
| DeleteExpiredApiKeys timestamp
| SaveDevice device_request | ApproveDevice string ident timestamp | DenyDevice string timestamp
| ExchangeDevice string "string option" refresh_session timestamp | DeleteExpiredDevices timestamp
| SaveSession refresh_session | RotateSession string refresh_session timestamp "string option"
| RevokeSession ident timestamp "ident option" | RevokeFamily ident timestamp | RevokeUserSessions ident timestamp
| DeleteExpiredSessions timestamp
| CreateSigningKey signing_key | DisableUser ident timestamp

fun apply_store_op :: "store_op \<Rightarrow> account_db \<Rightarrow> account_db" where
  "apply_store_op (SetPreference k v u) db = setPreference k v u db"
| "apply_store_op (DeletePreference k u) db = deletePreference k u db"
| "apply_store_op (CreateUser u) db = snd (createUser u db)"
| "apply_store_op (SetUserRole i r t) db = snd (setUserRole i r t db)"
| "apply_store_op (MarkUserLogin i t) db = markUserLogin i t db"
| "apply_store_op (IncrementAuthVersion i t) db = incrementUserAuthVersion i t db"
| "apply_store_op (DeleteUser i) db = snd (deleteUser i db)"
| "apply_store_op (CreateSetupLink l) db = snd (createSetupLink l db)"
| "apply_store_op (DeletePendingLinks i t) db = deletePendingSetupLinksForUser i t db"
| "apply_store_op (CompleteSetupLink h u p t) db = snd (completeSetupLink h u p t db)"
| "apply_store_op (SaveAudit a) db = snd (saveAuditEvent a db)"
| "apply_store_op (SavePasskey p) db = snd (savePasskeyRecord p db)"
| "apply_store_op (SavePasskeyAndIncrement p t) db = snd (savePasskeyAndIncrementUserAuthVersion p t db)"
| "apply_store_op (UpdatePasskeyUsage c n t) db = updatePasskeyUsage c n t db"
| "apply_store_op (DeletePasskeys u) db = deletePasskeysForUser u db"
| "apply_store_op (SaveApiKey k) db = snd (saveApiKey k db)"
| "apply_store_op (TouchApiKey i t) db = touchApiKey i t db"
| "apply_store_op (DeleteApiKey i u) db = snd (deleteApiKey_of i u db)"
| "apply_store_op (DeleteApiKeys u) db = deleteApiKeysForUser u db"
| "apply_store_op (DeleteExpiredApiKeys t) db = deleteExpiredApiKeys t db"
| "apply_store_op (SaveDevice d) db = snd (saveDeviceAuthRequest d db)"
| "apply_store_op (ApproveDevice c u t) db = snd (approveDeviceAuth c u t db)"
| "apply_store_op (DenyDevice c t) db = snd (denyDeviceAuth c t db)"
| "apply_store_op (ExchangeDevice h c s t) db = snd (exchangeDeviceAuth h c s t db)"
| "apply_store_op (DeleteExpiredDevices t) db = deleteExpiredDeviceAuthRequests t db"
| "apply_store_op (SaveSession s) db = snd (saveRefreshSession s db)"
| "apply_store_op (RotateSession h s t c) db = snd (rotateRefreshSession h s t c db)"
| "apply_store_op (RevokeSession i t u) db = snd (revokeRefreshSession i t u db)"
| "apply_store_op (RevokeFamily f t) db = revokeRefreshFamily f t db"
| "apply_store_op (RevokeUserSessions u t) db = revokeRefreshSessionsForUser u t db"
| "apply_store_op (DeleteExpiredSessions t) db = deleteExpiredRefreshSessions t db"
| "apply_store_op (CreateSigningKey k) db = snd (getOrCreateSigningKey k db)"
| "apply_store_op (DisableUser i t) db = snd (disableUser i t db)"

interpretation accounts: transitions apply_store_op .

section \<open>What each call does to the sessions\<close>

text \<open>
  The effect of a call on the table of sessions, as one of five changes. Every property of sessions is
  proved for the five.
\<close>

inductive session_change :: "store_op \<Rightarrow> account_db \<Rightarrow> refresh_session list \<Rightarrow> bool" for x db where
  unchanged: "session_change x db (ac_sessions db)"
| removed: "session_change x db (filter P (ac_sessions db))"
| revoked: "session_change x db (ac_sessions (revoke_where P now db))"
| started: "x = SaveSession s \<or> (\<exists>h c next u. x = ExchangeDevice h c next now \<and> s = next\<lparr>rs_userId := u\<rparr>) \<Longrightarrow>
    \<not> list_ex (\<lambda>y. rs_id y = rs_id s \<or> rs_refreshTokenHash y = rs_refreshTokenHash s) (ac_sessions db) \<Longrightarrow>
    session_change x db (ac_sessions (revoke_where P now db) @ [s])"
| continued: "x = RotateSession h s now c \<Longrightarrow> getRefreshSessionByHash db h = Some p \<Longrightarrow> rs_revokedAt p = None \<Longrightarrow>
    same_grant s p \<Longrightarrow> now < rs_expiresAt p \<Longrightarrow>
    \<not> list_ex (\<lambda>y. rs_id y = rs_id s \<or> rs_refreshTokenHash y = rs_refreshTokenHash s) (ac_sessions db) \<Longrightarrow>
    session_change x db (ac_sessions (revoke_where (\<lambda>y. rs_refreshTokenHash y = h \<and> now < rs_expiresAt y) now db) @ [s])"

lemma same_sessions: "ac_sessions db' = ac_sessions db \<Longrightarrow> session_change x db (ac_sessions db')"
  by (metis unchanged)

lemma list_ex_update: "list_ex Q (update_where P f rs) = list_ex (\<lambda>r. Q (if P r then f r else r)) rs"
  by (induction rs) (simp_all add: update_where_def)

lemma list_ex_update_same: "(\<And>r. Q (f r) = Q r) \<Longrightarrow> list_ex Q (update_where P f rs) = list_ex Q rs"
  by (induction rs) (simp_all add: update_where_def)

lemma revoke_where_keys: "list_ex (\<lambda>y. rs_id y = i \<or> rs_refreshTokenHash y = h) (ac_sessions (revoke_where P now db))
    = list_ex (\<lambda>y. rs_id y = i \<or> rs_refreshTokenHash y = h) (ac_sessions db)"
  by (simp add: revoke_where_def list_ex_update_same)

lemma revoke_where_false: "ac_sessions (revoke_where (\<lambda>_. False) now db) = ac_sessions db"
  by (simp add: revoke_where_def update_where_def)

lemma revoke_where_users [simp]: "ac_users (revoke_where P now db) = ac_users db" "has_user (revoke_where P now db) = has_user db"
  by (simp_all add: revoke_where_def has_user_def fun_eq_iff)

lemmas account_ops = immediateTransaction_def seq_def bind_def modify_def ret_def read_user_def

text \<open>An exchange changes nothing, or is an exchange of an approved request of a user who is not disabled.\<close>

definition consume_device :: "string \<Rightarrow> timestamp \<Rightarrow> account_db \<Rightarrow> account_db" where
  "consume_device h now db = db\<lparr>ac_devices := update_where (\<lambda>e. dv_deviceCodeHash e = h \<and> dv_status e = DeviceApproved \<and> now < dv_expiresAt e)
     (\<lambda>e. e\<lparr>dv_status := DeviceConsumed, dv_updatedAt := now\<rparr>) (ac_devices db)\<rparr>"

lemma consume_device_simps [simp]:
  "ac_sessions (consume_device h now db) = ac_sessions db" "ac_users (consume_device h now db) = ac_users db"
  "has_user (consume_device h now db) = has_user db"
  "ac_sessions (revoke_where P t (consume_device h now db)) = ac_sessions (revoke_where P t db)"
  by (simp_all add: consume_device_def has_user_def revoke_where_def fun_eq_iff)

lemma exchange_cases:
  obtains (same) r where "exchangeDeviceAuth h c next now db = (r, db)" "\<And>d u s. r \<noteq> Inr (Exchanged d u s)"
  | (exchanged) d i u s where "exchangeDeviceAuth h c next now db
        = (Inr (Exchanged (d\<lparr>dv_status := DeviceConsumed, dv_updatedAt := now\<rparr>) u s),
           (revoke_where (\<lambda>x. rs_userId x = us_id u \<and> rs_clientId x = dv_clientId d \<and> now < rs_expiresAt x) now (consume_device h now db))
             \<lparr>ac_sessions := ac_sessions (revoke_where (\<lambda>x. rs_userId x = us_id u \<and> rs_clientId x = dv_clientId d \<and> now < rs_expiresAt x) now db) @ [s]\<rparr>)"
      "getDeviceAuthByDeviceCodeHash db h = Some d" "now < dv_expiresAt d" "dv_status d = DeviceApproved"
      "dv_approvedByUserId d = Some i" "getUserById db i = Some u" "us_disabledAt u = None"
      "s = next\<lparr>rs_userId := us_id u\<rparr>" "rs_clientId s = dv_clientId d" "rs_scope s = dv_scope d"
      "\<not> list_ex (\<lambda>y. rs_id y = rs_id s \<or> rs_refreshTokenHash y = rs_refreshTokenHash s) (ac_sessions db)"
proof (cases "getDeviceAuthByDeviceCodeHash db h")
  case None
  then show ?thesis by (intro same [of "Inr ExchangeNotFound"]) (simp_all add: exchangeDeviceAuth_def immediateTransaction_def)
next
  case (Some d)
  let ?r = "fst (exchangeDeviceAuth h c next now db)"
  show ?thesis
  proof (cases "now < dv_expiresAt d \<and> \<not> differs c (dv_clientId d) \<and> dv_status d = DeviceApproved")
    case False
    then show ?thesis using Some
      by (intro same [of ?r]) (auto simp: exchangeDeviceAuth_def immediateTransaction_def split: device_status.split)
  next
    case g: True
    show ?thesis
    proof (cases "Option.bind (optionalText (dv_approvedByUserId d)) (getUserById db)")
      case None
      then show ?thesis using Some g
        by (intro same [of ?r]) (auto simp: exchangeDeviceAuth_def immediateTransaction_def split: option.split)
    next
      case (Some u)
      then obtain i where i: "optionalText (dv_approvedByUserId d) = Some i" "getUserById db i = Some u"
        by (auto simp: bind_eq_Some_conv)
      let ?s = "next\<lparr>rs_userId := us_id u\<rparr>"
      show ?thesis
      proof (cases "us_disabledAt u = None \<and> \<not> differs (Some (rs_userId next)) (us_id u) \<and> rs_clientId next = dv_clientId d
          \<and> rs_scope next = dv_scope d \<and> \<not> list_ex (\<lambda>y. rs_id y = rs_id ?s \<or> rs_refreshTokenHash y = rs_refreshTokenHash ?s) (ac_sessions db)
          \<and> has_user db (us_id u)")
        case False
        then show ?thesis using \<open>getDeviceAuthByDeviceCodeHash db h = Some d\<close> g i
          by (intro same [of ?r]) (auto simp: exchangeDeviceAuth_def account_ops insert_session_def revoke_where_keys
              simp flip: consume_device_def)
      next
        case True
        have a: "dv_approvedByUserId d = Some i"
          using i(1) by (auto simp: optionalText_def split: option.splits list.splits)
        show ?thesis
        proof (rule exchanged)
          show "getDeviceAuthByDeviceCodeHash db h = Some d" "dv_approvedByUserId d = Some i" "getUserById db i = Some u"
            by (fact \<open>getDeviceAuthByDeviceCodeHash db h = Some d\<close> a i(2))+
          show "exchangeDeviceAuth h c next now db
              = (Inr (Exchanged (d\<lparr>dv_status := DeviceConsumed, dv_updatedAt := now\<rparr>) u ?s),
                 (revoke_where (\<lambda>x. rs_userId x = us_id u \<and> rs_clientId x = dv_clientId d \<and> now < rs_expiresAt x) now (consume_device h now db))
                   \<lparr>ac_sessions := ac_sessions (revoke_where (\<lambda>x. rs_userId x = us_id u \<and> rs_clientId x = dv_clientId d \<and> now < rs_expiresAt x) now db) @ [?s]\<rparr>)"
            using \<open>getDeviceAuthByDeviceCodeHash db h = Some d\<close> g i True
            by (auto simp: exchangeDeviceAuth_def account_ops insert_session_def revoke_where_keys simp flip: consume_device_def)
        qed (use g True in auto)
      qed
    qed
  qed
qed

lemma user_exists: "getUserById db i = Some u \<Longrightarrow> has_user db i \<and> us_id u = i"
  by (auto simp: getUserById_def has_user_def list_ex_iff mapUser_def dest: find_Some_mem)

text \<open>A rotation changes nothing, ends the family of the token, or replaces the live token.\<close>

lemma rotate_cases:
  obtains (same) r where "rotateRefreshSession h next now c db = (r, db)" "\<And>p s u. r \<noteq> Inr (Rotated p s u)"
      "\<And>f u. r \<noteq> Inr (RotationReplayed f u)"
  | (killed) r p where "rotateRefreshSession h next now c db = (r, revoke_where (\<lambda>s. rs_familyId s = rs_familyId p) now db)"
      "getRefreshSessionByHash db h = Some p" "\<And>a s u. r \<noteq> Inr (Rotated a s u)"
      "\<And>f u. r = Inr (RotationReplayed f u) \<Longrightarrow> rs_revokedAt p \<noteq> None \<and> f = rs_familyId p"
  | (rotated) p u where "rotateRefreshSession h next now c db = (Inr (Rotated p next u),
        (revoke_where (\<lambda>s. rs_refreshTokenHash s = h \<and> now < rs_expiresAt s) now db)
          \<lparr>ac_sessions := ac_sessions (revoke_where (\<lambda>s. rs_refreshTokenHash s = h \<and> now < rs_expiresAt s) now db) @ [next]\<rparr>)"
      "getRefreshSessionByHash db h = Some p" "rs_revokedAt p = None" "now < rs_expiresAt p" "same_grant next p"
      "getUserById db (rs_userId p) = Some u" "us_disabledAt u = None"
      "\<not> list_ex (\<lambda>s. rs_id s = rs_id next \<or> rs_refreshTokenHash s = rs_refreshTokenHash next) (ac_sessions db)"
proof (cases "getRefreshSessionByHash db h")
  case None
  then show ?thesis by (intro same [of "Inr RotationNotFound"]) (simp_all add: rotateRefreshSession_def immediateTransaction_def)
next
  case (Some p)
  let ?r = "fst (rotateRefreshSession h next now c db)"
  have u: "has_user db (rs_userId p)" if "getUserById db (rs_userId p) = Some u" for u
    using user_exists [OF that] by simp
  show ?thesis
  proof (cases "rs_revokedAt p = None \<and> now < rs_expiresAt p \<and> \<not> differs c (rs_clientId p)")
    case False
    show ?thesis
    proof (cases "rs_revokedAt p")
      case None
      with False Some show ?thesis
        by (intro same [of ?r]) (auto simp: rotateRefreshSession_def immediateTransaction_def Let_def)
    next
      case (Some t)
      with \<open>getRefreshSessionByHash db h = Some p\<close> show ?thesis
        by (intro killed [of ?r p]) (auto simp: rotateRefreshSession_def immediateTransaction_def Let_def)
    qed
  next
    case g: True
    show ?thesis
    proof (cases "getUserById db (rs_userId p)")
      case None
      with \<open>getRefreshSessionByHash db h = Some p\<close> g show ?thesis
        by (intro killed [of ?r p]) (auto simp: rotateRefreshSession_def immediateTransaction_def Let_def)
    next
      case user: (Some u)
      show ?thesis
      proof (cases "us_disabledAt u = None")
        case False
        with \<open>getRefreshSessionByHash db h = Some p\<close> g user show ?thesis
          by (intro killed [of ?r p]) (auto simp: rotateRefreshSession_def immediateTransaction_def Let_def)
      next
        case e: True
        show ?thesis
        proof (cases "same_grant next p \<and> \<not> list_ex (\<lambda>s. rs_id s = rs_id next \<or> rs_refreshTokenHash s = rs_refreshTokenHash next) (ac_sessions db)")
          case False
          with \<open>getRefreshSessionByHash db h = Some p\<close> g user e show ?thesis
            by (intro same [of ?r]) (auto simp: rotateRefreshSession_def immediateTransaction_def Let_def)
        next
          case True
          with \<open>getRefreshSessionByHash db h = Some p\<close> g user e u [OF user] show ?thesis
            by (intro rotated [of p u])
               (auto simp: rotateRefreshSession_def account_ops Let_def insert_session_def revoke_where_keys same_grant_def)
        qed
      qed
    qed
  qed
qed

lemmas store_defs = setPreference_def deletePreference_def createUser_def setUserRole_def markUserLogin_def
  incrementUserAuthVersion_def update_user_def createSetupLink_def deletePendingSetupLinksForUser_def saveAuditEvent_def
  savePasskeyRecord_def savePasskeyAndIncrementUserAuthVersion_def completeSetupLink_def updatePasskeyUsage_def
  deletePasskeysForUser_def saveApiKey_def touchApiKey_def deleteApiKey_of_def deleteApiKeysForUser_def deleteExpiredApiKeys_def
  saveDeviceAuthRequest_def approveDeviceAuth_def denyDeviceAuth_def deleteExpiredDeviceAuthRequests_def getOrCreateSigningKey_def

lemma disable_cases:
  obtains (same) r where "disableUser i t db = (r, db)" "\<And>u. r \<noteq> Inr (UserDisabled u)"
  | (disabled) u v where "disableUser i t db = (Inr (UserDisabled v),
        (revoke_where (\<lambda>s. rs_userId s = i) t db)\<lparr>ac_users := update_where (\<lambda>u. us_id u = i)
          (\<lambda>v. v\<lparr>us_disabledAt := Some t, us_authVersion := us_authVersion v + 1, us_updatedAt := t\<rparr>) (ac_users db)\<rparr>)"
      "getUserById db i = Some u" "us_role u \<noteq> RoleOwner" "us_disabledAt u = None"
proof (cases "getUserById db i")
  case None
  then show ?thesis by (intro same [of "Inr DisableNotFound"]) (simp_all add: disableUser_def immediateTransaction_def)
next
  case (Some u)
  let ?r = "fst (disableUser i t db)"
  show ?thesis
  proof (cases "us_role u \<noteq> RoleOwner \<and> us_disabledAt u = None")
    case False
    with Some show ?thesis by (intro same [of ?r]) (auto simp: disableUser_def immediateTransaction_def)
  next
    case True
    let ?f = "\<lambda>v. v\<lparr>us_disabledAt := Some t, us_authVersion := us_authVersion v + 1, us_updatedAt := t\<rparr>"
    let ?db = "(revoke_where (\<lambda>s. rs_userId s = i) t db)\<lparr>ac_users := update_where (\<lambda>u. us_id u = i) ?f (ac_users db)\<rparr>"
    have e: "revoke_where (\<lambda>s. rs_userId s = i) t (update_user i ?f db) = ?db"
      by (simp add: revoke_where_def update_user_def)
    have "list_ex (\<lambda>u. us_id u = i) (ac_users db)"
      using user_exists [OF Some] by (simp add: has_user_def)
    then have "list_ex (\<lambda>u. us_id u = i) (ac_users ?db)" by (simp add: list_ex_update_same)
    then obtain v where "getUserById ?db i = Some v"
      by (cases "find (\<lambda>u. us_id u = i) (ac_users ?db)") (auto simp: getUserById_def find_None_iff')
    with Some True e show ?thesis by (intro disabled [of v u]) (auto simp: disableUser_def account_ops)
  qed
qed

lemma session_change_op: "session_change x db (ac_sessions (apply_store_op x db))"
proof (cases x)
  case (ExchangeDevice h c s t)
  show ?thesis
  proof (cases rule: exchange_cases [of h c s t db])
    case (same r)
    then show ?thesis using ExchangeDevice by (auto intro: unchanged)
  next
    case (exchanged d i u y)
    show ?thesis unfolding ExchangeDevice apply_store_op.simps exchanged(1)
      by simp (rule started, use exchanged in auto)
  qed
next
  case (RotateSession h s t c)
  show ?thesis
  proof (cases rule: rotate_cases [of h s t c db])
    case (same r)
    then show ?thesis using RotateSession by (auto intro: unchanged)
  next
    case (killed r p)
    then show ?thesis using RotateSession by (auto intro: revoked)
  next
    case (rotated p u)
    show ?thesis unfolding RotateSession apply_store_op.simps rotated(1)
      by simp (rule continued [OF refl rotated(2,3,5,4,8)])
  qed
next
  case (SaveSession s)
  have "session_change (SaveSession s) db (ac_sessions (revoke_where (\<lambda>_. False) 0 db) @ [s])"
    if "\<not> list_ex (\<lambda>y. rs_id y = rs_id s \<or> rs_refreshTokenHash y = rs_refreshTokenHash s) (ac_sessions db)"
    using that by (intro started) auto
  then show ?thesis using SaveSession
    by (auto simp: saveRefreshSession_def insert_session_def revoke_where_false intro: unchanged)
next
  case (DeleteUser i)
  have "session_change x db (filter (\<lambda>s. rs_userId s \<noteq> i) (ac_sessions db))" by (rule removed)
  with DeleteUser show ?thesis by (auto simp: deleteUser_def cascade_user_def delete_where_def intro: unchanged)
next
  case (DeleteExpiredSessions t)
  have "session_change x db (filter (\<lambda>s. \<not> rs_expiresAt s \<le> t) (ac_sessions db))" by (rule removed)
  with DeleteExpiredSessions show ?thesis by (simp add: deleteExpiredRefreshSessions_def delete_where_def)
next
  case (DisableUser i t)
  show ?thesis
  proof (cases rule: disable_cases [of i t db])
    case (same r)
    then show ?thesis using DisableUser by (auto intro: unchanged)
  next
    case (disabled u v)
    then show ?thesis using DisableUser by (auto intro: revoked)
  qed
next
  case (RevokeSession i t u)
  then show ?thesis by (simp add: revokeRefreshSession_def Let_def revoked)
next
  case (RevokeFamily f t)
  then show ?thesis by (simp add: revokeRefreshFamily_def revoked)
next
  case (RevokeUserSessions u t)
  then show ?thesis by (simp add: revokeRefreshSessionsForUser_def revoked)
qed (auto intro!: same_sessions split: option.split device_status.split
      simp: store_defs account_ops Let_def)

section \<open>Families of refresh sessions\<close>

text \<open>A session lives while it is not revoked; a family starts with an exchange or a saved session.\<close>

definition live_sessions :: "ident \<Rightarrow> account_db \<Rightarrow> refresh_session list" where
  "live_sessions f db = filter (\<lambda>s. rs_familyId s = f \<and> rs_revokedAt s = None) (ac_sessions db)"

fun starts_family :: "store_op \<Rightarrow> ident option" where
  "starts_family (ExchangeDevice _ _ s _) = Some (rs_familyId s)"
| "starts_family (SaveSession s) = Some (rs_familyId s)"
| "starts_family _ = None"

definition sessions_ok :: "account_db \<Rightarrow> bool" where
  "sessions_ok db \<longleftrightarrow> distinct (map rs_id (ac_sessions db)) \<and> distinct (map rs_refreshTokenHash (ac_sessions db))
     \<and> (\<forall>f. length (live_sessions f db) \<le> 1)"

definition families :: "account_db \<Rightarrow> ident set" where
  "families db = rs_familyId ` set (ac_sessions db)"

text \<open>\<open>crypto.randomUUID()\<close>: no started family was used before.\<close>

fun fresh_families :: "store_op list \<Rightarrow> ident set \<Rightarrow> bool" where
  "fresh_families [] _ = True"
| "fresh_families (x # xs) F = (case starts_family x of None \<Rightarrow> fresh_families xs F
     | Some f \<Rightarrow> f \<notin> F \<and> fresh_families xs (insert f F))"

definition sessions_only :: "refresh_session list \<Rightarrow> account_db" where
  "sessions_only ss = \<lparr>ac_users = [], ac_preferences = [], ac_links = [], ac_audit = [], ac_passkeys = [], ac_keys = [],
     ac_devices = [], ac_signing = [], ac_sessions = ss\<rparr>"

lemma sessions_ok_cong: "ac_sessions db = ac_sessions db' \<Longrightarrow> sessions_ok db = sessions_ok db'"
  by (simp add: sessions_ok_def live_sessions_def)

lemma update_revoked_maps:
  "map rs_id (ac_sessions (revoke_where P now db)) = map rs_id (ac_sessions db)"
  "map rs_refreshTokenHash (ac_sessions (revoke_where P now db)) = map rs_refreshTokenHash (ac_sessions db)"
  "map rs_familyId (ac_sessions (revoke_where P now db)) = map rs_familyId (ac_sessions db)"
  by (simp_all add: revoke_where_def update_where_def)

lemma live_revoked: "live_sessions f (revoke_where P now db) = filter (\<lambda>s. \<not> P s) (live_sessions f db)"
proof -
  have "filter (\<lambda>s. rs_familyId s = f \<and> rs_revokedAt s = None)
      (update_where (\<lambda>s. P s \<and> rs_revokedAt s = None) (\<lambda>s. s\<lparr>rs_revokedAt := Some now, rs_updatedAt := now\<rparr>) xs)
      = filter (\<lambda>s. \<not> P s) (filter (\<lambda>s. rs_familyId s = f \<and> rs_revokedAt s = None) xs)" for xs
    by (induction xs) (auto simp: update_where_def)
  then show ?thesis by (simp add: live_sessions_def revoke_where_def)
qed

lemma live_append: "ac_sessions db' = ac_sessions db @ [s] \<Longrightarrow>
    live_sessions f db' = live_sessions f db @ (if rs_familyId s = f \<and> rs_revokedAt s = None then [s] else [])"
  by (simp add: live_sessions_def)

lemma live_outside: "f \<notin> families db \<Longrightarrow> live_sessions f db = []"
  by (auto simp: live_sessions_def families_def filter_empty_conv)

lemma filter_le: "length xs \<le> 1 \<Longrightarrow> length (filter P xs) \<le> 1"
  using length_filter_le [of P xs] by linarith

lemma session_change_ok:
  assumes "session_change x db ss" "sessions_ok db" "\<And>f. starts_family x = Some f \<Longrightarrow> f \<notin> families db"
  shows "sessions_ok (sessions_only ss)"
  using assms
proof (cases rule: session_change.cases)
  case unchanged
  with assms(2) show ?thesis by (simp add: sessions_ok_def live_sessions_def sessions_only_def)
next
  case (removed P)
  have "live_sessions f (sessions_only ss) = filter P (live_sessions f db)" for f
    by (simp add: removed live_sessions_def sessions_only_def conj_commute)
  then show ?thesis using assms(2) filter_le
    by (auto simp: sessions_ok_def removed sessions_only_def intro: distinct_map_filter)
next
  case (revoked P now)
  have "ac_sessions (sessions_only ss) = ac_sessions (revoke_where P now db)" by (simp add: revoked sessions_only_def)
  then have "sessions_ok (sessions_only ss) = sessions_ok (revoke_where P now db)" by (rule sessions_ok_cong)
  then show ?thesis using assms(2) filter_le
    by (auto simp: sessions_ok_def update_revoked_maps live_revoked)
next
  case (started s now P)
  have f: "rs_familyId s \<notin> families db" using started(2) assms(3) by auto
  have l: "live_sessions g (sessions_only ss) = live_sessions g (revoke_where P now db)
      @ (if rs_familyId s = g \<and> rs_revokedAt s = None then [s] else [])" for g
    by (rule live_append) (simp add: started sessions_only_def)
  have "length (live_sessions g (sessions_only ss)) \<le> 1" for g
    using f assms(2) filter_le live_outside [OF f] unfolding l live_revoked by (auto simp: sessions_ok_def)
  then show ?thesis using assms(2) started(3)
    by (auto simp: sessions_ok_def started(1) sessions_only_def update_revoked_maps list_ex_iff)
next
  case (continued h s now c p)
  let ?P = "\<lambda>y. rs_refreshTokenHash y = h \<and> now < rs_expiresAt y"
  have p: "p \<in> set (ac_sessions db)" "?P p"
    using find_Some_mem [OF continued(3) [unfolded getRefreshSessionByHash_def]] continued(6) by simp_all
  have l: "live_sessions g (sessions_only ss) = live_sessions g (revoke_where ?P now db)
      @ (if rs_familyId s = g \<and> rs_revokedAt s = None then [s] else [])" for g
    by (rule live_append) (simp add: continued sessions_only_def)
  have "live_sessions (rs_familyId s) db = [p]"
  proof -
    have "p \<in> set (live_sessions (rs_familyId s) db)" using p continued(4,5) by (simp add: live_sessions_def same_grant_def)
    moreover have "length (live_sessions (rs_familyId s) db) \<le> 1" using assms(2) by (simp add: sessions_ok_def)
    ultimately show ?thesis by (cases "live_sessions (rs_familyId s) db") auto
  qed
  then have "filter (\<lambda>y. \<not> ?P y) (live_sessions (rs_familyId s) db) = []" using p by simp
  then have "length (live_sessions g (sessions_only ss)) \<le> 1" for g
    using assms(2) filter_le unfolding l live_revoked by (auto simp: sessions_ok_def)
  then show ?thesis using assms(2) continued(7)
    by (auto simp: sessions_ok_def continued(1) sessions_only_def update_revoked_maps list_ex_iff)
qed

lemma session_change_families:
  assumes "session_change x db ss" "\<And>f. starts_family x = Some f \<Longrightarrow> f \<in> F" "families db \<subseteq> F"
  shows "rs_familyId ` set ss \<subseteq> F"
  using assms
proof (cases rule: session_change.cases)
  case (continued h s now c p)
  have "p \<in> set (ac_sessions db)" using find_Some_mem [OF continued(3) [unfolded getRefreshSessionByHash_def]] by simp
  then have "rs_familyId s \<in> F" using continued(5) assms(3) by (auto simp: same_grant_def families_def)
  with assms(3) show ?thesis using arg_cong [OF update_revoked_maps(3), of set] by (auto simp: continued(1) families_def)
next
  case (started s now P)
  then have "rs_familyId s \<in> F" using assms(2) by auto
  with assms(3) show ?thesis using arg_cong [OF update_revoked_maps(3), of set] by (auto simp: started(1) families_def)
next
  case (revoked P now)
  with assms(3) show ?thesis using arg_cong [OF update_revoked_maps(3), of set] by (auto simp: families_def)
qed (auto simp: families_def)

lemma sessions_ok_step:
  assumes "sessions_ok db" "\<And>f. starts_family x = Some f \<Longrightarrow> f \<notin> families db"
  shows "sessions_ok (apply_store_op x db)"
proof -
  have "sessions_ok (sessions_only (ac_sessions (apply_store_op x db)))"
    by (rule session_change_ok [OF session_change_op assms])
  moreover have "ac_sessions (sessions_only ss) = ss" for ss by (simp add: sessions_only_def)
  ultimately show ?thesis using sessions_ok_cong by metis
qed

lemma sessions_ok_run:
  assumes "sessions_ok db" "families db \<subseteq> F" "fresh_families xs F"
  shows "sessions_ok (fold apply_store_op xs db)"
  using assms
proof (induction xs arbitrary: db F)
  case (Cons x xs)
  let ?F = "case starts_family x of None \<Rightarrow> F | Some f \<Rightarrow> insert f F"
  have "fresh_families xs ?F" using Cons.prems(3) by (auto split: option.splits)
  moreover have "families (apply_store_op x db) \<subseteq> ?F"
    unfolding families_def by (rule session_change_families [OF session_change_op]) (use Cons.prems(2) in \<open>auto split: option.split\<close>)
  moreover have "sessions_ok (apply_store_op x db)"
    by (rule sessions_ok_step [OF Cons.prems(1)]) (use Cons.prems(2,3) in \<open>auto split: option.splits\<close>)
  ultimately show ?case using Cons.IH by simp
qed simp

section \<open>A replayed token ends its family\<close>

definition ended :: "ident \<Rightarrow> account_db \<Rightarrow> bool" where
  "ended f db \<longleftrightarrow> live_sessions f db = []"

lemma ended_step:
  assumes "ended f db" "starts_family x \<noteq> Some f"
  shows "ended f (apply_store_op x db)"
proof -
  have "filter (\<lambda>s. rs_familyId s = f \<and> rs_revokedAt s = None) ss = []" if "session_change x db ss" for ss
    using that assms
  proof (cases rule: session_change.cases)
    case (removed P)
    with assms(1) show ?thesis by (auto simp: ended_def live_sessions_def filter_empty_conv)
  next
    case (revoked P now)
    with assms(1) live_revoked [of f P now db] show ?thesis by (simp add: ended_def live_sessions_def)
  next
    case (started s now P)
    with assms live_revoked [of f P now db] show ?thesis by (auto simp: ended_def live_sessions_def)
  next
    case (continued h s now c p)
    have "p \<in> set (ac_sessions db)" using find_Some_mem [OF continued(3) [unfolded getRefreshSessionByHash_def]] by simp
    then have "rs_familyId p \<noteq> f" using assms(1) continued(4) by (auto simp: ended_def live_sessions_def filter_empty_conv)
    with assms(1) continued live_revoked [of f "\<lambda>y. rs_refreshTokenHash y = h \<and> now < rs_expiresAt y" now db]
    show ?thesis by (simp add: ended_def live_sessions_def same_grant_def)
  qed (simp add: ended_def live_sessions_def)
  from this [OF session_change_op] show ?thesis by (simp add: ended_def live_sessions_def)
qed

lemma ended_run: "ended f db \<Longrightarrow> list_all (\<lambda>x. starts_family x \<noteq> Some f) xs \<Longrightarrow> ended f (fold apply_store_op xs db)"
  by (rule accounts.run_invariant [where P = "ended f" and ok = "\<lambda>x. starts_family x \<noteq> Some f"]) (auto intro: ended_step)

lemma ended_lookup: "ended f db \<Longrightarrow> getRefreshSessionByHash db h = Some s \<Longrightarrow> rs_familyId s = f \<Longrightarrow> rs_revokedAt s \<noteq> None"
  by (auto simp: ended_def live_sessions_def filter_empty_conv getRefreshSessionByHash_def dest: find_Some_mem)

lemma replay_ends:
  assumes "rotateRefreshSession h next now c db = (Inr (RotationReplayed f u), db')"
  shows "ended f db'"
proof (cases rule: rotate_cases [of h "next" now c db])
  case (killed r p)
  then have "f = rs_familyId p" "db' = revoke_where (\<lambda>s. rs_familyId s = rs_familyId p) now db" using assms by auto
  then have "live_sessions f db' = filter (\<lambda>s. rs_familyId s \<noteq> f) (live_sessions f db)" by (simp add: live_revoked)
  then show ?thesis by (auto simp: ended_def live_sessions_def filter_empty_conv)
qed (use assms in auto)

text \<open>A token that was used is revoked while its row is kept, so presenting it again is a replay.\<close>

definition spent :: "string \<Rightarrow> account_db \<Rightarrow> bool" where
  "spent h db \<longleftrightarrow> filter (\<lambda>s. rs_refreshTokenHash s = h \<and> rs_revokedAt s = None) (ac_sessions db) = []"

fun issues_token :: "store_op \<Rightarrow> string option" where
  "issues_token (ExchangeDevice _ _ s _) = Some (rs_refreshTokenHash s)"
| "issues_token (SaveSession s) = Some (rs_refreshTokenHash s)"
| "issues_token (RotateSession _ s _ _) = Some (rs_refreshTokenHash s)"
| "issues_token _ = None"

lemma spent_revoked:
  assumes "spent h db"
  shows "filter (\<lambda>s. rs_refreshTokenHash s = h \<and> rs_revokedAt s = None) (ac_sessions (revoke_where P now db)) = []"
  using assms by (auto simp: spent_def filter_empty_conv revoke_where_def update_where_def)

lemma spent_kept:
  assumes "spent h db" "issues_token x \<noteq> Some h"
  shows "spent h (apply_store_op x db)"
proof -
  have "filter (\<lambda>s. rs_refreshTokenHash s = h \<and> rs_revokedAt s = None) ss = []" if "session_change x db ss" for ss
    using that
  proof (cases rule: session_change.cases)
    case (removed P)
    with assms(1) show ?thesis by (auto simp: spent_def filter_empty_conv)
  next
    case (started s now P)
    with assms show ?thesis by (auto simp: spent_revoked)
  next
    case (continued h' s now c p)
    with assms show ?thesis by (simp add: spent_revoked)
  qed (use assms(1) in \<open>simp_all add: spent_revoked, simp add: spent_def\<close>)
  from this [OF session_change_op] show ?thesis by (simp add: spent_def)
qed

lemma spent_lasts: "spent h db \<Longrightarrow> list_all (\<lambda>x. issues_token x \<noteq> Some h) xs \<Longrightarrow> spent h (fold apply_store_op xs db)"
  by (rule accounts.run_invariant [where P = "spent h" and ok = "\<lambda>x. issues_token x \<noteq> Some h"]) (auto intro: spent_kept)

lemma spent_replay:
  assumes "spent h db"
  shows "fst (rotateRefreshSession h next now c db) = Inr RotationNotFound
    \<or> (\<exists>f u. fst (rotateRefreshSession h next now c db) = Inr (RotationReplayed f u)
         \<and> ended f (snd (rotateRefreshSession h next now c db)))"
proof (cases "getRefreshSessionByHash db h")
  case None
  then show ?thesis by (simp add: rotateRefreshSession_def immediateTransaction_def)
next
  case (Some p)
  then have "rs_revokedAt p \<noteq> None"
    using assms by (auto simp: spent_def filter_empty_conv getRefreshSessionByHash_def dest: find_Some_mem)
  with Some have r: "fst (rotateRefreshSession h next now c db) = Inr (RotationReplayed (rs_familyId p) (rs_userId p))"
    by (simp add: rotateRefreshSession_def immediateTransaction_def Let_def)
  then have "rotateRefreshSession h next now c db
      = (Inr (RotationReplayed (rs_familyId p) (rs_userId p)), snd (rotateRefreshSession h next now c db))"
    by (metis prod.collapse)
  from replay_ends [OF this] r show ?thesis by blast
qed

lemma rotated_spent:
  assumes "rotateRefreshSession h next now c db = (Inr (Rotated p s u), db')" "sessions_ok db"
  shows "spent h db' \<and> same_grant s p \<and> getRefreshSessionByHash db h = Some p \<and> rs_revokedAt p = None"
proof (cases rule: rotate_cases [of h "next" now c db])
  case (rotated q v)
  let ?P = "\<lambda>s. rs_refreshTokenHash s = h \<and> now < rs_expiresAt s"
  have q: "q \<in> set (ac_sessions db)" "rs_refreshTokenHash q = h"
    using find_Some_mem [OF rotated(2) [unfolded getRefreshSessionByHash_def]] by simp_all
  have one: "y = q" if "y \<in> set (ac_sessions db)" "rs_refreshTokenHash y = h" for y
    using that q assms(2) by (auto simp: sessions_ok_def distinct_map inj_on_def)
  have "filter (\<lambda>s. rs_refreshTokenHash s = h \<and> rs_revokedAt s = None) (ac_sessions (revoke_where ?P now db)) = []"
    unfolding filter_empty_conv
  proof
    fix x assume "x \<in> set (ac_sessions (revoke_where ?P now db))"
    then obtain y where y: "y \<in> set (ac_sessions db)"
      "x = (if ?P y \<and> rs_revokedAt y = None then y\<lparr>rs_revokedAt := Some now, rs_updatedAt := now\<rparr> else y)"
      by (auto simp: revoke_where_def update_where_def)
    show "\<not> (rs_refreshTokenHash x = h \<and> rs_revokedAt x = None)"
    proof (cases "rs_refreshTokenHash y = h")
      case True
      with one [OF y(1)] rotated(4) y(2) show ?thesis by (simp split: if_splits)
    qed (simp add: y(2))
  qed
  moreover have "rs_refreshTokenHash next \<noteq> h" using rotated(8) q by (auto simp: list_ex_iff)
  ultimately have "spent h db'" using assms(1) rotated(1) by (auto simp: spent_def)
  then show ?thesis using assms(1) rotated by auto
qed (use assms in auto)

end
