(* ===== verification/AccountCredentials.thy ===== *)
theory AccountCredentials
  imports AccountRuns
begin

text \<open>
  The credentials of the account store that may be redeemed once: device codes, refresh tokens and setup
  links. Each is an instance of the contract \<open>one_use\<close> on the calls of the store, under the uniqueness of its
  column, which every call keeps.
\<close>

section \<open>Rows of the tables of credentials\<close>

fun saved_device :: "store_op \<Rightarrow> string option" where
  "saved_device (SaveDevice d) = Some (dv_deviceCodeHash d)"
| "saved_device _ = None"

fun saved_link :: "store_op \<Rightarrow> string option" where
  "saved_link (CreateSetupLink l) = Some (sl_tokenHash l)"
| "saved_link _ = None"

abbreviation device_rows :: "string option \<Rightarrow> device_request list \<Rightarrow> device_request list \<Rightarrow> bool" where
  "device_rows \<equiv> keeps_rows dv_deviceCodeHash (\<lambda>d. dv_status d = DeviceConsumed)"

abbreviation link_rows :: "string option \<Rightarrow> setup_link list \<Rightarrow> setup_link list \<Rightarrow> bool" where
  "link_rows \<equiv> keeps_rows sl_tokenHash (\<lambda>l. sl_consumedAt l \<noteq> None)"

lemma refresh_tables [simp]:
  "ac_devices (revoke_where P now db) = ac_devices db" "ac_links (revoke_where P now db) = ac_links db"
  "ac_devices (update_user i f db) = ac_devices db" "ac_links (update_user i f db) = ac_links db"
  by (simp_all add: revoke_where_def update_user_def)

lemma passkey_tables: "savePasskeyRecord p db = (r, db') \<Longrightarrow> ac_devices db' = ac_devices db \<and> ac_links db' = ac_links db"
  by (auto simp: savePasskeyRecord_def split: if_splits)

lemma passkey_version_tables:
  "savePasskeyAndIncrementUserAuthVersion p t db = (r, db') \<Longrightarrow> ac_devices db' = ac_devices db \<and> ac_links db' = ac_links db"
  by (auto simp: savePasskeyAndIncrementUserAuthVersion_def account_ops incrementUserAuthVersion_def
      split: if_splits prod.splits sum.splits option.splits dest: passkey_tables)

lemma device_rows_op: "device_rows (saved_device x) (ac_devices db) (ac_devices (apply_store_op x db))"
proof (cases x)
  case (SaveDevice d)
  show ?thesis
  proof (cases "list_ex (\<lambda>e. dv_deviceCodeHash e = dv_deviceCodeHash d \<or> dv_userCode e = dv_userCode d) (ac_devices db)
      \<or> \<not> refers_to_user db (dv_approvedByUserId d)")
    case True
    then show ?thesis using SaveDevice by (auto simp: saveDeviceAuthRequest_def intro: keeps_rows_same)
  next
    case False
    then have "dv_deviceCodeHash d \<notin> dv_deviceCodeHash ` set (ac_devices db)" by (auto simp: list_ex_iff)
    with False SaveDevice show ?thesis by (simp add: saveDeviceAuthRequest_def keeps_rows_add)
  qed
next
  case (ApproveDevice c u t)
  then show ?thesis
    by (auto simp: approveDeviceAuth_def immediateTransaction_def update_where_def split: option.split device_status.split
        intro!: keeps_rows_refl keeps_rows_map)
next
  case (DenyDevice c t)
  then show ?thesis
    by (auto simp: denyDeviceAuth_def immediateTransaction_def update_where_def split: option.split device_status.split
        intro!: keeps_rows_refl keeps_rows_map)
next
  case (ExchangeDevice h c s t)
  then show ?thesis
    by (cases rule: exchange_cases [of h c s t db])
       (auto simp: consume_device_def update_where_def intro!: keeps_rows_refl keeps_rows_map)
next
  case (DeleteExpiredDevices t)
  then show ?thesis by (simp add: deleteExpiredDeviceAuthRequests_def delete_where_def keeps_rows_filter)
next
  case (DeleteUser i)
  then show ?thesis
    by (auto simp: deleteUser_def cascade_user_def intro!: keeps_rows_refl keeps_rows_map)
next
  case (RotateSession h s t c)
  then show ?thesis by (cases rule: rotate_cases [of h s t c db]) (auto intro: keeps_rows_same)
next
  case (DisableUser j t)
  then show ?thesis by (cases rule: disable_cases [of j t db]) (auto intro: keeps_rows_same)
next
  case (SavePasskeyAndIncrement p t)
  then show ?thesis using passkey_version_tables [OF prod.collapse [symmetric], of p t db] by (auto intro: keeps_rows_same)
next
  case (CompleteSetupLink h j p t)
  have "ac_devices (snd (completeSetupLink h j p t db)) = ac_devices db"
    by (auto simp: completeSetupLink_def account_ops incrementUserAuthVersion_def
        split: option.split sum.split prod.split dest!: passkey_tables)
  then show ?thesis using CompleteSetupLink by (auto intro: keeps_rows_same)
qed (auto simp: store_defs immediateTransaction_def Let_def saveRefreshSession_def insert_session_def deleteExpiredRefreshSessions_def
    revokeRefreshSession_def revokeRefreshFamily_def revokeRefreshSessionsForUser_def split: option.split intro!: keeps_rows_refl)

lemma complete_cases:
  obtains (same) r where "completeSetupLink h j p t db = (r, db)" "\<And>l u. r \<noteq> Inr (LinkCompleted l u)"
  | (claimed) r l db' where "completeSetupLink h j p t db = (r, db')" "getSetupLinkByTokenHash db h = Some l"
      "sl_consumedAt l = None" "t < sl_expiresAt l" "sl_userId l = j" "pk_userId p = j"
      "ac_links db' = update_where (\<lambda>k. sl_tokenHash k = h \<and> sl_consumedAt k = None \<and> t < sl_expiresAt k)
         (\<lambda>k. k\<lparr>sl_consumedAt := Some t\<rparr>) (ac_links db)"
proof (cases "getSetupLinkByTokenHash db h")
  case None
  then show ?thesis by (intro same [of "Inr LinkNotFound"]) (simp_all add: completeSetupLink_def immediateTransaction_def)
next
  case (Some l)
  let ?r = "fst (completeSetupLink h j p t db)"
  let ?db = "db\<lparr>ac_links := update_where (\<lambda>k. sl_tokenHash k = h \<and> sl_consumedAt k = None \<and> t < sl_expiresAt k)
         (\<lambda>k. k\<lparr>sl_consumedAt := Some t\<rparr>) (ac_links db)\<rparr>"
  show ?thesis
  proof (cases "sl_consumedAt l = None \<and> t < sl_expiresAt l \<and> sl_userId l = j \<and> pk_userId p = j \<and> has_user db j \<and> \<not> credential_taken db p")
    case False
    with Some show ?thesis by (intro same [of ?r]) (auto simp: completeSetupLink_def immediateTransaction_def)
  next
    case True
    show ?thesis
    proof (cases "savePasskeyRecord p ?db")
      case (Pair r e)
      show ?thesis
      proof (cases r)
        case (Inl y)
        with Pair Some True show ?thesis
          by (intro same [of "Inl y"]) (simp_all add: completeSetupLink_def account_ops)
      next
        case (Inr y)
        let ?e = "incrementUserAuthVersion j t e"
        have "ac_links ?e = ac_links ?db" using passkey_tables [OF Pair] by (simp add: incrementUserAuthVersion_def)
        with Inr Pair Some True show ?thesis
          by (cases "getUserById ?e j") (auto intro!: claimed simp: completeSetupLink_def account_ops)
      qed
    qed
  qed
qed

lemma link_rows_op: "link_rows (saved_link x) (ac_links db) (ac_links (apply_store_op x db))"
proof (cases x)
  case (CreateSetupLink l)
  show ?thesis
  proof (cases "list_ex (\<lambda>k. sl_id k = sl_id l \<or> sl_tokenHash k = sl_tokenHash l) (ac_links db)
      \<or> \<not> has_user db (sl_userId l) \<or> \<not> refers_to_user db (sl_createdByUserId l)")
    case True
    then show ?thesis using CreateSetupLink by (auto simp: createSetupLink_def intro: keeps_rows_refl)
  next
    case False
    then have "sl_tokenHash l \<notin> sl_tokenHash ` set (ac_links db)" by (auto simp: list_ex_iff)
    with False CreateSetupLink show ?thesis by (simp add: createSetupLink_def keeps_rows_add)
  qed
next
  case (DeletePendingLinks i t)
  then show ?thesis by (auto simp: deletePendingSetupLinksForUser_def update_where_def intro!: keeps_rows_map)
next
  case (CompleteSetupLink h j p t)
  show ?thesis
  proof (cases rule: complete_cases [of h j p t db])
    case (claimed r l db')
    then show ?thesis using CompleteSetupLink by (auto simp: update_where_def intro!: keeps_rows_map)
  qed (auto simp: CompleteSetupLink intro: keeps_rows_refl)
next
  case (DeleteUser i)
  then show ?thesis
    by (auto simp: deleteUser_def cascade_user_def delete_where_def intro!: keeps_rows_refl keeps_rows_map_filter)
next
  case (ExchangeDevice h c s t)
  then show ?thesis by (cases rule: exchange_cases [of h c s t db]) (auto simp: consume_device_def intro: keeps_rows_refl)
next
  case (RotateSession h s t c)
  then show ?thesis by (cases rule: rotate_cases [of h s t c db]) (auto intro: keeps_rows_refl)
next
  case (DisableUser j t)
  then show ?thesis by (cases rule: disable_cases [of j t db]) (auto intro: keeps_rows_refl)
next
  case (SavePasskeyAndIncrement p t)
  then show ?thesis using passkey_version_tables [OF prod.collapse [symmetric], of p t db] by (auto intro: keeps_rows_same)
qed (auto simp: store_defs immediateTransaction_def Let_def saveRefreshSession_def insert_session_def deleteExpiredRefreshSessions_def
    revokeRefreshSession_def revokeRefreshFamily_def revokeRefreshSessionsForUser_def split: option.split device_status.split intro!: keeps_rows_refl)

text \<open>Sessions are keyed by their token here; a revoked one is done.\<close>

abbreviation session_rows :: "string option \<Rightarrow> refresh_session list \<Rightarrow> refresh_session list \<Rightarrow> bool" where
  "session_rows \<equiv> keeps_rows rs_refreshTokenHash (\<lambda>s. rs_revokedAt s \<noteq> None)"

lemma session_rows_change:
  assumes "session_change x db ss"
  shows "session_rows (issues_token x) (ac_sessions db) ss"
  using assms
proof (cases rule: session_change.cases)
  case (started s now P)
  have "session_rows (Some (rs_refreshTokenHash s)) (ac_sessions db) ss"
    unfolding started(1) revoke_where_def update_where_def
    by simp (rule keeps_rows_map_add, use started(3) in \<open>auto simp: list_ex_iff\<close>)
  with started(2) show ?thesis by auto
next
  case (continued h s now c p)
  have "session_rows (Some (rs_refreshTokenHash s)) (ac_sessions db) ss"
    unfolding continued(1) revoke_where_def update_where_def
    by simp (rule keeps_rows_map_add, use continued(7) in \<open>auto simp: list_ex_iff\<close>)
  with continued(2) show ?thesis by simp
qed (auto simp: revoke_where_def update_where_def intro!: keeps_rows_refl keeps_rows_map keeps_rows_filter)

lemma session_rows_op: "session_rows (issues_token x) (ac_sessions db) (ac_sessions (apply_store_op x db))"
  by (rule session_rows_change [OF session_change_op])

section \<open>Rows of the users\<close>

text \<open>
  A condition of a user's row that the updates of the store keep lasts until the user is created again: being
  disabled, and having a version of at least some number.
\<close>

fun creates_user :: "store_op \<Rightarrow> ident option" where
  "creates_user (CreateUser u) = Some (us_id u)"
| "creates_user _ = None"

definition lasting :: "(user_row \<Rightarrow> bool) \<Rightarrow> bool" where
  "lasting d \<longleftrightarrow> (\<forall>u t. d u \<longrightarrow> d (u\<lparr>us_lastLoginAt := Some t, us_updatedAt := t\<rparr>) \<and> (\<forall>r. d (u\<lparr>us_role := r, us_updatedAt := t\<rparr>))
     \<and> d (u\<lparr>us_authVersion := us_authVersion u + 1, us_updatedAt := t\<rparr>)
     \<and> d (u\<lparr>us_disabledAt := Some t, us_authVersion := us_authVersion u + 1, us_updatedAt := t\<rparr>))"

lemma lasting_intros:
  assumes "lasting d" "d u"
  shows "d (u\<lparr>us_lastLoginAt := Some t, us_updatedAt := t\<rparr>)" "d (u\<lparr>us_role := r, us_updatedAt := t\<rparr>)"
    "d (u\<lparr>us_authVersion := Suc (us_authVersion u), us_updatedAt := t\<rparr>)"
    "d (u\<lparr>us_disabledAt := Some t, us_authVersion := Suc (us_authVersion u), us_updatedAt := t\<rparr>)"
  using assms by (simp_all add: lasting_def)

lemma passkey_users: "savePasskeyRecord p db = (r, db') \<Longrightarrow> ac_users db' = ac_users db"
  by (auto simp: savePasskeyRecord_def split: if_splits)

lemma increment_rows:
  assumes "lasting d" "ac_users e = us"
  shows "keeps_rows us_id d n us (ac_users (incrementUserAuthVersion j t e))"
  using lasting_intros [OF assms(1)] assms(2)
  by (auto simp: incrementUserAuthVersion_def update_user_def update_where_def intro!: keeps_rows_map)

lemma user_rows_op:
  assumes "lasting d"
  shows "keeps_rows us_id d (creates_user x) (ac_users db) (ac_users (apply_store_op x db))"
proof (cases x)
  case (CreateUser u)
  show ?thesis
  proof (cases "list_ex (\<lambda>v. us_id v = us_id u \<or> us_username v = us_username u) (ac_users db)")
    case True
    then show ?thesis using CreateUser by (auto simp: createUser_def intro: keeps_rows_refl)
  next
    case False
    then have "us_id u \<notin> us_id ` set (ac_users db)" by (auto simp: list_ex_iff)
    with False CreateUser show ?thesis by (simp add: createUser_def keeps_rows_add)
  qed
next
  case (SetUserRole j r t)
  then show ?thesis using lasting_intros [OF assms]
    by (auto simp: setUserRole_def update_user_def update_where_def intro!: keeps_rows_map)
next
  case (MarkUserLogin j t)
  then show ?thesis using lasting_intros [OF assms]
    by (auto simp: markUserLogin_def update_user_def update_where_def intro!: keeps_rows_map)
next
  case (IncrementAuthVersion j t)
  then show ?thesis by (simp add: increment_rows [OF assms])
next
  case (SavePasskeyAndIncrement p t)
  then show ?thesis
    by (auto simp: savePasskeyAndIncrementUserAuthVersion_def account_ops split: option.split sum.split prod.split
        intro!: keeps_rows_refl increment_rows [OF assms] dest: passkey_users)
next
  case (CompleteSetupLink h j p t)
  then show ?thesis
    by (auto simp: completeSetupLink_def account_ops split: option.split sum.split prod.split
        intro!: keeps_rows_refl increment_rows [OF assms] dest!: passkey_users)
next
  case (ExchangeDevice h c s t)
  then show ?thesis by (cases rule: exchange_cases [of h c s t db]) (auto intro: keeps_rows_refl)
next
  case (RotateSession h s t c)
  then show ?thesis by (cases rule: rotate_cases [of h s t c db]) (auto intro: keeps_rows_refl)
next
  case (DisableUser j t)
  then show ?thesis using lasting_intros [OF assms]
    by (cases rule: disable_cases [of j t db]) (auto simp: update_where_def intro!: keeps_rows_refl keeps_rows_map)
next
  case (DeleteUser j)
  then show ?thesis
    by (auto simp: deleteUser_def cascade_user_def delete_where_def intro!: keeps_rows_refl keeps_rows_filter)
qed (auto simp: store_defs immediateTransaction_def Let_def saveRefreshSession_def insert_session_def deleteExpiredRefreshSessions_def
    revoke_where_def revokeRefreshSession_def revokeRefreshFamily_def revokeRefreshSessionsForUser_def
    split: option.split device_status.split intro!: keeps_rows_refl)

lemma user_rows_run:
  assumes "lasting d" "all_done us_id d i (ac_users db)" "list_all (\<lambda>x. creates_user x \<noteq> Some i) xs"
  shows "all_done us_id d i (ac_users (fold apply_store_op xs db))"
  by (rule accounts.run_invariant [where P = "\<lambda>db. all_done us_id d i (ac_users db)" and ok = "\<lambda>x. creates_user x \<noteq> Some i"])
     (use assms keeps_rows_done [OF user_rows_op [OF assms(1)]] in auto)

lemma user_rows_read:
  assumes "all_done us_id d i (ac_users db)" "getUserById db i = Some u"
  obtains r where "d r" "u = mapUser db r"
  using assms by (auto simp: getUserById_def dest: all_done_find)

definition is_disabled :: "user_row \<Rightarrow> bool" where "is_disabled u = (us_disabledAt u \<noteq> None)"
definition from_version :: "nat \<Rightarrow> user_row \<Rightarrow> bool" where "from_version v u = (v \<le> us_authVersion u)"

lemma lasting_disabled: "lasting is_disabled" and lasting_version: "lasting (from_version v)"
  by (simp_all add: lasting_def is_disabled_def from_version_def)

lemma disabled_by:
  assumes "disableUser i t db = (Inr (UserDisabled u), db')"
  shows "all_done us_id is_disabled i (ac_users db')"
proof (cases rule: disable_cases [of i t db])
  case (same r)
  with assms show ?thesis by simp
next
  case (disabled w v)
  have "all_done us_id is_disabled i (update_where (\<lambda>u. us_id u = i)
      (\<lambda>v. v\<lparr>us_disabledAt := Some t, us_authVersion := us_authVersion v + 1, us_updatedAt := t\<rparr>) us)" for us
    by (induction us) (simp_all add: all_done_def is_disabled_def update_where_def)
  with disabled(1) assms show ?thesis by simp
qed

section \<open>Redeemed at most once\<close>

fun redeems_device :: "string \<Rightarrow> store_op \<Rightarrow> account_db \<Rightarrow> bool" where
  "redeems_device k (ExchangeDevice h c s t) db =
     (h = k \<and> (case fst (exchangeDeviceAuth h c s t db) of Inr (Exchanged _ _ _) \<Rightarrow> True | _ \<Rightarrow> False))"
| "redeems_device _ _ _ = False"

fun redeems_token :: "string \<Rightarrow> store_op \<Rightarrow> account_db \<Rightarrow> bool" where
  "redeems_token k (RotateSession h s t c) db =
     (h = k \<and> (case fst (rotateRefreshSession h s t c db) of Inr (Rotated _ _ _) \<Rightarrow> True | _ \<Rightarrow> False))"
| "redeems_token _ _ _ = False"

fun redeems_link :: "string \<Rightarrow> store_op \<Rightarrow> account_db \<Rightarrow> bool" where
  "redeems_link k (CompleteSetupLink h u p t) db =
     (h = k \<and> (case fst (completeSetupLink h u p t db) of Inr (LinkCompleted _ _) \<Rightarrow> True | _ \<Rightarrow> False))"
| "redeems_link _ _ _ = False"

definition unique_credentials :: "account_db \<Rightarrow> bool" where
  "unique_credentials db \<longleftrightarrow> distinct (map dv_deviceCodeHash (ac_devices db)) \<and> distinct (map sl_tokenHash (ac_links db))
     \<and> distinct (map rs_refreshTokenHash (ac_sessions db))"

lemma unique_credentials_step: "unique_credentials db \<Longrightarrow> unique_credentials (apply_store_op x db)"
  unfolding unique_credentials_def
  using keeps_rows_keys [OF device_rows_op] keeps_rows_keys [OF link_rows_op] keeps_rows_keys [OF session_rows_op] by blast

lemma redeems_device_found:
  assumes "unique_credentials db" "redeems_device k x db"
  shows "(\<exists>d. getDeviceAuthByDeviceCodeHash db k = Some d \<and> dv_status d \<noteq> DeviceConsumed)
    \<and> all_done dv_deviceCodeHash (\<lambda>d. dv_status d = DeviceConsumed) k (ac_devices (apply_store_op x db))"
proof -
  from assms(2) obtain c s t where x: "x = ExchangeDevice k c s t" by (cases "(k, x, db)" rule: redeems_device.cases) auto
  show ?thesis
  proof (cases rule: exchange_cases [of k c s t db])
    case (exchanged d i w y)
    have "all_done dv_deviceCodeHash (\<lambda>d. dv_status d = DeviceConsumed) k (ac_devices (consume_device k t db))"
      unfolding consume_device_def update_where_def
      by simp (rule all_done_update [where r = d], use assms(1) exchanged(2-4) in
        \<open>auto simp: unique_credentials_def getDeviceAuthByDeviceCodeHash_def dest: find_Some_mem\<close>)
    with exchanged show ?thesis by (simp add: x)
  qed (use assms(2) x in \<open>auto split: sum.splits exchange_result.splits\<close>)
qed

lemma redeems_token_found:
  assumes "unique_credentials db" "redeems_token k x db" "issues_token x \<noteq> Some k"
  shows "all_done rs_refreshTokenHash (\<lambda>s. rs_revokedAt s \<noteq> None) k (ac_sessions (apply_store_op x db))"
proof -
  from assms(2) obtain s t c where x: "x = RotateSession k s t c" by (cases "(k, x, db)" rule: redeems_token.cases) auto
  show ?thesis
  proof (cases rule: rotate_cases [of k s t c db])
    case (rotated p u)
    have "all_done rs_refreshTokenHash (\<lambda>s. rs_revokedAt s \<noteq> None) k
        (map (\<lambda>s. if rs_refreshTokenHash s = k \<and> t < rs_expiresAt s \<and> rs_revokedAt s = None
           then s\<lparr>rs_revokedAt := Some t, rs_updatedAt := t\<rparr> else s) (ac_sessions db))"
      by (rule all_done_update [where r = p], use assms(1) rotated(2-4) in
        \<open>auto simp: unique_credentials_def getRefreshSessionByHash_def dest: find_Some_mem\<close>)
    moreover have "rs_refreshTokenHash s \<noteq> k" using assms(3) x by simp
    ultimately show ?thesis using rotated(1) by (simp add: x all_done_def revoke_where_def update_where_def)
  qed (use assms(2) x in \<open>auto split: sum.splits rotation_result.splits\<close>)
qed

lemma redeems_token_live:
  assumes "redeems_token k x db"
  shows "\<exists>s. getRefreshSessionByHash db k = Some s \<and> rs_revokedAt s = None"
proof -
  from assms obtain s t c where x: "x = RotateSession k s t c" by (cases "(k, x, db)" rule: redeems_token.cases) auto
  show ?thesis
    by (cases rule: rotate_cases [of k s t c db])
       (use assms x in \<open>auto split: sum.splits rotation_result.splits\<close>)
qed

lemma redeems_link_found:
  assumes "unique_credentials db" "redeems_link k x db"
  shows "(\<exists>l. getSetupLinkByTokenHash db k = Some l \<and> sl_consumedAt l = None)
    \<and> all_done sl_tokenHash (\<lambda>l. sl_consumedAt l \<noteq> None) k (ac_links (apply_store_op x db))"
proof -
  from assms(2) obtain u p t where x: "x = CompleteSetupLink k u p t" by (cases "(k, x, db)" rule: redeems_link.cases) auto
  show ?thesis
  proof (cases rule: complete_cases [of k u p t db])
    case (claimed r l db')
    have "all_done sl_tokenHash (\<lambda>l. sl_consumedAt l \<noteq> None) k (ac_links db')"
      unfolding claimed(7) update_where_def
      by (rule all_done_update [where r = l], use assms(1) claimed(2-4) in
        \<open>auto simp: unique_credentials_def getSetupLinkByTokenHash_def dest: find_Some_mem\<close>)
    with claimed show ?thesis by (simp add: x)
  qed (use assms(2) x in \<open>auto split: sum.splits link_result.splits\<close>)
qed

interpretation device_codes: credential_table apply_store_op ac_devices dv_deviceCodeHash "\<lambda>d. dv_status d = DeviceConsumed"
  saved_device redeems_device unique_credentials
  by unfold_locales (rule unique_credentials_step, assumption, rule device_rows_op,
    drule (1) redeems_device_found, unfold getDeviceAuthByDeviceCodeHash_def, blast, blast dest: redeems_device_found)

interpretation refresh_tokens: credential_table apply_store_op ac_sessions rs_refreshTokenHash "\<lambda>s. rs_revokedAt s \<noteq> None"
  issues_token redeems_token unique_credentials
  by unfold_locales (rule unique_credentials_step, assumption, rule session_rows_op,
    drule redeems_token_live, unfold getRefreshSessionByHash_def, blast, rule redeems_token_found)

interpretation setup_links: credential_table apply_store_op ac_links sl_tokenHash "\<lambda>l. sl_consumedAt l \<noteq> None"
  saved_link redeems_link unique_credentials
  by unfold_locales (rule unique_credentials_step, assumption, rule link_rows_op,
    drule (1) redeems_link_found, unfold getSetupLinkByTokenHash_def, blast, blast dest: redeems_link_found)

end
