(* ===== verification/AuthProps.thy ===== *)
theory AuthProps
  imports BrowserAuth AccountCredentials
begin

text \<open>
  What the account credentials guarantee: they are redeemed once, a replay ends its family, and a request is
  authenticated only by a credential that is live in the account store.
\<close>

section \<open>Shared facts\<close>

lemma stored_run: "stored m db = (Inr y, db') \<Longrightarrow> m db = (Inr y, db')"
  by (auto simp: stored_def split: prod.splits sum.splits)

lemma mapUser_fields [simp]:
  "us_id (mapUser db r) = us_id r" "us_disabledAt (mapUser db r) = us_disabledAt r" "us_role (mapUser db r) = us_role r"
  "us_authVersion (mapUser db r) = us_authVersion r" "us_username (mapUser db r) = us_username r"
  by (simp_all add: mapUser_def)

lemma getUserById_id: "getUserById db i = Some u \<Longrightarrow> us_id u = i"
  by (auto simp: getUserById_def dest: find_Some_mem)

text \<open>Nothing but the signing key changes when it is read.\<close>

lemma signing_key_run:
  assumes "getSigningKey_of fresh db = (r, db')"
  shows "\<exists>k. r = Inr k \<and> db' = db\<lparr>ac_signing := ac_signing db'\<rparr>"
  using assms by (auto simp: getSigningKey_of_def updating_def getOrCreateSigningKey_def split: option.splits)

lemma signing_reads [simp]:
  "getUserById (db\<lparr>ac_signing := k\<rparr>) i = getUserById db i"
  "getRefreshSession (db\<lparr>ac_signing := k\<rparr>) i u = getRefreshSession db i u"
  "getRefreshSessionByHash (db\<lparr>ac_signing := k\<rparr>) h = getRefreshSessionByHash db h"
  "getApiKeyByHash (db\<lparr>ac_signing := k\<rparr>) h = getApiKeyByHash db h"
  by (simp_all add: getUserById_def mapUser_def [abs_def] getRefreshSession_def getRefreshSessionByHash_def getApiKeyByHash_def)

section \<open>A request is authenticated by a live credential\<close>

text \<open>
  The credentials that authenticate a request as a user: an access token whose session is live, a stored API
  key that has not expired, a signed session cookie of the user's current version.
\<close>

inductive credential :: "auth_env \<Rightarrow> account_db \<Rightarrow> timestamp \<Rightarrow> auth_request \<Rightarrow> ident \<Rightarrow> auth_state \<Rightarrow> bool" for E db now req where
  bearer: "bearerToken (ar_authorization req) = Some token \<Longrightarrow>
    jo_verify (ae_jose E) k (issuer (ae_config E)) (audience (ae_config E)) now token = Some p \<Longrightarrow>
    jt_sub p = Some i \<or> i = [] \<Longrightarrow> getRefreshSession db (tc_sid c) i = Some s \<Longrightarrow> rs_revokedAt s = None \<Longrightarrow> now < rs_expiresAt s \<Longrightarrow>
    tc_clientId c = rs_clientId s \<Longrightarrow> tc_scope c = rs_scope s \<Longrightarrow> credential E db now req i (BearerAuth c u None)"
| api_key: "bearerToken (ar_authorization req) = Some token \<Longrightarrow> getApiKeyByHash db (ae_sha256 E token) = Some k \<Longrightarrow>
    \<not> key_expired k now \<Longrightarrow> ak_userId k = i \<Longrightarrow> credential E db now req i (ApiKeyAuth u (ak_id k) (ak_scopes k))"
| session: "getPreference db SECRET_KEY None = Some secret \<Longrightarrow>
    decodeSigned (ae_cookies E) (getCookie (ar_cookie req) SESSION_COOKIE) secret = Some p \<Longrightarrow> now < py_expiresAt p \<Longrightarrow>
    py_userId p = Some i \<Longrightarrow> getUserById db i = Some w \<Longrightarrow> py_authVersion p = Some (us_authVersion w) \<Longrightarrow>
    credential E db now req i (PasskeyAuth u pk)"

inductive_cases credentialE: "credential E db now req i a"

lemma verifyAccessToken_run:
  assumes "verifyAccessToken jo cfg fresh now token db = (Inr c, db')"
  obtains k p s where "db' = db\<lparr>ac_signing := ac_signing db'\<rparr>" "jo_verify jo k (issuer cfg) (audience cfg) now token = Some p"
    "tc_sub c = text_or (jt_sub p) []" "getRefreshSession db (tc_sid c) (tc_sub c) = Some s" "rs_revokedAt s = None"
    "now < rs_expiresAt s" "tc_clientId c = rs_clientId s" "tc_scope c = rs_scope s"
proof -
  obtain k db1 where g: "getSigningKey_of fresh db = (Inr k, db1)" using signing_key_run by (metis surj_pair)
  then have d: "db1 = db\<lparr>ac_signing := ac_signing db1\<rparr>" using signing_key_run by fastforce
  have r: "getRefreshSession db1 i u = getRefreshSession db i u" for i u by (subst d) simp
  from assms g obtain p where p: "jo_verify jo k (issuer cfg) (audience cfg) now token = Some p"
    by (auto simp: verifyAccessToken_def bind_def split: option.splits)
  with assms g obtain s where "getRefreshSession db (text_or (jt_sid p) []) (text_or (jt_sub p) []) = Some s"
    by (auto simp: verifyAccessToken_def bind_def r split: option.splits)
  with assms g p d show thesis
    by (intro that [of k p s]) (auto simp: verifyAccessToken_def bind_def r isExpired_def text_or_def split: if_splits)
qed

lemma verifyBearer_run:
  assumes "verifyBearer E fresh now token db = (Inr b, db')"
  obtains k p s w where "jo_verify (ae_jose E) k (issuer (ae_config E)) (audience (ae_config E)) now token = Some p"
    "cu_id (ba_user b) = text_or (jt_sub p) []" "getRefreshSession db (tc_sid (ba_claims b)) (cu_id (ba_user b)) = Some s"
    "rs_revokedAt s = None" "now < rs_expiresAt s" "tc_clientId (ba_claims b) = rs_clientId s" "tc_scope (ba_claims b) = rs_scope s"
    "getUserById db (cu_id (ba_user b)) = Some w" "us_disabledAt w = None" "ba_user b = toCurrentUser w"
proof -
  from assms obtain c db1 where v: "verifyAccessToken (ae_jose E) (ae_config E) fresh now token db = (Inr c, db1)"
    by (auto simp: verifyBearer_def bind_def throw_def split: if_splits prod.splits sum.splits)
  from verifyAccessToken_run [OF v] obtain k p s where r: "db1 = db\<lparr>ac_signing := ac_signing db1\<rparr>"
    "jo_verify (ae_jose E) k (issuer (ae_config E)) (audience (ae_config E)) now token = Some p"
    "tc_sub c = text_or (jt_sub p) []" "getRefreshSession db (tc_sid c) (tc_sub c) = Some s" "rs_revokedAt s = None" "now < rs_expiresAt s"
    "tc_clientId c = rs_clientId s" "tc_scope c = rs_scope s"
    by metis
  have g: "getUserById db1 i = getUserById db i" for i by (subst r(1)) simp
  from assms v obtain w where w: "getUserById db (tc_sub c) = Some w" "us_disabledAt w = None"
      "b = \<lparr>ba_claims = c, ba_user = toCurrentUser w\<rparr>"
    by (auto simp: verifyBearer_def bind_def throw_def g split: if_splits option.splits)
  have "us_id w = tc_sub c" using getUserById_id [OF w(1)] .
  with r w show thesis by (intro that [of k p s w]) (simp_all add: toCurrentUser_def)
qed

lemma verifyBearer_state:
  assumes "verifyBearer E fresh now token db = (r, db')"
  shows "\<exists>sg. db' = db\<lparr>ac_signing := sg\<rparr>"
proof -
  obtain k db1 where g: "getSigningKey_of fresh db = (Inr k, db1)" using signing_key_run by (metis surj_pair)
  then have "db1 = db\<lparr>ac_signing := ac_signing db1\<rparr>" using signing_key_run by fastforce
  moreover have "db' = db \<or> db' = db1"
    using assms g by (auto simp: verifyBearer_def verifyAccessToken_def bind_def throw_def split: if_splits option.splits)
  moreover have "db = db\<lparr>ac_signing := ac_signing db\<rparr>" by simp
  ultimately show ?thesis by metis
qed

lemma authorize_token_run:
  assumes "authorize_token E fresh now token db = (Inr (Authenticated a), db')"
  obtains (bearer) b db1 where "verifyBearer E fresh now token db = (Inr b, db1)" "a = BearerAuth (ba_claims b) (ba_user b) None"
  | (key) k w where "getApiKeyByHash db (ae_sha256 E token) = Some k" "\<not> key_expired k now" "getUserById db (ak_userId k) = Some w"
      "us_disabledAt w = None" "a = ApiKeyAuth (toCurrentUser w) (ak_id k) (ak_scopes k)"
proof -
  have key': thesis if "authorize_key E now token (db\<lparr>ac_signing := sg\<rparr>) = (Inr (Authenticated a), db')" for sg
  proof -
    from that obtain k where "getApiKeyByHash db (ae_sha256 E token) = Some k"
      by (auto simp: authorize_key_def authenticateApiKey_def bind_def ret_def invalid_token_def split: if_splits option.splits)
    with that key [of k] show thesis
      by (auto simp: authorize_key_def authenticateApiKey_def bind_def ret_def invalid_token_def split: if_splits option.splits)
  qed
  show thesis
  proof (cases "ae_deviceAuthEnabled E")
    case False
    with assms key' [of "ac_signing db"] show thesis by (simp add: authorize_token_def)
  next
    case True
    obtain r db1 where v: "verifyBearer E fresh now token db = (r, db1)" by fastforce
    show thesis
    proof (cases r)
      case (Inl x)
      obtain sg where "db1 = db\<lparr>ac_signing := sg\<rparr>" using verifyBearer_state [OF v] by blast
      with assms True v Inl key' show thesis by (simp add: authorize_token_def catching_def bind_def)
    next
      case (Inr b)
      with assms True v show thesis by (intro bearer [of b db1]) (auto simp: authorize_token_def catching_def bind_def ret_def)
    qed
  qed
qed

lemma getPasskeySession_run:
  assumes "getPasskeySession E cfg cookies now db = Some s" "\<not> rc_passkeyDisabled cfg"
  obtains secret p w where "getPreference db SECRET_KEY None = Some secret"
    "decodeSigned E (getCookie cookies SESSION_COOKIE) secret = Some p" "now < py_expiresAt p" "py_userId p = Some (us_id w)"
    "getUserById db (us_id w) = Some w" "us_disabledAt w = None" "py_authVersion p = Some (us_authVersion w)" "ps_user s = toCurrentUser w"
proof -
  from assms obtain secret p where r: "getPreference db SECRET_KEY None = Some secret"
    "decodeSigned E (getCookie cookies SESSION_COOKIE) secret = Some p"
    by (auto simp: getPasskeySession_def split: option.splits)
  with assms obtain w where w: "Option.bind (py_userId p) (getUserById db) = Some w"
    by (auto simp: getPasskeySession_def split: if_splits option.splits)
  then obtain i where "py_userId p = Some i" "getUserById db i = Some w" by (auto simp: bind_eq_Some_conv)
  with getUserById_id [OF this(2)] r w assms show thesis
    by (intro that [of secret p w]) (auto simp: getPasskeySession_def split: if_splits)
qed

theorem authorize_sound_core:
  assumes "authorize E tickets fresh i now req required db = (Inr (Authenticated a), db')" "currentUser a = Some u"
    "ticket_authentication tickets (ar_id req) = None" "\<not> rc_passkeyDisabled (ae_config E)"
  shows "credential E db now req (cu_id u) a \<and> (\<exists>w. getUserById db (cu_id u) = Some w \<and> us_disabledAt w = None \<and> u = toCurrentUser w)"
proof (cases "optionalText (bearerToken (ar_authorization req))")
  case (Some token)
  then have t: "bearerToken (ar_authorization req) = Some token" by (auto simp: optionalText_def split: option.splits list.splits)
  from assms Some have "authorize_token E fresh now token db = (Inr (Authenticated a), db')" by (simp add: authorize_def)
  then show ?thesis
  proof (cases rule: authorize_token_run)
    case (bearer b db1)
    from verifyBearer_run [OF bearer(1)] show ?thesis
    proof cases
      case (1 k p s w)
      have "jt_sub p = Some (cu_id (ba_user b)) \<or> cu_id (ba_user b) = []" using 1(2) by (cases "jt_sub p") (simp_all add: text_or_def)
      with 1 t bearer(2) assms(2) show ?thesis by (auto simp: currentUser_def intro: credential.bearer)
    qed
  next
    case (key k w)
    have "us_id w = ak_userId k" using getUserById_id [OF key(3)] .
    with key t assms(2) show ?thesis
      by (auto simp: currentUser_def toCurrentUser_def intro!: credential.api_key)
  qed
next
  case None
  with assms have "authorize_browser E i now req required db = (Inr (Authenticated a), db')" by (simp add: authorize_def)
  then obtain s where s: "getPasskeySession (ae_cookies E) (ae_config E) (ar_cookie req) now db = Some s"
      "a = PasskeyAuth (ps_user s) (ps_passkeyId s)"
    using assms(2,4) by (auto simp: authorize_browser_def Let_def passkey_required_def currentUser_def split: if_splits)
  from getPasskeySession_run [OF s(1) assms(4)] show ?thesis
  proof cases
    case (1 secret p w)
    with s assms(2) show ?thesis by (auto simp: currentUser_def toCurrentUser_def intro!: credential.session)
  qed
qed

section \<open>Refresh tokens\<close>

lemma issue_run:
  assumes "bind (issueAccessToken jo cfg dw now s u) (\<lambda>a. ret (f a)) db = (Inr r, db')"
  shows "\<exists>sg. db' = db\<lparr>ac_signing := sg\<rparr>"
proof -
  obtain k db1 where "getSigningKey_of (dw_key dw) db = (Inr k, db1)" "db1 = db\<lparr>ac_signing := ac_signing db1\<rparr>"
    using signing_key_run by (metis surj_pair)
  with assms show ?thesis by (auto simp: issueAccessToken_def bind_def ret_def)
qed

lemma refreshed_run:
  assumes "exchangeRefreshToken sha256 jo cfg dw now token client db = (Inr r, db')"
  obtains p s u db1 sg n where "rotateRefreshSession (sha256 token) n now client db = (Inr (Rotated p s u), db1)"
    "db' = db1\<lparr>ac_signing := sg\<rparr>" "tr_refresh_token r = dw_token dw" "rs_refreshTokenHash s = sha256 (dw_token dw)" "tr_scope r = rs_scope p"
proof -
  from assms obtain q where q: "getRefreshSessionByHash db (sha256 token) = Some q"
    by (auto simp: exchangeRefreshToken_def split: option.splits)
  let ?n = "createRefreshRecord sha256 dw now (rs_userId q) (rs_clientId q) (rs_scope q) (rs_familyId q)"
  from assms q obtain x db1 where x: "rotateRefreshSession (sha256 token) ?n now client db = (Inr x, db1)"
    by (auto simp: exchangeRefreshToken_def bind_def stored_def split: prod.splits sum.splits)
  show thesis
  proof (cases x)
    case (Rotated p s u)
    with assms q x have i: "bind (issueAccessToken jo cfg dw now s (toCurrentUser u))
        (\<lambda>a. ret (tokenSet a (dw_token dw) (rs_scope s))) db1 = (Inr r, db')"
      by (simp add: exchangeRefreshToken_def stored_def bind_def)
    obtain sg where sg: "db' = db1\<lparr>ac_signing := sg\<rparr>" using issue_run [OF i] by blast
    have r: "r = tokenSet (tr_access_token r) (dw_token dw) (rs_scope s)"
      using bind_run [OF i] by (auto simp: ret_def tokenSet_def)
    have s: "s = ?n" "p = q"
      using x Rotated by (cases rule: rotate_cases [of "sha256 token" ?n now client db]; use q in simp)+
    have "tr_refresh_token r = dw_token dw" "tr_scope r = rs_scope q" by (subst r, simp add: tokenSet_def s createRefreshRecord_def)+
    with x Rotated sg s show thesis by (intro that [of ?n p s u db1 sg]) (simp_all add: createRefreshRecord_def)
  qed (use assms q x in \<open>simp_all add: exchangeRefreshToken_def stored_def bind_def throw_def\<close>)
qed

lemma spent_signing: "spent h (db\<lparr>ac_signing := sg\<rparr>) = spent h db"
  by (simp add: spent_def)

lemma ended_signing: "ended f (db\<lparr>ac_signing := sg\<rparr>) = ended f db"
  by (simp add: ended_def live_sessions_def)

lemma spent_refreshed:
  assumes "spent (sha256 token) db"
  obtains db' where "exchangeRefreshToken sha256 jo cfg dw now token client db = (Inl (AuthError ''invalid_grant'' 400), db')"
    "\<And>p. getRefreshSessionByHash db (sha256 token) = Some p \<Longrightarrow> ended (rs_familyId p) db'"
proof (cases "getRefreshSessionByHash db (sha256 token)")
  case None
  then show thesis by (intro that [of db]) (simp_all add: exchangeRefreshToken_def)
next
  case (Some p)
  let ?n = "createRefreshRecord sha256 dw now (rs_userId p) (rs_clientId p) (rs_scope p) (rs_familyId p)"
  have v: "rs_revokedAt p \<noteq> None"
    using Some assms by (auto simp: spent_def filter_empty_conv getRefreshSessionByHash_def dest: find_Some_mem)
  then have r: "rotateRefreshSession (sha256 token) ?n now client db
      = (Inr (RotationReplayed (rs_familyId p) (rs_userId p)), revoke_where (\<lambda>s. rs_familyId s = rs_familyId p) now db)"
    using Some by (simp add: rotateRefreshSession_def immediateTransaction_def Let_def)
  from replay_ends [OF this] show thesis
    using Some r by (intro that [of "revoke_where (\<lambda>s. rs_familyId s = rs_familyId p) now db"])
      (simp_all add: exchangeRefreshToken_def stored_def bind_def throw_def)
qed

section \<open>Logged out everywhere\<close>

lemma seq_modify: "seq (modify f) m db = m (f db)"
  by (simp add: seq_def bind_def modify_def)

lemma audit_run: "audit e t v actor target db = (Inr (), db') \<Longrightarrow> \<exists>l. db' = db\<lparr>ac_audit := l\<rparr>"
  by (auto simp: audit_def stored_def saveAuditEvent_def split: if_splits)

lemma deletePasskey_run:
  assumes "deletePasskey e t i db = (Inr hs, db')"
  shows "ac_users db' = update_where (\<lambda>u. us_id u = i) (\<lambda>u. u\<lparr>us_authVersion := us_authVersion u + 1, us_updatedAt := t\<rparr>) (ac_users db)
    \<and> ac_keys db' = delete_where (\<lambda>k. ak_userId k = i) (ac_keys db)
    \<and> ac_passkeys db' = delete_where (\<lambda>p. pk_userId p = i) (ac_passkeys db)
    \<and> ac_sessions db' = ac_sessions (revoke_where (\<lambda>s. rs_userId s = i) t db)"
proof -
  let ?d = "revokeRefreshSessionsForUser i t (deleteApiKeysForUser i (incrementUserAuthVersion i t (deletePasskeysForUser i db)))"
  have "seq (audit e t ''passkey_deleted'' (Some i) (Some i)) (ret logoutHeaders) ?d = (Inr hs, db')"
    using assms by (simp add: deletePasskey_def seq_modify)
  from seq_run [OF this] obtain d1 where d1: "audit e t ''passkey_deleted'' (Some i) (Some i) ?d = (Inr (), d1)"
      and "(ret logoutHeaders :: set_cookie list auth_op) d1 = (Inr hs, db')" by (elim exE conjE)
  then have "db' = d1" by (simp add: ret_def)
  with audit_run [OF d1] obtain l where "db' = ?d\<lparr>ac_audit := l\<rparr>" by (elim exE) simp
  then show ?thesis
    by (simp add: deletePasskeysForUser_def incrementUserAuthVersion_def update_user_def deleteApiKeysForUser_def
        revokeRefreshSessionsForUser_def revoke_where_def)
qed

lemma user_sessions_revoked:
  "list_all (\<lambda>s. rs_userId s = i \<longrightarrow> rs_revokedAt s \<noteq> None) (ac_sessions (revoke_where (\<lambda>s. rs_userId s = i) t db))"
proof -
  have "list_all (\<lambda>s. rs_userId s = i \<longrightarrow> rs_revokedAt s \<noteq> None)
      (update_where (\<lambda>s. rs_userId s = i \<and> rs_revokedAt s = None) (\<lambda>s. s\<lparr>rs_revokedAt := Some t, rs_updatedAt := t\<rparr>) ss)" for ss
    by (induction ss) (simp_all add: update_where_def)
  then show ?thesis by (simp add: revoke_where_def)
qed

lemma find_update_where:
  "(\<And>r. key (f r) = key r) \<Longrightarrow> find (\<lambda>r. key r = k) (update_where (\<lambda>r. key r = k) f rs) = map_option f (find (\<lambda>r. key r = k) rs)"
  by (induction rs) (simp_all add: update_where_def)

lemma deletePasskey_refuses:
  assumes "deletePasskey e t i db = (Inr hs, db')" "credential E db' now req i a"
  shows "\<exists>secret p w. decodeSigned (ae_cookies E) (getCookie (ar_cookie req) SESSION_COOKIE) secret = Some p
    \<and> py_userId p = Some i \<and> getUserById db i = Some w \<and> py_authVersion p = Some (us_authVersion w + 1)"
proof -
  note r = deletePasskey_run [OF assms(1)]
  from assms(2) show ?thesis
  proof (cases rule: credential.cases)
    case (bearer token k p c s u)
    from bearer(5) have "s \<in> set (ac_sessions db')" "rs_userId s = i"
      by (auto simp: getRefreshSession_def dest: find_Some_mem)
    then have "rs_revokedAt s \<noteq> None" using r user_sessions_revoked [of i t db] by (auto simp: list_all_iff)
    with bearer(6) show ?thesis by simp
  next
    case (api_key token k u)
    then show ?thesis using r by (auto simp: getApiKeyByHash_def delete_where_def dest: find_Some_mem)
  next
    case (session secret p w u pk)
    from session(6) r obtain y where "find (\<lambda>u. us_id u = i) (ac_users db) = Some y" "us_authVersion w = us_authVersion y + 1"
      by (auto simp: getUserById_def find_update_where)
    then have "getUserById db i = Some (mapUser db y)" "us_authVersion w = us_authVersion (mapUser db y) + 1"
      by (simp_all add: getUserById_def)
    with session show ?thesis by auto
  qed
qed

section \<open>The first owner\<close>

lemma getSecret_run: "getSecret f db = (r, db') \<Longrightarrow> \<exists>x pf. r = Inr x \<and> db' = db\<lparr>ac_preferences := pf\<rparr>"
  by (auto simp: getSecret_def setPreference_def split: option.splits intro: exI [of _ "ac_preferences db"])

lemma headers_run: "\<exists>hs pf. createBrowserSessionHeaders E sd now u pk db = (Inr hs, db\<lparr>ac_preferences := pf\<rparr>)"
proof -
  obtain r db' where g: "getSecret (sd_secret sd) db = (r, db')" by fastforce
  from getSecret_run [OF this] obtain x pf where "r = Inr x" "db' = db\<lparr>ac_preferences := pf\<rparr>" by (elim exE conjE)
  with g have "createBrowserSessionHeaders E sd now u pk db = (Inr [\<lparr>sc_name = SESSION_COOKIE,
      sc_value = encodeSigned E (session_payload (sd_nonce sd) now u pk) x, sc_maxAge = SESSION_TTL_SECONDS\<rparr>,
      expiredCookie CHALLENGE_COOKIE], db\<lparr>ac_preferences := pf\<rparr>)"
    by (simp add: createBrowserSessionHeaders_def bind_def ret_def)
  then show ?thesis by blast
qed

lemma bootstrap_begin_run:
  assumes "completeBootstrap_begin E c f i t db = (Inr own, db')"
  shows "ac_users db = [] \<and> us_role own = RoleOwner \<and> (\<exists>pf. db' = db\<lparr>ac_preferences := pf\<rparr>)"
proof -
  let ?K = "\<lambda>c. case (optionalText (py_userId c), optionalText (py_username c)) of
          (Some u, Some n) \<Rightarrow> bind (raise_of (createUserRecord i t n RoleOwner)) (\<lambda>r. ret (r\<lparr>us_id := u\<rparr>))
        | _ \<Rightarrow> throw (AuthError ''challenge_invalid'' 400)"
  from assms have e: "ac_users db = []" and b: "bind (readChallenge E c f ''bootstrap'' t) ?K db = (Inr own, db')"
    by (auto simp: completeBootstrap_begin_def countUsers_def split: if_splits)
  from bind_run [OF b] obtain ch d where r: "readChallenge E c f ''bootstrap'' t db = (Inr ch, d)" and k: "?K ch d = (Inr own, db')"
    by (elim exE conjE)
  from k have o': "us_role own = RoleOwner" and d: "db' = d"
    by (auto simp: bind_def raise_of_def ret_def throw_def createUserRecord_def split: option.splits sum.splits)
  obtain x d0 where g: "getSecret f db = (x, d0)" by fastforce
  from getSecret_run [OF this] obtain y pf where y: "x = Inr y" "d0 = db\<lparr>ac_preferences := pf\<rparr>" by (elim exE conjE)
  with r g have "d = d0"
    by (auto simp: readChallenge_def bind_def throw_def ret_def split: option.splits if_splits)
  with e o' d y show ?thesis by auto
qed

definition passkey_free :: "passkey \<Rightarrow> account_db \<Rightarrow> bool" where
  "passkey_free p db \<longleftrightarrow> \<not> list_ex (\<lambda>q. pk_id q = pk_id p \<or> pk_credentialId q = pk_credentialId p \<or> pk_userId q = pk_userId p) (ac_passkeys db)"

lemma passkey_saved:
  assumes "passkey_free p db" "has_user db (pk_userId p)"
  shows "\<exists>u. persistPasskey p now db = (Inr u, (incrementUserAuthVersion (pk_userId p) now db)\<lparr>ac_passkeys := ac_passkeys db @ [p]\<rparr>)"
proof -
  let ?d = "incrementUserAuthVersion (pk_userId p) now (db\<lparr>ac_passkeys := ac_passkeys db @ [p]\<rparr>)"
  have "getPasskeyByCredentialId db (pk_credentialId p) = None"
    using assms(1) by (auto simp: passkey_free_def getPasskeyByCredentialId_def find_None_iff' list_ex_iff)
  then have c: "\<not> credential_taken db p" by (simp add: credential_taken_def passkeyCredentialOwner_def optionalText_def)
  have "savePasskeyRecord p db = (Inr (), db\<lparr>ac_passkeys := ac_passkeys db @ [p]\<rparr>)"
    using assms by (auto simp: passkey_free_def savePasskeyRecord_def list_ex_iff)
  moreover have "has_user ?d (pk_userId p)" using assms(2)
    by (simp add: has_user_def incrementUserAuthVersion_def update_user_def list_ex_update_same)
  then obtain u where "getUserById ?d (pk_userId p) = Some u"
    by (cases "getUserById ?d (pk_userId p)") (auto simp: getUserById_def has_user_def find_None_iff')
  moreover have "?d = (incrementUserAuthVersion (pk_userId p) now db)\<lparr>ac_passkeys := ac_passkeys db @ [p]\<rparr>"
    by (simp add: incrementUserAuthVersion_def update_user_def)
  ultimately show ?thesis using assms(2) c
    by (simp add: persistPasskey_def savePasskeyAndIncrementUserAuthVersion_def account_ops stored_def)
qed

lemma update_append_new:
  "\<not> list_ex P rows \<Longrightarrow> P r \<Longrightarrow> update_where P f (rows @ [r]) = rows @ [f r]"
  by (induction rows) (simp_all add: update_where_def)

lemma bootstrap_end_run:
  assumes "\<not> list_ex (\<lambda>v. us_id v = us_id own \<or> us_username v = us_username own) (ac_users db)"
    "passkey_free (new_passkey i now (us_id own) info) db" "\<not> list_ex (\<lambda>b. au_id b = sd_audit sd) (ac_audit db)"
  shows "\<exists>hs db' au. completeBootstrap_end E sd now i own (Inr info) db = (Inr hs, db')
    \<and> ac_users db' = ac_users db @ [own\<lparr>us_authVersion := us_authVersion own + 1, us_updatedAt := now\<rparr>]
    \<and> ac_passkeys db' = ac_passkeys db @ [new_passkey i now (us_id own) info]
    \<and> ac_audit db' = ac_audit db @ [au] \<and> au_id au = sd_audit sd"
proof -
  let ?p = "new_passkey i now (us_id own) info"
  let ?d = "db\<lparr>ac_users := ac_users db @ [own]\<rparr>"
  let ?e = "(incrementUserAuthVersion (us_id own) now ?d)\<lparr>ac_passkeys := ac_passkeys db @ [?p]\<rparr>"
  have v: "verified_passkey i now (us_id own) (Inr info) db = (Inr ?p, db)"
    by (simp add: verified_passkey_def raise_of_def bind_def ret_def)
  have c: "stored (createUser own) db = (Inr (), ?d)" using assms(1) by (simp add: stored_def createUser_def)
  have "pk_userId ?p = us_id own" by (simp add: new_passkey_def)
  then obtain u where p: "persistPasskey ?p now ?d = (Inr u, ?e)"
    using passkey_saved [of ?p ?d now] assms(2) by (auto simp: passkey_free_def has_user_def)
  obtain hs pf where h: "createBrowserSessionHeaders E sd now u (Some (pk_id ?p)) ?e = (Inr hs, ?e\<lparr>ac_preferences := pf\<rparr>)"
    using headers_run by metis
  let ?au = "\<lparr>au_id = sd_audit sd, au_eventType = ''owner_created'', au_actorUserId = None, au_targetUserId = Some (us_id own),
     au_metadata = ''{}'', au_createdAt = now\<rparr>"
  have us: "ac_users ?e = ac_users db @ [own\<lparr>us_authVersion := us_authVersion own + 1, us_updatedAt := now\<rparr>]"
    using assms(1) update_append_new [of "\<lambda>u. us_id u = us_id own" "ac_users db" own]
    by (simp add: incrementUserAuthVersion_def update_user_def list_ex_iff)
  have "list_ex (\<lambda>u. us_id u = us_id own) (ac_users ?e)" unfolding us by simp
  then have "has_user (?e\<lparr>ac_preferences := pf\<rparr>) (us_id own)" by (simp add: has_user_def)
  moreover have "ac_audit ?e = ac_audit db" by (simp add: incrementUserAuthVersion_def update_user_def)
  ultimately have a: "audit (sd_audit sd) now ''owner_created'' None (Some (us_id own)) (?e\<lparr>ac_preferences := pf\<rparr>)
      = (Inr (), ?e\<lparr>ac_preferences := pf, ac_audit := ac_audit db @ [?au]\<rparr>)"
    using assms(3) by (simp add: audit_def stored_def saveAuditEvent_def refers_to_user_def)
  have "completeBootstrap_end E sd now i own (Inr info) db = (Inr hs, ?e\<lparr>ac_preferences := pf, ac_audit := ac_audit db @ [?au]\<rparr>)"
    by (simp add: completeBootstrap_end_def bind_def v seq_def c p h a ret_def)
  with us show ?thesis by simp
qed

section \<open>The guarantees\<close>

text \<open>A table with one user, for the examples.\<close>

definition sample_user :: "ident \<Rightarrow> user_role \<Rightarrow> user_row" where
  "sample_user i r = \<lparr>us_id = i, us_username = i, us_role = r, us_authVersion = 1, us_createdAt = 0, us_updatedAt = 0,
     us_lastLoginAt = None, us_disabledAt = None\<rparr>"

definition sample_device :: device_request where
  "sample_device = \<lparr>dv_deviceCodeHash = ''d'', dv_userCode = ''c'', dv_clientId = ''cli'', dv_scope = ''*'', dv_status = DeviceApproved,
     dv_approvedByUserId = Some ''u'', dv_createdAt = 0, dv_updatedAt = 0, dv_expiresAt = 100\<rparr>"

definition sample_session :: "ident \<Rightarrow> string \<Rightarrow> refresh_session" where
  "sample_session i h = \<lparr>rs_id = i, rs_userId = ''u'', rs_familyId = ''f'', rs_clientId = ''cli'', rs_scope = ''*'',
     rs_refreshTokenHash = h, rs_createdAt = 0, rs_updatedAt = 0, rs_expiresAt = 100, rs_lastUsedAt = None, rs_revokedAt = None\<rparr>"

definition sample_accounts :: account_db where
  "sample_accounts = \<lparr>ac_users = [sample_user ''u'' RoleUser], ac_preferences = [], ac_links = [], ac_audit = [], ac_passkeys = [],
     ac_keys = [], ac_devices = [sample_device], ac_signing = [], ac_sessions = [sample_session ''s'' ''t'']\<rparr>"

text \<open>
  C23. A device code, a refresh token and a setup link are redeemed at most once: in any sequence of calls of the
  account store that does not issue the same credential again, at most one exchange, rotation or completion of it
  succeeds.
\<close>

theorem credentials_redeemed_once:
  assumes "unique_credentials db"
  shows "(list_all (\<lambda>x. saved_device x \<noteq> Some k) xs \<longrightarrow> redemptions apply_store_op redeems_device k xs db \<le> 1)
    \<and> (list_all (\<lambda>x. issues_token x \<noteq> Some k) xs \<longrightarrow> redemptions apply_store_op redeems_token k xs db \<le> 1)
    \<and> (list_all (\<lambda>x. saved_link x \<noteq> Some k) xs \<longrightarrow> redemptions apply_store_op redeems_link k xs db \<le> 1)"
  using device_codes.redeemed_once [OF assms, of k xs] refresh_tokens.redeemed_once [OF assms, of k xs]
    setup_links.redeemed_once [OF assms, of k xs] by blast

theorem credentials_redeemed_once_witness:
  "redemptions apply_store_op redeems_device ''d'' [ExchangeDevice ''d'' None (sample_session ''s2'' ''t2'') 5,
     ExchangeDevice ''d'' None (sample_session ''s3'' ''t3'') 6] sample_accounts \<le> 1"
  by (rule credentials_redeemed_once [THEN conjunct1, THEN mp])
     (simp_all add: unique_credentials_def sample_accounts_def)


definition sample_jose :: jose where
  "sample_jose = \<lparr>jo_sign = (\<lambda>k p. ''a''), jo_verify = (\<lambda>k i a n t. None)\<rparr>"

definition sample_config :: runtime_config where
  "sample_config = \<lparr>rc_passkeyDisabled = False, rc_envPrefix = ''CLANKY'', rc_authIssuer = None\<rparr>"

definition sample_draws :: "string \<Rightarrow> draws" where
  "sample_draws x = \<lparr>dw_token = x, dw_id = x, dw_family = x, dw_jti = x, dw_key = \<lparr>sk_alg = [], sk_kid = [], sk_publicJwk = [], sk_privateJwk = [], sk_createdAt = 0\<rparr>\<rparr>"


text \<open>
  C25. In any sequence of calls in which started sessions get families not used before, identifiers and tokens of
  sessions stay unique, and a family has at most one session that is not revoked.
\<close>

theorem one_live_session_per_family:
  assumes "sessions_ok db" "fresh_families xs (families db)"
  shows "sessions_ok (fold apply_store_op xs db)"
  by (rule sessions_ok_run [OF assms(1) order_refl assms(2)])

theorem one_live_session_per_family_witness:
  "sessions_ok (fold apply_store_op [ExchangeDevice ''d'' None (sample_session ''s2'' ''t2''\<lparr>rs_familyId := ''g''\<rparr>) 5,
     RotateSession ''t2'' (sample_session ''s3'' ''t3''\<lparr>rs_familyId := ''g''\<rparr>) 6 None] sample_accounts)"
  by (rule one_live_session_per_family)
     (simp_all add: sessions_ok_def sample_accounts_def live_sessions_def sample_session_def families_def)

text \<open>
  C26. A request that was not prepared by a client ticket is authenticated as a user only when that user is stored and
  not disabled, and the request carries an access token whose session is neither revoked nor expired and has the
  token's client and scope, an API key of the user that has not expired, or a session cookie signed with the stored
  secret that has the user's current version.
\<close>

theorem authorize_sound:
  assumes "authorize E tickets fresh i now req required db = (Inr (Authenticated a), db')" "currentUser a = Some u"
    "ticket_authentication tickets (ar_id req) = None" "\<not> rc_passkeyDisabled (ae_config E)"
  shows "credential E db now req (cu_id u) a \<and> (\<exists>w. getUserById db (cu_id u) = Some w \<and> us_disabledAt w = None \<and> u = toCurrentUser w)"
  by (rule authorize_sound_core [OF assms])

definition sample_key :: api_key where
  "sample_key = \<lparr>ak_id = ''k'', ak_userId = ''u'', ak_name = [], ak_prefix = ''wapp'', ak_tokenHash = ''secret'', ak_scopes = [''*''],
     ak_createdAt = 0, ak_lastUsedAt = None, ak_expiresAt = None, ak_kind = UserKey, ak_managedBy = None\<rparr>"

definition sample_cookies :: cookie_env where
  "sample_cookies = \<lparr>ce_encode = (\<lambda>p. ''body''), ce_decode = (\<lambda>b. None), ce_hmac = (\<lambda>b s. ''sig'')\<rparr>"

definition sample_env :: auth_env where
  "sample_env = \<lparr>ae_sha256 = id, ae_jose = sample_jose, ae_cookies = sample_cookies, ae_config = sample_config,
     ae_passkeysEnabled = True, ae_apiKeysEnabled = True, ae_deviceAuthEnabled = True\<rparr>"

definition sample_request :: auth_request where
  "sample_request = \<lparr>ar_id = 0, ar_authorization = Some ''Bearer  secret '', ar_cookie = None\<rparr>"

definition no_tickets :: ticket_state where
  "no_tickets = \<lparr>ts_tickets = [], ts_prepared = []\<rparr>"

lemma sample_token: "bearerToken (ar_authorization sample_request) = Some ''secret''"
  by code_simp

lemma sample_verify: "verifyBearer sample_env k now x db = (Inl CryptoFailure, snd (getSigningKey_of k db))"
  by (auto simp: verifyBearer_def verifyAccessToken_def sample_env_def sample_jose_def bind_def getSigningKey_of_def updating_def
      getOrCreateSigningKey_def split: option.split)

lemma sample_key_works:
  assumes "getApiKeyByHash db ''secret'' = Some sample_key" "find (\<lambda>u. us_id u = ''u'') (ac_users db) = Some (sample_user ''u'' RoleUser)"
  shows "\<exists>db'. authorize sample_env no_tickets (dw_key (sample_draws [])) ''i'' 5 sample_request True db
    = (Inr (Authenticated (ApiKeyAuth (toCurrentUser (sample_user ''u'' RoleUser)) ''k'' [''*''])), db')"
proof -
  obtain sg where sg: "snd (getSigningKey_of (dw_key (sample_draws [])) db) = db\<lparr>ac_signing := sg\<rparr>"
    using signing_key_run by (metis prod.collapse)
  have "getUserById db ''u'' = Some (mapUser db (sample_user ''u'' RoleUser))" using assms(2) by (simp add: getUserById_def)
  with assms(1) sg show ?thesis
    by (simp add: authorize_def ticket_authentication_def no_tickets_def sample_token optionalText_def authorize_token_def catching_def
      sample_verify bind_def)
     (simp add: authorize_key_def sample_env_def bind_def authenticateApiKey_def sample_key_def key_expired_def
      mapUser_def sample_user_def ret_def toCurrentUser_def)
qed

theorem authorize_sound_witness:
  "credential sample_env (sample_accounts\<lparr>ac_keys := [sample_key]\<rparr>) 5 sample_request ''u''
     (ApiKeyAuth (toCurrentUser (sample_user ''u'' RoleUser)) ''k'' [''*''])"
proof -
  have "getApiKeyByHash (sample_accounts\<lparr>ac_keys := [sample_key]\<rparr>) ''secret'' = Some sample_key
      \<and> find (\<lambda>u. us_id u = ''u'') (ac_users (sample_accounts\<lparr>ac_keys := [sample_key]\<rparr>)) = Some (sample_user ''u'' RoleUser)"
    by (simp add: getApiKeyByHash_def sample_accounts_def sample_key_def sample_user_def)
  then obtain db' where "authorize sample_env no_tickets (dw_key (sample_draws [])) ''i'' 5 sample_request True (sample_accounts\<lparr>ac_keys := [sample_key]\<rparr>)
    = (Inr (Authenticated (ApiKeyAuth (toCurrentUser (sample_user ''u'' RoleUser)) ''k'' [''*''])), db')" using sample_key_works by blast
  from authorize_sound [OF this, of "toCurrentUser (sample_user ''u'' RoleUser)"] show ?thesis
    by (simp add: currentUser_def ticket_authentication_def no_tickets_def sample_env_def sample_config_def toCurrentUser_def sample_user_def)
qed


definition sample_locked :: "account_db \<Rightarrow> account_db" where
  "sample_locked db = snd (disableUser ''v'' 1 (db\<lparr>ac_users := [sample_user ''u'' RoleUser, sample_user ''v'' RoleUser], ac_keys := [sample_key]\<rparr>))"

lemma sample_disabled: "\<exists>w. disableUser ''v'' 1 (sample_accounts\<lparr>ac_users := [sample_user ''u'' RoleUser, sample_user ''v'' RoleUser],
    ac_keys := [sample_key]\<rparr>) = (Inr (UserDisabled w), sample_locked sample_accounts)"
  by (simp add: sample_locked_def disableUser_def immediateTransaction_def sample_accounts_def getUserById_def sample_user_def
      mapUser_def seq_def bind_def modify_def update_user_def update_where_def revoke_where_def read_user_def sample_session_def)


text \<open>
  Removing a user's passkey logs the user out everywhere: afterwards no access token, no API key and no session
  cookie that was made before authenticates a request as that user.
\<close>

theorem passkey_removal_logs_out:
  assumes "deletePasskey e t j db = (Inr hs, db1)" "getUserById db j = Some w"
    and "\<And>secret p v. decodeSigned (ae_cookies E) (getCookie (ar_cookie req) SESSION_COOKIE) secret = Some p \<Longrightarrow> py_userId p = Some j
      \<Longrightarrow> py_authVersion p = Some v \<Longrightarrow> v \<le> us_authVersion w"
    and "authorize E tickets fresh i now req required db1 = (Inr (Authenticated a), db2)"
    and "ticket_authentication tickets (ar_id req) = None" "\<not> rc_passkeyDisabled (ae_config E)"
  shows "case currentUser a of None \<Rightarrow> True | Some u \<Rightarrow> cu_id u \<noteq> j"
proof (cases "currentUser a")
  case (Some u)
  have "credential E db1 now req (cu_id u) a" using authorize_sound_core [OF assms(4) Some assms(5,6)] by blast
  have "cu_id u \<noteq> j"
  proof
    assume "cu_id u = j"
    with \<open>credential E db1 now req (cu_id u) a\<close> have "credential E db1 now req j a" by simp
    from deletePasskey_refuses [OF assms(1) this] assms(2) obtain secret p where
      "decodeSigned (ae_cookies E) (getCookie (ar_cookie req) SESSION_COOKIE) secret = Some p" "py_userId p = Some j"
      "py_authVersion p = Some (us_authVersion w + 1)" by auto
    from assms(3) [OF this] show False by simp
  qed
  with Some show ?thesis by simp
qed simp

theorem passkey_removal_logs_out_witness:
  "cu_id (toCurrentUser (sample_user ''u'' RoleUser)) \<noteq> ''v''"
proof -
  let ?db = "sample_accounts\<lparr>ac_users := [sample_user ''u'' RoleUser, sample_user ''v'' RoleUser], ac_keys := [sample_key]\<rparr>"
  let ?db1 = "snd (deletePasskey ''e'' 1 ''v'' ?db)"
  have d: "deletePasskey ''e'' 1 ''v'' ?db = (Inr logoutHeaders, ?db1)"
    by (simp add: deletePasskey_def seq_modify, simp add: seq_def bind_def audit_def stored_def saveAuditEvent_def ret_def
      deletePasskeysForUser_def incrementUserAuthVersion_def update_user_def deleteApiKeysForUser_def revokeRefreshSessionsForUser_def
      revoke_where_def sample_accounts_def refers_to_user_def has_user_def sample_user_def update_where_def)
  have g: "getUserById ?db ''v'' = Some (mapUser ?db (sample_user ''v'' RoleUser))"
    by (simp add: getUserById_def sample_user_def)
  have "getApiKeyByHash ?db1 ''secret'' = Some sample_key \<and> find (\<lambda>u. us_id u = ''u'') (ac_users ?db1) = Some (sample_user ''u'' RoleUser)"
    using deletePasskey_run [OF d]
    by (simp add: getApiKeyByHash_def delete_where_def update_where_def sample_key_def sample_user_def)
  then obtain db2 where a: "authorize sample_env no_tickets (dw_key (sample_draws [])) ''i'' 5 sample_request True ?db1
    = (Inr (Authenticated (ApiKeyAuth (toCurrentUser (sample_user ''u'' RoleUser)) ''k'' [''*''])), db2)" using sample_key_works by blast
  have "decodeSigned c (getCookie (ar_cookie sample_request) n) x = None" for c n x
    by (simp add: sample_request_def getCookie_def optionalText_def decodeSigned_def)
  then show ?thesis
    using passkey_removal_logs_out [OF d g _ a]
    by (simp add: currentUser_def ticket_authentication_def no_tickets_def sample_env_def sample_config_def)
qed

text \<open>
  C28. Two first registrations that overlap both succeed: the check that no user exists runs before the passkey is
  verified and is not repeated after it, so the second completion creates a second owner.
\<close>

theorem overlapping_bootstraps_two_owners:
  assumes "completeBootstrap_begin E c1 f1 i1 t1 db = (Inr o1, db1)" "completeBootstrap_begin E c2 f2 i2 t2 db1 = (Inr o2, db2)"
    and "us_id o1 \<noteq> us_id o2" "us_username o1 \<noteq> us_username o2" "ac_passkeys db = []" "ac_audit db = []"
    and "ri_credentialId info1 \<noteq> ri_credentialId info2" "k1 \<noteq> k2" "sd_audit s1 \<noteq> sd_audit s2"
  shows "\<exists>hs1 hs2 db3 db4. completeBootstrap_end E s1 ta k1 o1 (Inr info1) db2 = (Inr hs1, db3)
    \<and> completeBootstrap_end E s2 tb k2 o2 (Inr info2) db3 = (Inr hs2, db4)
    \<and> length (filter (\<lambda>u. us_role u = RoleOwner) (ac_users db4)) = 2"
proof -
  from bootstrap_begin_run [OF assms(1)] bootstrap_begin_run [OF assms(2)] assms(5,6)
  have b: "ac_users db2 = []" "us_role o1 = RoleOwner" "us_role o2 = RoleOwner" "ac_passkeys db2 = []" "ac_audit db2 = []" by auto
  obtain hs1 db3 au where e1: "completeBootstrap_end E s1 ta k1 o1 (Inr info1) db2 = (Inr hs1, db3)"
    "ac_users db3 = [o1\<lparr>us_authVersion := us_authVersion o1 + 1, us_updatedAt := ta\<rparr>]"
    "ac_passkeys db3 = [new_passkey k1 ta (us_id o1) info1]" "ac_audit db3 = [au]" "au_id au = sd_audit s1"
    using bootstrap_end_run [of o1 db2 k1 ta info1 s1 E] b by (auto simp: passkey_free_def)
  then obtain hs2 db4 where "completeBootstrap_end E s2 tb k2 o2 (Inr info2) db3 = (Inr hs2, db4)"
    "ac_users db4 = ac_users db3 @ [o2\<lparr>us_authVersion := us_authVersion o2 + 1, us_updatedAt := tb\<rparr>]"
    using bootstrap_end_run [of o2 db3 k2 tb info2 s2 E] assms(3-) by (auto simp: passkey_free_def new_passkey_def)
  with e1 b show ?thesis by auto
qed

definition sample_challenge :: "string \<Rightarrow> payload" where
  "sample_challenge x = \<lparr>py_expiresAt = 100, py_challenge = Some ''c'', py_type = Some ''bootstrap'', py_userId = Some x,
     py_username = Some (''bob'' @ x), py_setupTokenHash = None, py_nonce = None, py_authVersion = None, py_passkeyId = None\<rparr>"

definition bootstrap_cookies :: cookie_env where
  "bootstrap_cookies = \<lparr>ce_encode = (\<lambda>p. []), ce_decode = (\<lambda>b. Some (sample_challenge b)), ce_hmac = (\<lambda>b s. ''s'')\<rparr>"

definition sample_info :: "string \<Rightarrow> registration_info" where
  "sample_info x = \<lparr>ri_credentialId = x, ri_publicKey = [], ri_counter = 0, ri_deviceType = [], ri_backedUp = False, ri_transports = []\<rparr>"

definition empty_accounts :: account_db where
  "empty_accounts = sample_accounts\<lparr>ac_users := [], ac_devices := [], ac_sessions := []\<rparr>"

definition sample_session_draws :: "string \<Rightarrow> session_draws" where
  "sample_session_draws x = \<lparr>sd_secret = [], sd_nonce = [], sd_audit = x\<rparr>"

lemma sample_cookie:
  "getCookie (Some ''webapp_passkey_challenge=a.s'') CHALLENGE_COOKIE = Some ''a.s''"
  "getCookie (Some ''webapp_passkey_challenge=b.s'') CHALLENGE_COOKIE = Some ''b.s''"
  by code_simp+

lemma sample_username:
  "assertValidUsername ''boba'' = Inr ''boba''" "assertValidUsername ''bobb'' = Inr ''bobb''"
  by code_simp+

lemma sample_bootstrap:
  assumes "ac_users db = []" "getCookie (Some c) CHALLENGE_COOKIE = Some (x @ ''.s'')" "x = ''a'' \<or> x = ''b''"
  shows "\<exists>own db'. completeBootstrap_begin bootstrap_cookies (Some c) ''z'' ''i'' 5 db = (Inr own, db')
    \<and> us_id own = x \<and> us_username own = ''bob'' @ x"
proof -
  obtain y db' where "getSecret ''z'' db = (Inr y, db')" using getSecret_run by (metis surj_pair)
  moreover have "decodeSigned bootstrap_cookies (Some (x @ ''.s'')) y = Some (sample_challenge x)" for y
    using assms(3) by (auto simp: decodeSigned_def bootstrap_cookies_def)
  ultimately show ?thesis using assms
    by (auto simp: completeBootstrap_begin_def countUsers_def readChallenge_def bind_def ret_def sample_challenge_def optionalText_def
        raise_of_def createUserRecord_def sample_username)
qed

theorem overlapping_bootstraps_two_owners_witness:
  "\<exists>o1 o2 db2 hs1 hs2 db3 db4. completeBootstrap_end bootstrap_cookies (sample_session_draws ''x'') 6 ''k'' o1 (Inr (sample_info ''c'')) db2 = (Inr hs1, db3)
    \<and> completeBootstrap_end bootstrap_cookies (sample_session_draws ''y'') 7 ''l'' o2 (Inr (sample_info ''d'')) db3 = (Inr hs2, db4)
    \<and> length (filter (\<lambda>u. us_role u = RoleOwner) (ac_users db4)) = 2"
proof -
  let ?b = "\<lambda>c. completeBootstrap_begin bootstrap_cookies (Some c) ''z'' ''i'' 5"
  have "ac_users empty_accounts = []" by (simp add: empty_accounts_def)
  then obtain o1 db1 where o1: "?b ''webapp_passkey_challenge=a.s'' empty_accounts = (Inr o1, db1)" "us_id o1 = ''a''" "us_username o1 = ''boba''"
    using sample_bootstrap [of empty_accounts "''webapp_passkey_challenge=a.s''" "''a''"] sample_cookie(1) by auto
  then have "ac_users db1 = []" using bootstrap_begin_run by fastforce
  then obtain o2 db2 where o2: "?b ''webapp_passkey_challenge=b.s'' db1 = (Inr o2, db2)" "us_id o2 = ''b''" "us_username o2 = ''bobb''"
    using sample_bootstrap [of db1 "''webapp_passkey_challenge=b.s''" "''b''"] sample_cookie(2) by auto
  have n: "us_id o1 \<noteq> us_id o2" "us_username o1 \<noteq> us_username o2" using o1 o2 by simp_all
  have e: "ac_passkeys empty_accounts = []" "ac_audit empty_accounts = []" by (simp_all add: empty_accounts_def sample_accounts_def)
  have d: "ri_credentialId (sample_info ''c'') \<noteq> ri_credentialId (sample_info ''d'')" "''k'' \<noteq> ''l''"
    "sd_audit (sample_session_draws ''x'') \<noteq> sd_audit (sample_session_draws ''y'')"
    by (simp_all add: sample_info_def sample_session_draws_def)
  from overlapping_bootstraps_two_owners [OF o1(1) o2(1) n e d, where ta = 6 and tb = 7] obtain hs1 hs2 db3 db4 where
    "completeBootstrap_end bootstrap_cookies (sample_session_draws ''x'') 6 ''k'' o1 (Inr (sample_info ''c'')) db2 = (Inr hs1, db3)
    \<and> completeBootstrap_end bootstrap_cookies (sample_session_draws ''y'') 7 ''l'' o2 (Inr (sample_info ''d'')) db3 = (Inr hs2, db4)
    \<and> length (filter (\<lambda>u. us_role u = RoleOwner) (ac_users db4)) = 2" by (elim exE)
  then show ?thesis by (intro exI)
qed

end
