(* ===== verification/TicketProps.thy ===== *)
theory TicketProps
  imports ClientTickets Runs
begin

text \<open>
  Any sequence of calls of the client tickets: the table stays within its bounds, and a websocket ticket is
  accepted at most once, also when other calls come between its check and the verification of its token.
\<close>

section \<open>Calls\<close>

datatype ticket_call =
  IssueTicket ticket_request bearer_auth string ticket_kind string string timestamp
| PrepareBegin ticket_request timestamp
| PrepareEnd string client_ticket "bearer_auth option" nat
| ClearTickets

fun apply_ticket_call :: "ticket_env \<Rightarrow> string \<Rightarrow> ticket_call \<Rightarrow> ticket_state \<Rightarrow> ticket_state" where
  "apply_ticket_call E p (IssueTicket req a target k token opaque now) s = snd (issue_ticket E p req a target k token opaque now s)"
| "apply_ticket_call E p (PrepareBegin req now) s = snd (prepare_begin E req now s)"
| "apply_ticket_call E p (PrepareEnd key t a r) s = snd (prepare_end key t a r s)"
| "apply_ticket_call E p ClearTickets s = clear_tickets s"

fun issues_ticket :: "ticket_env \<Rightarrow> string \<Rightarrow> ticket_call \<Rightarrow> bool" where
  "issues_ticket E k (IssueTicket req a target kind token opaque now) = (te_sha256 E opaque = k)"
| "issues_ticket E k _ = False"

text \<open>The call that lets a websocket ticket through.\<close>

fun redeems_ticket :: "ticket_env \<Rightarrow> string \<Rightarrow> ticket_call \<Rightarrow> ticket_state \<Rightarrow> bool" where
  "redeems_ticket E k (PrepareBegin req now) s =
     (case fst (prepare_begin E req now s) of Inr (Some (key, t)) \<Rightarrow> key = k \<and> ct_kind t = WebsocketTicket | _ \<Rightarrow> False)"
| "redeems_ticket E k _ s = False"

interpretation ticket_calls: transitions "apply_ticket_call E p" for E p .

section \<open>Bounds\<close>

definition tickets_ok :: "ticket_state \<Rightarrow> bool" where
  "tickets_ok s \<longleftrightarrow> amap_wf (ts_tickets s) \<and> length (ts_tickets s) \<le> MAX_TICKETS
     \<and> (\<forall>sid. length (session_tickets sid (ts_tickets s)) \<le> MAX_SESSION_TICKETS)"

lemma amap_set_length: "length (amap_set m k v) \<le> Suc (length m)"
  by (induction m k v rule: amap_set.induct) simp_all

lemma session_tickets_set:
  "length (session_tickets sid (amap_set m k t)) \<le> length (session_tickets sid m) + (if ct_sessionId t = sid then 1 else 0)"
  by (induction m k t rule: amap_set.induct) (auto simp: session_tickets_def)

lemma session_tickets_filter: "length (session_tickets sid (filter P m)) \<le> length (session_tickets sid m)"
  by (induction m) (auto simp: session_tickets_def)

lemma tickets_ok_filter: "tickets_ok s \<Longrightarrow> tickets_ok (s\<lparr>ts_tickets := filter P (ts_tickets s)\<rparr>)"
  by (auto simp: tickets_ok_def amap_wf_filter intro: order_trans [OF length_filter_le] order_trans [OF session_tickets_filter])

lemma tickets_ok_prune: "tickets_ok s \<Longrightarrow> tickets_ok (prune_tickets now s)"
  by (simp add: prune_tickets_def tickets_ok_filter)

lemma tickets_ok_delete: "tickets_ok s \<Longrightarrow> tickets_ok (s\<lparr>ts_tickets := amap_delete (ts_tickets s) k\<rparr>)"
  by (simp add: amap_delete_def tickets_ok_filter)

lemma tickets_ok_prepared [simp]: "tickets_ok (s\<lparr>ts_prepared := x\<rparr>) = tickets_ok s"
  by (simp add: tickets_ok_def)

lemma tickets_ok_issue:
  assumes "tickets_ok s"
  shows "tickets_ok (snd (issue_ticket E p req a target k token opaque now s))"
proof (cases "targetUrl E target k p")
  case (Inr u)
  let ?p = "prune_tickets now s"
  let ?sid = "tc_sid (ba_claims a)"
  have ok: "tickets_ok ?p" using assms by (rule tickets_ok_prune)
  show ?thesis
  proof (cases "length (ts_tickets ?p) \<ge> MAX_TICKETS \<or> length (session_tickets ?sid (ts_tickets ?p)) \<ge> MAX_SESSION_TICKETS")
    case True
    with ok Inr show ?thesis by (simp add: issue_ticket_def Let_def)
  next
    case False
    have "tickets_ok (?p\<lparr>ts_tickets := amap_set (ts_tickets ?p) h t\<rparr>)" if "ct_sessionId t = ?sid" for h t
    proof -
      have "length (session_tickets sid (amap_set (ts_tickets ?p) h t)) \<le> MAX_SESSION_TICKETS" for sid
        using session_tickets_set [of sid "ts_tickets ?p" h t] ok False that
        by (cases "?sid = sid") (auto simp: tickets_ok_def intro: order_trans)
      then show ?thesis using ok False amap_set_length [of "ts_tickets ?p" h t] by (auto simp: tickets_ok_def amap_wf_set)
    qed
    with False Inr show ?thesis by (simp add: issue_ticket_def Let_def)
  qed
qed (use assms in \<open>simp add: issue_ticket_def\<close>)

lemma tickets_ok_step: "tickets_ok s \<Longrightarrow> tickets_ok (apply_ticket_call E p x s)"
proof (cases x)
  case (IssueTicket req a target k token opaque now)
  assume "tickets_ok s"
  with IssueTicket show ?thesis by (simp add: tickets_ok_issue)
next
  case (PrepareBegin req now)
  assume "tickets_ok s"
  with PrepareBegin show ?thesis
    by (auto simp: prepare_begin_def Let_def tickets_ok_prune tickets_ok_delete split: option.split)
next
  case (PrepareEnd key t a r)
  assume "tickets_ok s"
  with PrepareEnd show ?thesis by (auto simp: prepare_end_def Let_def tickets_ok_delete split: option.split)
next
  case ClearTickets
  then show ?thesis by (simp add: clear_tickets_def tickets_ok_def session_tickets_def)
qed

section \<open>Single use\<close>

definition ticket_gone :: "string \<Rightarrow> ticket_state \<Rightarrow> bool" where
  "ticket_gone k s = (amap_get (ts_tickets s) k = None)"

lemma gone_filter: "ticket_gone k s \<Longrightarrow> ticket_gone k (s\<lparr>ts_tickets := filter P (ts_tickets s)\<rparr>)"
  by (auto simp: ticket_gone_def amap_get_def map_of_eq_None_iff)

lemma gone_step: "ticket_gone k s \<Longrightarrow> \<not> issues_ticket E k x \<Longrightarrow> ticket_gone k (apply_ticket_call E p x s)"
proof (cases x)
  case (IssueTicket req a target kind token opaque now)
  assume g: "ticket_gone k s" and "\<not> issues_ticket E k x"
  then have "te_sha256 E opaque \<noteq> k" using IssueTicket by simp
  moreover have "ticket_gone k (prune_tickets now s)" using g by (simp add: prune_tickets_def gone_filter)
  ultimately show ?thesis using g IssueTicket
    by (auto simp: issue_ticket_def Let_def ticket_gone_def split: sum.split)
next
  case (PrepareBegin req now)
  assume g: "ticket_gone k s"
  then have "ticket_gone k (prune_tickets now s)" by (simp add: prune_tickets_def gone_filter)
  with g PrepareBegin show ?thesis by (auto simp: prepare_begin_def Let_def ticket_gone_def split: option.split)
next
  case (PrepareEnd key t a r)
  assume "ticket_gone k s"
  with PrepareEnd show ?thesis by (auto simp: prepare_end_def Let_def ticket_gone_def split: option.split)
qed (simp add: clear_tickets_def ticket_gone_def)

lemma redeems_ticket_found:
  assumes "redeems_ticket E k x s"
  shows "amap_get (ts_tickets s) k \<noteq> None \<and> ticket_gone k (apply_ticket_call E p x s)"
proof -
  from assms obtain req now where x: "x = PrepareBegin req now" by (cases "(E, k, x, s)" rule: redeems_ticket.cases) auto
  have "amap_get (ts_tickets (prune_tickets now s)) k \<noteq> None \<Longrightarrow> amap_get (ts_tickets s) k \<noteq> None"
    by (auto simp: prune_tickets_def amap_get_def map_of_eq_None_iff)
  with assms x show ?thesis
    by (auto simp: prepare_begin_def Let_def ticket_gone_def split: if_splits option.splits)
qed

interpretation websocket_tickets: one_use "apply_ticket_call E p" "redeems_ticket E" "issues_ticket E" ticket_gone "\<lambda>_. True" for E p
proof
  fix s k x
  assume "redeems_ticket E k x s"
  then show "ticket_gone k (apply_ticket_call E p x s)" by (simp add: redeems_ticket_found)
next
  fix s k x
  assume "ticket_gone k s" "\<not> issues_ticket E k x"
  then show "ticket_gone k (apply_ticket_call E p x s)" by (rule gone_step)
next
  fix s :: ticket_state and k x
  assume "ticket_gone k s"
  then show "\<not> redeems_ticket E k x s" using redeems_ticket_found [of E k x s p] by (auto simp: ticket_gone_def)
qed simp

section \<open>An issued ticket is presented\<close>

lemma span_append:
  "list_all (\<lambda>c. \<not> P c) xs \<Longrightarrow> P m \<Longrightarrow> takeWhile (\<lambda>c. \<not> P c) (xs @ m # ys) = xs \<and> dropWhile (\<lambda>c. \<not> P c) (xs @ m # ys) = m # ys"
  by (induction xs) simp_all

lemma strip_issued:
  assumes "o' \<noteq> []" "list_all ticket_char o'" "m = CHR ''?'' \<or> m = CHR ''&''"
  shows "strip_ticket (target @ m # CLIENT_TICKET_PARAMETER @ CHR ''='' # o') = target"
proof -
  have q: "list_all (\<lambda>c. \<not> query_mark c) (CLIENT_TICKET_PARAMETER @ ''='')"
    by (simp add: CLIENT_TICKET_PARAMETER_def query_mark_def)
  have "\<not> query_mark c" if "ticket_char c" for c
  proof
    assume "query_mark c"
    then have "c = CHR ''?'' \<or> c = CHR ''&''" by (simp add: query_mark_def)
    with that show False by (auto simp: ticket_char_def)
  qed
  then have n: "list_all (\<lambda>c. \<not> query_mark c) ((CLIENT_TICKET_PARAMETER @ ''='') @ o')"
    using q assms(2) by (auto simp: list_all_iff)
  let ?l = "(CLIENT_TICKET_PARAMETER @ ''='') @ o'"
  have r: "rev (target @ m # CLIENT_TICKET_PARAMETER @ CHR ''='' # o') = rev ?l @ m # rev target" by simp
  have m: "query_mark m" using assms(3) by (auto simp: query_mark_def)
  have a: "list_all (\<lambda>c. \<not> query_mark c) (rev ?l)" using n by (auto simp: list_all_iff)
  note t = span_append [OF a m, of "rev target", THEN conjunct1]
  note d = span_append [OF a m, of "rev target", THEN conjunct2]
  show ?thesis using assms(1,2)
    unfolding strip_ticket_def r t d Let_def by (simp add: starts_with_def)
qed

lemma issue_ticket_run:
  assumes "issue_ticket E p req a target k token opaque now s = (Inr (url, e), s')"
  obtains m where "m = CHR ''?'' \<or> m = CHR ''&''" "url = target @ m # CLIENT_TICKET_PARAMETER @ CHR ''='' # opaque"
    "e = now + TICKET_TTL k"
    "amap_get (ts_tickets s') (te_sha256 E opaque) = Some \<lparr>ct_token = token, ct_target = target, ct_kind = k, ct_origin = tq_origin req,
       ct_userId = cu_id (ba_user a), ct_sessionId = tc_sid (ba_claims a), ct_expiresAt = now + TICKET_TTL k\<rparr>"
    "amap_wf (ts_tickets s) \<Longrightarrow> amap_wf (ts_tickets s')"
proof -
  from assms obtain u where u: "targetUrl E target k p = Inr u" by (auto simp: issue_ticket_def split: sum.splits)
  then have t: "ur_pathname u @ ur_search u = target" by (auto simp: targetUrl_def Let_def split: if_splits)
  have w: "amap_wf (ts_tickets s) \<Longrightarrow> amap_wf (ts_tickets (prune_tickets now s))" by (simp add: prune_tickets_def amap_wf_filter)
  show thesis
    using assms u t w amap_wf_set
    by (intro that [of "if ur_search u \<noteq> [] then CHR ''&'' else CHR ''?''"]) (auto simp: issue_ticket_def Let_def split: if_splits)
qed

lemma pruned_get:
  "amap_wf (ts_tickets s) \<Longrightarrow> amap_get (ts_tickets s) k = Some t \<Longrightarrow> now < ct_expiresAt t
    \<Longrightarrow> amap_get (ts_tickets (prune_tickets now s)) k = Some t"
  by (simp add: prune_tickets_def amap_get_iff_mem amap_wf_filter)

section \<open>The guarantees\<close>

definition no_client_tickets :: ticket_state where
  "no_client_tickets = \<lparr>ts_tickets = [], ts_prepared = []\<rparr>"

text \<open>A parser that splits at the question mark, for the examples.\<close>

definition sample_url :: "string \<Rightarrow> url_parts" where
  "sample_url x = \<lparr>ur_origin = ''https://ticket.invalid'', ur_pathname = takeWhile (\<lambda>c. c \<noteq> CHR ''?'') x,
     ur_search = dropWhile (\<lambda>c. c \<noteq> CHR ''?'') x, ur_params = (if x = ''/api/x'' then [] else [(CLIENT_TICKET_PARAMETER, ''ab'')])\<rparr>"

definition sample_tickets :: ticket_env where
  "sample_tickets = \<lparr>te_sha256 = id, te_url = sample_url\<rparr>"

definition sample_bearer :: bearer_auth where
  "sample_bearer = \<lparr>ba_claims = \<lparr>tc_sub = ''u'', tc_username = None, tc_role = None, tc_jti = [], tc_sid = ''s'', tc_clientId = [], tc_scope = []\<rparr>,
     ba_user = \<lparr>cu_id = ''u'', cu_username = ''u'', cu_role = RoleUser, cu_isOwner = False, cu_isAdmin = False\<rparr>\<rparr>"

definition sample_ticket_request :: "string \<Rightarrow> ticket_request" where
  "sample_ticket_request x = \<lparr>tq_id = 0, tq_method = ''GET'', tq_url = sample_url x, tq_origin = None, tq_upgrade = Some ''websocket'',
     tq_has_authorization = False\<rparr>"

text \<open>
  C29. However the calls of the client tickets follow one another, at most 4096 tickets are kept, at most 128 of any
  session, and their keys are distinct.
\<close>

theorem client_tickets_bounded:
  "tickets_ok (fold (apply_ticket_call E p) xs no_client_tickets)"
  by (rule ticket_calls.run_invariant [where P = tickets_ok and ok = "\<lambda>_. True"])
     (simp_all add: tickets_ok_step, simp_all add: tickets_ok_def no_client_tickets_def session_tickets_def MAX_SESSION_TICKETS_def list_all_iff)

text \<open>
  C30. A websocket ticket is let through at most once, whatever calls come between the check of a ticket and the
  verification of its token, as long as no ticket of the same key is issued again.
\<close>

theorem websocket_ticket_single_use:
  assumes "list_all (\<lambda>x. \<not> issues_ticket E k x) xs"
  shows "redemptions (apply_ticket_call E p) (redeems_ticket E) k xs s \<le> 1"
  by (rule websocket_tickets.redeemed_once [OF TrueI assms])

theorem websocket_ticket_single_use_witness:
  "redemptions (apply_ticket_call sample_tickets ''/ws'') (redeems_ticket sample_tickets) ''ab''
     [PrepareBegin (sample_ticket_request ''/api/x?webapp_ticket=ab'') 6, PrepareBegin (sample_ticket_request ''/api/x?webapp_ticket=ab'') 7]
     (snd (issue_ticket sample_tickets ''/ws'' (sample_ticket_request ''/'') sample_bearer ''/api/x'' WebsocketTicket ''tok'' ''ab'' 5 no_client_tickets)) \<le> 1"
  by (rule websocket_ticket_single_use) simp


lemma sample_target: "targetUrl sample_tickets ''/api/x'' WebsocketTicket ''/ws'' = Inr (sample_url ''/api/x'')"
  by code_simp


end
