(* ===== verification/ExecutionPath.thy ===== *)
theory ExecutionPath
  imports Prelude "HOL-Library.Sublist"
begin

text \<open>
  Paths of execution hosts (\<open>src/core/execution-path.ts\<close>) over the functions of Node's \<open>path.posix\<close> they use.
  A path is split at its slashes and its segments are normalised; the resolution of a relative path starts at
  the current directory, which is an argument.
\<close>

section \<open>Segments\<close>

fun slashes :: "string \<Rightarrow> string list" where
  "slashes [] = [[]]"
| "slashes (c # s) = (if c = CHR ''/'' then [] # slashes s else (case slashes s of [] \<Rightarrow> [[c]] | w # ws \<Rightarrow> (c # w) # ws))"

fun unslash :: "string list \<Rightarrow> string" where
  "unslash [] = []"
| "unslash [w] = w"
| "unslash (w # ws) = w @ CHR ''/'' # unslash ws"

text \<open>
  \<open>normalizeString\<close>: empty segments and dots go, two dots take the segment before them with them; where there
  is none they stay if the path may lead above its start.
\<close>

fun push_segment :: "bool \<Rightarrow> string \<Rightarrow> string list \<Rightarrow> string list" where
  "push_segment up w acc =
     (if w = [] \<or> w = ''.'' then acc
      else if w = ''..'' then (case acc of
          [] \<Rightarrow> if up then [''..''] else []
        | v # vs \<Rightarrow> if v = ''..'' then (if up then ''..'' # acc else acc) else vs)
      else w # acc)"

definition normal_segments :: "bool \<Rightarrow> string list \<Rightarrow> string list" where
  "normal_segments up ws = rev (fold (push_segment up) ws [])"

definition isAbsolute :: "string \<Rightarrow> bool" where
  "isAbsolute p = starts_with ''/'' p"

definition ends_with_slash :: "string \<Rightarrow> bool" where
  "ends_with_slash p = (p \<noteq> [] \<and> last p = CHR ''/'')"

definition posix_normalize :: "string \<Rightarrow> string" where
  "posix_normalize p =
     (if p = [] then ''.''
      else (let s = unslash (normal_segments (\<not> isAbsolute p) (slashes p))
        in if s = [] then (if isAbsolute p then ''/'' else if ends_with_slash p then ''./'' else ''.'')
           else (let s' = (if ends_with_slash p then s @ ''/'' else s) in if isAbsolute p then CHR ''/'' # s' else s')))"

text \<open>The segments \<open>posix.resolve\<close> arrives at from a directory given by its segments.\<close>

definition absolute_segments :: "string list \<Rightarrow> string \<Rightarrow> string list" where
  "absolute_segments cwd p = (if isAbsolute p then normal_segments False (slashes p) else normal_segments False (cwd @ slashes p))"

definition posix_resolve :: "string list \<Rightarrow> string \<Rightarrow> string" where
  "posix_resolve cwd p = CHR ''/'' # unslash (absolute_segments cwd p)"

fun strip_common :: "string list \<Rightarrow> string list \<Rightarrow> string list \<times> string list" where
  "strip_common (v # vs) (w # ws) = (if v = w then strip_common vs ws else (v # vs, w # ws))"
| "strip_common vs ws = (vs, ws)"

definition posix_relative :: "string list \<Rightarrow> string \<Rightarrow> string \<Rightarrow> string" where
  "posix_relative cwd from to = (case strip_common (absolute_segments cwd from) (absolute_segments cwd to) of
     (vs, ws) \<Rightarrow> unslash (map (\<lambda>_. ''..'') vs @ ws))"

definition posix_join :: "string list \<Rightarrow> string" where
  "posix_join parts = (let s = unslash (filter (\<lambda>p. p \<noteq> []) parts) in if s = [] then ''.'' else posix_normalize s)"

section \<open>Execution paths\<close>

datatype path_error = InvalidRoot | InvalidPath | OutsideRoot

definition strip_slashes :: "string \<Rightarrow> string" where
  "strip_slashes p = rev (dropWhile (\<lambda>c. c = CHR ''/'') (rev p))"

definition path_root :: "string \<Rightarrow> string" where
  "path_root p = (if isAbsolute p then ''/'' else [])"

definition normalizePathValue :: "string \<Rightarrow> string" where
  "normalizePathValue v = (let n = posix_normalize v in if n = path_root n then n else strip_slashes n)"

definition white_space :: "char \<Rightarrow> bool" where
  "white_space c = (let n = (of_char c :: nat) in n = 32 \<or> (9 \<le> n \<and> n \<le> 13))"

definition assertPathValue :: "string \<Rightarrow> path_error + string" where
  "assertPathValue v = (if list_all white_space v \<or> list_ex (\<lambda>c. (of_char c :: nat) = 0) v then Inl InvalidPath else Inr v)"

definition posixPlatform :: "string \<Rightarrow> bool" where
  "posixPlatform p = (p = ''linux'' \<or> p = ''darwin'')"

definition inferExecutionPathStyle :: "string \<Rightarrow> bool" where
  "inferExecutionPathStyle p = (starts_with ''/'' (dropWhile white_space p) \<and> \<not> list_ex (\<lambda>c. (of_char c :: nat) = 0) (rev (dropWhile white_space (rev p))))"

definition normalizeExecutionRoot :: "string list \<Rightarrow> string \<Rightarrow> path_error + string" where
  "normalizeExecutionRoot cwd root = (case assertPathValue root of Inl x \<Rightarrow> Inl x
     | Inr v \<Rightarrow> if \<not> isAbsolute v then Inl InvalidRoot else Inr (posix_resolve cwd v))"

definition leads_outside :: "string \<Rightarrow> bool" where
  "leads_outside r = (r = ''..'' \<or> starts_with ''../'' r \<or> isAbsolute r)"

definition isExecutionPathWithinRoot :: "string list \<Rightarrow> string \<Rightarrow> string \<Rightarrow> bool" where
  "isExecutionPathWithinRoot cwd root candidate = (let r = posix_relative cwd root candidate in r = [] \<or> \<not> leads_outside r)"

definition resolveExecutionPathUnscoped :: "string list \<Rightarrow> string \<Rightarrow> string \<Rightarrow> path_error + string" where
  "resolveExecutionPathUnscoped cwd root requested = (case normalizeExecutionRoot cwd root of Inl x \<Rightarrow> Inl x
     | Inr r \<Rightarrow> (case assertPathValue requested of Inl x \<Rightarrow> Inl x | Inr q \<Rightarrow> Inr (posix_resolve (absolute_segments cwd r) q)))"

definition resolveExecutionPath :: "string list \<Rightarrow> string \<Rightarrow> string \<Rightarrow> path_error + string" where
  "resolveExecutionPath cwd root requested = (case resolveExecutionPathUnscoped cwd root requested of Inl x \<Rightarrow> Inl x
     | Inr p \<Rightarrow> (case normalizeExecutionRoot cwd root of Inl x \<Rightarrow> Inl x
         | Inr r \<Rightarrow> if isExecutionPathWithinRoot cwd r p then Inr p else Inl OutsideRoot))"

definition normalizeExecutionPath :: "string \<Rightarrow> path_error + string" where
  "normalizeExecutionPath p = map_sum id normalizePathValue (assertPathValue p)"

definition resolveExecutionPathFromDirectory :: "string \<Rightarrow> string \<Rightarrow> path_error + string" where
  "resolveExecutionPathFromDirectory directory requested = (case normalizeExecutionPath directory of Inl x \<Rightarrow> Inl x
     | Inr d \<Rightarrow> (case normalizeExecutionPath requested of Inl x \<Rightarrow> Inl x
         | Inr r \<Rightarrow> Inr (if isAbsolute r then r else normalizePathValue (posix_join [d, r]))))"

definition resolveExecutionPathWithinDirectory :: "string list \<Rightarrow> string \<Rightarrow> string \<Rightarrow> path_error + string" where
  "resolveExecutionPathWithinDirectory cwd directory requested = (case normalizeExecutionPath directory of Inl x \<Rightarrow> Inl x
     | Inr d \<Rightarrow> (case resolveExecutionPathFromDirectory d requested of Inl x \<Rightarrow> Inl x
         | Inr p \<Rightarrow> if isExecutionPathWithinRoot cwd d p then Inr p else Inl OutsideRoot))"

definition executionPathsEqual :: "string \<Rightarrow> string \<Rightarrow> bool" where
  "executionPathsEqual l r = (normalizePathValue l = normalizePathValue r)"

section \<open>Normal segments\<close>

definition plain :: "string \<Rightarrow> bool" where
  "plain w \<longleftrightarrow> w \<noteq> [] \<and> w \<noteq> ''.'' \<and> w \<noteq> ''..'' \<and> CHR ''/'' \<notin> set w"

lemma slashes_no_slash: "w \<in> set (slashes s) \<Longrightarrow> CHR ''/'' \<notin> set w"
  by (induction s arbitrary: w rule: slashes.induct) (auto split: if_splits list.splits)

lemma slashes_nonempty: "slashes s \<noteq> []"
  by (cases s) (auto split: list.split)

lemma slashes_cons: "CHR ''/'' \<notin> set w \<Longrightarrow> slashes (w @ CHR ''/'' # s) = w # slashes s"
  by (induction w) auto

lemma slashes_word: "CHR ''/'' \<notin> set w \<Longrightarrow> slashes w = [w]"
  by (induction w) auto

lemma slashes_unslash: "ws \<noteq> [] \<Longrightarrow> list_all (\<lambda>w. CHR ''/'' \<notin> set w) ws \<Longrightarrow> slashes (unslash ws) = ws"
  by (induction ws rule: unslash.induct) (simp_all add: slashes_cons slashes_word)

lemma push_plain:
  assumes "list_all plain acc" "CHR ''/'' \<notin> set w"
  shows "list_all plain (push_segment False w acc)"
proof -
  have "plain v" if "acc = v # vs" for v vs using assms(1) that by simp
  with assms show ?thesis by (cases acc) (auto simp: plain_def)
qed

lemma fold_push_plain:
  "list_all plain acc \<Longrightarrow> list_all (\<lambda>w. CHR ''/'' \<notin> set w) ws \<Longrightarrow> list_all plain (fold (push_segment False) ws acc)"
proof (induction ws arbitrary: acc)
  case (Cons w ws)
  then have "list_all plain (push_segment False w acc)" by (intro push_plain) simp_all
  then show ?case using Cons by simp
qed simp

lemma normal_plain: "list_all (\<lambda>w. CHR ''/'' \<notin> set w) ws \<Longrightarrow> list_all plain (normal_segments False ws)"
  using fold_push_plain [of "[]" ws] by (simp add: normal_segments_def)

lemma fold_push_id: "list_all plain ws \<Longrightarrow> fold (push_segment up) ws acc = rev ws @ acc"
  by (induction ws arbitrary: acc) (auto simp: plain_def)

lemma normal_id: "list_all plain ws \<Longrightarrow> normal_segments up ws = ws"
  by (simp add: normal_segments_def fold_push_id)

lemma plain_no_slash: "list_all plain ws \<Longrightarrow> list_all (\<lambda>w. CHR ''/'' \<notin> set w) ws"
  by (auto simp: list_all_iff plain_def)

text \<open>The segments of an absolute path.\<close>

definition segments :: "string \<Rightarrow> string list" where
  "segments p = normal_segments False (slashes p)"

lemma segments_plain: "list_all plain (segments p)"
  unfolding segments_def by (rule normal_plain) (auto simp: list_all_iff dest: slashes_no_slash)

lemma absolute_segments_abs: "isAbsolute p \<Longrightarrow> absolute_segments cwd p = segments p"
  by (simp add: absolute_segments_def segments_def)

lemma slashes_slash: "slashes (CHR ''/'' # s) = [] # slashes s"
  by simp

lemma normal_empty: "normal_segments up ([] # ws) = normal_segments up ws"
  by (simp add: normal_segments_def)

lemma segments_of_normal:
  assumes "list_all plain ws"
  shows "segments (CHR ''/'' # unslash ws) = ws"
proof (cases "ws = []")
  case True
  then show ?thesis by (simp add: segments_def normal_segments_def)
next
  case False
  with assms show ?thesis
    by (simp add: segments_def normal_empty slashes_unslash plain_no_slash normal_id del: push_segment.simps)
qed

lemma absolute_slash [simp]: "isAbsolute (CHR ''/'' # s)"
  by (simp add: isAbsolute_def starts_with_def)

lemma absolute_segments_plain:
  assumes "list_all (\<lambda>w. CHR ''/'' \<notin> set w) cwd"
  shows "list_all plain (absolute_segments cwd p)"
proof (cases "isAbsolute p")
  case False
  have "list_all (\<lambda>w. CHR ''/'' \<notin> set w) (cwd @ slashes p)"
    using assms slashes_no_slash by (auto simp: list_all_iff)
  from normal_plain [OF this] False show ?thesis by (simp add: absolute_segments_def)
qed (simp add: absolute_segments_abs segments_plain)

section \<open>Containment is the prefix order of segments\<close>

lemma strip_common_split:
  "strip_common vs ws = (xs, ys) \<Longrightarrow> \<exists>zs. vs = zs @ xs \<and> ws = zs @ ys \<and> (xs = [] \<or> ys = [] \<or> hd xs \<noteq> hd ys)"
proof (induction vs ws rule: strip_common.induct)
  case (1 v vs w ws)
  show ?case
  proof (cases "v = w")
    case True
    with 1 obtain zs where "vs = zs @ xs \<and> ws = zs @ ys \<and> (xs = [] \<or> ys = [] \<or> hd xs \<noteq> hd ys)" by auto
    with True show ?thesis by (intro exI [of _ "v # zs"]) simp
  qed (use 1 in auto)
qed auto

lemma strip_common_prefix: "strip_common vs ws = (xs, ys) \<Longrightarrow> xs = [] \<longleftrightarrow> prefix vs ws"
proof (induction vs ws rule: strip_common.induct)
  case (1 v vs w ws)
  then show ?case by (cases "v = w") auto
qed auto

lemma unslash_outside:
  assumes "ws \<noteq> []" "list_all (\<lambda>w. CHR ''/'' \<notin> set w) ws" "leads_outside (unslash ws)"
  shows "hd ws = ''..'' \<or> hd ws = []"
proof -
  have e: "slashes (unslash ws) = ws" using assms(1,2) by (rule slashes_unslash)
  consider "unslash ws = ''..''" | t where "unslash ws = ''..'' @ CHR ''/'' # t" | t where "unslash ws = CHR ''/'' # t"
    using assms(3) unfolding leads_outside_def isAbsolute_def starts_with_def
    by (metis append_take_drop_id append_Cons append_Nil)
  then show ?thesis
  proof cases
    case 1
    then have "slashes (unslash ws) = [''..'']" by simp
    with e show ?thesis by (metis list.sel(1))
  next
    case 2
    then have "slashes (unslash ws) = ''..'' # slashes t" using slashes_cons [of "''..''" t] by simp
    with e show ?thesis by (metis list.sel(1))
  next
    case 3
    then have "slashes (unslash ws) = [] # slashes t" by simp
    with e show ?thesis by (metis list.sel(1))
  qed
qed

lemma unslash_dots: "leads_outside (unslash (''..'' # ws)) \<and> unslash (''..'' # ws) \<noteq> []"
  by (cases ws) (simp_all add: leads_outside_def starts_with_def)

lemma relative_prefix:
  assumes "list_all plain (absolute_segments cwd from)" "list_all plain (absolute_segments cwd to)"
  shows "(let r = posix_relative cwd from to in r = [] \<or> \<not> leads_outside r)
    \<longleftrightarrow> prefix (absolute_segments cwd from) (absolute_segments cwd to)"
proof -
  let ?a = "absolute_segments cwd from" and ?b = "absolute_segments cwd to"
  obtain xs ys where c: "strip_common ?a ?b = (xs, ys)" by fastforce
  then have r: "posix_relative cwd from to = unslash (map (\<lambda>_. ''..'') xs @ ys)" by (simp add: posix_relative_def)
  from strip_common_split [OF c] obtain zs where "?b = zs @ ys" by blast
  with assms(2) have y: "list_all plain ys" by simp
  show ?thesis
  proof (cases xs)
    case Nil
    have "\<not> leads_outside (unslash ys)" if "ys \<noteq> []"
      using unslash_outside [OF that plain_no_slash [OF y]] y that by (cases ys) (auto simp: plain_def)
    then show ?thesis using r Nil strip_common_prefix [OF c] by (cases "ys = []") (auto simp: Let_def)
  next
    case (Cons x xs')
    then show ?thesis using r strip_common_prefix [OF c] unslash_dots by (auto simp: Let_def)
  qed
qed

lemma within_root_prefix:
  assumes "list_all (\<lambda>w. CHR ''/'' \<notin> set w) cwd"
  shows "isExecutionPathWithinRoot cwd root p \<longleftrightarrow> prefix (absolute_segments cwd root) (absolute_segments cwd p)"
  unfolding isExecutionPathWithinRoot_def
  by (rule relative_prefix) (rule absolute_segments_plain [OF assms])+

section \<open>Equal paths\<close>

lemma unslash_nil: "list_all plain ws \<Longrightarrow> unslash ws = [] \<longleftrightarrow> ws = []"
  by (cases ws rule: unslash.cases) (auto simp: plain_def)

lemma unslash_snoc: "unslash (ws @ [w]) = (if ws = [] then w else unslash ws @ CHR ''/'' # w)"
  by (induction ws rule: unslash.induct) simp_all

lemma unslash_last:
  assumes "list_all plain ws" "ws \<noteq> []"
  shows "last (unslash ws) \<noteq> CHR ''/''"
proof -
  obtain vs w where w: "ws = vs @ [w]" using assms(2) by (cases ws rule: rev_cases) auto
  with assms(1) have "plain w" by simp
  then have "w \<noteq> []" "CHR ''/'' \<notin> set w" by (auto simp: plain_def)
  then have "last w \<noteq> CHR ''/''" by (metis last_in_set)
  with w \<open>w \<noteq> []\<close> show ?thesis by (simp add: unslash_snoc)
qed

lemma strip_slashes_id: "s \<noteq> [] \<Longrightarrow> last s \<noteq> CHR ''/'' \<Longrightarrow> strip_slashes s = s \<and> strip_slashes (s @ ''/'') = s"
  by (cases s rule: rev_cases) (simp_all add: strip_slashes_def)

lemma normalize_absolute:
  assumes "isAbsolute p"
  shows "normalizePathValue p = CHR ''/'' # unslash (segments p)"
proof -
  have p: "p \<noteq> []" using assms by (auto simp: isAbsolute_def starts_with_def)
  let ?s = "unslash (segments p)"
  have n: "posix_normalize p = (if ?s = [] then ''/'' else CHR ''/'' # (if ends_with_slash p then ?s @ ''/'' else ?s))"
    using p assms by (simp add: posix_normalize_def segments_def Let_def)
  show ?thesis
  proof (cases "?s = []")
    case True
    with n show ?thesis by (simp add: normalizePathValue_def path_root_def)
  next
    case False
    then have "last (CHR ''/'' # ?s) \<noteq> CHR ''/''" using unslash_last [OF segments_plain] unslash_nil [OF segments_plain] by auto
    from strip_slashes_id [OF _ this] False n show ?thesis by (auto simp: normalizePathValue_def path_root_def)
  qed
qed

lemma equal_absolute:
  assumes "isAbsolute l" "isAbsolute r"
  shows "executionPathsEqual l r \<longleftrightarrow> segments l = segments r"
  unfolding executionPathsEqual_def normalize_absolute [OF assms(1)] normalize_absolute [OF assms(2)]
  using segments_of_normal [OF segments_plain] by (metis list.inject)

section \<open>The guarantee\<close>

text \<open>
  C32. Resolving a requested path in a root never leaves the root: what is returned is an absolute path in normal form,
  with no dot segments, whose segments start with those of the root, whatever the request contains; and it is the path
  the request names from the root.
\<close>

theorem resolved_path_stays_in_root:
  assumes "resolveExecutionPath cwd root requested = Inr p"
  shows "list_all plain (segments p) \<and> p = CHR ''/'' # unslash (segments p) \<and> prefix (segments root) (segments p)
    \<and> segments p = (if isAbsolute requested then segments requested else normal_segments False (segments root @ slashes requested))"
proof -
  from assms obtain r where r: "normalizeExecutionRoot cwd root = Inr r" and w: "isExecutionPathWithinRoot cwd r p"
      and u: "resolveExecutionPathUnscoped cwd root requested = Inr p"
    by (auto simp: resolveExecutionPath_def split: sum.splits if_splits)
  from r have root: "isAbsolute root" "r = CHR ''/'' # unslash (segments root)"
    by (auto simp: normalizeExecutionRoot_def assertPathValue_def posix_resolve_def absolute_segments_abs split: sum.splits if_splits)
  then have sr: "segments r = segments root" using segments_of_normal [OF segments_plain] by simp
  from u r have p: "p = posix_resolve (segments r) requested"
    by (auto simp: resolveExecutionPathUnscoped_def assertPathValue_def root absolute_segments_abs split: sum.splits if_splits)
  have a: "list_all plain (absolute_segments (segments r) requested)"
    by (rule absolute_segments_plain) (rule plain_no_slash [OF segments_plain])
  then have sp: "segments p = absolute_segments (segments r) requested" unfolding p posix_resolve_def by (rule segments_of_normal)
  have abs: "isAbsolute p" "isAbsolute r" by (simp_all add: p posix_resolve_def root(2))
  have "list_all plain (absolute_segments cwd r)" "list_all plain (absolute_segments cwd p)"
    by (simp_all only: absolute_segments_abs abs segments_plain)
  from relative_prefix [OF this] w have "prefix (segments r) (segments p)"
    unfolding isExecutionPathWithinRoot_def absolute_segments_abs [OF abs(1)] absolute_segments_abs [OF abs(2)] by simp
  moreover have "p = CHR ''/'' # unslash (segments p)" unfolding sp by (simp add: p posix_resolve_def)
  ultimately show ?thesis using sr sp a by (simp add: absolute_segments_def segments_def)
qed

theorem resolved_path_stays_in_root_witness:
  "prefix (segments ''/srv//data/'') (segments ''/srv/data/b'')"
proof -
  have "resolveExecutionPath [] ''/srv//data/'' ''a/../b/.'' = Inr ''/srv/data/b''" by code_simp
  from resolved_path_stays_in_root [OF this] show ?thesis by blast
qed

end
