(* ===== verification/FileSystemLocks.thy ===== *)
theory FileSystemLocks
  imports ExecutionPath Runs
begin

text \<open>
  WebDAV locks (\<open>src/core/file-system-locks.ts\<close>) and the conditions of a request on a file
  (\<open>assertPreconditions\<close> and \<open>requiresHash\<close> of \<open>src/core/file-system-service.ts\<close>).

  The locks are a map from tokens in insertion order. The clock and a new token are arguments. A path of a
  request was resolved to an absolute one before it arrives here.
\<close>

section \<open>State\<close>

datatype lock_scope = Exclusive | Shared
datatype lock_depth = DepthZero | DepthInfinity

record dav_lock =
  lk_key :: string
  lk_ownerId :: string
  lk_path :: string
  lk_token :: string
  lk_scope :: lock_scope
  lk_depth :: lock_depth
  lk_owner :: string
  lk_expiresAt :: timestamp

type_synonym lock_table = "(string, dav_lock) amap"

datatype dav_error = PreconditionFailed | FileLocked | LockBusy | LockConflict | LockForbidden

type_synonym 'a dav_op = "(lock_table, dav_error, 'a) op"

text \<open>The working directory plays no part for absolute paths.\<close>

definition containsExecutionPath :: "string \<Rightarrow> string \<Rightarrow> bool" where
  "containsExecutionPath parent child = (let r = posix_relative [] parent child in r = [] \<or> \<not> leads_outside r)"

section \<open>Reading the locks\<close>

definition prune_locks :: "timestamp \<Rightarrow> lock_table \<Rightarrow> lock_table" where
  "prune_locks now m = filter (\<lambda>e. \<not> lk_expiresAt (snd e) \<le> now) m"

text \<open>\<open>active\<close>: expired locks of every key go, the others of the key are returned.\<close>

definition active_locks :: "string \<Rightarrow> lock_table \<Rightarrow> dav_lock list" where
  "active_locks key m = filter (\<lambda>l. lk_key l = key) (map snd m)"

definition covers :: "dav_lock \<Rightarrow> string \<Rightarrow> bool" where
  "covers l p = (executionPathsEqual (lk_path l) p \<or> (lk_depth l = DepthInfinity \<and> containsExecutionPath (lk_path l) p))"

definition applicable :: "string \<Rightarrow> string \<Rightarrow> timestamp \<Rightarrow> dav_lock list dav_op" where
  "applicable key p now m = (let m' = prune_locks now m in (Inr (filter (\<lambda>l. covers l p) (active_locks key m')), m'))"

datatype term_kind = TokenTerm | EtagTerm

record dav_term =
  dt_kind :: term_kind
  dt_value :: string
  dt_not :: bool

record dav_list =
  dl_path :: "string option"
  dl_terms :: "dav_term list"

definition strip_weak :: "string \<Rightarrow> string" where
  "strip_weak t = (if starts_with ''W/'' t then drop 2 t else t)"

definition term_holds :: "string list \<Rightarrow> string list \<Rightarrow> dav_term \<Rightarrow> bool" where
  "term_holds active etags t =
     (let v = (case dt_kind t of TokenTerm \<Rightarrow> dt_value t \<in> set active
                | EtagTerm \<Rightarrow> list_ex (\<lambda>e. strip_weak (dt_value t) = strip_weak e) etags)
      in if dt_not t then \<not> v else v)"

text \<open>The tokens that a list which matches supplies.\<close>

definition supplied_tokens :: "string list \<Rightarrow> dav_list \<Rightarrow> string list" where
  "supplied_tokens active l =
     map dt_value (filter (\<lambda>t. dt_kind t = TokenTerm \<and> \<not> dt_not t \<and> dt_value t \<in> set active) (dl_terms l))"

definition lock_tokens :: "string \<Rightarrow> string \<Rightarrow> string list \<Rightarrow> dav_list list option \<Rightarrow> timestamp \<Rightarrow> string list dav_op" where
  "lock_tokens key p etags davIf now m =
     (let lists = filter (\<lambda>l. case dl_path l of None \<Rightarrow> True | Some q \<Rightarrow> executionPathsEqual q p) (case davIf of Some ls \<Rightarrow> ls | None \<Rightarrow> [])
      in if lists = [] then (Inr [], m)
         else bind (applicable key p now) (\<lambda>locks. let active = map lk_token locks;
             matching = filter (\<lambda>l. list_all (term_holds active etags) (dl_terms l)) lists
           in if matching = [] then throw PreconditionFailed else ret (concat (map (supplied_tokens active) matching))) m)"

definition touches :: "dav_lock \<Rightarrow> string \<Rightarrow> bool \<Rightarrow> bool" where
  "touches l p recursive = (covers l p \<or> (recursive \<and> containsExecutionPath p (lk_path l)))"

definition satisfied :: "dav_lock list \<Rightarrow> string list \<Rightarrow> dav_lock \<Rightarrow> bool" where
  "satisfied locks supplied l = (case lk_scope l of
     Exclusive \<Rightarrow> lk_token l \<in> set supplied
   | Shared \<Rightarrow> list_ex (\<lambda>k. lk_scope k = Shared \<and> executionPathsEqual (lk_path k) (lk_path l) \<and> lk_token k \<in> set supplied) locks)"

definition assertWritable :: "string \<Rightarrow> string \<Rightarrow> string list \<Rightarrow> bool \<Rightarrow> timestamp \<Rightarrow> unit dav_op" where
  "assertWritable key p supplied recursive now m =
     (let m' = prune_locks now m; locks = filter (\<lambda>l. touches l p recursive) (active_locks key m')
      in (if list_all (satisfied locks supplied) locks then Inr () else Inl FileLocked, m'))"

section \<open>Changing the locks\<close>

definition MAX_LOCKS :: nat where "MAX_LOCKS = 2048"
definition MAX_KEY_LOCKS :: nat where "MAX_KEY_LOCKS = 256"

definition conflicting :: "dav_lock \<Rightarrow> dav_lock \<Rightarrow> bool" where
  "conflicting l n = ((lk_scope l = Exclusive \<or> lk_scope n = Exclusive)
     \<and> (executionPathsEqual (lk_path l) (lk_path n)
        \<or> (lk_depth l = DepthInfinity \<and> containsExecutionPath (lk_path l) (lk_path n))
        \<or> (lk_depth n = DepthInfinity \<and> containsExecutionPath (lk_path n) (lk_path l))))"

text \<open>\<open>create\<close>: the token and the expiry of the input are replaced by the new ones.\<close>

definition new_lock :: "dav_lock \<Rightarrow> string \<Rightarrow> nat \<Rightarrow> timestamp \<Rightarrow> dav_lock" where
  "new_lock input uuid seconds now = input\<lparr>lk_token := ''urn:uuid:'' @ uuid, lk_expiresAt := now + seconds * 1000\<rparr>"

definition create_lock :: "dav_lock \<Rightarrow> string \<Rightarrow> nat \<Rightarrow> timestamp \<Rightarrow> dav_lock dav_op" where
  "create_lock input uuid seconds now m =
     (let m' = prune_locks now m; active = active_locks (lk_key input) m'
      in if length m' \<ge> MAX_LOCKS \<or> length active \<ge> MAX_KEY_LOCKS then (Inl LockBusy, m')
         else if list_ex (\<lambda>l. conflicting l input) active then (Inl FileLocked, m')
         else (let lock = new_lock input uuid seconds now in (Inr lock, amap_set m' (lk_token lock) lock)))"

definition refresh_lock :: "string \<Rightarrow> string \<Rightarrow> string \<Rightarrow> string list \<Rightarrow> nat \<Rightarrow> timestamp \<Rightarrow> dav_lock dav_op" where
  "refresh_lock key p ownerId tokens seconds now m =
     (let m' = prune_locks now m
      in case find (\<lambda>l. lk_ownerId l = ownerId \<and> lk_token l \<in> set tokens \<and> executionPathsEqual (lk_path l) p) (active_locks key m') of
           None \<Rightarrow> (Inl PreconditionFailed, m')
         | Some l \<Rightarrow> (Inr (l\<lparr>lk_expiresAt := now + seconds * 1000\<rparr>),
             map (\<lambda>e. if fst e = lk_token l then (fst e, l\<lparr>lk_expiresAt := now + seconds * 1000\<rparr>) else e) m'))"

definition unlock :: "string \<Rightarrow> string \<Rightarrow> string \<Rightarrow> string \<Rightarrow> timestamp \<Rightarrow> unit dav_op" where
  "unlock key p token ownerId now m =
     (let m' = prune_locks now m
      in case find (\<lambda>l. lk_token l = token \<and> lk_ownerId l = ownerId \<and> executionPathsEqual (lk_path l) p) (active_locks key m') of
           None \<Rightarrow> (Inl LockConflict, m') | Some l \<Rightarrow> (Inr (), amap_delete m' token))"

definition rollback :: "string \<Rightarrow> string \<Rightarrow> string \<Rightarrow> unit dav_op" where
  "rollback key token ownerId m = (case amap_get m token of None \<Rightarrow> (Inr (), m)
     | Some l \<Rightarrow> if lk_key l \<noteq> key \<or> lk_ownerId l \<noteq> ownerId then (Inl LockForbidden, m) else (Inr (), amap_delete m token))"

definition release_locks :: "string \<Rightarrow> string \<Rightarrow> timestamp \<Rightarrow> unit dav_op" where
  "release_locks key ownerId now m =
     (let m' = prune_locks now m
      in (Inr (), fold (\<lambda>l m. if lk_ownerId l = ownerId then amap_delete m (lk_token l) else m) (active_locks key m') m'))"

definition remove_locks :: "string \<Rightarrow> string \<Rightarrow> timestamp \<Rightarrow> unit dav_op" where
  "remove_locks key p now m =
     (let m' = prune_locks now m
      in (Inr (), fold (\<lambda>l m. if containsExecutionPath p (lk_path l) then amap_delete m (lk_token l) else m) (active_locks key m') m'))"

section \<open>Conditions on the resource\<close>

record dav_conditions =
  dc_ifMatch :: "string option"
  dc_ifNoneMatch :: "string option"
  dc_davIf :: "dav_list list option"

fun commas :: "string \<Rightarrow> string list" where
  "commas [] = [[]]"
| "commas (c # s) = (if c = CHR '','' then [] # commas s else (case commas s of [] \<Rightarrow> [[c]] | w # ws \<Rightarrow> (c # w) # ws))"

definition trim_space :: "string \<Rightarrow> string" where
  "trim_space s = rev (dropWhile white_space (rev (dropWhile white_space s)))"

definition header_matches :: "string option \<Rightarrow> string \<Rightarrow> bool \<Rightarrow> bool" where
  "header_matches etag header strong =
     (if trim_space header = ''*'' then etag \<noteq> None
      else list_ex (\<lambda>v. let tag = trim_space v in
          (case etag of None \<Rightarrow> False
           | Some e \<Rightarrow> \<not> (strong \<and> (starts_with ''W/'' tag \<or> starts_with ''W/'' e)) \<and> strip_weak tag = strip_weak e)) (commas header))"

definition assertPreconditions :: "string option \<Rightarrow> dav_conditions \<Rightarrow> dav_error + unit" where
  "assertPreconditions etag c =
     (if (case dc_ifMatch c of Some h \<Rightarrow> \<not> header_matches etag h True | None \<Rightarrow> False)
         \<or> (case dc_ifNoneMatch c of Some h \<Rightarrow> header_matches etag h False | None \<Rightarrow> False)
      then Inl PreconditionFailed else Inr ())"

definition requiresHash :: "dav_conditions \<Rightarrow> bool" where
  "requiresHash c = (list_ex (\<lambda>v. case v of Some h \<Rightarrow> trim_space h \<noteq> ''*'' | None \<Rightarrow> False) [dc_ifMatch c, dc_ifNoneMatch c]
     \<or> (case dc_davIf c of None \<Rightarrow> False | Some ls \<Rightarrow>
         list_ex (\<lambda>l. list_ex (\<lambda>t. dt_kind t = EtagTerm \<and> \<not> starts_with ''W/'' (dt_value t)) (dl_terms l)) ls))"

text \<open>
  \<open>conditionTokens\<close>: the tokens supplied for the path, and those supplied for the other paths the lists are tagged
  with. \<open>tags_of\<close> are the tags of the entry at a path.
\<close>

fun tagged_tokens :: "string \<Rightarrow> (string \<Rightarrow> string list) \<Rightarrow> dav_list list \<Rightarrow> timestamp \<Rightarrow> string list \<Rightarrow> string list dav_op" where
  "tagged_tokens key tags_of cs now [] = ret []"
| "tagged_tokens key tags_of cs now (q # qs) = bind (lock_tokens key q (tags_of q) (Some cs) now) (\<lambda>ts.
     bind (tagged_tokens key tags_of cs now qs) (\<lambda>us. ret (ts @ us)))"

definition conditionTokens :: "string \<Rightarrow> string \<Rightarrow> (string \<Rightarrow> string list) \<Rightarrow> dav_list list option \<Rightarrow> timestamp \<Rightarrow> string list dav_op" where
  "conditionTokens key p tags_of davIf now =
     (let cs = filter (\<lambda>l. dl_path l \<noteq> None) (case davIf of Some ls \<Rightarrow> ls | None \<Rightarrow> []);
          tagged = rev (remdups (rev (filter (\<lambda>q. \<not> executionPathsEqual q p) (map (\<lambda>l. the (dl_path l)) cs))))
      in bind (lock_tokens key p (tags_of p) davIf now) (\<lambda>ts.
         bind (tagged_tokens key tags_of cs now tagged) (\<lambda>us. ret (ts @ us))))"

text \<open>\<open>check\<close>: what every write of a path passes before it changes anything.\<close>

definition check_write ::
    "string \<Rightarrow> string \<Rightarrow> string option \<Rightarrow> (string \<Rightarrow> string list) \<Rightarrow> dav_conditions \<Rightarrow> bool \<Rightarrow> timestamp \<Rightarrow> unit dav_op" where
  "check_write key p etag tags_of c recursive now m = (case assertPreconditions etag c of Inl x \<Rightarrow> (Inl x, m)
     | Inr _ \<Rightarrow> bind (conditionTokens key p tags_of (dc_davIf c) now) (\<lambda>ts. assertWritable key p ts recursive now) m)"

section \<open>Covering\<close>

lemma contains_prefix:
  assumes "isAbsolute p" "isAbsolute q"
  shows "containsExecutionPath p q \<longleftrightarrow> prefix (segments p) (segments q)"
proof -
  have "list_all plain (absolute_segments [] x)" for x by (rule absolute_segments_plain) simp
  from relative_prefix [OF this this, of p q] show ?thesis
    unfolding containsExecutionPath_def by (simp only: absolute_segments_abs assms)
qed

lemma covers_iff:
  "isAbsolute (lk_path l) \<Longrightarrow> isAbsolute p \<Longrightarrow> covers l p
    \<longleftrightarrow> segments (lk_path l) = segments p \<or> (lk_depth l = DepthInfinity \<and> prefix (segments (lk_path l)) (segments p))"
  by (simp add: covers_def contains_prefix equal_absolute)

lemma conflicting_iff:
  "isAbsolute (lk_path l) \<Longrightarrow> isAbsolute (lk_path n) \<Longrightarrow> conflicting l n \<longleftrightarrow> (lk_scope l = Exclusive \<or> lk_scope n = Exclusive)
    \<and> (segments (lk_path l) = segments (lk_path n) \<or> (lk_depth l = DepthInfinity \<and> prefix (segments (lk_path l)) (segments (lk_path n)))
       \<or> (lk_depth n = DepthInfinity \<and> prefix (segments (lk_path n)) (segments (lk_path l))))"
  by (simp add: conflicting_def contains_prefix equal_absolute)

lemma conflicting_sym: "isAbsolute (lk_path l) \<Longrightarrow> isAbsolute (lk_path n) \<Longrightarrow> conflicting l n = conflicting n l"
  by (auto simp: conflicting_iff)

lemma both_cover:
  assumes "isAbsolute (lk_path l)" "isAbsolute (lk_path k)" "isAbsolute p" "covers l p" "covers k p" "lk_scope l = Exclusive"
  shows "conflicting l k"
proof -
  let ?a = "segments (lk_path l)" and ?b = "segments (lk_path k)"
  have p: "prefix ?a (segments p)" "prefix ?b (segments p)" using assms by (auto simp: covers_iff)
  then consider "?a = ?b" | "strict_prefix ?a ?b" | "strict_prefix ?b ?a"
    by (cases "?a = ?b") (use prefix_same_cases [OF p] in \<open>auto simp: strict_prefix_def\<close>)
  then show ?thesis
  proof cases
    case 2
    then have "?a \<noteq> segments p" using p(2) by (auto simp: strict_prefix_def dest: prefix_order.antisym)
    with assms 2 show ?thesis by (auto simp: covers_iff conflicting_iff strict_prefix_def)
  next
    case 3
    then have "?b \<noteq> segments p" using p(1) by (auto simp: strict_prefix_def dest: prefix_order.antisym)
    with assms 3 show ?thesis by (auto simp: covers_iff conflicting_iff strict_prefix_def)
  qed (use assms in \<open>auto simp: conflicting_iff\<close>)
qed

section \<open>The invariant\<close>

definition locks_ok :: "lock_table \<Rightarrow> bool" where
  "locks_ok m \<longleftrightarrow> amap_wf m \<and> (\<forall>e \<in> set m. lk_token (snd e) = fst e \<and> isAbsolute (lk_path (snd e)))
     \<and> length m \<le> MAX_LOCKS \<and> (\<forall>key. length (active_locks key m) \<le> MAX_KEY_LOCKS)
     \<and> (\<forall>e \<in> set m. \<forall>d \<in> set m. fst e \<noteq> fst d \<longrightarrow> lk_key (snd e) = lk_key (snd d) \<longrightarrow> \<not> conflicting (snd e) (snd d))"

lemma locks_ok_empty: "locks_ok []"
  by (simp add: locks_ok_def active_locks_def)

lemma active_filter: "length (active_locks key (filter P m)) \<le> length (active_locks key m)"
  by (induction m) (auto simp: active_locks_def)

lemma locks_ok_filter: "locks_ok m \<Longrightarrow> locks_ok (filter P m)"
  by (auto simp: locks_ok_def amap_wf_filter intro: order_trans [OF length_filter_le] order_trans [OF active_filter])

lemma locks_ok_prune: "locks_ok m \<Longrightarrow> locks_ok (prune_locks now m)"
  by (simp add: prune_locks_def locks_ok_filter)

lemma locks_ok_delete: "locks_ok m \<Longrightarrow> locks_ok (amap_delete m t)"
  by (simp add: amap_delete_def locks_ok_filter)

lemma locks_ok_fold: "locks_ok m \<Longrightarrow> locks_ok (fold (\<lambda>l m. if P l then amap_delete m (lk_token l) else m) ls m)"
  by (induction ls arbitrary: m) (auto simp: locks_ok_delete)

lemma active_set: "length (active_locks key (amap_set m t l)) \<le> length (active_locks key m) + (if lk_key l = key then 1 else 0)"
  by (induction m t l rule: amap_set.induct) (auto simp: active_locks_def)

lemma mem_amap_set: "e \<in> set (amap_set m t l) \<Longrightarrow> e = (t, l) \<or> (e \<in> set m \<and> (amap_wf m \<longrightarrow> fst e \<noteq> t))"
  by (induction m t l rule: amap_set.induct) (auto simp: amap_wf_def image_iff split: if_splits)

lemma amap_set_len: "length (amap_set m k v) \<le> Suc (length m)"
  by (induction m k v rule: amap_set.induct) simp_all

lemma active_length: "length (active_locks q m) = length (filter (\<lambda>k. k = q) (map lk_key (map snd m)))"
  by (simp add: active_locks_def filter_map o_def)

lemma active_mem: "l \<in> set (active_locks key m) \<longleftrightarrow> lk_key l = key \<and> (\<exists>t. (t, l) \<in> set m)"
  by (force simp: active_locks_def)

lemma new_lock_sel [simp]:
  "lk_key (new_lock i u s now) = lk_key i" "lk_path (new_lock i u s now) = lk_path i"
  "conflicting l (new_lock i u s now) = conflicting l i"
  by (simp_all add: new_lock_def conflicting_def)

lemma locks_ok_create:
  assumes ok: "locks_ok m" and abs: "isAbsolute (lk_path i)"
  shows "locks_ok (snd (create_lock i u s now m))"
proof -
  define n where "n = new_lock i u s now"
  have n: "lk_key n = lk_key i" "lk_path n = lk_path i" "conflicting l n = conflicting l i" for l by (simp_all add: n_def)
  from abs have abs: "isAbsolute (lk_path n)" by (simp add: n)
  let ?m = "prune_locks now m"
  let ?a = "active_locks (lk_key n) ?m"
  have ok': "locks_ok ?m" using ok by (rule locks_ok_prune)
  show ?thesis
  proof (cases "length ?m \<ge> MAX_LOCKS \<or> length ?a \<ge> MAX_KEY_LOCKS \<or> list_ex (\<lambda>l. conflicting l n) ?a")
    case True
    with ok' show ?thesis by (auto simp: create_lock_def Let_def n)
  next
    case False
    let ?s = "amap_set ?m (lk_token n) n"
    have wf: "amap_wf ?m" using ok' by (simp add: locks_ok_def)
    have mem: "e = (lk_token n, n) \<or> (e \<in> set ?m \<and> fst e \<noteq> lk_token n)" if "e \<in> set ?s" for e
      using mem_amap_set [OF that] wf by blast
    have free: "\<not> conflicting l n \<and> \<not> conflicting n l" if "(t, l) \<in> set ?m" "lk_key l = lk_key n" for t l
    proof -
      have "l \<in> set ?a" using that by (auto simp: active_mem)
      moreover have "isAbsolute (lk_path l)" using that(1) ok' by (auto simp: locks_ok_def)
      ultimately show ?thesis using False abs conflicting_sym by (auto simp: list_ex_iff)
    qed
    have "length (active_locks key ?s) \<le> MAX_KEY_LOCKS" for key
      using active_set [of key ?m "lk_token n" n] ok' False by (cases "lk_key n = key") (auto simp: locks_ok_def intro: order_trans)
    moreover have "length ?s \<le> MAX_LOCKS" using amap_set_len [of ?m "lk_token n" n] False by simp
    moreover have "\<forall>e \<in> set ?s. lk_token (snd e) = fst e \<and> isAbsolute (lk_path (snd e))"
      using mem ok' abs by (fastforce simp: locks_ok_def)
    moreover have "\<not> conflicting (snd e) (snd d)" if "e \<in> set ?s" "d \<in> set ?s" "fst e \<noteq> fst d" "lk_key (snd e) = lk_key (snd d)" for e d
      using mem [OF that(1)] mem [OF that(2)] that(3,4) free [of "fst e" "snd e"] free [of "fst d" "snd d"] ok' by (auto simp: locks_ok_def)
    ultimately have "locks_ok ?s" using wf by (auto simp: locks_ok_def amap_wf_set)
    with False show ?thesis by (simp add: create_lock_def Let_def n flip: n_def)
  qed
qed

definition same_lock :: "dav_lock \<Rightarrow> dav_lock \<Rightarrow> bool" where
  "same_lock l k \<longleftrightarrow> lk_key l = lk_key k \<and> lk_path l = lk_path k \<and> lk_token l = lk_token k \<and> lk_scope l = lk_scope k \<and> lk_depth l = lk_depth k"

lemma same_conflicting: "same_lock l l' \<Longrightarrow> same_lock k k' \<Longrightarrow> conflicting l k = conflicting l' k'"
  by (simp add: same_lock_def conflicting_def)

lemma locks_ok_map:
  assumes "locks_ok m" "\<And>e. e \<in> set m \<Longrightarrow> fst (g e) = fst e \<and> same_lock (snd (g e)) (snd e)"
  shows "locks_ok (map g m)"
proof -
  have k: "map fst (map g m) = map fst m" "map lk_key (map snd (map g m)) = map lk_key (map snd m)"
    using assms(2) by (auto simp: same_lock_def)
  have "\<not> conflicting (snd (g e)) (snd (g d))"
    if "e \<in> set m" "d \<in> set m" "fst (g e) \<noteq> fst (g d)" "lk_key (snd (g e)) = lk_key (snd (g d))" for e d
  proof -
    have "fst e \<noteq> fst d" "lk_key (snd e) = lk_key (snd d)"
      using that assms(2) [OF that(1)] assms(2) [OF that(2)] by (simp_all add: same_lock_def)
    moreover have "conflicting (snd (g e)) (snd (g d)) = conflicting (snd e) (snd d)"
      by (rule same_conflicting) (use assms(2) [OF that(1)] assms(2) [OF that(2)] in simp_all)
    ultimately show ?thesis using that(1,2) assms(1) by (auto simp: locks_ok_def)
  qed
  moreover have "lk_token (snd (g e)) = fst (g e) \<and> isAbsolute (lk_path (snd (g e)))" if "e \<in> set m" for e
    using that assms by (auto simp: locks_ok_def same_lock_def)
  moreover have "amap_wf (map g m) = amap_wf m" by (simp only: amap_wf_def k(1))
  moreover have "length (active_locks q (map g m)) = length (active_locks q m)" for q by (simp only: active_length k(2))
  ultimately show ?thesis using assms(1) by (simp add: locks_ok_def)
qed

lemma locks_ok_refresh: "locks_ok m \<Longrightarrow> locks_ok (snd (refresh_lock key p ow ts sec now m))"
proof -
  assume "locks_ok m"
  let ?m = "prune_locks now m"
  have ok: "locks_ok ?m" using \<open>locks_ok m\<close> by (rule locks_ok_prune)
  have "locks_ok (map (\<lambda>e. if fst e = lk_token l then (fst e, l\<lparr>lk_expiresAt := x\<rparr>) else e) ?m)"
    if l: "l \<in> set (active_locks key ?m)" for l x
  proof (rule locks_ok_map [OF ok])
    fix e assume e: "e \<in> set ?m"
    obtain t where t: "(t, l) \<in> set ?m" using l by (auto simp: active_mem)
    then have "lk_token l = t" using ok by (auto simp: locks_ok_def)
    then have "snd e = l" if "fst e = lk_token l"
      using that t e ok by (cases e) (auto simp: locks_ok_def amap_wf_def dest: eq_key_imp_eq_value)
    then show "fst (if fst e = lk_token l then (fst e, l\<lparr>lk_expiresAt := x\<rparr>) else e) = fst e
        \<and> same_lock (snd (if fst e = lk_token l then (fst e, l\<lparr>lk_expiresAt := x\<rparr>) else e)) (snd e)"
      by (simp add: same_lock_def)
  qed
  then show ?thesis using ok by (auto simp: refresh_lock_def Let_def split: option.split dest: find_Some_mem)
qed

section \<open>Calls\<close>

datatype dav_call =
  CreateLock dav_lock string nat timestamp
| RefreshLock string string string "string list" nat timestamp
| Unlock string string string string timestamp
| Rollback string string string
| ReleaseLocks string string timestamp
| RemoveLocks string string timestamp
| CheckWrite string string "string option" "string \<Rightarrow> string list" dav_conditions bool timestamp
| ReadLocks string string timestamp

fun apply_dav :: "dav_call \<Rightarrow> lock_table \<Rightarrow> lock_table" where
  "apply_dav (CreateLock n u s now) m = snd (create_lock n u s now m)"
| "apply_dav (RefreshLock key p ow ts sec now) m = snd (refresh_lock key p ow ts sec now m)"
| "apply_dav (Unlock key p t ow now) m = snd (unlock key p t ow now m)"
| "apply_dav (Rollback key t ow) m = snd (rollback key t ow m)"
| "apply_dav (ReleaseLocks key ow now) m = snd (release_locks key ow now m)"
| "apply_dav (RemoveLocks key p now) m = snd (remove_locks key p now m)"
| "apply_dav (CheckWrite key p e f c r now) m = snd (check_write key p e f c r now m)"
| "apply_dav (ReadLocks key p now) m = snd (applicable key p now m)"

fun absolute_call :: "dav_call \<Rightarrow> bool" where
  "absolute_call (CreateLock n u s now) = isAbsolute (lk_path n)"
| "absolute_call _ = True"

interpretation dav_calls: transitions apply_dav .

interpretation keeps_locks: op_relation "\<lambda>m m'. locks_ok m \<longrightarrow> locks_ok m'"
  by unfold_locales auto

lemma keeps_applicable: "keeps_locks.keeps (applicable key p now)"
  by (rule keeps_locks.keepsI) (simp add: applicable_def Let_def locks_ok_prune)

lemma keeps_writable: "keeps_locks.keeps (assertWritable key p ts r now)"
  by (rule keeps_locks.keepsI) (simp add: assertWritable_def Let_def locks_ok_prune)

lemma keeps_tokens: "keeps_locks.keeps (lock_tokens key p e c now)"
proof (rule keeps_locks.keepsI)
  fix m
  have "keeps_locks.keeps (bind (applicable key p now) f)" if "\<And>x. keeps_locks.keeps (f x)" for f :: "dav_lock list \<Rightarrow> string list dav_op"
    by (rule keeps_locks.keeps_bind [OF keeps_applicable that])
  then show "locks_ok m \<longrightarrow> locks_ok (snd (lock_tokens key p e c now m))"
    unfolding lock_tokens_def Let_def
    by (auto intro!: keeps_locks.keeps_at [THEN mp] simp: keeps_locks.keeps_throw keeps_locks.keeps_ret)
qed

lemma keeps_tagged: "keeps_locks.keeps (tagged_tokens key f cs now qs)"
  by (induction qs) (auto intro!: keeps_locks.keeps_bind keeps_tokens keeps_locks.keeps_ret)

lemma keeps_check: "keeps_locks.keeps (check_write key p e f c r now)"
proof (rule keeps_locks.keepsI)
  fix m
  have "keeps_locks.keeps (conditionTokens key p f d now)" for d
    unfolding conditionTokens_def Let_def
    by (intro keeps_locks.keeps_bind keeps_tokens keeps_tagged keeps_locks.keeps_ret)
  then have "keeps_locks.keeps (bind (conditionTokens key p f d now) (\<lambda>ts. assertWritable key p ts r now))" for d
    by (intro keeps_locks.keeps_bind keeps_writable)
  from keeps_locks.keeps_at [OF this] show "locks_ok m \<longrightarrow> locks_ok (snd (check_write key p e f c r now m))"
    by (auto simp: check_write_def split: sum.split)
qed

lemma locks_ok_step: "locks_ok m \<Longrightarrow> absolute_call x \<Longrightarrow> locks_ok (apply_dav x m)"
proof (cases x)
  case (CheckWrite key p e f c r now)
  assume "locks_ok m"
  with keeps_locks.keeps_at [OF keeps_check, of m] CheckWrite show ?thesis by simp
qed (auto simp: locks_ok_create locks_ok_refresh unlock_def rollback_def release_locks_def remove_locks_def applicable_def Let_def
    locks_ok_prune locks_ok_delete locks_ok_fold split: option.split)

lemma locks_ok_run: "locks_ok m \<Longrightarrow> list_all absolute_call xs \<Longrightarrow> locks_ok (fold apply_dav xs m)"
  by (rule dav_calls.run_invariant [where P = locks_ok and ok = absolute_call]) (auto intro: locks_ok_step)

section \<open>Tokens a request names\<close>

definition named_tokens :: "dav_list list \<Rightarrow> string list" where
  "named_tokens ls = map dt_value (filter (\<lambda>t. dt_kind t = TokenTerm \<and> \<not> dt_not t) (concat (map dl_terms ls)))"

lemma supplied_named: "l \<in> set ls \<Longrightarrow> set (supplied_tokens active l) \<subseteq> set (named_tokens ls)"
  by (auto simp: supplied_tokens_def named_tokens_def)

lemma lock_tokens_named:
  assumes "lock_tokens key p e c now m = (Inr ts, m')"
  shows "set ts \<subseteq> set (named_tokens (case c of Some ls \<Rightarrow> ls | None \<Rightarrow> []))"
proof -
  let ?c = "case c of Some ls \<Rightarrow> ls | None \<Rightarrow> []"
  let ?l = "filter (\<lambda>l. case dl_path l of None \<Rightarrow> True | Some q \<Rightarrow> executionPathsEqual q p) ?c"
  show ?thesis
  proof (cases "?l = []")
    case True
    with assms show ?thesis by (simp add: lock_tokens_def Let_def)
  next
    case False
    obtain locks m1 where "applicable key p now m = (Inr locks, m1)" by (simp add: applicable_def Let_def)
    with assms False have "ts = concat (map (supplied_tokens (map lk_token locks))
        (filter (\<lambda>l. list_all (term_holds (map lk_token locks) e) (dl_terms l)) ?l))"
      by (auto simp: lock_tokens_def Let_def bind_def ret_def throw_def split: if_splits)
    then show ?thesis using supplied_named [of _ ?c "map lk_token locks"] by auto
  qed
qed

lemma tagged_named: "tagged_tokens key f cs now qs m = (Inr ts, m') \<Longrightarrow> set ts \<subseteq> set (named_tokens cs)"
proof (induction qs arbitrary: m ts m')
  case (Cons q qs)
  from bind_run [OF Cons.prems [unfolded tagged_tokens.simps]] obtain us m1 where
    u: "lock_tokens key q (f q) (Some cs) now m = (Inr us, m1)" and "bind (tagged_tokens key f cs now qs) (\<lambda>vs. ret (us @ vs)) m1 = (Inr ts, m')"
    by (elim exE conjE)
  from bind_run [OF this(2)] obtain vs m2 where v: "tagged_tokens key f cs now qs m1 = (Inr vs, m2)" "ts = us @ vs"
    by (auto simp: ret_def)
  then show ?case using lock_tokens_named [OF u] Cons.IH [OF v(1)] by auto
qed (simp add: ret_def)

lemma named_filter: "set (named_tokens (filter P ls)) \<subseteq> set (named_tokens ls)"
  by (auto simp: named_tokens_def)

lemma conditionTokens_named:
  assumes "conditionTokens key p f d now m = (Inr ts, m')"
  shows "set ts \<subseteq> set (named_tokens (case d of Some ls \<Rightarrow> ls | None \<Rightarrow> []))"
proof -
  let ?cs = "filter (\<lambda>l. dl_path l \<noteq> None) (case d of Some ls \<Rightarrow> ls | None \<Rightarrow> [])"
  from bind_run [OF assms [unfolded conditionTokens_def Let_def]] obtain us m1 qs where
    u: "lock_tokens key p (f p) d now m = (Inr us, m1)"
    and b: "bind (tagged_tokens key f ?cs now qs) (\<lambda>vs. ret (us @ vs)) m1 = (Inr ts, m')"
    by blast
  from bind_run [OF b] obtain vs m2 where v: "tagged_tokens key f ?cs now qs m1 = (Inr vs, m2)" "ts = us @ vs"
    by (auto simp: ret_def)
  with lock_tokens_named [OF u] tagged_named [OF v(1)] named_filter show ?thesis by fastforce
qed

text \<open>A live lock is still there at the same instant.\<close>

interpretation live_locks: op_relation "\<lambda>m m'. filter (\<lambda>e. now < lk_expiresAt (snd e)) m' = filter (\<lambda>e. now < lk_expiresAt (snd e)) m" for now
  by unfold_locales auto

lemma prune_live: "filter (\<lambda>e. now < lk_expiresAt (snd e)) (prune_locks now m) = filter (\<lambda>e. now < lk_expiresAt (snd e)) m"
  unfolding prune_locks_def filter_filter by (rule filter_cong) auto

lemma live_tokens: "live_locks.keeps now (lock_tokens key p e c now)"
proof (rule live_locks.keepsI)
  fix m
  have a: "live_locks.keeps now (applicable key p now)"
    by (rule live_locks.keepsI) (simp add: applicable_def Let_def prune_live)
  have "live_locks.keeps now (bind (applicable key p now) f)" if "\<And>x. live_locks.keeps now (f x)" for f :: "dav_lock list \<Rightarrow> string list dav_op"
    by (rule live_locks.keeps_bind [OF a that])
  from live_locks.keeps_at [OF this] show "filter (\<lambda>e. now < lk_expiresAt (snd e)) (snd (lock_tokens key p e c now m)) = filter (\<lambda>e. now < lk_expiresAt (snd e)) m"
    unfolding lock_tokens_def Let_def by (auto simp: live_locks.keeps_throw live_locks.keeps_ret)
qed

lemma live_condition: "live_locks.keeps now (conditionTokens key p f d now)"
proof -
  have "live_locks.keeps now (tagged_tokens key f cs now qs)" for cs qs
    by (induction qs) (auto intro!: live_locks.keeps_bind live_tokens live_locks.keeps_ret)
  then show ?thesis unfolding conditionTokens_def Let_def
    by (intro live_locks.keeps_bind live_tokens live_locks.keeps_ret)
qed

section \<open>The guarantees\<close>

definition sample_lock :: "string \<Rightarrow> string \<Rightarrow> lock_scope \<Rightarrow> dav_lock" where
  "sample_lock t p sc = \<lparr>lk_key = ''k'', lk_ownerId = ''o'', lk_path = p, lk_token = t, lk_scope = sc, lk_depth = DepthInfinity,
     lk_owner = [], lk_expiresAt = 100\<rparr>"

text \<open>
  C33. However the calls follow one another, at most 2048 locks are stored, at most 256 of any key, and whenever a stored
  exclusive lock covers a path, no other stored lock of its key does.
\<close>

theorem exclusive_lock_stands_alone:
  assumes "list_all absolute_call xs" "isAbsolute p"
  shows "length (fold apply_dav xs []) \<le> MAX_LOCKS \<and> length (active_locks key (fold apply_dav xs [])) \<le> MAX_KEY_LOCKS
    \<and> list_all (\<lambda>(t, l). list_all (\<lambda>(u, k). lk_scope l = Exclusive \<and> lk_key l = lk_key k \<and> covers l p \<and> covers k p \<longrightarrow> t = u)
        (fold apply_dav xs [])) (fold apply_dav xs [])"
proof -
  let ?m = "fold apply_dav xs []"
  have ok: "locks_ok ?m" by (rule locks_ok_run [OF locks_ok_empty assms(1)])
  have "t = u" if "(t, l) \<in> set ?m" "(u, k) \<in> set ?m" "lk_scope l = Exclusive" "lk_key l = lk_key k" "covers l p" "covers k p" for t l u k
  proof (rule ccontr)
    assume "t \<noteq> u"
    then have "\<not> conflicting l k" using ok that by (fastforce simp: locks_ok_def)
    moreover have "isAbsolute (lk_path l)" "isAbsolute (lk_path k)" using ok that by (fastforce simp: locks_ok_def)+
    ultimately show False using both_cover [OF _ _ assms(2) that(5,6,3)] by blast
  qed
  then show ?thesis using ok by (fastforce simp: list_all_iff locks_ok_def)
qed

theorem exclusive_lock_stands_alone_witness:
  "length (fold apply_dav [CreateLock (sample_lock [] ''/a'' Exclusive) ''t'' 60 5, CreateLock (sample_lock [] ''/a/b'' Shared) ''u'' 60 6] []) \<le> MAX_LOCKS"
  by (rule exclusive_lock_stands_alone [of _ "''/a''", THEN conjunct1]) (simp_all add: sample_lock_def)

text \<open>
  C34. A write of a path that a live exclusive lock covers passes the check only when the request names the token of
  that lock, in a term that is not negated.
\<close>

theorem write_names_exclusive_lock:
  assumes "check_write key p etag tags_of c recursive now m = (Inr (), m')" "(t, l) \<in> set m"
    and "lk_key l = key" "lk_scope l = Exclusive" "now < lk_expiresAt l" "touches l p recursive"
  shows "lk_token l \<in> set (named_tokens (case dc_davIf c of Some ls \<Rightarrow> ls | None \<Rightarrow> []))"
proof -
  from assms(1) have "bind (conditionTokens key p tags_of (dc_davIf c) now) (\<lambda>ts. assertWritable key p ts recursive now) m = (Inr (), m')"
    by (auto simp: check_write_def split: sum.splits)
  from bind_run [OF this] obtain ts m1 where c: "conditionTokens key p tags_of (dc_davIf c) now m = (Inr ts, m1)"
      and w: "assertWritable key p ts recursive now m1 = (Inr (), m')" by blast
  have "filter (\<lambda>e. now < lk_expiresAt (snd e)) m1 = filter (\<lambda>e. now < lk_expiresAt (snd e)) m"
    using live_locks.keepsD [OF live_condition c] .
  moreover have "(t, l) \<in> set (filter (\<lambda>e. now < lk_expiresAt (snd e)) m)" using assms(2,5) by simp
  ultimately have "(t, l) \<in> set (filter (\<lambda>e. now < lk_expiresAt (snd e)) m1)" by simp
  then have "(t, l) \<in> set (prune_locks now m1)" by (simp add: prune_locks_def)
  then have "l \<in> set (active_locks key (prune_locks now m1))" using assms(3) by (auto simp: active_mem)
  with w assms(4,6) have "lk_token l \<in> set ts"
    by (auto simp: assertWritable_def Let_def list_all_iff satisfied_def split: if_splits)
  then show ?thesis using conditionTokens_named [OF c] by blast
qed

definition sample_conditions :: dav_conditions where
  "sample_conditions = \<lparr>dc_ifMatch = None, dc_ifNoneMatch = None,
     dc_davIf = Some [\<lparr>dl_path = None, dl_terms = [\<lparr>dt_kind = TokenTerm, dt_value = ''t'', dt_not = False\<rparr>]\<rparr>]\<rparr>"

lemma sample_write:
  "fst (check_write ''k'' ''/a/b'' None (\<lambda>_. []) sample_conditions False 5 [(''t'', sample_lock ''t'' ''/a'' Exclusive)]) = Inr ()"
  "touches (sample_lock ''t'' ''/a'' Exclusive) ''/a/b'' False"
  by code_simp+

theorem write_names_exclusive_lock_witness:
  "''t'' \<in> set (named_tokens (case dc_davIf sample_conditions of Some ls \<Rightarrow> ls | None \<Rightarrow> []))"
proof -
  have "check_write ''k'' ''/a/b'' None (\<lambda>_. []) sample_conditions False 5 [(''t'', sample_lock ''t'' ''/a'' Exclusive)]
      = (Inr (), snd (check_write ''k'' ''/a/b'' None (\<lambda>_. []) sample_conditions False 5 [(''t'', sample_lock ''t'' ''/a'' Exclusive)]))"
    using sample_write(1) by (metis prod.collapse)
  from write_names_exclusive_lock [OF this, of "''t''" "sample_lock ''t'' ''/a'' Exclusive"] sample_write(2) show ?thesis
    by (simp add: sample_lock_def)
qed

end
