(* ===== verification/CalendarTime.thy ===== *)
theory CalendarTime
  imports TaskModel
begin

text \<open>
  Instants and civil times as ECMAScript's \<open>Date\<close> has them: an instant is the number of milliseconds since
  the epoch, \<open>Date.UTC\<close> maps civil fields to one (carrying months and days over), and the \<open>getUTC\<close> methods
  read the fields back. Decimal numerals with \<open>padStart\<close>, and reading a fixed number of digits.
\<close>

type_synonym instant = int

record local_parts =
  lp_year :: int
  lp_month :: int
  lp_day :: int
  lp_hour :: int
  lp_minute :: int
  lp_second :: int

definition MINUTE_MS :: int where "MINUTE_MS = 60 * 1000"
definition HOUR_MS :: int where "HOUR_MS = 60 * MINUTE_MS"
definition DAY_MS :: int where "DAY_MS = 24 * HOUR_MS"

lemma day_ms [simp]: "MINUTE_MS = 60000" "HOUR_MS = 3600000" "DAY_MS = 86400000"
  by (simp_all add: MINUTE_MS_def HOUR_MS_def DAY_MS_def)

section \<open>Days and civil dates\<close>

text \<open>Years start in March here, so that the leap day is the last of a year; an era is 400 years.\<close>

definition year_days :: "int \<Rightarrow> int" where
  "year_days y = 365 * y + y div 4 - y div 100"

definition days_from_civil :: "int \<Rightarrow> int \<Rightarrow> int \<Rightarrow> int" where
  "days_from_civil y m d =
     (let y' = (if m \<le> 2 then y - 1 else y); mp = (if m > 2 then m - 3 else m + 9)
      in (y' div 400) * 146097 + year_days (y' mod 400) + (153 * mp + 2) div 5 + d - 1 - 719468)"

definition civil_from_days :: "int \<Rightarrow> int \<times> int \<times> int" where
  "civil_from_days z =
     (let era = (z + 719468) div 146097; doe = (z + 719468) mod 146097;
          c = min (doe div 36524) 3; r = doe - 36524 * c;
          q = r div 1461; s = r - 1461 * q;
          y = min (s div 365) 3; doy = s - 365 * y;
          mp = (5 * doy + 2) div 153; d = doy - (153 * mp + 2) div 5 + 1;
          m = (if mp < 10 then mp + 3 else mp - 9)
      in (400 * era + 100 * c + 4 * q + y + (if m \<le> 2 then 1 else 0), m, d))"

text \<open>\<open>Date.UTC\<close> before it is clipped, and the range of a \<open>Date\<close>.\<close>

definition MAX_TIME :: int where "MAX_TIME = 8640000000000000"

definition time_value :: "local_parts \<Rightarrow> int" where
  "time_value p = (let y = (if 0 \<le> lp_year p \<and> lp_year p \<le> 99 then 1900 + lp_year p else lp_year p); m = lp_month p - 1
     in (days_from_civil (y + m div 12) (m mod 12 + 1) 1 + (lp_day p - 1)) * DAY_MS
        + lp_hour p * HOUR_MS + lp_minute p * MINUTE_MS + lp_second p * 1000)"

definition date_utc :: "local_parts \<Rightarrow> instant option" where
  "date_utc p = (if \<bar>time_value p\<bar> \<le> MAX_TIME then Some (time_value p) else None)"

definition utc_parts :: "instant \<Rightarrow> local_parts" where
  "utc_parts t = (let (y, m, d) = civil_from_days (t div DAY_MS); r = t mod DAY_MS
     in \<lparr>lp_year = y, lp_month = m, lp_day = d, lp_hour = r div HOUR_MS, lp_minute = r mod HOUR_MS div MINUTE_MS,
         lp_second = r mod MINUTE_MS div 1000\<rparr>)"

lemma div_bounds:
  fixes a k :: int
  assumes "0 < k"
  shows "k * (a div k) \<le> a" "a < k * (a div k) + k"
  using pos_mod_bound [OF assms, of a] pos_mod_sign [OF assms, of a] mult_div_mod_eq [of k a] by linarith+

lemma div_range:
  fixes a k :: int
  assumes "0 \<le> a" "a < k * n" "0 < k"
  shows "0 \<le> a div k" "a div k < n"
proof -
  show "0 \<le> a div k" using assms by (simp add: pos_imp_zdiv_nonneg_iff)
  from div_bounds(1) [OF assms(3), of a] assms(2) have "k * (a div k) < k * n" by (rule le_less_trans)
  then show "a div k < n" using assms(3) by simp
qed

lemma day_of_era:
  fixes doe :: int
  assumes "0 \<le> doe" "doe < 146097"
  defines "c \<equiv> min (doe div 36524) 3"
  defines "q \<equiv> (doe - 36524 * c) div 1461"
  defines "s \<equiv> doe - 36524 * c - 1461 * q"
  defines "y \<equiv> min (s div 365) 3"
  defines "doy \<equiv> s - 365 * y"
  shows "0 \<le> c \<and> c \<le> 3 \<and> 0 \<le> q \<and> q \<le> 24 \<and> 0 \<le> y \<and> y \<le> 3 \<and> 0 \<le> doy \<and> doy \<le> 365
    \<and> doe = year_days (100 * c + 4 * q + y) + doy"
proof -
  have c: "0 \<le> c" "c \<le> 3" using assms(1) by (auto simp: c_def)
  have r: "0 \<le> doe - 36524 * c" "doe - 36524 * c \<le> 36524"
    using assms(1,2) div_bounds [of 36524 doe] by (cases "doe div 36524 \<le> 3"; simp add: c_def min_def)+
  have q: "0 \<le> q" "q \<le> 24" using r by (auto simp: q_def)
  have s: "0 \<le> s" "s \<le> 1460" using r q div_bounds [of 1461 "doe - 36524 * c"] by (simp_all add: s_def q_def)
  have y: "0 \<le> y" "y \<le> 3" using s by (auto simp: y_def)
  have d: "0 \<le> doy" "doy \<le> 365" using s div_bounds [of 365 s] by (cases "s div 365 \<le> 3"; simp add: doy_def y_def min_def)+
  have "100 * c + 4 * q + y = y + (25 * c + q) * 4" "100 * c + 4 * q + y = (4 * q + y) + c * 100" by simp_all
  moreover have "(y + (25 * c + q) * 4) div 4 = 25 * c + q" "((4 * q + y) + c * 100) div 100 = c"
    using y q by simp_all
  ultimately have "(100 * c + 4 * q + y) div 4 = 25 * c + q" "(100 * c + 4 * q + y) div 100 = c" by metis+
  then have "doe = year_days (100 * c + 4 * q + y) + doy" by (simp add: year_days_def doy_def s_def)
  with c q y d show ?thesis by simp
qed

lemma civil_days:
  assumes "civil_from_days z = (y, m, d)"
  shows "days_from_civil y m d = z" "1 \<le> m" "m \<le> 12" "1 \<le> d" "d \<le> 31"
    "400 * ((z + 719468) div 146097) \<le> y" "y \<le> 400 * ((z + 719468) div 146097) + 400"
proof -
  define era doe where "era = (z + 719468) div 146097" and "doe = (z + 719468) mod 146097"
  define c q where "c = min (doe div 36524) 3" and "q = (doe - 36524 * c) div 1461"
  define s yy where "s = doe - 36524 * c - 1461 * q" and "yy = min (s div 365) 3"
  define doy mp where "doy = s - 365 * yy" and "mp = (5 * doy + 2) div 153"
  have doe: "0 \<le> doe" "doe < 146097" "z = era * 146097 + doe - 719468" by (auto simp: era_def doe_def)
  from day_of_era [OF doe(1,2)] have b: "0 \<le> c" "c \<le> 3" "0 \<le> q" "q \<le> 24" "0 \<le> yy" "yy \<le> 3" "0 \<le> doy" "doy \<le> 365"
      and e: "doe = year_days (100 * c + 4 * q + yy) + doy"
    unfolding c_def q_def s_def yy_def doy_def by auto
  have e0: "civil_from_days z = (400 * era + 100 * c + 4 * q + yy + (if (if mp < 10 then mp + 3 else mp - 9) \<le> 2 then 1 else 0),
      if mp < 10 then mp + 3 else mp - 9, doy - (153 * mp + 2) div 5 + 1)"
    unfolding civil_from_days_def Let_def mp_def doy_def yy_def s_def q_def c_def doe_def era_def by (rule refl)
  have r: "y = 400 * era + 100 * c + 4 * q + yy + (if m \<le> 2 then 1 else 0)" "m = (if mp < 10 then mp + 3 else mp - 9)"
      "d = doy - (153 * mp + 2) div 5 + 1"
    using assms e0 by auto
  have mp: "0 \<le> mp" "mp \<le> 11" using b by (auto simp: mp_def)
  then show "1 \<le> m" "m \<le> 12" by (auto simp: r)
  have "153 * mp \<le> 5 * doy + 2" "5 * doy + 2 < 153 * mp + 153" using div_bounds [of 153 "5 * doy + 2"] by (simp_all add: mp_def)
  with div_bounds [of 5 "153 * mp + 2"] show "1 \<le> d" "d \<le> 31" unfolding r(3) by linarith+
  let ?n = "100 * c + 4 * q + yy"
  have n: "0 \<le> ?n" "?n < 400" using b by auto
  have y: "(if m \<le> 2 then y - 1 else y) = 400 * era + ?n" by (simp add: r)
  have "(400 * era + ?n) div 400 = era" "(400 * era + ?n) mod 400 = ?n" using n by auto
  moreover have "(if m > 2 then m - 3 else m + 9) = mp" using mp by (auto simp: r)
  ultimately have "days_from_civil y m d = era * 146097 + year_days ?n + (153 * mp + 2) div 5 + d - 1 - 719468"
    unfolding days_from_civil_def y Let_def by (simp only:)
  then show "days_from_civil y m d = z" using e doe(3) r(3) by simp
  have "era = (z + 719468) div 146097" by (simp add: era_def)
  with n r(1) show "400 * ((z + 719468) div 146097) \<le> y" "y \<le> 400 * ((z + 719468) div 146097) + 400" by auto
qed

text \<open>Whole seconds.\<close>

definition whole :: "instant \<Rightarrow> bool" where
  "whole t \<longleftrightarrow> 1000 dvd t"

lemma whole_days: "whole (k * DAY_MS)"
proof -
  have "k * DAY_MS = 1000 * (k * 86400)" by simp
  then show ?thesis unfolding whole_def by (metis dvd_triv_left)
qed

lemma whole_add: "whole s \<Longrightarrow> whole t \<Longrightarrow> whole (s + t)" and whole_diff: "whole s \<Longrightarrow> whole t \<Longrightarrow> whole (s - t)"
  by (simp_all add: whole_def)

text \<open>The instants of the years 1200 to 9600: their years have four digits.\<close>

definition ordinary :: "instant \<Rightarrow> bool" where
  "ordinary t \<longleftrightarrow> - 281177 * DAY_MS \<le> t \<and> t < 2786860 * DAY_MS"

lemma utc_parts_fields:
  assumes "ordinary t"
  shows "1000 \<le> lp_year (utc_parts t)" "lp_year (utc_parts t) < 10000"
    "1 \<le> lp_month (utc_parts t)" "lp_month (utc_parts t) \<le> 12" "1 \<le> lp_day (utc_parts t)" "lp_day (utc_parts t) \<le> 31"
    "0 \<le> lp_hour (utc_parts t)" "lp_hour (utc_parts t) < 24" "0 \<le> lp_minute (utc_parts t)" "lp_minute (utc_parts t) < 60"
    "0 \<le> lp_second (utc_parts t)" "lp_second (utc_parts t) < 60"
proof -
  let ?z = "t div DAY_MS"
  obtain y m d where c: "civil_from_days ?z = (y, m, d)" by (cases "civil_from_days ?z")
  note c' = c [unfolded day_ms]
  have "- 281177 \<le> ?z" "?z < 2786860" using assms div_bounds [of DAY_MS t] by (simp_all add: ordinary_def)
  then have "3 \<le> (?z + 719468) div 146097" "(?z + 719468) div 146097 \<le> 23"
    using div_bounds [of 146097 "?z + 719468"] by simp_all
  with civil_days [OF c] c' show "1000 \<le> lp_year (utc_parts t)" "lp_year (utc_parts t) < 10000"
    "1 \<le> lp_month (utc_parts t)" "lp_month (utc_parts t) \<le> 12" "1 \<le> lp_day (utc_parts t)" "lp_day (utc_parts t) \<le> 31"
    by (simp_all add: utc_parts_def Let_def c')
  have "0 \<le> t mod 86400000" "t mod 86400000 < 3600000 * 24" by simp_all
  from div_range [OF this] show "0 \<le> lp_hour (utc_parts t)" "lp_hour (utc_parts t) < 24" by (simp_all add: utc_parts_def Let_def c')
  have "0 \<le> t mod 86400000 mod 3600000" "t mod 86400000 mod 3600000 < 60000 * 60" by simp_all
  from div_range [OF this] show "0 \<le> lp_minute (utc_parts t)" "lp_minute (utc_parts t) < 60" by (simp_all add: utc_parts_def Let_def c')
  have "0 \<le> t mod 86400000 mod 60000" "t mod 86400000 mod 60000 < 1000 * 60" by simp_all
  from div_range [OF this] show "0 \<le> lp_second (utc_parts t)" "lp_second (utc_parts t) < 60" by (simp_all add: utc_parts_def Let_def c')
qed

lemma clock_value:
  fixes r :: int
  assumes "r mod 1000 = 0"
  shows "r div 3600000 * 3600000 + r mod 3600000 div 60000 * 60000 + r mod 60000 div 1000 * 1000 = r"
proof -
  have a: "r mod 3600000 mod 60000 = r mod 60000" by (rule mod_mod_cancel) simp
  have b: "r mod 60000 mod 1000 = 0" using assms mod_mod_cancel [of 1000 60000 r] by simp
  have "r div 3600000 * 3600000 + r mod 3600000 = r" "r mod 3600000 div 60000 * 60000 + r mod 3600000 mod 60000 = r mod 3600000"
    "r mod 60000 div 1000 * 1000 + r mod 60000 mod 1000 = r mod 60000"
    by (simp_all only: div_mult_mod_eq)
  with a b show ?thesis by linarith
qed

text \<open>Reading the fields of an instant of whole seconds and putting them together again gives the instant.\<close>

lemma time_value_utc_parts:
  assumes "- 400000 * DAY_MS \<le> t" "t mod 1000 = 0"
  shows "time_value (utc_parts t) = t"
proof -
  let ?z = "t div DAY_MS" and ?p = "utc_parts t"
  obtain y m d where c: "civil_from_days ?z = (y, m, d)" by (cases "civil_from_days ?z")
  note c' = c [unfolded day_ms]
  have f: "lp_year ?p = y" "lp_month ?p = m" "lp_day ?p = d" by (simp_all add: utc_parts_def c' Let_def)
  have h: "lp_hour ?p = t mod 86400000 div 3600000" "lp_minute ?p = t mod 86400000 mod 3600000 div 60000"
    "lp_second ?p = t mod 86400000 mod 60000 div 1000" by (simp_all add: utc_parts_def c' Let_def)
  have m: "(m - 1) div 12 = 0" "(m - 1) mod 12 = m - 1" using civil_days(2,3) [OF c] by simp_all
  have "days_from_civil y m 1 + (d - 1) = days_from_civil y m d" by (simp add: days_from_civil_def Let_def)
  also have "\<dots> = ?z" by (rule civil_days [OF c])
  finally have z: "days_from_civil y m 1 + (d - 1) = ?z" .
  have "- 400000 \<le> ?z" using assms(1) div_bounds [of DAY_MS t] by simp
  then have "2 \<le> (?z + 719468) div 146097" using div_bounds [of 146097 "?z + 719468"] by simp
  with civil_days(6) [OF c] have y: "\<not> (0 \<le> y \<and> y \<le> 99)" by simp
  have "time_value ?p = (days_from_civil y m 1 + (d - 1)) * DAY_MS + lp_hour ?p * HOUR_MS + lp_minute ?p * MINUTE_MS + lp_second ?p * 1000"
    unfolding time_value_def Let_def f if_not_P [OF y] m by simp
  also have "\<dots> = ?z * 86400000 + (lp_hour ?p * 3600000 + lp_minute ?p * 60000 + lp_second ?p * 1000)"
    unfolding z by simp
  also have "lp_hour ?p * 3600000 + lp_minute ?p * 60000 + lp_second ?p * 1000 = t mod 86400000"
  proof -
    have "(1000 :: int) dvd 86400000" by (rule dvdI [of _ _ 86400]) simp
    from mod_mod_cancel [OF this, of t] have "t mod 86400000 mod 1000 = t mod 1000" .
    also note assms(2)
    finally have "t mod 86400000 mod 1000 = 0" .
    from clock_value [OF this] show ?thesis unfolding h .
  qed
  also have "?z * 86400000 + t mod 86400000 = t" unfolding day_ms by (rule div_mult_mod_eq)
  finally show ?thesis .
qed

lemma ordinary_small: "ordinary t \<Longrightarrow> \<bar>t\<bar> \<le> MAX_TIME"
  by (auto simp: ordinary_def MAX_TIME_def)

text \<open>Days are added to the day field before the fields are put together.\<close>

lemma time_value_days: "time_value (p\<lparr>lp_day := lp_day p + k\<rparr>) = time_value p + k * DAY_MS"
  by (simp add: time_value_def Let_def algebra_simps)

section \<open>Decimal numerals\<close>

definition digit_char :: "nat \<Rightarrow> char" where
  "digit_char d = char_of (48 + d)"

fun show_nat :: "nat \<Rightarrow> string" where
  "show_nat n = (if n < 10 then [digit_char n] else show_nat (n div 10) @ [digit_char (n mod 10)])"

declare show_nat.simps [simp del]

definition show_int :: "int \<Rightarrow> string" where
  "show_int i = (if i < 0 then CHR ''-'' # show_nat (nat (- i)) else show_nat (nat i))"

text \<open>\<open>String(i).padStart(k, "0")\<close>\<close>

definition pad_start :: "nat \<Rightarrow> int \<Rightarrow> string" where
  "pad_start k i = (let s = show_int i in replicate (k - length s) (CHR ''0'') @ s)"

definition digit_value :: "char \<Rightarrow> nat option" where
  "digit_value c = (let n = of_char c :: nat in if 48 \<le> n \<and> n \<le> 57 then Some (n - 48) else None)"

text \<open>Exactly \<open>k\<close> digits at the front.\<close>

fun read_digits :: "nat \<Rightarrow> nat \<Rightarrow> string \<Rightarrow> (nat \<times> string) option" where
  "read_digits 0 a s = Some (a, s)"
| "read_digits (Suc k) a (c # s) = (case digit_value c of None \<Rightarrow> None | Some d \<Rightarrow> read_digits k (10 * a + d) s)"
| "read_digits (Suc k) a [] = None"

fun fixed_digits :: "nat \<Rightarrow> nat \<Rightarrow> string" where
  "fixed_digits 0 n = []"
| "fixed_digits (Suc k) n = fixed_digits k (n div 10) @ [digit_char (n mod 10)]"

lemma digit_value_char [simp]: "d < 10 \<Longrightarrow> digit_value (digit_char d) = Some d"
  by (simp add: digit_value_def digit_char_def)

lemma length_fixed [simp]: "length (fixed_digits k n) = k"
  by (induction k arbitrary: n) auto

lemma digit_zero [simp]: "digit_char 0 = CHR ''0''"
  by code_simp

lemma fixed_zero: "fixed_digits k 0 = replicate k (CHR ''0'')"
  by (induction k) (simp_all add: replicate_append_same)

lemma show_fixed:
  assumes "0 < k" "n < 10 ^ k"
  shows "length (show_nat n) \<le> k \<and> replicate (k - length (show_nat n)) (CHR ''0'') @ show_nat n = fixed_digits k n"
  using assms
proof (induction k arbitrary: n)
  case (Suc k)
  show ?case
  proof (cases "n < 10")
    case True
    then show ?thesis by (simp add: show_nat.simps [of n] fixed_zero)
  next
    case False
    then have "0 < k" using Suc.prems by (cases k) auto
    moreover have "n div 10 < 10 ^ k" using Suc.prems by (simp add: less_mult_imp_div_less mult.commute)
    ultimately show ?thesis using Suc.IH [of "n div 10"] False by (simp add: show_nat.simps [of n] flip: append_assoc)
  qed
qed simp

lemma pad_fixed: "0 < k \<Longrightarrow> 0 \<le> i \<Longrightarrow> i < 10 ^ k \<Longrightarrow> pad_start k i = fixed_digits k (nat i)"
  using show_fixed [of k "nat i"] by (simp add: pad_start_def show_int_def Let_def nat_less_iff)

lemma read_snoc:
  "d < 10 \<Longrightarrow> length s = k \<Longrightarrow> read_digits k a (s @ digit_char d # r) = Some (m, digit_char d # r)
    \<Longrightarrow> read_digits (Suc k) a (s @ digit_char d # r) = Some (10 * m + d, r)"
proof (induction s arbitrary: k a)
  case (Cons c s)
  then show ?case by (cases k) (auto split: option.splits)
qed simp

lemma read_fixed: "read_digits k a (fixed_digits k n @ r) = Some (a * 10 ^ k + n mod 10 ^ k, r)"
proof (induction k arbitrary: n r)
  case (Suc k)
  have "read_digits k a (fixed_digits k (n div 10) @ digit_char (n mod 10) # r) = Some (a * 10 ^ k + n div 10 mod 10 ^ k, digit_char (n mod 10) # r)"
    by (rule Suc.IH)
  from read_snoc [OF _ length_fixed this] have "read_digits (Suc k) a (fixed_digits k (n div 10) @ digit_char (n mod 10) # r)
      = Some (10 * (a * 10 ^ k + n div 10 mod 10 ^ k) + n mod 10, r)" by simp
  moreover have "10 * (n div 10 mod 10 ^ k) + n mod 10 = n mod 10 ^ Suc k"
    using mod_mult2_eq [of n 10 "10 ^ k"] by (simp add: mult.commute)
  ultimately show ?case by (simp add: algebra_simps)
qed simp

lemma read_pad: "0 < k \<Longrightarrow> 0 \<le> i \<Longrightarrow> i < 10 ^ k \<Longrightarrow> read_digits k 0 (pad_start k i @ r) = Some (nat i, r)"
  by (simp add: pad_fixed read_fixed nat_less_iff)

end
