(* ===== verification/AgentSchedule.thy ===== *)
theory AgentSchedule
  imports CalendarTime
begin

text \<open>
  When an agent runs next (\<open>src/core/agent-schedule.ts\<close>). The calendar of a time zone, what a zone name is worth
  and the parsing of a date text that is not of the form \<open>YYYY-MM-DD[Thh:mm[:ss]]\<close> belong to the platform
  (\<open>Intl.DateTimeFormat\<close>, \<open>new Date\<close>): they are a record of functions. An invalid \<open>Date\<close> is an error as soon as it
  is made: each use of one ends in a formatter or in \<open>toISOString\<close>, which throw.
\<close>

datatype interval_unit = UnitMinutes | UnitHours | UnitDays

record schedule_interval =
  iv_value :: nat
  iv_unit :: interval_unit

record agent_schedule =
  sc_startAtLocal :: string
  sc_timezone :: string
  sc_interval :: schedule_interval
  sc_nextRunAt :: instant

record zone_env =
  ze_valid :: "string \<Rightarrow> bool"
  ze_parts :: "string \<Rightarrow> instant \<Rightarrow> local_parts"
  ze_parse :: "string \<Rightarrow> instant option"

datatype schedule_error = InvalidTimeZone | InvalidLocalTime | InvalidTime | NotConverged

definition DAY_SCHEDULE_COARSE_LOOKBACK_INTERVALS :: int where
  "DAY_SCHEDULE_COARSE_LOOKBACK_INTERVALS = 8"

definition DAY_SCHEDULE_FINAL_LOOP_GUARD :: nat where
  "DAY_SCHEDULE_FINAL_LOOP_GUARD = 1000"

section \<open>Local times\<close>

fun expect :: "char \<Rightarrow> string \<Rightarrow> string option" where
  "expect c (d # s) = (if c = d then Some s else None)"
| "expect c [] = None"

text \<open>The three groups of the pattern: the date, \<open>[T\s]hh:mm\<close>, and \<open>:ss\<close>.\<close>

definition match_date :: "string \<Rightarrow> ((nat \<times> nat \<times> nat) \<times> string) option" where
  "match_date s = Option.bind (read_digits 4 0 s) (\<lambda>(y, s).
     Option.bind (expect (CHR ''-'') s) (\<lambda>s. Option.bind (read_digits 2 0 s) (\<lambda>(m, s).
     Option.bind (expect (CHR ''-'') s) (\<lambda>s. Option.bind (read_digits 2 0 s) (\<lambda>(d, s). Some ((y, m, d), s))))))"

definition match_clock :: "string \<Rightarrow> ((nat \<times> nat) \<times> string) option" where
  "match_clock s = (case s of [] \<Rightarrow> None | c # s \<Rightarrow>
     if c = CHR ''T'' \<or> is_space c then Option.bind (read_digits 2 0 s) (\<lambda>(h, s).
       Option.bind (expect (CHR '':'') s) (\<lambda>s. Option.bind (read_digits 2 0 s) (\<lambda>(m, s). Some ((h, m), s))))
     else None)"

definition match_seconds :: "string \<Rightarrow> (nat \<times> string) option" where
  "match_seconds s = Option.bind (expect (CHR '':'') s) (read_digits 2 0)"

definition civil :: "nat \<times> nat \<times> nat \<Rightarrow> nat \<times> nat \<Rightarrow> nat \<Rightarrow> local_parts" where
  "civil d t s = (case (d, t) of ((y, m, d), (h, n)) \<Rightarrow>
     \<lparr>lp_year = int y, lp_month = int m, lp_day = int d, lp_hour = int h, lp_minute = int n, lp_second = int s\<rparr>)"

definition match_local :: "string \<Rightarrow> local_parts option" where
  "match_local s = Option.bind (match_date s) (\<lambda>(d, s). if s = [] then Some (civil d (0, 0) 0)
     else Option.bind (match_clock s) (\<lambda>(t, s). if s = [] then Some (civil d t 0)
     else Option.bind (match_seconds s) (\<lambda>(n, s). if s = [] then Some (civil d t n) else None)))"

definition parseLocalDateTime :: "zone_env \<Rightarrow> string \<Rightarrow> schedule_error + local_parts" where
  "parseLocalDateTime E v = (case match_local (js_trim v) of Some p \<Rightarrow> Inr p
     | None \<Rightarrow> (case ze_parse E v of Some t \<Rightarrow> Inr (utc_parts t) | None \<Rightarrow> Inl InvalidLocalTime))"

definition valid_time :: "instant \<Rightarrow> schedule_error + instant" where
  "valid_time t = (if \<bar>t\<bar> \<le> MAX_TIME then Inr t else Inl InvalidTime)"

definition getTimeZoneOffsetMs :: "zone_env \<Rightarrow> string \<Rightarrow> instant \<Rightarrow> schedule_error + int" where
  "getTimeZoneOffsetMs E tz t = (case date_utc (ze_parts E tz t) of Some w \<Rightarrow> Inr (w - t) | None \<Rightarrow> Inl InvalidTime)"

definition offset_at :: "zone_env \<Rightarrow> string \<Rightarrow> instant \<Rightarrow> schedule_error + int" where
  "offset_at E tz t = (case valid_time t of Inl x \<Rightarrow> Inl x | Inr t \<Rightarrow> getTimeZoneOffsetMs E tz t)"

definition localDateTimeToUtc :: "zone_env \<Rightarrow> string \<Rightarrow> string \<Rightarrow> schedule_error + instant" where
  "localDateTimeToUtc E v tz =
     (if \<not> ze_valid E tz then Inl InvalidTimeZone
      else (case parseLocalDateTime E v of Inl x \<Rightarrow> Inl x
       | Inr p \<Rightarrow> (case date_utc p of None \<Rightarrow> Inl InvalidTime
       | Some l \<Rightarrow> (case offset_at E tz l of Inl x \<Rightarrow> Inl x
       | Inr o1 \<Rightarrow> (case offset_at E tz (l - o1) of Inl x \<Rightarrow> Inl x
       | Inr o2 \<Rightarrow> valid_time (l - o2))))))"

definition localValue :: "local_parts \<Rightarrow> string" where
  "localValue p = pad_start 4 (lp_year p) @ ''-'' @ pad_start 2 (lp_month p) @ ''-'' @ pad_start 2 (lp_day p)
     @ ''T'' @ pad_start 2 (lp_hour p) @ '':'' @ pad_start 2 (lp_minute p) @ '':'' @ pad_start 2 (lp_second p)"

definition addCalendarDays :: "zone_env \<Rightarrow> instant \<Rightarrow> int \<Rightarrow> string \<Rightarrow> schedule_error + instant" where
  "addCalendarDays E t days tz = (let p = ze_parts E tz t
     in case date_utc (p\<lparr>lp_day := lp_day p + days\<rparr>) of None \<Rightarrow> Inl InvalidLocalTime
      | Some localNoon \<Rightarrow> localDateTimeToUtc E (localValue (utc_parts localNoon)) tz)"

definition addInterval :: "zone_env \<Rightarrow> instant \<Rightarrow> schedule_interval \<Rightarrow> string \<Rightarrow> schedule_error + instant" where
  "addInterval E t iv tz = (case iv_unit iv of
       UnitMinutes \<Rightarrow> valid_time (t + int (iv_value iv) * MINUTE_MS)
     | UnitHours \<Rightarrow> valid_time (t + int (iv_value iv) * HOUR_MS)
     | UnitDays \<Rightarrow> addCalendarDays E t (int (iv_value iv)) tz)"

section \<open>The next run\<close>

definition advanceDurationSchedule :: "instant \<Rightarrow> int \<Rightarrow> instant \<Rightarrow> schedule_error + instant" where
  "advanceDurationSchedule start interval after =
     (if start > after then Inr start
      else if interval = 0 then Inl InvalidTime
      else valid_time (start + ((after - start) div interval + 1) * interval))"

text \<open>The loop of a day schedule, \<open>g\<close> being its guard.\<close>

function day_loop :: "zone_env \<Rightarrow> schedule_interval \<Rightarrow> string \<Rightarrow> instant \<Rightarrow> nat \<Rightarrow> instant \<Rightarrow> schedule_error + instant" where
  "day_loop E iv tz after g t =
     (if t > after then Inr t
      else (case addInterval E t iv tz of Inl x \<Rightarrow> Inl x
       | Inr t' \<Rightarrow> if g + 1 > DAY_SCHEDULE_FINAL_LOOP_GUARD then Inl NotConverged else day_loop E iv tz after (g + 1) t'))"
  by pat_completeness auto
termination
  by (relation "measure (\<lambda>(E, iv, tz, after, g, t). Suc DAY_SCHEDULE_FINAL_LOOP_GUARD - g)") auto

declare day_loop.simps [simp del]

definition coarse_intervals :: "int \<Rightarrow> int \<Rightarrow> int" where
  "coarse_intervals elapsed interval = max 0 (elapsed div interval - DAY_SCHEDULE_COARSE_LOOKBACK_INTERVALS)"

text \<open>An interval of no days divides by zero: the quotient is infinite, or \<open>NaN\<close> when nothing has elapsed.\<close>

definition advanceDaySchedule :: "zone_env \<Rightarrow> instant \<Rightarrow> schedule_interval \<Rightarrow> string \<Rightarrow> instant \<Rightarrow> schedule_error + instant" where
  "advanceDaySchedule E start iv tz after =
     (if start > after then Inr start
      else (let interval = int (iv_value iv) * DAY_MS; k = coarse_intervals (after - start) interval
        in if interval = 0 then (if after = start then day_loop E iv tz after 0 start else Inl InvalidLocalTime)
           else if k > 0 then (case addCalendarDays E start (k * int (iv_value iv)) tz of
               Inl x \<Rightarrow> Inl x | Inr t \<Rightarrow> day_loop E iv tz after 0 t)
           else day_loop E iv tz after 0 start))"

definition calculateNextRunAt :: "zone_env \<Rightarrow> agent_schedule \<Rightarrow> instant \<Rightarrow> schedule_error + instant" where
  "calculateNextRunAt E sc after = (case localDateTimeToUtc E (sc_startAtLocal sc) (sc_timezone sc) of Inl x \<Rightarrow> Inl x
     | Inr start \<Rightarrow> (let iv = sc_interval sc in case iv_unit iv of
         UnitMinutes \<Rightarrow> advanceDurationSchedule start (int (iv_value iv) * MINUTE_MS) after
       | UnitHours \<Rightarrow> advanceDurationSchedule start (int (iv_value iv) * HOUR_MS) after
       | UnitDays \<Rightarrow> advanceDaySchedule E start iv (sc_timezone sc) after))"

section \<open>The text of a local time\<close>

lemma read_pad_rest: "0 < k \<Longrightarrow> 0 \<le> i \<Longrightarrow> i < 10 ^ k \<Longrightarrow> read_digits k 0 (pad_start k i) = Some (nat i, [])"
  using read_pad [of k i "[]"] by simp

text \<open>The text built by \<open>addCalendarDays\<close> reads back as the fields it was built from.\<close>

lemma match_localValue:
  assumes "ordinary t"
  shows "match_local (localValue (utc_parts t)) = Some (utc_parts t)"
proof -
  let ?p = "utc_parts t"
  note f = utc_parts_fields [OF assms]
  have y: "read_digits 4 0 (pad_start 4 (lp_year ?p) @ r) = Some (nat (lp_year ?p), r)" for r
    by (rule read_pad) (use f in simp_all)
  have m: "read_digits 2 0 (pad_start 2 (lp_month ?p) @ r) = Some (nat (lp_month ?p), r)" for r
    by (rule read_pad) (use f in simp_all)
  have d: "read_digits 2 0 (pad_start 2 (lp_day ?p) @ r) = Some (nat (lp_day ?p), r)" for r
    by (rule read_pad) (use f in simp_all)
  have h: "read_digits 2 0 (pad_start 2 (lp_hour ?p) @ r) = Some (nat (lp_hour ?p), r)" for r
    by (rule read_pad) (use f in simp_all)
  have n: "read_digits 2 0 (pad_start 2 (lp_minute ?p) @ r) = Some (nat (lp_minute ?p), r)" for r
    by (rule read_pad) (use f in simp_all)
  have s: "read_digits 2 0 (pad_start 2 (lp_second ?p)) = Some (nat (lp_second ?p), [])"
    by (rule read_pad_rest) (use f in simp_all)
  have p: "civil (nat (lp_year ?p), nat (lp_month ?p), nat (lp_day ?p)) (nat (lp_hour ?p), nat (lp_minute ?p)) (nat (lp_second ?p)) = ?p"
    using f by (cases ?p) (simp add: civil_def)
  show ?thesis
    by (simp add: match_local_def match_date_def match_clock_def match_seconds_def localValue_def y m d h n s p)
qed


lemma digit_not_space: "d < 10 \<Longrightarrow> \<not> is_space (digit_char d)"
proof -
  assume "d < 10"
  then have "d \<in> set (map nat [0, 1, 2, 3, 4, 5, 6, 7, 8, 9])" by auto
  moreover have "list_all (\<lambda>d. \<not> is_space (digit_char d)) (map nat [0, 1, 2, 3, 4, 5, 6, 7, 8, 9])" by code_simp
  ultimately show ?thesis by (simp only: list_all_iff) blast
qed

lemma pad_ends:
  assumes "0 < k" "0 \<le> i" "i < 10 ^ k"
  shows "\<exists>d s. pad_start k i = s @ [digit_char d] \<and> d < 10" "\<exists>d s. pad_start k i = digit_char d # s \<and> d < 10"
proof -
  obtain j where k: "k = Suc j" using assms(1) by (cases k) auto
  have "pad_start k i = fixed_digits k (nat i)" by (rule pad_fixed) (use assms in auto)
  then show "\<exists>d s. pad_start k i = s @ [digit_char d] \<and> d < 10" by (auto simp: k intro!: exI [of _ "nat i mod 10"])
  have "\<exists>d s. fixed_digits (Suc j) n = digit_char d # s \<and> d < 10" for n
  proof (induction j arbitrary: n)
    case 0
    show ?case by (auto intro!: exI [of _ "n mod 10"])
  next
    case (Suc j)
    from Suc.IH [of "n div 10"] obtain d s where "fixed_digits (Suc j) (n div 10) = digit_char d # s" "d < 10" by blast
    moreover have "fixed_digits (Suc (Suc j)) n = fixed_digits (Suc j) (n div 10) @ [digit_char (n mod 10)]" by (rule fixed_digits.simps)
    ultimately show ?case by auto
  qed
  then show "\<exists>d s. pad_start k i = digit_char d # s \<and> d < 10" using \<open>pad_start k i = fixed_digits k (nat i)\<close> k by simp
qed

lemma trim_localValue: "ordinary t \<Longrightarrow> js_trim (localValue (utc_parts t)) = localValue (utc_parts t)"
proof -
  assume o: "ordinary t"
  let ?p = "utc_parts t"
  note f = utc_parts_fields [OF o]
  obtain c s where y: "pad_start 4 (lp_year ?p) = digit_char c # s" "c < 10" using pad_ends(2) [of 4 "lp_year ?p"] f by auto
  obtain d r where z: "pad_start 2 (lp_second ?p) = r @ [digit_char d]" "d < 10" using pad_ends(1) [of 2 "lp_second ?p"] f by auto
  from y z show ?thesis by (simp add: js_trim_def localValue_def digit_not_space)
qed

lemma parse_localValue: "ordinary t \<Longrightarrow> parseLocalDateTime E (localValue (utc_parts t)) = Inr (utc_parts t)"
  by (simp add: parseLocalDateTime_def trim_localValue match_localValue)

section \<open>Zones with bounded offsets\<close>

text \<open>
  What is relied on of a time zone: its fields at an instant are those of a civil time, at most a day from UTC; \<open>lo\<close>
  and \<open>hi\<close> bound its offsets.
\<close>

definition wall_offset :: "zone_env \<Rightarrow> string \<Rightarrow> instant \<Rightarrow> int" where
  "wall_offset E tz t = time_value (ze_parts E tz t) - t"

definition zone_law :: "zone_env \<Rightarrow> string \<Rightarrow> int \<Rightarrow> int \<Rightarrow> bool" where
  "zone_law E tz lo hi \<longleftrightarrow> ze_valid E tz \<and> - DAY_MS \<le> lo \<and> hi \<le> DAY_MS
     \<and> (\<forall>t. ordinary t \<longrightarrow> whole t \<longrightarrow> lo \<le> wall_offset E tz t \<and> wall_offset E tz t \<le> hi)"

lemma time_value_whole: "whole (time_value p)"
proof -
  have "time_value p = 1000 * ((days_from_civil ((if 0 \<le> lp_year p \<and> lp_year p \<le> 99 then 1900 + lp_year p else lp_year p) + (lp_month p - 1) div 12)
      ((lp_month p - 1) mod 12 + 1) 1 + (lp_day p - 1)) * 86400 + lp_hour p * 3600 + lp_minute p * 60 + lp_second p)"
    by (simp add: time_value_def Let_def algebra_simps)
  then show ?thesis unfolding whole_def by (metis dvd_triv_left)
qed

lemma wall_whole: "whole t \<Longrightarrow> whole (wall_offset E tz t)"
  unfolding wall_offset_def by (rule whole_diff [OF time_value_whole])

text \<open>A start is a whole second whatever the zone.\<close>

lemma local_start_whole: "localDateTimeToUtc E v tz = Inr t \<Longrightarrow> whole t"
proof -
  have w: "whole x" if "date_utc p = Some x" for p x
    using that time_value_whole [of p] by (auto simp: date_utc_def split: if_splits)
  have f: "whole z" if "offset_at E tz x = Inr z" "whole x" for x z
    using that w by (auto simp: offset_at_def valid_time_def getTimeZoneOffsetMs_def intro: whole_diff split: if_splits option.splits)
  assume "localDateTimeToUtc E v tz = Inr t"
  then obtain p l o1 o2 where "date_utc p = Some l" "offset_at E tz l = Inr o1" "offset_at E tz (l - o1) = Inr o2" "t = l - o2"
    by (auto simp: localDateTimeToUtc_def valid_time_def split: if_splits sum.splits option.splits)
  with w f show ?thesis by (metis whole_diff)
qed

lemma zone_offset:
  assumes "zone_law E tz lo hi" "ordinary t" "whole t"
  shows "date_utc (ze_parts E tz t) = Some (t + wall_offset E tz t)" "lo \<le> wall_offset E tz t" "wall_offset E tz t \<le> hi"
    "- DAY_MS \<le> wall_offset E tz t" "wall_offset E tz t \<le> DAY_MS"
proof -
  show b: "lo \<le> wall_offset E tz t" "wall_offset E tz t \<le> hi" "- DAY_MS \<le> wall_offset E tz t" "wall_offset E tz t \<le> DAY_MS"
    using assms unfolding zone_law_def by force+
  have "\<bar>time_value (ze_parts E tz t)\<bar> \<le> MAX_TIME"
    using b(3,4) assms(2) by (auto simp: wall_offset_def ordinary_def MAX_TIME_def abs_le_iff)
  then show "date_utc (ze_parts E tz t) = Some (t + wall_offset E tz t)" by (simp add: date_utc_def wall_offset_def)
qed

lemma offset_at_ordinary: "zone_law E tz lo hi \<Longrightarrow> ordinary t \<Longrightarrow> whole t \<Longrightarrow> offset_at E tz t = Inr (wall_offset E tz t)"
  by (simp add: offset_at_def valid_time_def ordinary_small getTimeZoneOffsetMs_def zone_offset)

text \<open>\<open>inside t\<close>: at least two days from the ends of the range.\<close>

definition inside :: "instant \<Rightarrow> bool" where
  "inside t \<longleftrightarrow> ordinary (t - 2 * DAY_MS) \<and> ordinary (t + 2 * DAY_MS)"

lemma insideD: "inside t \<Longrightarrow> \<bar>s - t\<bar> \<le> 2 * DAY_MS \<Longrightarrow> ordinary s"
  by (auto simp: inside_def ordinary_def)

definition local_instant :: "zone_env \<Rightarrow> string \<Rightarrow> instant \<Rightarrow> instant" where
  "local_instant E tz l = l - wall_offset E tz (l - wall_offset E tz l)"

lemma local_instant_whole: "whole l \<Longrightarrow> whole (local_instant E tz l)"
  by (simp add: local_instant_def whole_diff wall_whole)

lemma local_to_utc:
  assumes z: "zone_law E tz lo hi" and l: "inside l" "whole l"
  shows "localDateTimeToUtc E (localValue (utc_parts l)) tz = Inr (local_instant E tz l)"
proof -
  have o: "ordinary l" using l(1) by (rule insideD) simp
  have w: "whole (l - wall_offset E tz l)" using l(2) by (simp add: whole_diff wall_whole)
  have o1: "ordinary (l - wall_offset E tz l)"
    using l(1) by (rule insideD) (use zone_offset(4,5) [OF z o l(2)] in simp)
  have o2: "ordinary (l - wall_offset E tz (l - wall_offset E tz l))"
    using l(1) by (rule insideD) (use zone_offset(4,5) [OF z o1 w] in simp)
  have m: "l mod 1000 = 0" using l(2) by (simp add: whole_def)
  have "- 400000 * DAY_MS \<le> l" using o unfolding ordinary_def day_ms by linarith
  from time_value_utc_parts [OF this m] have "time_value (utc_parts l) = l" .
  with ordinary_small [OF o] have "date_utc (utc_parts l) = Some l" by (simp add: date_utc_def)
  then show ?thesis
    using z l(2) w by (simp add: localDateTimeToUtc_def zone_law_def parse_localValue o offset_at_ordinary [OF z] o1
        valid_time_def ordinary_small [OF o2] local_instant_def)
qed

lemma add_days:
  assumes z: "zone_law E tz lo hi" and i: "inside (t + wall_offset E tz t + k * DAY_MS)"
  shows "addCalendarDays E t k tz = Inr (local_instant E tz (t + wall_offset E tz t + k * DAY_MS))"
proof -
  let ?l = "t + wall_offset E tz t + k * DAY_MS" and ?p = "ze_parts E tz t"
  have v: "time_value (?p\<lparr>lp_day := lp_day ?p + k\<rparr>) = ?l" by (simp add: time_value_days wall_offset_def)
  have "ordinary ?l" using i by (rule insideD) simp
  then have "date_utc (?p\<lparr>lp_day := lp_day ?p + k\<rparr>) = Some ?l" using ordinary_small unfolding date_utc_def v by simp
  moreover have "whole ?l" using time_value_whole [of "?p\<lparr>lp_day := lp_day ?p + k\<rparr>"] v by simp
  ultimately show ?thesis using local_to_utc [OF z i] by (simp add: addCalendarDays_def Let_def)
qed

lemma local_instant_near:
  assumes "zone_law E tz lo hi" "ordinary t" "whole t" "inside (t + wall_offset E tz t + k)" "whole k"
  shows "\<bar>local_instant E tz (t + wall_offset E tz t + k) - (t + k)\<bar> \<le> hi - lo"
proof -
  let ?l = "t + wall_offset E tz t + k"
  have w: "whole ?l" using assms(3,5) by (simp add: whole_add wall_whole)
  have o: "ordinary ?l" using assms(4) by (rule insideD) simp
  have "ordinary (?l - wall_offset E tz ?l)" using assms(4) by (rule insideD) (use zone_offset(4,5) [OF assms(1) o w] in simp)
  moreover have "whole (?l - wall_offset E tz ?l)" using w by (simp add: whole_diff wall_whole)
  ultimately have "lo \<le> wall_offset E tz (?l - wall_offset E tz ?l)" "wall_offset E tz (?l - wall_offset E tz ?l) \<le> hi"
    using zone_offset(2,3) [OF assms(1)] by blast+
  with zone_offset(2,3) [OF assms(1,2,3)] show ?thesis by (simp add: local_instant_def)
qed

end
