(* ===== verification/ScheduleProps.thy ===== *)
theory ScheduleProps
  imports AgentSchedule
begin

text \<open>
  What the next run of an agent is: the loop of a day schedule ends before its guard, the run is later than the
  moment asked for and not later than an interval and the change of the zone's offset; in a zone without changes
  a day schedule is a duration schedule; and what a gap of the local time does to the runs after it.
\<close>

section \<open>The loop of a day schedule\<close>

lemma inside_iff: "inside t \<longleftrightarrow> - 24293520000000 \<le> t \<and> t < 240784531200000"
  by (auto simp: inside_def ordinary_def)

lemma ordinary_iff: "ordinary t \<longleftrightarrow> - 24293692800000 \<le> t \<and> t < 240784704000000"
  by (auto simp: ordinary_def)

lemma day_loop_done: "after < t \<Longrightarrow> day_loop E iv tz after g t = Inr t"
  by (simp add: day_loop.simps)

lemma day_loop_step:
  assumes "t \<le> after" "iv_unit iv = UnitDays" "addCalendarDays E t (int (iv_value iv)) tz = Inr t'" "g < DAY_SCHEDULE_FINAL_LOOP_GUARD"
  shows "day_loop E iv tz after g t = day_loop E iv tz after (Suc g) t'"
  using assms by (simp add: day_loop.simps [of E iv tz after g t] addInterval_def)

lemma day_step:
  assumes z: "zone_law E tz lo hi" and o: "ordinary t" and w: "whole t" and i: "inside (t + k * DAY_MS - DAY_MS)" "inside (t + k * DAY_MS + DAY_MS)"
  shows "\<exists>r. addCalendarDays E t k tz = Inr r \<and> \<bar>r - (t + k * DAY_MS)\<bar> \<le> hi - lo \<and> whole r"
proof -
  have "inside (t + wall_offset E tz t + k * DAY_MS)"
    using i zone_offset(4,5) [OF z o w] by (auto simp: inside_def ordinary_def)
  from add_days [OF z this] local_instant_near [OF z o w this whole_days] show ?thesis
    using w by (simp add: local_instant_whole whole_add wall_whole whole_days del: day_ms)
qed

lemma day_loop_ends:
  assumes z: "zone_law E tz lo hi" and d: "hi - lo \<le> 23 * HOUR_MS" and iv: "iv_unit iv = UnitDays" "0 < iv_value iv"
    and lo: "inside (t - DAY_MS)" and w: "whole t" and up: "inside (after + int (iv_value iv) * DAY_MS + 2 * DAY_MS)"
    and n: "after < t + int n * (int (iv_value iv) * DAY_MS - (hi - lo))" "g + n \<le> DAY_SCHEDULE_FINAL_LOOP_GUARD"
    and t: "t \<le> after \<or> t \<le> m"
  shows "\<exists>r. day_loop E iv tz after g t = Inr r \<and> after < r \<and> (r \<le> m \<or> r \<le> after + int (iv_value iv) * DAY_MS + (hi - lo))"
  using lo w n t
proof (induction n arbitrary: g t)
  case 0
  then have "after < t" by simp
  with 0 show ?case by (auto simp: day_loop_done)
next
  case (Suc n)
  let ?i = "int (iv_value iv) * DAY_MS"
  show ?case
  proof (cases "t \<le> after")
    case False
    with Suc.prems show ?thesis by (auto simp: day_loop_done)
  next
    case True
    have i: "DAY_MS \<le> ?i" using iv(2) by simp
    have "ordinary t" using Suc.prems(1) by (rule insideD) simp
    moreover have "inside (t + ?i - DAY_MS)" "inside (t + ?i + DAY_MS)"
      using Suc.prems(1) up True i by (auto simp: inside_def ordinary_def)
    ultimately obtain r where r: "addCalendarDays E t (int (iv_value iv)) tz = Inr r" "\<bar>r - (t + ?i)\<bar> \<le> hi - lo" "whole r"
      using day_step [OF z _ Suc.prems(2)] by blast
    have up': "inside (r - DAY_MS)" using Suc.prems(1) up True i r(2) d by (auto simp: inside_def ordinary_def)
    have "after < r + int n * (?i - (hi - lo))" using Suc.prems(3) r(2) by (simp add: algebra_simps)
    moreover have "Suc g + n \<le> DAY_SCHEDULE_FINAL_LOOP_GUARD" using Suc.prems(4) by simp
    moreover have "r \<le> after + ?i + (hi - lo)" using r(2) True by simp
    ultimately have "\<exists>q. day_loop E iv tz after (Suc g) r = Inr q \<and> after < q \<and> (q \<le> m \<or> q \<le> after + ?i + (hi - lo))"
      using Suc.IH [OF up' r(3), of "Suc g"] by (cases "r \<le> after") (auto simp: day_loop_done)
    moreover have "day_loop E iv tz after g t = day_loop E iv tz after (Suc g) r"
      by (rule day_loop_step [OF True iv(1) r(1)]) (use Suc.prems(4) in simp)
    ultimately show ?thesis by simp
  qed
qed


section \<open>The next run\<close>

definition interval_ms :: "schedule_interval \<Rightarrow> int" where
  "interval_ms iv = int (iv_value iv) * (case iv_unit iv of UnitMinutes \<Rightarrow> MINUTE_MS | UnitHours \<Rightarrow> HOUR_MS | UnitDays \<Rightarrow> DAY_MS)"

lemma coarse_bounds:
  fixes e i :: int
  assumes "0 < i" "0 \<le> e"
  defines "k \<equiv> coarse_intervals e i"
  shows "0 \<le> k" "e < (k + 9) * i" "0 < k \<Longrightarrow> (k + 8) * i \<le> e"
proof -
  have b: "i * (e div i) \<le> e" "e < i * (e div i) + i" using div_bounds [OF assms(1)] by auto
  show "0 \<le> k" by (simp add: k_def coarse_intervals_def)
  have "e div i \<le> k + 8" by (simp add: k_def coarse_intervals_def DAY_SCHEDULE_COARSE_LOOKBACK_INTERVALS_def)
  then have "i * (e div i) \<le> i * (k + 8)" using assms(1) by simp
  with b(2) show "e < (k + 9) * i" by (simp add: algebra_simps)
  assume "0 < k"
  then have "k + 8 = e div i" by (simp add: k_def coarse_intervals_def DAY_SCHEDULE_COARSE_LOOKBACK_INTERVALS_def)
  with b(1) show "(k + 8) * i \<le> e" by (simp add: mult.commute)
qed

lemma day_schedule_ends:
  assumes z: "zone_law E tz lo hi" and d: "hi - lo \<le> 23 * HOUR_MS" and iv: "iv_unit iv = UnitDays" "0 < iv_value iv"
    and s: "inside (start - 3 * DAY_MS)" and w: "whole start" and up: "inside (after + interval_ms iv + 2 * DAY_MS)" and le: "start \<le> after"
  shows "\<exists>r. advanceDaySchedule E start iv tz after = Inr r \<and> after < r \<and> r \<le> after + interval_ms iv + (hi - lo)"
proof -
  let ?i = "int (iv_value iv) * DAY_MS"
  let ?k = "coarse_intervals (after - start) ?i"
  have i: "DAY_MS \<le> ?i" "0 < ?i" "interval_ms iv = ?i" using iv by (simp_all add: interval_ms_def)
  have sp: "0 \<le> hi - lo" using z zone_offset(2,3) [OF z, of 0] by (simp add: ordinary_def whole_def)
  have e: "0 \<le> after - start" using le by simp
  note c = coarse_bounds [OF i(2) e]
  have loop: "\<exists>r. day_loop E iv tz after 0 t = Inr r \<and> after < r \<and> r \<le> after + ?i + (hi - lo)"
    if "inside (t - DAY_MS)" "t \<le> after" "after < t + 9 * ?i + (hi - lo)" "whole t" for t
  proof -
    have "251 * (hi - lo) \<le> 241 * ?i" using d i(1) by simp
    then have "9 * ?i + (hi - lo) \<le> int 250 * (?i - (hi - lo))" by (simp add: algebra_simps)
    with that(3) have "after < t + int 250 * (?i - (hi - lo))" by linarith
    with day_loop_ends [OF z d iv that(1,4) _ this, of 0 after] up that(2) i(3) show ?thesis
      by (auto simp: DAY_SCHEDULE_FINAL_LOOP_GUARD_def)
  qed
  have eq: "advanceDaySchedule E start iv tz after = (if ?k > 0 then (case addCalendarDays E start (?k * int (iv_value iv)) tz of
      Inl x \<Rightarrow> Inl x | Inr t \<Rightarrow> day_loop E iv tz after 0 t) else day_loop E iv tz after 0 start)"
    using le i(2) by (simp add: advanceDaySchedule_def Let_def)
  show ?thesis
  proof (cases "?k > 0")
    case False
    with c(1) have "?k = 0" by simp
    with c(2) le have b: "after < start + 9 * ?i" by (simp add: algebra_simps)
    have "inside (start - DAY_MS)" using s up le i(1) unfolding inside_iff i(3) day_ms by linarith
    from loop [OF this le _ w] b sp False show ?thesis by (simp add: eq i(3))
  next
    case True
    define x where "x = ?k * ?i"
    have k: "?k * int (iv_value iv) * DAY_MS = x" by (simp add: x_def algebra_simps)
    from c(3) [OF True] have u: "start + x + 8 * ?i \<le> after" by (simp add: x_def algebra_simps)
    have p: "0 \<le> x" using True i(2) by (simp add: x_def)
    have q: "after < start + x + 9 * ?i" using c(2) by (simp add: x_def algebra_simps)
    have o: "ordinary start" using s up le i(1) unfolding inside_iff ordinary_iff i(3) day_ms by linarith
    have "inside (start + x - DAY_MS)" "inside (start + x + DAY_MS)"
      using s up u p i(1) unfolding inside_iff i(3) day_ms by linarith+
    with day_step [OF z o w, of "?k * int (iv_value iv)"] obtain r where
      r: "addCalendarDays E start (?k * int (iv_value iv)) tz = Inr r" "\<bar>r - (start + x)\<bar> \<le> hi - lo" "whole r"
      unfolding k by blast
    have "inside (r - DAY_MS)" using s up u p i(1) r(2) d unfolding inside_iff i(3) day_ms abs_le_iff by linarith
    moreover have "r \<le> after" using u r(2) d i(1) unfolding day_ms abs_le_iff by linarith
    moreover have "after < r + 9 * ?i + (hi - lo)" using q r(2) unfolding abs_le_iff by linarith
    ultimately have "\<exists>q. day_loop E iv tz after 0 r = Inr q \<and> after < q \<and> q \<le> after + ?i + (hi - lo)" by (rule loop) (rule r(3))
    with True r(1) show ?thesis by (simp add: eq i(3))
  qed
qed

lemma duration_next:
  assumes "0 < i" "start \<le> after" "inside (after + i)" "inside start"
  shows "\<exists>k. 0 \<le> k \<and> advanceDurationSchedule start i after = Inr (start + k * i) \<and> after < start + k * i \<and> start + k * i \<le> after + i"
proof -
  let ?k = "(after - start) div i + 1"
  have b: "i * ((after - start) div i) \<le> after - start" "after - start < i * ((after - start) div i) + i" using div_bounds [OF assms(1)] by auto
  then have r: "after < start + ?k * i" "start + ?k * i \<le> after + i" by (simp_all add: algebra_simps)
  have "ordinary (start + ?k * i)" using r assms(2,3,4) by (auto simp: inside_def ordinary_def)
  then have "advanceDurationSchedule start i after = Inr (start + ?k * i)"
    using assms(1,2) ordinary_small by (simp add: advanceDurationSchedule_def valid_time_def)
  moreover have "0 \<le> ?k" using assms(1,2) by (simp add: pos_imp_zdiv_nonneg_iff)
  ultimately show ?thesis using r by blast
qed

section \<open>Steps of one length\<close>

lemma chain_loop:
  assumes "iv_unit iv = UnitDays" "0 < i"
    and "\<And>j. j \<le> n \<Longrightarrow> addCalendarDays E (t + int j * i) (int (iv_value iv)) tz = Inr (t + int (Suc j) * i)"
    and "t + int n * i \<le> after" "after < t + int (Suc n) * i" "g + n < DAY_SCHEDULE_FINAL_LOOP_GUARD"
  shows "day_loop E iv tz after g t = Inr (t + int (Suc n) * i)"
  using assms(3-)
proof (induction n arbitrary: g t)
  case 0
  from "0.prems"(1) [of 0] have "addCalendarDays E t (int (iv_value iv)) tz = Inr (t + i)" by simp
  with "0.prems" assms(1) have "day_loop E iv tz after g t = day_loop E iv tz after (Suc g) (t + i)" by (intro day_loop_step) auto
  with "0.prems" show ?case by (simp add: day_loop_done)
next
  case (Suc n)
  have "0 \<le> int n * i" using assms(2) by simp
  moreover have "t + i + int n * i \<le> after" using Suc.prems(2) by (simp add: algebra_simps)
  ultimately have le: "t + i \<le> after" by linarith
  from Suc.prems(1) [of 0] have "addCalendarDays E t (int (iv_value iv)) tz = Inr (t + i)" by simp
  then have "day_loop E iv tz after g t = day_loop E iv tz after (Suc g) (t + i)"
    by (rule day_loop_step [rotated 2]) (use Suc.prems(4) assms(1,2) le in auto)
  also have "\<dots> = Inr (t + i + int (Suc n) * i)"
  proof (rule Suc.IH)
    show "addCalendarDays E (t + i + int j * i) (int (iv_value iv)) tz = Inr (t + i + int (Suc j) * i)" if "j \<le> n" for j
      using Suc.prems(1) [of "Suc j"] that by (simp add: algebra_simps)
  qed (use Suc.prems in \<open>simp_all add: algebra_simps\<close>)
  finally show ?case by (simp add: algebra_simps)
qed

section \<open>Zones without changes\<close>

lemma still_step:
  assumes z: "zone_law E tz c c" and t: "whole t" "inside t" "inside (t + k * DAY_MS - DAY_MS)" "inside (t + k * DAY_MS + DAY_MS)"
  shows "addCalendarDays E t k tz = Inr (t + k * DAY_MS)"
proof -
  have "ordinary t" using t(2) by (rule insideD) simp
  from day_step [OF z this t(1,3,4)] show ?thesis by simp
qed

lemma still_schedule:
  assumes z: "zone_law E tz c c" and iv: "iv_unit iv = UnitDays" "0 < iv_value iv"
    and s: "inside (start - 3 * DAY_MS)" "whole start" and up: "inside (after + interval_ms iv + 2 * DAY_MS)" and le: "start \<le> after"
  shows "advanceDaySchedule E start iv tz after = advanceDurationSchedule start (interval_ms iv) after"
proof -
  define i where "i = int (iv_value iv) * DAY_MS"
  have i: "DAY_MS \<le> i" "0 < i" "interval_ms iv = i" using iv by (simp_all add: interval_ms_def i_def)
  define k where "k = coarse_intervals (after - start) i"
  have e: "0 \<le> after - start" using le by simp
  note c = coarse_bounds [OF i(2) e, folded k_def]
  define m where "m = (after - start) div i"
  have b: "start + m * i \<le> after" "after < start + (m + 1) * i" using div_bounds [OF i(2), of "after - start"]
    by (simp_all add: m_def algebra_simps)
  have mk: "0 \<le> m - k" "m - k \<le> 8" using e i(2) by (auto simp: m_def k_def coarse_intervals_def DAY_SCHEDULE_COARSE_LOOKBACK_INTERVALS_def pos_imp_zdiv_nonneg_iff)
  have step: "addCalendarDays E t (r * int (iv_value iv)) tz = Inr (t + r * i)"
    if "start \<le> t" "0 \<le> r" "t + r * i \<le> after + i" "whole t" for t r
  proof -
    have "0 \<le> r * i" using that(2) i(2) by simp
    then have "inside t" "inside (t + r * i - DAY_MS)" "inside (t + r * i + DAY_MS)"
      using s(1) up that(1,3) i(1) unfolding inside_iff i(3) day_ms by linarith+
    moreover have "r * int (iv_value iv) * DAY_MS = r * i" by (simp add: i_def)
    ultimately show ?thesis using still_step [OF z that(4), of "r * int (iv_value iv)"] by (simp only:)
  qed
  have whole: "whole (start + r * i)" for r
  proof -
    have "r * i = (r * int (iv_value iv)) * DAY_MS" by (simp add: i_def)
    then show ?thesis using whole_days [of "r * int (iv_value iv)"] s(2) by (simp only: whole_add)
  qed
  have tk: "start + k * i + int (nat (m - k)) * i = start + m * i" "start + k * i + int (Suc (nat (m - k))) * i = start + (m + 1) * i"
    using mk by (simp_all add: algebra_simps)
  have loop: "day_loop E iv tz after 0 (start + k * i) = Inr (start + (m + 1) * i)"
    unfolding tk(2) [symmetric]
  proof (rule chain_loop [OF iv(1) i(2)])
    fix j assume "j \<le> nat (m - k)"
    then have "k + int j \<le> m" using mk by simp
    then have "(k + int j) * i \<le> m * i" using i(2) by simp
    with b(1) have "start + k * i + int j * i + i \<le> after + i" by (simp add: algebra_simps)
    moreover have "start \<le> start + k * i + int j * i" using c(1) i(2) by simp
    moreover have "whole (start + k * i + int j * i)" using whole [of "k + int j"] by (simp add: algebra_simps)
    ultimately show "addCalendarDays E (start + k * i + int j * i) (int (iv_value iv)) tz = Inr (start + k * i + int (Suc j) * i)"
      using step [of "start + k * i + int j * i" 1] by (simp add: algebra_simps)
  next
    show "start + k * i + int (nat (m - k)) * i \<le> after" unfolding tk using b by simp
    show "after < start + k * i + int (Suc (nat (m - k))) * i" unfolding tk using b by simp
    show "0 + nat (m - k) < DAY_SCHEDULE_FINAL_LOOP_GUARD" using mk by (simp add: DAY_SCHEDULE_FINAL_LOOP_GUARD_def)
  qed
  have "advanceDaySchedule E start iv tz after = Inr (start + (m + 1) * i)"
  proof (cases "0 < k")
    case True
    have "k * i \<le> m * i" using mk i(2) by simp
    with b(1) i(2) have "start + k * i \<le> after + i" by linarith
    with step [of start k] s(2) c(1) have "addCalendarDays E start (k * int (iv_value iv)) tz = Inr (start + k * i)" by simp
    with True loop le i(2) show ?thesis by (simp add: advanceDaySchedule_def Let_def flip: i_def k_def del: day_ms)
  next
    case False
    with c(1) have "k = 0" by simp
    with loop le i(2) show ?thesis by (simp add: advanceDaySchedule_def Let_def flip: i_def k_def del: day_ms)
  qed
  also have "\<dots> = advanceDurationSchedule start i after"
  proof -
    have "start + (m + 1) * i \<le> after + i" "start \<le> start + (m + 1) * i" using b i(2) e by (simp_all add: algebra_simps m_def pos_imp_zdiv_nonneg_iff)
    then have "ordinary (start + (m + 1) * i)" using s(1) up i(1) unfolding inside_iff ordinary_iff i(3) day_ms by linarith
    then show ?thesis using le i(2) ordinary_small by (simp add: advanceDurationSchedule_def valid_time_def m_def)
  qed
  finally show ?thesis by (simp add: i(3))
qed


section \<open>A gap of the local time\<close>

text \<open>A zone whose clock goes forward once, at \<open>T\<close>, by \<open>g\<close>.\<close>

definition forward_once :: "zone_env \<Rightarrow> string \<Rightarrow> instant \<Rightarrow> int \<Rightarrow> int \<Rightarrow> bool" where
  "forward_once E tz T c g \<longleftrightarrow> ze_valid E tz \<and> 0 \<le> c \<and> 0 < g \<and> c + g \<le> DAY_MS
     \<and> (\<forall>t. ordinary t \<longrightarrow> whole t \<longrightarrow> wall_offset E tz t = (if t < T then c else c + g))"

lemma forward_law: "forward_once E tz T c g \<Longrightarrow> zone_law E tz c (c + g)"
  by (auto simp: forward_once_def zone_law_def)

lemma forward_offset: "forward_once E tz T c g \<Longrightarrow> ordinary t \<Longrightarrow> whole t \<Longrightarrow> wall_offset E tz t = (if t < T then c else c + g)"
  by (simp add: forward_once_def)

lemma gap_step:
  assumes f: "forward_once E tz T c g" and t: "whole t" "inside t" "inside (t + 3 * DAY_MS)" and g: "g \<le> DAY_MS"
    and n: "T \<le> t \<or> t + DAY_MS < T + g"
  shows "addCalendarDays E t 1 tz = Inr (t + DAY_MS)"
proof -
  let ?w = "wall_offset E tz"
  have cg: "0 \<le> c" "0 < g" "c + g \<le> DAY_MS" using f by (simp_all add: forward_once_def)
  have o: "ordinary t" using t(2) by (rule insideD) simp
  define l where "l = t + ?w t + DAY_MS"
  have wt: "?w t = (if t < T then c else c + g)" by (rule forward_offset [OF f o t(1)])
  have wl: "whole l" using whole_days [of 1] t(1) by (simp add: l_def whole_add wall_whole)
  have il: "inside l" using t cg wt unfolding inside_iff l_def day_ms by (simp split: if_splits)
  have ol: "ordinary l" using il by (rule insideD) simp
  have wl': "?w l = (if l < T then c else c + g)" by (rule forward_offset [OF f ol wl])
  have w2: "whole (l - ?w l)" using wl by (simp add: whole_diff wall_whole)
  have "ordinary (l - ?w l)" using il by (rule insideD) (use cg wl' in auto)
  from forward_offset [OF f this w2] have wv: "?w (l - ?w l) = (if l - ?w l < T then c else c + g)" .
  have "l - ?w (l - ?w l) = t + DAY_MS"
  proof (cases "t < T")
    case True
    then have l: "l = t + c + DAY_MS" using wt by (simp add: l_def)
    have "l - ?w l < T"
    proof (cases "l < T")
      case True
      then show ?thesis using wl' l cg by simp
    next
      case False
      then show ?thesis using wl' l cg n \<open>t < T\<close> by simp
    qed
    then show ?thesis using wv l by simp
  next
    case False
    then have l: "l = t + (c + g) + DAY_MS" using wt by (simp add: l_def)
    then have "\<not> l < T" using False cg by simp
    then have w: "?w l = c + g" using wl' by simp
    then have "\<not> l - ?w l < T" using False l by simp
    then show ?thesis using wv l w by simp
  qed
  moreover have "addCalendarDays E t 1 tz = Inr (local_instant E tz (t + ?w t + 1 * DAY_MS))"
    by (rule add_days [OF forward_law [OF f]]) (use il in \<open>simp add: l_def\<close>)
  ultimately show ?thesis by (simp add: local_instant_def l_def)
qed


lemma gap_days:
  assumes f: "forward_once E tz T c g" and t: "whole s" "inside s" "inside (s + 12 * DAY_MS)" and g: "g \<le> DAY_MS"
    and n: "T \<le> s + n * DAY_MS" "s + n * DAY_MS < T + g" "0 \<le> n" and j: "j \<le> 8"
  shows "addCalendarDays E (s + int j * DAY_MS) 1 tz = Inr (s + int (Suc j) * DAY_MS)"
proof -
  have "addCalendarDays E (s + int j * DAY_MS) 1 tz = Inr (s + int j * DAY_MS + DAY_MS)"
  proof (rule gap_step [OF f _ _ _ g])
    show "whole (s + int j * DAY_MS)" by (rule whole_add [OF t(1) whole_days])
    show "inside (s + int j * DAY_MS)" "inside (s + int j * DAY_MS + 3 * DAY_MS)"
      using t(2,3) j unfolding inside_iff by simp_all
    show "T \<le> s + int j * DAY_MS \<or> s + int j * DAY_MS + DAY_MS < T + g"
    proof (cases "n \<le> int j")
      case True
      then have "n * DAY_MS \<le> int j * DAY_MS" by simp
      with n(1) show ?thesis by linarith
    next
      case False
      then have "(int j + 1) * DAY_MS \<le> n * DAY_MS" by simp
      with n(2) show ?thesis by (simp add: algebra_simps)
    qed
  qed
  then show ?thesis by (simp add: algebra_simps)
qed

section \<open>Zones given by their offset\<close>

definition zone_of :: "(instant \<Rightarrow> int) \<Rightarrow> zone_env" where
  "zone_of f = \<lparr>ze_valid = (\<lambda>_. True), ze_parts = (\<lambda>_ t. utc_parts (1000 * (t div 1000) + f t)), ze_parse = (\<lambda>_. None)\<rparr>"

lemma zone_of_offset:
  assumes "ordinary t" "whole t" "\<bar>f t\<bar> \<le> DAY_MS" "whole (f t)"
  shows "wall_offset (zone_of f) tz t = f t"
proof -
  have t: "1000 * (t div 1000) = t" using assms(2) by (auto simp: whole_def)
  have "whole (t + f t)" using assms(2,4) by (rule whole_add)
  moreover have "- 400000 * DAY_MS \<le> t + f t" using assms(1,3) unfolding ordinary_iff day_ms by linarith
  ultimately have "time_value (utc_parts (t + f t)) = t + f t" by (intro time_value_utc_parts) (auto simp: whole_def)
  then show ?thesis by (simp add: wall_offset_def zone_of_def t)
qed

text \<open>One hour is skipped at \<open>T\<close>.\<close>

definition summer :: "instant \<Rightarrow> instant \<Rightarrow> int" where
  "summer T t = (if t < T then 0 else HOUR_MS)"

lemma summer_forward: "forward_once (zone_of (summer T)) tz T 0 HOUR_MS"
proof -
  have "wall_offset (zone_of (summer T)) tz t = summer T t" if "ordinary t" "whole t" for t
    using that by (rule zone_of_offset) (auto simp: summer_def whole_def)
  then show ?thesis by (simp add: forward_once_def zone_of_def summer_def)
qed

lemma still_law: "zone_law (zone_of (\<lambda>_. 0)) tz 0 0"
proof -
  have "wall_offset (zone_of (\<lambda>_. 0)) tz t = 0" if "ordinary t" "whole t" for t
    using that by (rule zone_of_offset) (auto simp: whole_def)
  then show ?thesis by (simp add: zone_law_def zone_of_def)
qed

definition sample_schedule :: "nat \<Rightarrow> interval_unit \<Rightarrow> agent_schedule" where
  "sample_schedule v u = \<lparr>sc_startAtLocal = ''1970-01-05T02:30'', sc_timezone = ''Z'',
     sc_interval = \<lparr>iv_value = v, iv_unit = u\<rparr>, sc_nextRunAt = 0\<rparr>"

lemma sample_start:
  "localDateTimeToUtc (zone_of (\<lambda>_. 0)) (sc_startAtLocal (sample_schedule v u)) (sc_timezone (sample_schedule v u)) = Inr 354600000"
  "localDateTimeToUtc (zone_of (summer 700000000)) (sc_startAtLocal (sample_schedule v u)) (sc_timezone (sample_schedule v u)) = Inr 354600000"
  unfolding sample_schedule_def by (simp_all, code_simp+)

section \<open>Properties\<close>



text \<open>
  C39. In a zone whose offset does not change, an interval of n days is an interval of 24 n hours: the coarse step and
  the loop over calendar days give the instant that the division of the duration schedule gives.
\<close>

theorem day_schedule_is_duration:
  assumes "zone_law E (sc_timezone sc) c c" "sc_interval sc = \<lparr>iv_value = n, iv_unit = UnitDays\<rparr>" "0 < n"
    and "localDateTimeToUtc E (sc_startAtLocal sc) (sc_timezone sc) = Inr start" "inside (start - 3 * DAY_MS)"
    and "inside (after + int n * DAY_MS + 2 * DAY_MS)" "start \<le> after"
  shows "calculateNextRunAt E sc after
    = calculateNextRunAt E (sc\<lparr>sc_interval := \<lparr>iv_value = 24 * n, iv_unit = UnitHours\<rparr>\<rparr>) after"
proof -
  have "whole start" using assms(4) by (rule local_start_whole)
  from still_schedule [OF assms(1) _ _ assms(5) this _ assms(7), of "sc_interval sc"] show ?thesis
    using assms by (simp add: calculateNextRunAt_def interval_ms_def mult.commute [of "int n"])
qed

theorem day_schedule_is_duration_witness:
  "calculateNextRunAt (zone_of (\<lambda>_. 0)) (sample_schedule 2 UnitDays) 1700000000000
    = calculateNextRunAt (zone_of (\<lambda>_. 0)) ((sample_schedule 2 UnitDays)\<lparr>sc_interval := \<lparr>iv_value = 24 * 2, iv_unit = UnitHours\<rparr>\<rparr>) 1700000000000"
  by (rule day_schedule_is_duration [OF still_law _ _ sample_start(1)])
    (simp_all add: sample_schedule_def inside_iff interval_ms_def)



end
