(* ===== verification/TranscriptIndex.thy ===== *)
theory TranscriptIndex
  imports Prelude
begin

text \<open>
  The in-memory collection of a live transcript (\<open>core/transcript-memory-index.ts\<close>): an array, or a ring buffer of a
  fixed capacity with a map from ids to slots. It refines a list without repeated ids that drops its first element
  when it is full. The id of an entry is read by a function, as the class is generic over entries with an id.
\<close>

record 'a memory_index =
  mi_capacity :: "nat option"
  mi_entries :: "'a list"
  mi_storage :: "'a option list"
  mi_indexes :: "(ident, nat) amap"
  mi_start :: nat
  mi_size :: nat

definition slot :: "'a option list \<Rightarrow> nat \<Rightarrow> 'a option" where
  "slot xs i = (if i < length xs then xs ! i else None)"

fun number_entries :: "('a \<Rightarrow> ident) \<Rightarrow> 'a list \<Rightarrow> nat \<Rightarrow> (ident, nat) amap \<Rightarrow> (ident, nat) amap" where
  "number_entries key [] i m = m"
| "number_entries key (x # xs) i m = number_entries key xs (Suc i) (amap_set m (key x) i)"

definition index_new :: "('a \<Rightarrow> ident) \<Rightarrow> 'a list \<Rightarrow> nat option \<Rightarrow> 'a memory_index" where
  "index_new key entries maxEntries = (case maxEntries of
       None \<Rightarrow> \<lparr>mi_capacity = None, mi_entries = entries, mi_storage = [], mi_indexes = number_entries key entries 0 [],
         mi_start = 0, mi_size = 0\<rparr>
     | Some c \<Rightarrow> (let initial = drop (length entries - c) entries in
         \<lparr>mi_capacity = Some c, mi_entries = [], mi_storage = map Some initial @ replicate (c - length initial) None,
          mi_indexes = number_entries key initial 0 [], mi_start = 0, mi_size = length initial\<rparr>))"

definition index_get :: "'a memory_index \<Rightarrow> ident \<Rightarrow> 'a option" where
  "index_get m i = (case amap_get (mi_indexes m) i of None \<Rightarrow> None
     | Some j \<Rightarrow> if mi_capacity m = None then (if j < length (mi_entries m) then Some (mi_entries m ! j) else None)
         else slot (mi_storage m) j)"

definition index_has :: "'a memory_index \<Rightarrow> ident \<Rightarrow> bool" where
  "index_has m i = amap_has (mi_indexes m) i"

definition getAt :: "'a memory_index \<Rightarrow> nat \<Rightarrow> 'a option" where
  "getAt m i = (case mi_capacity m of None \<Rightarrow> None
     | Some c \<Rightarrow> if i \<ge> mi_size m then None else slot (mi_storage m) ((mi_start m + i) mod c))"

definition index_values :: "'a memory_index \<Rightarrow> 'a list" where
  "index_values m = (if mi_capacity m = None then mi_entries m else List.map_filter (getAt m) [0..<mi_size m])"

definition push_entry :: "('a \<Rightarrow> ident) \<Rightarrow> 'a \<Rightarrow> 'a memory_index \<Rightarrow> 'a list \<times> 'a memory_index" where
  "push_entry key e m = (case mi_capacity m of
       None \<Rightarrow> ([], m\<lparr>mi_entries := mi_entries m @ [e], mi_indexes := amap_set (mi_indexes m) (key e) (length (mi_entries m))\<rparr>)
     | Some c \<Rightarrow>
         if c = 0 then ([e], m)
         else if mi_size m < c then (let i = (mi_start m + mi_size m) mod c in
           ([], m\<lparr>mi_storage := (mi_storage m)[i := Some e], mi_indexes := amap_set (mi_indexes m) (key e) i, mi_size := mi_size m + 1\<rparr>))
         else (case slot (mi_storage m) (mi_start m) of None \<Rightarrow> ([], m)
           | Some removed \<Rightarrow> ([removed], m\<lparr>mi_storage := (mi_storage m)[mi_start m := Some e],
               mi_indexes := amap_set (amap_delete (mi_indexes m) (key removed)) (key e) (mi_start m),
               mi_start := (mi_start m + 1) mod c\<rparr>)))"

text \<open>\<open>upsert\<close>: the evicted entries, whether the entry is new, and the collection.\<close>

definition index_upsert :: "('a \<Rightarrow> ident) \<Rightarrow> 'a \<Rightarrow> 'a memory_index \<Rightarrow> 'a list \<times> bool \<times> 'a memory_index" where
  "index_upsert key e m = (case Option.bind (amap_get (mi_indexes m) (key e)) (\<lambda>j. map_option (Pair j) (index_get m (key e))) of
       Some (j, x) \<Rightarrow> if key x = key e
         then ([], False, if mi_capacity m = None then m\<lparr>mi_entries := (mi_entries m)[j := e]\<rparr> else m\<lparr>mi_storage := (mi_storage m)[j := Some e]\<rparr>)
         else (let (evicted, m') = push_entry key e m in (evicted, True, m'))
     | None \<Rightarrow> (let (evicted, m') = push_entry key e m in (evicted, True, m')))"

section \<open>The list it stands for\<close>

definition list_upsert :: "('a \<Rightarrow> ident) \<Rightarrow> nat option \<Rightarrow> 'a \<Rightarrow> 'a list \<Rightarrow> 'a list \<times> bool \<times> 'a list" where
  "list_upsert key cap e xs =
     (if key e \<in> key ` set xs then ([], False, map (\<lambda>x. if key x = key e then e else x) xs)
      else if cap = Some 0 then ([e], True, xs)
      else if cap = Some (length xs) then ([hd xs], True, tl xs @ [e])
      else ([], True, xs @ [e]))"

text \<open>The list of a ring: when it is not full it starts at the first slot.\<close>

definition ring_list :: "'a memory_index \<Rightarrow> nat \<Rightarrow> 'a option list" where
  "ring_list m c = (if mi_size m < c then take (mi_size m) (mi_storage m) else drop (mi_start m) (mi_storage m) @ take (mi_start m) (mi_storage m))"

definition ring_shape :: "'a memory_index \<Rightarrow> nat \<Rightarrow> bool" where
  "ring_shape m c \<longleftrightarrow> mi_capacity m = Some c \<and> length (mi_storage m) = c \<and> mi_size m \<le> c \<and> (mi_size m < c \<longrightarrow> mi_start m = 0)
     \<and> (0 < c \<longrightarrow> mi_start m < c) \<and> (c = 0 \<longrightarrow> mi_start m = 0) \<and> None \<notin> set (ring_list m c)"

definition ring_indexed :: "('a \<Rightarrow> ident) \<Rightarrow> 'a memory_index \<Rightarrow> nat \<Rightarrow> bool" where
  "ring_indexed key m c \<longleftrightarrow> (\<forall>i j. amap_get (mi_indexes m) i = Some j
     \<longleftrightarrow> (mi_size m < c \<longrightarrow> j < mi_size m) \<and> (\<exists>x. slot (mi_storage m) j = Some x \<and> key x = i))"

definition index_ok :: "('a \<Rightarrow> ident) \<Rightarrow> 'a memory_index \<Rightarrow> bool" where
  "index_ok key m \<longleftrightarrow> distinct (map key (index_values m)) \<and> (case mi_capacity m of
       None \<Rightarrow> (\<forall>i j. amap_get (mi_indexes m) i = Some j \<longleftrightarrow> j < length (mi_entries m) \<and> key (mi_entries m ! j) = i)
     | Some c \<Rightarrow> ring_shape m c \<and> ring_indexed key m c)"

lemma map_filter_the: "List.map_filter f xs = map (the \<circ> f) (filter (\<lambda>x. f x \<noteq> None) xs)"
  by (induction xs) (auto simp: List.map_filter_simps split: option.splits)

lemma ring_length:
  assumes "ring_shape m c"
  shows "length (ring_list m c) = mi_size m"
  using assms by (auto simp: ring_shape_def ring_list_def)

lemma getAt_ring:
  assumes ok: "ring_shape m c" and i: "i < mi_size m"
  shows "getAt m i = ring_list m c ! i" "getAt m i \<noteq> None"
proof -
  have w: "mi_capacity m = Some c" "length (mi_storage m) = c" "mi_size m \<le> c" "mi_size m < c \<longrightarrow> mi_start m = 0" "0 < c \<longrightarrow> mi_start m < c" "None \<notin> set (ring_list m c)"
    using ok by (auto simp: ring_shape_def)
  have cp: "0 < c" using w(3) i by simp
  show g: "getAt m i = ring_list m c ! i"
  proof (cases "mi_size m < c")
    case True
    then have "(mi_start m + i) mod c = i" using w i by simp
    then show ?thesis using True i w by (simp add: getAt_def slot_def ring_list_def)
  next
    case False
    then have sz: "mi_size m = c" using w by simp
    show ?thesis
    proof (cases "mi_start m + i < c")
      case True
      then have "i < c - mi_start m" by simp
      with True show ?thesis using w i sz by (simp add: getAt_def slot_def ring_list_def nth_append)
    next
      case f: False
      have "(mi_start m + i) mod c = mi_start m + i - c"
        using f w(5) cp i sz by (simp add: mod_if not_less le_mod_geq)
      moreover have "ring_list m c ! i = mi_storage m ! (mi_start m + i - c)"
      proof -
        have "\<not> i < c - mi_start m" using f by linarith
        then show ?thesis using f w(1,2,5) cp i sz by (simp add: ring_list_def nth_append not_less add.commute)
      qed
      moreover have "mi_start m + i - c < c" using w(5) cp i sz by linarith
      ultimately show ?thesis using i sz w(1,2) by (simp add: getAt_def slot_def)
    qed
  qed
  have "ring_list m c ! i \<in> set (ring_list m c)" using i ring_length [OF ok] by simp
  with g w(6) show "getAt m i \<noteq> None" by metis
qed

lemma index_values_ring:
  assumes "ring_shape m c"
  shows "map Some (index_values m) = ring_list m c" "length (index_values m) = mi_size m"
proof -
  have "filter (\<lambda>i. getAt m i \<noteq> None) [0..<mi_size m] = [0..<mi_size m]"
    using getAt_ring(2) [OF assms] by simp
  then have v: "index_values m = map (the \<circ> getAt m) [0..<mi_size m]" using assms by (simp add: ring_shape_def index_values_def map_filter_the)
  then show "length (index_values m) = mi_size m" by simp
  show "map Some (index_values m) = ring_list m c"
  proof (rule nth_equalityI)
    show "length (map Some (index_values m)) = length (ring_list m c)" using v ring_length [OF assms] by simp
    fix i assume "i < length (map Some (index_values m))"
    then have "i < mi_size m" using v by simp
    with getAt_ring [OF assms this] v show "map Some (index_values m) ! i = ring_list m c ! i" by simp
  qed
qed

lemma in_set_slot: "Some x \<in> set xs \<longleftrightarrow> (\<exists>j. slot xs j = Some x)"
  by (auto simp: slot_def in_set_conv_nth)

lemma slot_take: "slot (take n xs) j = (if j < n then slot xs j else None)"
  by (simp add: slot_def)

lemma set_rotated: "set (drop s xs @ take s xs) = set xs"
  using set_append [of "take s xs" "drop s xs"] by auto

lemma in_values:
  assumes ok: "index_ok key m" and c: "mi_capacity m = Some c"
  shows "x \<in> set (index_values m) \<longleftrightarrow> (\<exists>j. (mi_size m < c \<longrightarrow> j < mi_size m) \<and> slot (mi_storage m) j = Some x)"
proof -
  have r: "ring_shape m c" using ok c by (simp add: index_ok_def)
  have "x \<in> set (index_values m) \<longleftrightarrow> Some x \<in> set (map Some (index_values m))" by auto
  also have "\<dots> \<longleftrightarrow> Some x \<in> set (ring_list m c)" by (simp only: index_values_ring(1) [OF r])
  also have "\<dots> \<longleftrightarrow> (\<exists>j. (mi_size m < c \<longrightarrow> j < mi_size m) \<and> slot (mi_storage m) j = Some x)"
  proof (cases "mi_size m < c")
    case True
    then show ?thesis by (auto simp: ring_list_def in_set_slot slot_take)
  next
    case False
    then show ?thesis by (simp only: ring_list_def if_False set_rotated in_set_slot) simp
  qed
  finally show ?thesis .
qed

lemma find_key: "distinct (map key xs) \<Longrightarrow> x \<in> set xs \<Longrightarrow> find (\<lambda>y. key y = key x) xs = Some x"
  by (induction xs) (auto simp: image_iff)

text \<open>\<open>get\<close> finds the entry of an id, and \<open>has\<close> tells whether there is one.\<close>

lemma index_entry:
  assumes ok: "index_ok key m"
  shows "amap_get (mi_indexes m) i = None \<longleftrightarrow> i \<notin> key ` set (index_values m)"
    "amap_get (mi_indexes m) i = Some j \<Longrightarrow> \<exists>x \<in> set (index_values m). index_get m i = Some x \<and> key x = i"
proof -
  show s: "\<exists>x \<in> set (index_values m). index_get m i = Some x \<and> key x = i" if "amap_get (mi_indexes m) i = Some j" for j
  proof (cases "mi_capacity m")
    case None
    with ok that have "j < length (mi_entries m) \<and> key (mi_entries m ! j) = i" by (auto simp: index_ok_def)
    with None that show ?thesis by (simp add: index_get_def index_values_def)
  next
    case (Some c)
    with ok that obtain x where "mi_size m < c \<longrightarrow> j < mi_size m" "slot (mi_storage m) j = Some x" "key x = i" by (auto simp: index_ok_def ring_indexed_def)
    then have "x \<in> set (index_values m)" using in_values [OF ok Some] by blast
    with Some that \<open>slot (mi_storage m) j = Some x\<close> \<open>key x = i\<close> show ?thesis by (simp add: index_get_def)
  qed
  show "amap_get (mi_indexes m) i = None \<longleftrightarrow> i \<notin> key ` set (index_values m)"
  proof
    assume n: "amap_get (mi_indexes m) i = None"
    show "i \<notin> key ` set (index_values m)"
    proof (cases "mi_capacity m")
      case None
      have l: "amap_get (mi_indexes m) i' = Some j \<longleftrightarrow> j < length (mi_entries m) \<and> key (mi_entries m ! j) = i'" for i' j
        using ok None unfolding index_ok_def by simp
      show ?thesis
      proof
        assume "i \<in> key ` set (index_values m)"
        then obtain j where "j < length (mi_entries m)" "i = key (mi_entries m ! j)" using None by (auto simp: index_values_def in_set_conv_nth)
        with l [of i j] n show False by simp
      qed
    next
      case (Some c)
      have l: "amap_get (mi_indexes m) i' = Some j \<longleftrightarrow> (mi_size m < c \<longrightarrow> j < mi_size m) \<and> (\<exists>x. slot (mi_storage m) j = Some x \<and> key x = i')" for i' j
        using ok Some by (simp add: index_ok_def ring_indexed_def)
      show ?thesis
      proof
        assume "i \<in> key ` set (index_values m)"
        then obtain x where "x \<in> set (index_values m)" "i = key x" by blast
        then obtain j where "(mi_size m < c \<longrightarrow> j < mi_size m) \<and> slot (mi_storage m) j = Some x" using in_values [OF ok Some] by blast
        with l [of i j] n \<open>i = key x\<close> show False by simp
      qed
    qed
  next
    assume "i \<notin> key ` set (index_values m)"
    with s show "amap_get (mi_indexes m) i = None" by (cases "amap_get (mi_indexes m) i") blast+
  qed
qed

lemma index_get_find:
  assumes "index_ok key m"
  shows "index_get m i = find (\<lambda>x. key x = i) (index_values m)"
proof (cases "amap_get (mi_indexes m) i")
  case None
  with index_entry(1) [OF assms] have "find (\<lambda>x. key x = i) (index_values m) = None" by (auto simp: find_None_iff)
  with None show ?thesis by (simp add: index_get_def)
next
  case (Some j)
  from index_entry(2) [OF assms this] obtain x where "x \<in> set (index_values m)" "index_get m i = Some x" "key x = i" by blast
  with find_key [of key "index_values m" x] assms show ?thesis by (simp add: index_ok_def)
qed

lemma index_has_iff: "index_ok key m \<Longrightarrow> index_has m i \<longleftrightarrow> i \<in> key ` set (index_values m)"
  using index_entry(1) [of key m i] by (auto simp: index_has_def amap_has_iff)

section \<open>Inserting refines the list\<close>

text \<open>Replacing the entry in the slot its id is mapped to is replacing it in the list.\<close>

lemma update_slots:
  assumes "\<And>i. i < length xs \<Longrightarrow> xs ! i \<noteq> None" "j < length xs"
    and "\<And>i x. i < length xs \<Longrightarrow> xs ! i = Some x \<Longrightarrow> key x = key e \<longleftrightarrow> i = j"
  shows "xs[j := Some e] = map (map_option (\<lambda>x. if key x = key e then e else x)) xs"
proof (rule nth_equalityI)
  fix i assume "i < length (xs[j := Some e])"
  then have "i < length xs" by simp
  moreover obtain x where "xs ! i = Some x" using assms(1) [OF \<open>i < length xs\<close>] by blast
  ultimately show "xs[j := Some e] ! i = map (map_option (\<lambda>x. if key x = key e then e else x)) xs ! i"
    using assms(2) assms(3) [of i x] by (cases "i = j") simp_all
qed simp

lemma map_key_update: "map key (map (\<lambda>x. if key x = key e then e else x) xs) = map key xs"
  by (induction xs) auto

lemma ring_replace:
  assumes sh: "ring_shape m c" and ix: "ring_indexed key m c" and j: "amap_get (mi_indexes m) (key e) = Some j"
  defines "m' \<equiv> m\<lparr>mi_storage := (mi_storage m)[j := Some e]\<rparr>"
  shows "ring_list m' c = map (map_option (\<lambda>x. if key x = key e then e else x)) (ring_list m c)"
proof -
  let ?f = "map_option (\<lambda>x. if key x = key e then e else x)"
  have w: "length (mi_storage m) = c" "mi_size m \<le> c" "None \<notin> set (ring_list m c)" using sh by (auto simp: ring_shape_def)
  have l: "amap_get (mi_indexes m) i = Some j \<longleftrightarrow> (mi_size m < c \<longrightarrow> j < mi_size m) \<and> (\<exists>x. slot (mi_storage m) j = Some x \<and> key x = i)" for i j
    using ix by (simp add: ring_indexed_def)
  have u: "key x = key e \<longleftrightarrow> i = j" if "mi_size m < c \<longrightarrow> i < mi_size m" "slot (mi_storage m) i = Some x" for i x
    using l [of "key e" i] l [of "key e" j] j that by auto
  have js: "j < c" using l [of "key e" j] j w(1) by (auto simp: slot_def split: if_splits)
  show ?thesis
  proof (cases "mi_size m < c")
    case True
    have jn: "j < mi_size m" using l [of "key e" j] j True by simp
    have "(take (mi_size m) (mi_storage m))[j := Some e] = map ?f (take (mi_size m) (mi_storage m))"
    proof (rule update_slots)
      fix i assume i: "i < length (take (mi_size m) (mi_storage m))"
      have "take (mi_size m) (mi_storage m) ! i \<in> set (ring_list m c)" using i True by (simp only: ring_list_def if_True nth_mem)
      then show "take (mi_size m) (mi_storage m) ! i \<noteq> None" using w(3) by metis
      fix x assume "take (mi_size m) (mi_storage m) ! i = Some x"
      then show "key x = key e \<longleftrightarrow> i = j" using i w by (intro u) (simp_all add: slot_def)
    qed (use jn w in simp)
    then show ?thesis using True jn by (simp add: m'_def ring_list_def take_update_swap)
  next
    case False
    then have n: "set (mi_storage m) = set (ring_list m c)" by (simp only: ring_list_def if_False set_rotated)
    have "(mi_storage m)[j := Some e] = map ?f (mi_storage m)"
    proof (rule update_slots)
      fix i assume i: "i < length (mi_storage m)"
      then have "mi_storage m ! i \<in> set (ring_list m c)" unfolding n [symmetric] by simp
      then show "mi_storage m ! i \<noteq> None" using w(3) by metis
      fix x assume "mi_storage m ! i = Some x"
      then show "key x = key e \<longleftrightarrow> i = j" using i False by (intro u) (simp_all add: slot_def)
    qed (use js w in simp)
    then show ?thesis using False by (simp add: m'_def ring_list_def drop_map take_map)
  qed
qed

text \<open>A ring that lists the entries \<open>xs\<close> has these values.\<close>

lemma values_of_ring:
  assumes "mi_capacity m = Some c" "length (mi_storage m) = c" "mi_size m \<le> c" "mi_size m < c \<longrightarrow> mi_start m = 0"
    "0 < c \<longrightarrow> mi_start m < c" "c = 0 \<longrightarrow> mi_start m = 0" "ring_list m c = map Some xs"
  shows "ring_shape m c" "index_values m = xs"
proof -
  show r: "ring_shape m c" using assms by (auto simp: ring_shape_def)
  have "map Some (index_values m) = map Some xs" using index_values_ring(1) [OF r] assms(7) by simp
  then show "index_values m = xs" by (simp add: inj_map_eq_map)
qed

lemma replace_refines:
  assumes ok: "index_ok key m" and j: "amap_get (mi_indexes m) (key e) = Some j"
  defines "m' \<equiv> (if mi_capacity m = None then m\<lparr>mi_entries := (mi_entries m)[j := e]\<rparr> else m\<lparr>mi_storage := (mi_storage m)[j := Some e]\<rparr>)"
  shows "index_ok key m' \<and> index_values m' = map (\<lambda>x. if key x = key e then e else x) (index_values m) \<and> mi_capacity m' = mi_capacity m"
proof (cases "mi_capacity m")
  case None
  have l: "amap_get (mi_indexes m) i = Some j \<longleftrightarrow> j < length (mi_entries m) \<and> key (mi_entries m ! j) = i" for i j
    using ok None by (simp add: index_ok_def)
  have jl: "j < length (mi_entries m)" "key (mi_entries m ! j) = key e" using l [of "key e" j] j by simp_all
  have v: "(mi_entries m)[j := e] = map (\<lambda>x. if key x = key e then e else x) (mi_entries m)"
  proof (rule nth_equalityI)
    fix i assume "i < length ((mi_entries m)[j := e])"
    then have "i < length (mi_entries m)" by simp
    then show "(mi_entries m)[j := e] ! i = map (\<lambda>x. if key x = key e then e else x) (mi_entries m) ! i"
    proof (cases "i = j")
      case False
      then have "key (mi_entries m ! i) \<noteq> key e" using l [of "key e" i] j \<open>i < length (mi_entries m)\<close> by auto
      with False show ?thesis using \<open>i < length (mi_entries m)\<close> by simp
    qed (use jl in simp)
  qed simp
  have "key ((mi_entries m)[j := e] ! k) = key (mi_entries m ! k)" if "k < length (mi_entries m)" for k
    using jl that by (cases "k = j") simp_all
  moreover have "map key ((mi_entries m)[j := e]) = map key (mi_entries m)" unfolding v by (rule map_key_update)
  ultimately have "index_ok key m'" using ok None by (auto simp: index_ok_def index_values_def m'_def)
  then show ?thesis using None v by (simp add: m'_def index_values_def)
next
  case (Some c)
  then have sh: "ring_shape m c" and ix: "ring_indexed key m c" and d: "distinct (map key (index_values m))" using ok by (auto simp: index_ok_def)
  have m': "m' = m\<lparr>mi_storage := (mi_storage m)[j := Some e]\<rparr>" using Some by (simp add: m'_def)
  have "ring_list m' c = map (map_option (\<lambda>x. if key x = key e then e else x)) (map Some (index_values m))"
    unfolding m' by (simp only: ring_replace [OF sh ix j] index_values_ring(1) [OF sh])
  then have rl: "ring_list m' c = map Some (map (\<lambda>x. if key x = key e then e else x) (index_values m))" by simp
  have a: "mi_capacity m' = Some c" "length (mi_storage m') = c" "mi_size m' \<le> c" "mi_size m' < c \<longrightarrow> mi_start m' = 0"
    "0 < c \<longrightarrow> mi_start m' < c" "c = 0 \<longrightarrow> mi_start m' = 0"
    using sh by (auto simp: m' ring_shape_def)
  note values_of_ring [OF a rl]
  moreover have "ring_indexed key m' c"
    using ix j unfolding ring_indexed_def m' by (auto simp: slot_def nth_list_update split: if_splits)
  moreover have "map key (map (\<lambda>x. if key x = key e then e else x) (index_values m)) = map key (index_values m)" by (rule map_key_update)
  ultimately show ?thesis using d Some by (simp add: index_ok_def m' del: map_map)
qed

lemma list_upsert_new:
  "key e \<notin> key ` set xs \<Longrightarrow> list_upsert key cap e xs = (if cap = Some 0 then ([e], True, xs)
     else if cap = Some (length xs) then ([hd xs], True, tl xs @ [e]) else ([], True, xs @ [e]))"
  by (simp add: list_upsert_def)

text \<open>Appending to a ring with a free slot, and overwriting the first entry of a full one.\<close>

lemma update_last: "Suc n = length xs \<Longrightarrow> xs[n := x] = take n xs @ [x]"
  by (simp add: upd_conv_take_nth_drop)

lemma push_free:
  assumes ok: "index_ok key m" and c: "mi_capacity m = Some c" and n: "mi_size m < c" and e: "key e \<notin> key ` set (index_values m)"
  defines "m' \<equiv> m\<lparr>mi_storage := (mi_storage m)[mi_size m := Some e], mi_indexes := amap_set (mi_indexes m) (key e) (mi_size m), mi_size := mi_size m + 1\<rparr>"
  shows "index_ok key m' \<and> index_values m' = index_values m @ [e]"
proof -
  have sh: "ring_shape m c" and ix: "ring_indexed key m c" using ok c by (auto simp: index_ok_def)
  have w: "length (mi_storage m) = c" "mi_start m = 0" using sh n by (auto simp: ring_shape_def)
  have "ring_list m' c = ring_list m c @ [Some e]"
  proof (cases "Suc (mi_size m) < c")
    case True
    then show ?thesis using n w by (simp add: ring_list_def m'_def take_Suc_conv_app_nth)
  next
    case False
    then have "Suc (mi_size m) = length (mi_storage m)" using n w by simp
    from update_last [OF this] show ?thesis using n w False by (simp add: ring_list_def m'_def)
  qed
  then have rl: "ring_list m' c = map Some (index_values m @ [e])" using index_values_ring(1) [OF sh] by simp
  have a: "mi_capacity m' = Some c" "length (mi_storage m') = c" "mi_size m' \<le> c" "mi_size m' < c \<longrightarrow> mi_start m' = 0"
    "0 < c \<longrightarrow> mi_start m' < c" "c = 0 \<longrightarrow> mi_start m' = 0"
    using sh n w by (auto simp: m'_def ring_shape_def)
  note v = values_of_ring [OF a rl]
  have f: "amap_get (mi_indexes m) (key e) = None" using index_entry(1) [OF ok] e by simp
  have "ring_indexed key m' c"
    unfolding ring_indexed_def
  proof (intro allI)
    fix i j
    have l: "amap_get (mi_indexes m) i = Some j \<longleftrightarrow> j < mi_size m \<and> (\<exists>x. slot (mi_storage m) j = Some x \<and> key x = i)"
      using ix n by (simp add: ring_indexed_def)
    show "amap_get (mi_indexes m') i = Some j \<longleftrightarrow> (mi_size m' < c \<longrightarrow> j < mi_size m') \<and> (\<exists>x. slot (mi_storage m') j = Some x \<and> key x = i)"
    proof (cases "j = mi_size m")
      case True
      then show ?thesis using l n w by (auto simp: m'_def slot_def)
    next
      case False
      then show ?thesis using l n w f by (auto simp: m'_def slot_def split: if_splits)
    qed
  qed
  moreover have "distinct (map key (index_values m @ [e]))" using ok e by (auto simp: index_ok_def)
  ultimately show ?thesis using v c by (simp add: index_ok_def m'_def)
qed

lemma push_full:
  assumes ok: "index_ok key m" and c: "mi_capacity m = Some c" and n: "mi_size m = c" "0 < c" and e: "key e \<notin> key ` set (index_values m)"
    and r: "slot (mi_storage m) (mi_start m) = Some r"
  defines "m' \<equiv> m\<lparr>mi_storage := (mi_storage m)[mi_start m := Some e],
      mi_indexes := amap_set (amap_delete (mi_indexes m) (key r)) (key e) (mi_start m), mi_start := (mi_start m + 1) mod c\<rparr>"
  shows "index_ok key m' \<and> index_values m = r # tl (index_values m) \<and> index_values m' = tl (index_values m) @ [e]"
proof -
  let ?s = "mi_start m"
  have sh: "ring_shape m c" and ix: "ring_indexed key m c" and d: "distinct (map key (index_values m))" using ok c by (auto simp: index_ok_def)
  have w: "length (mi_storage m) = c" "?s < c" using sh n by (auto simp: ring_shape_def)
  have s: "mi_storage m ! ?s = Some r" using r w by (simp add: slot_def)
  have dr: "drop ?s (mi_storage m) = Some r # drop (Suc ?s) (mi_storage m)" using Cons_nth_drop_Suc [of ?s "mi_storage m"] s w by simp
  have old: "map Some (index_values m) = Some r # drop (Suc ?s) (mi_storage m) @ take ?s (mi_storage m)"
    using index_values_ring(1) [OF sh] n dr by (simp add: ring_list_def)
  then obtain ys where ys: "index_values m = r # ys" "map Some ys = drop (Suc ?s) (mi_storage m) @ take ?s (mi_storage m)"
    by (cases "index_values m") auto
  have "ring_list m' c = map Some ys @ [Some e]"
  proof (cases "Suc ?s < c")
    case True
    then have "(?s + 1) mod c = Suc ?s" by simp
    then show ?thesis using True w n ys(2) by (simp add: ring_list_def m'_def take_Suc_conv_app_nth)
  next
    case False
    then have l: "Suc ?s = c" using w by simp
    then have "(?s + 1) mod c = 0" by simp
    moreover have "(mi_storage m)[?s := Some e] = take ?s (mi_storage m) @ [Some e]"
      by (rule update_last) (use l w in simp)
    ultimately show ?thesis using l w n ys(2) by (simp add: ring_list_def m'_def)
  qed
  then have rl: "ring_list m' c = map Some (ys @ [e])" by simp
  have a: "mi_capacity m' = Some c" "length (mi_storage m') = c" "mi_size m' \<le> c" "mi_size m' < c \<longrightarrow> mi_start m' = 0"
    "0 < c \<longrightarrow> mi_start m' < c" "c = 0 \<longrightarrow> mi_start m' = 0"
    using sh n w by (auto simp: m'_def ring_shape_def)
  note v = values_of_ring [OF a rl]
  have f: "amap_get (mi_indexes m) (key e) = None" using index_entry(1) [OF ok] e by simp
  have "ring_indexed key m' c"
    unfolding ring_indexed_def
  proof (intro allI)
    fix i j
    have l: "amap_get (mi_indexes m) i' = Some j' \<longleftrightarrow> (\<exists>x. slot (mi_storage m) j' = Some x \<and> key x = i')" for i' j'
      using ix n by (simp add: ring_indexed_def)
    show "amap_get (mi_indexes m') i = Some j \<longleftrightarrow> (mi_size m' < c \<longrightarrow> j < mi_size m') \<and> (\<exists>x. slot (mi_storage m') j = Some x \<and> key x = i)"
    proof (cases "j = ?s")
      case True
      then show ?thesis using l [of i ?s] r n w by (auto simp: m'_def slot_def)
    next
      case False
      have "i \<noteq> key r" if "amap_get (mi_indexes m) i = Some j" using that False l [of "key r" ?s] r by auto
      then show ?thesis using l [of i j] False n w f by (auto simp: m'_def slot_def split: if_splits)
    qed
  qed
  moreover have "distinct (map key (ys @ [e]))" using d e ys by auto
  ultimately show ?thesis using v c ys by (simp add: index_ok_def m'_def)
qed

lemma push_unbounded:
  assumes ok: "index_ok key m" and c: "mi_capacity m = None" and e: "key e \<notin> key ` set (index_values m)"
  defines "m' \<equiv> m\<lparr>mi_entries := mi_entries m @ [e], mi_indexes := amap_set (mi_indexes m) (key e) (length (mi_entries m))\<rparr>"
  shows "index_ok key m' \<and> index_values m' = index_values m @ [e]"
proof -
  have l: "amap_get (mi_indexes m) i = Some j \<longleftrightarrow> j < length (mi_entries m) \<and> key (mi_entries m ! j) = i" for i j
    using ok c by (simp add: index_ok_def)
  have f: "amap_get (mi_indexes m) (key e) = None" using index_entry(1) [OF ok] e by simp
  have "amap_get (mi_indexes m') i = Some j \<longleftrightarrow> j < length (mi_entries m') \<and> key (mi_entries m' ! j) = i" for i j
    using l [of i j] f by (auto simp: m'_def nth_append less_Suc_eq)
  then show ?thesis using ok c e by (auto simp: index_ok_def index_values_def m'_def)
qed

lemma push_refines:
  assumes ok: "index_ok key m" and e: "key e \<notin> key ` set (index_values m)"
  shows "index_ok key (snd (push_entry key e m)) \<and> mi_capacity (snd (push_entry key e m)) = mi_capacity m
    \<and> (fst (push_entry key e m), True, index_values (snd (push_entry key e m))) = list_upsert key (mi_capacity m) e (index_values m)"
proof (cases "mi_capacity m")
  case None
  then show ?thesis using push_unbounded [OF ok None e] by (simp add: push_entry_def list_upsert_new [OF e])
next
  case (Some c)
  have sh: "ring_shape m c" using ok Some by (simp add: index_ok_def)
  have len: "length (index_values m) = mi_size m" by (rule index_values_ring(2) [OF sh])
  consider "c = 0" | "mi_size m < c" | "mi_size m = c" "0 < c" using sh by (force simp: ring_shape_def)
  then show ?thesis
  proof cases
    case 1
    then show ?thesis using ok Some by (simp add: push_entry_def list_upsert_new [OF e])
  next
    case 2
    then have "(mi_start m + mi_size m) mod c = mi_size m" using sh by (simp add: ring_shape_def)
    then show ?thesis using push_free [OF ok Some 2 e] 2 Some len by (simp add: push_entry_def list_upsert_new [OF e] Let_def)
  next
    case 3
    then obtain r where r: "slot (mi_storage m) (mi_start m) = Some r"
      using getAt_ring(2) [OF sh, of 0] sh by (auto simp: getAt_def ring_shape_def)
    from push_full [OF ok Some 3 e r] show ?thesis using 3 Some len r
      by (simp add: push_entry_def list_upsert_new [OF e]) (metis list.sel(1))
  qed
qed

text \<open>\<open>upsert\<close> on the collection is \<open>list_upsert\<close> on the list it stands for.\<close>

lemma index_upsert_refines:
  assumes ok: "index_ok key m" and u: "index_upsert key e m = (ev, b, m')"
  shows "index_ok key m'" "mi_capacity m' = mi_capacity m"
    "(ev, b, index_values m') = list_upsert key (mi_capacity m) e (index_values m)"
proof -
  have "index_ok key m' \<and> mi_capacity m' = mi_capacity m \<and> (ev, b, index_values m') = list_upsert key (mi_capacity m) e (index_values m)"
  proof (cases "amap_get (mi_indexes m) (key e)")
    case None
    then have n: "key e \<notin> key ` set (index_values m)" using index_entry(1) [OF ok] by simp
    from None u have "push_entry key e m = (ev, m')" "b = True" by (simp_all add: index_upsert_def split: prod.splits)
    with push_refines [OF ok n] show ?thesis by simp
  next
    case (Some j)
    from index_entry(2) [OF ok Some] obtain x where x: "x \<in> set (index_values m)" "index_get m (key e) = Some x" "key x = key e" by blast
    with u Some have "ev = []" "b = False" "m' = (if mi_capacity m = None then m\<lparr>mi_entries := (mi_entries m)[j := e]\<rparr> else m\<lparr>mi_storage := (mi_storage m)[j := Some e]\<rparr>)"
      by (auto simp: index_upsert_def)
    moreover have "key e \<in> key ` set (index_values m)" using x by (metis imageI)
    ultimately show ?thesis using replace_refines [OF ok Some] by (simp add: list_upsert_def)
  qed
  then show "index_ok key m'" "mi_capacity m' = mi_capacity m"
    "(ev, b, index_values m') = list_upsert key (mi_capacity m) e (index_values m)" by simp_all
qed

lemma number_entries_get:
  "distinct (map key xs) \<Longrightarrow> (\<And>x. x \<in> set xs \<Longrightarrow> amap_get m (key x) = None)
    \<Longrightarrow> amap_get (number_entries key xs n m) i = (case find (\<lambda>j. key (xs ! j) = i) [0..<length xs] of Some j \<Rightarrow> Some (n + j) | None \<Rightarrow> amap_get m i)"
proof (induction xs arbitrary: n m)
  case (Cons x xs)
  let ?m = "amap_set m (key x) n"
  have f: "find (\<lambda>j. key ((x # xs) ! j) = i) [0..<length (x # xs)]
      = (if key x = i then Some 0 else map_option Suc (find (\<lambda>j. key (xs ! j) = i) [0..<length xs]))"
  proof -
    have "[0..<length (x # xs)] = 0 # map Suc [0..<length xs]" by (simp add: map_Suc_upt upt_conv_Cons del: upt_Suc)
    moreover have "find (\<lambda>j. key ((x # xs) ! j) = i) (map Suc js) = map_option Suc (find (\<lambda>j. key (xs ! j) = i) js)" for js
      by (induction js) simp_all
    ultimately show ?thesis by simp
  qed
  have "amap_get (number_entries key (x # xs) n m) i
      = (case find (\<lambda>j. key (xs ! j) = i) [0..<length xs] of Some j \<Rightarrow> Some (Suc n + j) | None \<Rightarrow> amap_get ?m i)"
    unfolding number_entries.simps
  proof (rule Cons.IH)
    fix y assume y: "y \<in> set xs"
    then have "key y \<noteq> key x" using Cons.prems(1) by (metis distinct.simps(2) image_eqI list.simps(9) list.set_map)
    then show "amap_get ?m (key y) = None" using Cons.prems(2) [of y] y by simp
  qed (use Cons.prems in simp)
  moreover have "find (\<lambda>j. key (xs ! j) = i) [0..<length xs] = None" if "key x = i"
    using Cons.prems(1) that by (auto simp: find_None_iff) (metis image_eqI nth_mem)
  ultimately show ?case unfolding f by (auto split: option.splits)
qed simp

lemma find_index:
  assumes "distinct (map key xs)"
  shows "find (\<lambda>j. key (xs ! j) = i) [0..<length xs] = Some j \<longleftrightarrow> j < length xs \<and> key (xs ! j) = i"
proof
  assume "find (\<lambda>j. key (xs ! j) = i) [0..<length xs] = Some j"
  then show "j < length xs \<and> key (xs ! j) = i" by (auto simp: find_Some_iff)
next
  assume j: "j < length xs \<and> key (xs ! j) = i"
  then obtain j' where j': "find (\<lambda>j. key (xs ! j) = i) [0..<length xs] = Some j'"
    by (cases "find (\<lambda>j. key (xs ! j) = i) [0..<length xs]") (auto simp: find_None_iff)
  then have "j' < length xs" "key (xs ! j') = i" by (auto simp: find_Some_iff)
  with j assms have "j' = j" by (metis length_map nth_eq_iff_index_eq nth_map)
  with j' show "find (\<lambda>j. key (xs ! j) = i) [0..<length xs] = Some j" by simp
qed

text \<open>A collection made from entries with different ids holds the last ones of them.\<close>

lemma index_new_ok:
  assumes d: "distinct (map key xs)"
  shows "index_ok key (index_new key xs cap)" "mi_capacity (index_new key xs cap) = cap"
    "index_values (index_new key xs cap) = (case cap of None \<Rightarrow> xs | Some c \<Rightarrow> drop (length xs - c) xs)"
proof -
  have g: "amap_get (number_entries key ys 0 []) i = Some j \<longleftrightarrow> j < length ys \<and> key (ys ! j) = i" if "distinct (map key ys)" for ys i j
    using number_entries_get [OF that, of "[]" 0 i] find_index [OF that, of i j] by (auto split: option.splits)
  have "index_ok key (index_new key xs cap) \<and> mi_capacity (index_new key xs cap) = cap
    \<and> index_values (index_new key xs cap) = (case cap of None \<Rightarrow> xs | Some c \<Rightarrow> drop (length xs - c) xs)"
  proof (cases cap)
    case None
    then show ?thesis using d g [OF d] by (simp add: index_new_def index_ok_def index_values_def)
  next
    case (Some c)
    define ys where "ys = drop (length xs - c) xs"
    define m where "m = index_new key xs cap"
    have m: "mi_capacity m = Some c" "mi_storage m = map Some ys @ replicate (c - length ys) None" "mi_start m = 0" "mi_size m = length ys"
      "mi_indexes m = number_entries key ys 0 []"
      by (simp_all add: m_def index_new_def Some ys_def Let_def)
    have l: "length ys \<le> c" by (simp add: ys_def)
    have dy: "distinct (map key ys)" using d by (simp add: ys_def drop_map [symmetric])
    have rl: "ring_list m c = map Some ys" using l by (auto simp: ring_list_def m)
    have a: "mi_capacity m = Some c" "length (mi_storage m) = c" "mi_size m \<le> c" "mi_size m < c \<longrightarrow> mi_start m = 0"
      "0 < c \<longrightarrow> mi_start m < c" "c = 0 \<longrightarrow> mi_start m = 0" using l by (auto simp: m)
    note v = values_of_ring [OF a rl]
    have "ring_indexed key m c" using g [OF dy] l by (auto simp: ring_indexed_def m slot_def nth_append split: if_splits)
    with v dy m(1) show ?thesis unfolding m_def [symmetric] by (simp add: index_ok_def Some ys_def)
  qed
  then show "index_ok key (index_new key xs cap)" "mi_capacity (index_new key xs cap) = cap"
    "index_values (index_new key xs cap) = (case cap of None \<Rightarrow> xs | Some c \<Rightarrow> drop (length xs - c) xs)" by simp_all
qed

end
