(* ===== verification/TranscriptStream.thy ===== *)
theory TranscriptStream
  imports TranscriptIndex TranscriptStore
begin

text \<open>
  The live transcript of a task or an agent run while it is streaming: the collections in memory
  (\<open>core/transcript-stream-projection.ts\<close>), the changes that are not written yet (\<open>core/transcript-change-tracker.ts\<close>), and
  the checkpoints that write them (\<open>core/memory-first-persistence-queue.ts\<close>, and \<open>persistCurrentState\<close> of
  \<open>core/engine/engine-persistence.ts\<close> and \<open>core/agent-run-stream-persistence.ts\<close>). A checkpoint begins with a snapshot
  that is handed to the store, and ends when the promise of the store settles; changes may arrive in between.
\<close>

section \<open>Changes that are not written yet\<close>

record versioned_change =
  vc_version :: nat
  vc_entry :: "entry_upsert option"
  vc_deleted :: bool

record change_tracker =
  tk_changes :: "(string, versioned_change) amap"
  tk_nextVersion :: nat

record change_snapshot =
  sn_changes :: change_set
  sn_versions :: "(string, nat) amap"

fun payload_kind :: "transcript_payload \<Rightarrow> transcript_kind" where
  "payload_kind (PMessage m) = KindMessage"
| "payload_kind (PTool t) = KindTool"
| "payload_kind (PLog l) = KindLog"

fun payload_id :: "transcript_payload \<Rightarrow> ident" where
  "payload_id (PMessage m) = msg_id m"
| "payload_id (PTool t) = tool_id t"
| "payload_id (PLog l) = log_id l"

definition recordUpsert :: "transcript_payload \<Rightarrow> change_tracker \<Rightarrow> change_tracker" where
  "recordUpsert p t = (let v = tk_nextVersion t + 1 in
     t\<lparr>tk_nextVersion := v, tk_changes := amap_set (tk_changes t) (getTranscriptEntryKey (payload_kind p) (payload_id p))
        \<lparr>vc_version = v, vc_entry = Some \<lparr>eu_id = payload_id p, eu_kind = payload_kind p, eu_timestamp = payload_timestamp p,
            eu_payload = p, eu_sequence = None\<rparr>, vc_deleted = False\<rparr>\<rparr>)"

definition recordDelete :: "transcript_kind \<Rightarrow> ident \<Rightarrow> change_tracker \<Rightarrow> change_tracker" where
  "recordDelete k i t = (let v = tk_nextVersion t + 1 in
     t\<lparr>tk_nextVersion := v, tk_changes := amap_set (tk_changes t) (getTranscriptEntryKey k i)
        \<lparr>vc_version = v, vc_entry = None, vc_deleted = True\<rparr>\<rparr>)"

text \<open>The key of a deletion is taken apart at its first colon; a cast makes the first part a kind.\<close>

definition kind_of_name :: "string \<Rightarrow> transcript_kind" where
  "kind_of_name s = (if s = ''message'' then KindMessage else if s = ''tool'' then KindTool else KindLog)"

definition split_key :: "string \<Rightarrow> transcript_kind \<times> ident" where
  "split_key s = (kind_of_name (takeWhile (\<lambda>c. c \<noteq> CHR '':'') s), drop 1 (dropWhile (\<lambda>c. c \<noteq> CHR '':'') s))"

definition tracker_snapshot :: "transcript_state \<Rightarrow> change_tracker \<Rightarrow> change_snapshot" where
  "tracker_snapshot s t =
     \<lparr>sn_changes = createTranscriptChangeSet s
        (List.map_filter (\<lambda>c. if vc_deleted (snd c) then None else vc_entry (snd c)) (tk_changes t))
        (map (split_key \<circ> fst) (filter (\<lambda>c. vc_deleted (snd c)) (tk_changes t))),
      sn_versions = map (\<lambda>c. (fst c, vc_version (snd c))) (tk_changes t)\<rparr>"

definition tracker_acknowledge :: "change_snapshot \<Rightarrow> change_tracker \<Rightarrow> change_tracker" where
  "tracker_acknowledge sn t = t\<lparr>tk_changes := fold (\<lambda>(k, v) m. case amap_get m k of
       Some c \<Rightarrow> if vc_version c = v then amap_delete m k else m | None \<Rightarrow> m) (sn_versions sn) (tk_changes t)\<rparr>"

definition hasPendingChanges :: "change_tracker \<Rightarrow> bool" where
  "hasPendingChanges t = (tk_changes t \<noteq> [])"

section \<open>Merging a tool call\<close>

text \<open>A value is kept as its JSON text.\<close>

definition isEmptyObject :: "string \<Rightarrow> bool" where
  "isEmptyObject v = (v = ''{}'')"

definition mergeToolValue :: "string option \<Rightarrow> string option \<Rightarrow> string option" where
  "mergeToolValue existing incoming = (case incoming of None \<Rightarrow> existing
     | Some v \<Rightarrow> (case existing of Some x \<Rightarrow> if isEmptyObject v \<and> \<not> isEmptyObject x then existing else incoming | None \<Rightarrow> incoming))"

definition mergeToolStatus :: "tool_status \<Rightarrow> tool_status \<Rightarrow> tool_status" where
  "mergeToolStatus existing incoming =
     (if existing \<in> {ToolCompleted, ToolFailed} \<and> incoming \<notin> {ToolCompleted, ToolFailed} then existing else incoming)"

fun replace_extra :: "tool_call_extra \<Rightarrow> tool_call_extra list \<Rightarrow> tool_call_extra list" where
  "replace_extra e [] = [e]"
| "replace_extra e (x # xs) = (if extra_id x = extra_id e then e # xs else x # replace_extra e xs)"

definition upsertToolCallExtra :: "tool_call_extra list option \<Rightarrow> tool_call_extra \<Rightarrow> tool_call_extra list" where
  "upsertToolCallExtra extras e = replace_extra e (case extras of None \<Rightarrow> [] | Some xs \<Rightarrow> xs)"

definition mergeToolCallExtras :: "tool_call_extra list option \<Rightarrow> tool_call_extra list option \<Rightarrow> tool_call_extra list option" where
  "mergeToolCallExtras existing incoming = (case incoming of None \<Rightarrow> existing
     | Some ys \<Rightarrow> (case existing of None \<Rightarrow> incoming | Some [] \<Rightarrow> incoming
         | Some xs \<Rightarrow> Some (fold (\<lambda>e m. upsertToolCallExtra (Some m) e) ys xs)))"

definition mergeToolCallRecord :: "tool_call_record option \<Rightarrow> tool_call_record \<Rightarrow> tool_call_record" where
  "mergeToolCallRecord existing incoming = (case existing of None \<Rightarrow> incoming
     | Some x \<Rightarrow> incoming\<lparr>tool_input := (case mergeToolValue (tool_input x) (tool_input incoming) of
             None \<Rightarrow> tool_input incoming | Some v \<Rightarrow> if v = ''null'' then tool_input incoming else Some v),
         tool_output := mergeToolValue (tool_output x) (tool_output incoming),
         tool_status := mergeToolStatus (tool_status x) (tool_status incoming),
         tool_extras := mergeToolCallExtras (tool_extras x) (tool_extras incoming),
         tool_detailRevision := (case tool_detailRevision incoming of None \<Rightarrow> tool_detailRevision x | r \<Rightarrow> r)\<rparr>)"

section \<open>The collections in memory\<close>

record projection_limits =
  pl_maxMessages :: "nat option"
  pl_maxLogs :: "nat option"
  pl_maxToolCalls :: "nat option"

definition MAX_PERSISTED_LOGS :: nat where "MAX_PERSISTED_LOGS = 5000"
definition MAX_PERSISTED_MESSAGES :: nat where "MAX_PERSISTED_MESSAGES = 2000"
definition MAX_PERSISTED_TOOL_CALLS :: nat where "MAX_PERSISTED_TOOL_CALLS = 5000"

definition persisted_limits :: projection_limits where
  "persisted_limits = \<lparr>pl_maxMessages = Some MAX_PERSISTED_MESSAGES, pl_maxLogs = Some MAX_PERSISTED_LOGS, pl_maxToolCalls = Some MAX_PERSISTED_TOOL_CALLS\<rparr>"

record projection =
  pj_changes :: change_tracker
  pj_revision :: nat
  pj_previousRevision :: nat
  pj_messages :: "persisted_message memory_index"
  pj_logs :: "task_log_entry memory_index"
  pj_tools :: "tool_call_record memory_index"
  pj_limits :: projection_limits

text \<open>\<open>StreamVersion\<close>; its epoch, a random identifier, is left out.\<close>

definition advance :: "projection \<Rightarrow> projection" where
  "advance p = p\<lparr>pj_previousRevision := pj_revision p, pj_revision := pj_revision p + 1\<rparr>"

definition projection_new :: "transcript_state \<Rightarrow> projection_limits \<Rightarrow> projection" where
  "projection_new s l = \<lparr>pj_changes = \<lparr>tk_changes = [], tk_nextVersion = 0\<rparr>, pj_revision = 0, pj_previousRevision = 0,
     pj_messages = index_new msg_id (ts_messages s) (pl_maxMessages l), pj_logs = index_new log_id (ts_logs s) (pl_maxLogs l),
     pj_tools = index_new tool_id (ts_toolCalls s) (pl_maxToolCalls l), pj_limits = l\<rparr>"

definition projection_state :: "projection \<Rightarrow> transcript_state" where
  "projection_state p = \<lparr>ts_messages = index_values (pj_messages p), ts_logs = index_values (pj_logs p), ts_toolCalls = index_values (pj_tools p)\<rparr>"

definition recordEvictions :: "transcript_kind \<Rightarrow> ident list \<Rightarrow> change_tracker \<Rightarrow> change_tracker" where
  "recordEvictions k evicted t = fold (recordDelete k) evicted t"

text \<open>What the three \<open>upsert\<close> functions do with their collection.\<close>

definition put_payload :: "('a \<Rightarrow> ident) \<Rightarrow> ('a \<Rightarrow> transcript_payload) \<Rightarrow> 'a \<Rightarrow> 'a memory_index \<Rightarrow> change_tracker \<Rightarrow> 'a memory_index \<times> change_tracker" where
  "put_payload key wrap x m t = (let (evicted, _, m') = index_upsert key x m;
       t' = recordEvictions (payload_kind (wrap x)) (map key evicted) t
     in (m', if index_has m' (key x) then recordUpsert (wrap x) t' else t'))"

definition upsertMessage :: "persisted_message \<Rightarrow> projection \<Rightarrow> projection" where
  "upsertMessage msg p = (let existing = index_get (pj_messages p) (msg_id msg);
       m = msg\<lparr>msg_attachments := (case msg_attachments msg of None \<Rightarrow> Option.bind existing msg_attachments | a \<Rightarrow> a),
               msg_question := (case msg_question msg of None \<Rightarrow> Option.bind existing msg_question | q \<Rightarrow> q)\<rparr>;
       (ms, t) = put_payload msg_id PMessage m (pj_messages p) (pj_changes p)
     in advance (p\<lparr>pj_messages := ms, pj_changes := t\<rparr>))"

definition upsertLog :: "task_log_entry \<Rightarrow> projection \<Rightarrow> projection" where
  "upsertLog l p = (let (ls, t) = put_payload log_id PLog l (pj_logs p) (pj_changes p) in advance (p\<lparr>pj_logs := ls, pj_changes := t\<rparr>))"

definition upsertToolCall :: "tool_call_record \<Rightarrow> projection \<Rightarrow> projection" where
  "upsertToolCall c p = (let c' = mergeToolCallRecord (index_get (pj_tools p) (tool_id c)) c;
       (cs, t) = put_payload tool_id PTool c' (pj_tools p) (pj_changes p)
     in advance (p\<lparr>pj_tools := cs, pj_changes := t\<rparr>))"

text \<open>An extra of a tool call: its entry exists, so nothing is evicted.\<close>

definition upsertToolCallExtra_of :: "ident \<Rightarrow> tool_call_extra \<Rightarrow> projection \<Rightarrow> bool \<times> projection" where
  "upsertToolCallExtra_of i e p = (case index_get (pj_tools p) i of None \<Rightarrow> (False, p)
     | Some c \<Rightarrow> (let c' = c\<lparr>tool_extras := Some (upsertToolCallExtra (tool_extras c) e)\<rparr>
         in (True, advance (p\<lparr>pj_tools := snd (snd (index_upsert tool_id c' (pj_tools p))), pj_changes := recordUpsert (PTool c') (pj_changes p)\<rparr>))))"

text \<open>\<open>upsertMessageDelta\<close>: a delta continues the content at its base length; \<open>finalizeInFlightToolCalls\<close> of a task.\<close>

definition upsertMessageDelta :: "ident \<Rightarrow> message_role \<Rightarrow> nat \<Rightarrow> string \<Rightarrow> timestamp \<Rightarrow> projection \<Rightarrow> projection" where
  "upsertMessageDelta i role baseLength delta ts p = (let existing = index_get (pj_messages p) i;
       current = (case existing of None \<Rightarrow> [] | Some m \<Rightarrow> msg_content m);
       content = (if existing \<noteq> None \<and> length current \<ge> baseLength then take baseLength current @ delta else current @ delta)
     in upsertMessage \<lparr>msg_id = i, msg_role = role, msg_content = content, msg_attachments = None,
          msg_timestamp = (case existing of None \<Rightarrow> ts | Some m \<Rightarrow> msg_timestamp m), msg_question = Option.bind existing msg_question\<rparr> p)"

definition finalized_tool :: "timestamp \<Rightarrow> string \<Rightarrow> tool_call_record \<Rightarrow> tool_call_record" where
  "finalized_tool now out c = c\<lparr>tool_status := ToolFailed, tool_timestamp := now,
     tool_output := (case tool_output c of None \<Rightarrow> Some out | Some v \<Rightarrow> if v = ''null'' then Some out else Some v)\<rparr>"

definition finalizeInFlightToolCalls :: "timestamp \<Rightarrow> string \<Rightarrow> projection \<Rightarrow> tool_call_record list \<times> projection" where
  "finalizeInFlightToolCalls now out p =
     (let finalized = map (finalized_tool now out) (filter (\<lambda>c. tool_status c \<in> {ToolPending, ToolRunning}) (index_values (pj_tools p)))
      in (finalized, fold upsertToolCall finalized p))"

definition projection_replace :: "transcript_state \<Rightarrow> projection \<Rightarrow> projection" where
  "projection_replace s p = advance (p\<lparr>pj_messages := index_new msg_id (ts_messages s) (pl_maxMessages (pj_limits p)),
     pj_logs := index_new log_id (ts_logs s) (pl_maxLogs (pj_limits p)),
     pj_tools := index_new tool_id (ts_toolCalls s) (pl_maxToolCalls (pj_limits p))\<rparr>)"

text \<open>\<open>reconcileTranscript\<close> of an agent run: the entries that differ are recorded, and the ones that are gone.\<close>

definition reconcileTranscript :: "('a \<Rightarrow> ident) \<Rightarrow> ('a \<Rightarrow> transcript_payload) \<Rightarrow> transcript_kind \<Rightarrow> 'a list \<Rightarrow> 'a list \<Rightarrow> change_tracker \<Rightarrow> change_tracker" where
  "reconcileTranscript key wrap kind current next t =
     fold (\<lambda>x. if key x \<in> key ` set next then id else recordDelete kind (key x)) current
       (fold (\<lambda>x. if map_of (rev (map (\<lambda>y. (key y, y)) current)) (key x) = Some x then id else recordUpsert (wrap x)) next t)"

section \<open>When a checkpoint is due\<close>

definition AGENT_STREAM_TEXT_CHECKPOINT_INTERVAL_MS :: nat where "AGENT_STREAM_TEXT_CHECKPOINT_INTERVAL_MS = 300000"
definition AGENT_STREAM_TEXT_CHECKPOINT_BYTES :: nat where "AGENT_STREAM_TEXT_CHECKPOINT_BYTES = 512 * 1024"

record checkpoint_policy =
  cp_lastCheckpointAt :: timestamp
  cp_pendingTextBytes :: nat

definition recordText :: "timestamp \<Rightarrow> nat \<Rightarrow> checkpoint_policy \<Rightarrow> bool \<times> checkpoint_policy" where
  "recordText now n p = (if n = 0 then (False, p) else (let b = cp_pendingTextBytes p + n in
     (b \<ge> AGENT_STREAM_TEXT_CHECKPOINT_BYTES \<or> now - cp_lastCheckpointAt p \<ge> AGENT_STREAM_TEXT_CHECKPOINT_INTERVAL_MS,
      p\<lparr>cp_pendingTextBytes := b\<rparr>)))"

definition markCheckpoint :: "timestamp \<Rightarrow> nat \<Rightarrow> checkpoint_policy \<Rightarrow> checkpoint_policy" where
  "markCheckpoint now n p = \<lparr>cp_lastCheckpointAt = now, cp_pendingTextBytes = cp_pendingTextBytes p - n\<rparr>"

section \<open>The queue of checkpoints\<close>

record persistence_queue =
  pq_inFlight :: bool
  pq_requested :: bool
  pq_dirty :: bool
  pq_version :: nat

definition queue_new :: "bool \<Rightarrow> persistence_queue" where
  "queue_new dirty = \<lparr>pq_inFlight = False, pq_requested = False, pq_dirty = dirty, pq_version = 0\<rparr>"

definition markOperationalPersistenceDirty :: "persistence_queue \<Rightarrow> persistence_queue" where
  "markOperationalPersistenceDirty q = q\<lparr>pq_dirty := True, pq_version := pq_version q + 1, pq_requested := pq_requested q \<or> pq_inFlight q\<rparr>"

definition acknowledgeOperationalPersistence :: "nat \<Rightarrow> persistence_queue \<Rightarrow> persistence_queue" where
  "acknowledgeOperationalPersistence v q = (if pq_version q = v then q\<lparr>pq_dirty := False\<rparr> else q\<lparr>pq_requested := True\<rparr>)"

section \<open>A stream and its table\<close>

text \<open>
  \<open>sv_snapshot\<close> is what \<open>persistCurrentState\<close> waits for: the snapshot and the version it took, or nothing when there was
  nothing to write; \<open>sv_saved\<close> tells whether the store took it.
\<close>

record saving =
  sv_snapshot :: "(change_snapshot \<times> nat \<times> nat) option"
  sv_saved :: bool

record live_stream =
  ls_resource :: ident
  ls_user :: ident
  ls_projection :: projection
  ls_policy :: checkpoint_policy
  ls_queue :: persistence_queue
  ls_saving :: saving
  ls_table :: transcript_table
  ls_live :: nat

text \<open>One round of \<open>drain\<close> up to its await. \<open>ok\<close> is whether the store accepts the write.\<close>

definition persist_begin :: "timestamp \<Rightarrow> bool \<Rightarrow> live_stream \<Rightarrow> live_stream" where
  "persist_begin now ok s = (let q = (ls_queue s)\<lparr>pq_requested := False\<rparr>; p = ls_projection s;
       sn = tracker_snapshot (projection_state p) (pj_changes p); cs = sn_changes sn; s' = s\<lparr>ls_queue := q\<rparr>
     in if \<not> pq_dirty q \<and> cs_upserts cs = [] \<and> cs_deletes cs = [] then s'\<lparr>ls_saving := \<lparr>sv_snapshot = None, sv_saved = True\<rparr>\<rparr>
        else (let s'' = s'\<lparr>ls_saving := \<lparr>sv_snapshot = Some (sn, pq_version q, cp_pendingTextBytes (ls_policy s)), sv_saved = ok\<rparr>\<rparr> in
          if ok then (let (tab, live) = applyTranscriptChangeSet (ls_table s) (ls_live s) (ls_resource s) (ls_user s) cs now
            in s''\<lparr>ls_table := tab, ls_live := live\<rparr>)
          else s''))"

definition persist_end :: "timestamp \<Rightarrow> live_stream \<Rightarrow> live_stream" where
  "persist_end now s = (case sv_snapshot (ls_saving s) of None \<Rightarrow> s
     | Some (sn, v, bytes) \<Rightarrow> s\<lparr>ls_projection := (ls_projection s)\<lparr>pj_changes := tracker_acknowledge sn (pj_changes (ls_projection s))\<rparr>,
         ls_queue := acknowledgeOperationalPersistence v (ls_queue s), ls_policy := markCheckpoint now bytes (ls_policy s)\<rparr>)"

text \<open>\<open>request\<close>, and what happens when the promise that \<open>drain\<close> awaits settles.\<close>

definition request_checkpoint :: "timestamp \<Rightarrow> bool \<Rightarrow> live_stream \<Rightarrow> live_stream" where
  "request_checkpoint now ok s = (let s' = s\<lparr>ls_queue := (ls_queue s)\<lparr>pq_requested := True\<rparr>\<rparr> in
     if pq_inFlight (ls_queue s) then s' else persist_begin now ok (s'\<lparr>ls_queue := (ls_queue s')\<lparr>pq_inFlight := True\<rparr>\<rparr>))"

definition resume_drain :: "timestamp \<Rightarrow> bool \<Rightarrow> live_stream \<Rightarrow> live_stream" where
  "resume_drain now ok s =
     (if \<not> pq_inFlight (ls_queue s) then s
      else if \<not> sv_saved (ls_saving s) then s\<lparr>ls_queue := (ls_queue s)\<lparr>pq_inFlight := False\<rparr>\<rparr>
      else (let s' = persist_end now s in
        if pq_requested (ls_queue s') then persist_begin now ok s' else s'\<lparr>ls_queue := (ls_queue s')\<lparr>pq_inFlight := False\<rparr>\<rparr>))"

datatype stream_event =
  StreamMessage persisted_message
| StreamLog task_log_entry
| StreamTool tool_call_record
| StreamExtra ident tool_call_extra
| StreamDelta ident message_role nat string timestamp
| StreamFinalizeTools timestamp string
| StreamText timestamp nat
| StreamDirty
| StreamRequest timestamp bool
| StreamResume timestamp bool

definition on_projection :: "(projection \<Rightarrow> projection) \<Rightarrow> live_stream \<Rightarrow> live_stream" where
  "on_projection f s = s\<lparr>ls_projection := f (ls_projection s)\<rparr>"

fun stream_step :: "stream_event \<Rightarrow> live_stream \<Rightarrow> live_stream" where
  "stream_step (StreamMessage m) s = on_projection (upsertMessage m) s"
| "stream_step (StreamLog l) s = on_projection (upsertLog l) s"
| "stream_step (StreamTool c) s = on_projection (upsertToolCall c) s"
| "stream_step (StreamExtra i e) s = on_projection (\<lambda>p. snd (upsertToolCallExtra_of i e p)) s"
| "stream_step (StreamDelta i role b d ts) s = on_projection (upsertMessageDelta i role b d ts) s"
| "stream_step (StreamFinalizeTools now out) s = on_projection (\<lambda>p. snd (finalizeInFlightToolCalls now out p)) s"
| "stream_step (StreamText now n) s = s\<lparr>ls_policy := snd (recordText now n (ls_policy s))\<rparr>"
| "stream_step StreamDirty s = s\<lparr>ls_queue := markOperationalPersistenceDirty (ls_queue s)\<rparr>"
| "stream_step (StreamRequest now ok) s = request_checkpoint now ok s"
| "stream_step (StreamResume now ok) s = resume_drain now ok s"

definition stream_new :: "timestamp \<Rightarrow> ident \<Rightarrow> ident \<Rightarrow> transcript_state \<Rightarrow> projection_limits \<Rightarrow> bool \<Rightarrow> transcript_table \<Rightarrow> nat \<Rightarrow> live_stream" where
  "stream_new now r u s l dirty tab live = \<lparr>ls_resource = r, ls_user = u, ls_projection = projection_new s l,
     ls_policy = \<lparr>cp_lastCheckpointAt = now, cp_pendingTextBytes = 0\<rparr>, ls_queue = queue_new dirty,
     ls_saving = \<lparr>sv_snapshot = None, sv_saved = True\<rparr>, ls_table = tab, ls_live = live\<rparr>"

end
