(* ===== verification/StreamProps.thy ===== *)
theory StreamProps
  imports TranscriptStream Runs
begin

text \<open>
  What a stream and its checkpoints guarantee: at every moment the table, with the changes that are not written yet laid
  over it, is the transcript in memory, however mutations, checkpoints, failed writes and acknowledgements interleave;
  and what had been recorded when a checkpoint was requested is written when the queue is idle again.
\<close>

section \<open>Writing a change set\<close>

definition content_of :: "transcript_payload \<Rightarrow> timestamp \<times> transcript_payload option" where
  "content_of p = (payload_timestamp p, Some (strip_payload p))"

definition upsert_key :: "entry_upsert \<Rightarrow> string" where
  "upsert_key e = getTranscriptEntryKey (eu_kind e) (eu_id e)"

definition upsert_ok :: "entry_upsert \<Rightarrow> bool" where
  "upsert_ok e \<longleftrightarrow> eu_kind e = payload_kind (eu_payload e) \<and> eu_id e = payload_id (eu_payload e) \<and> eu_timestamp e = payload_timestamp (eu_payload e)"

lemma upsertEntry_ok:
  assumes "upsert_ok e"
  shows "contents (upsertEntry tab r u (eu_id e) (eu_kind e) (eu_timestamp e) (eu_payload e) sq now) r' k
      = (if r' = r \<and> k = upsert_key e then Some (content_of (eu_payload e)) else contents tab r' k)"
    "owned tab r u \<Longrightarrow> owned (upsertEntry tab r u (eu_id e) (eu_kind e) (eu_timestamp e) (eu_payload e) sq now) r u"
proof -
  define s where "s = \<lparr>se_id = eu_id e, se_timestamp = eu_timestamp e, se_kind = eu_kind e, se_order = 0, se_payload = eu_payload e\<rparr>"
  have u: "upsertEntry tab r u (eu_id e) (eu_kind e) (eu_timestamp e) (eu_payload e) sq now = upsert_state_entry r u now (sq, s) tab"
    by (simp add: upsert_state_entry_def s_def)
  have "kind_ok s" using assms by (cases "eu_payload e") (simp_all add: s_def kind_ok.simps upsert_ok_def)
  from contents_upsert [OF this] show "contents (upsertEntry tab r u (eu_id e) (eu_kind e) (eu_timestamp e) (eu_payload e) sq now) r' k
      = (if r' = r \<and> k = upsert_key e then Some (content_of (eu_payload e)) else contents tab r' k)"
    unfolding u using assms by (auto simp: s_def entry_key_def entry_content_def upsert_key_def content_of_def upsert_ok_def)
  show "owned tab r u \<Longrightarrow> owned (upsertEntry tab r u (eu_id e) (eu_kind e) (eu_timestamp e) (eu_payload e) sq now) r u"
    unfolding u by (rule owned_upsert)
qed

lemma apply_upsert_contents:
  assumes "upsert_ok e"
  shows "contents (fst (apply_upsert r u now e st)) r' k
      = (if r' = r \<and> k = upsert_key e then Some (content_of (eu_payload e)) else contents (fst st) r' k)"
    "owned (fst st) r u \<Longrightarrow> owned (fst (apply_upsert r u now e st)) r u"
  using upsertEntry_ok [OF assms] by (simp_all add: apply_upsert_def Let_def split: option.splits)

lemma fold_upsert_contents:
  assumes "list_all upsert_ok es" "distinct (map upsert_key es)"
  shows "contents (fst (fold (apply_upsert r u now) es st)) r' k
      = (if r' = r then (case map_of (map (\<lambda>e. (upsert_key e, content_of (eu_payload e))) es) k of Some c \<Rightarrow> Some c | None \<Rightarrow> contents (fst st) r k)
         else contents (fst st) r' k)"
    "owned (fst st) r u \<Longrightarrow> owned (fst (fold (apply_upsert r u now) es st)) r u"
proof -
  show "contents (fst (fold (apply_upsert r u now) es st)) r' k
      = (if r' = r then (case map_of (map (\<lambda>e. (upsert_key e, content_of (eu_payload e))) es) k of Some c \<Rightarrow> Some c | None \<Rightarrow> contents (fst st) r k)
         else contents (fst st) r' k)"
    using assms
  proof (induction es arbitrary: st)
    case (Cons e es)
    then have n: "map_of (map (\<lambda>e. (upsert_key e, content_of (eu_payload e))) es) (upsert_key e) = None"
      by (simp add: map_of_eq_None_iff image_image)
    from Cons have "contents (fst (fold (apply_upsert r u now) es (apply_upsert r u now e st))) r' k
      = (if r' = r then (case map_of (map (\<lambda>e. (upsert_key e, content_of (eu_payload e))) es) k of Some c \<Rightarrow> Some c
            | None \<Rightarrow> contents (fst (apply_upsert r u now e st)) r k)
         else contents (fst (apply_upsert r u now e st)) r' k)" by simp
    with apply_upsert_contents(1) [of e r u now st] Cons.prems n show ?case by (auto split: option.splits)
  qed simp
  show "owned (fst st) r u \<Longrightarrow> owned (fst (fold (apply_upsert r u now) es st)) r u"
    using assms(1)
  proof (induction es arbitrary: st)
    case (Cons e es)
    then show ?case using apply_upsert_contents(2) [of e st r u now] by simp
  qed simp
qed

lemma fold_delete_contents:
  assumes "owned tab r u"
  shows "contents (fold (delete_entry r u) ds tab) r' k
      = (if r' = r \<and> k \<in> (\<lambda>d. getTranscriptEntryKey (fst d) (snd d)) ` set ds then None else contents tab r' k)"
    "owned (fold (delete_entry r u) ds tab) r u"
proof -
  have one: "contents (delete_entry r u d tab) r' k = (if r' = r \<and> k = getTranscriptEntryKey (fst d) (snd d) then None else contents tab r' k)"
    "owned (delete_entry r u d tab) r u" if "owned tab r u" for d tab r' k
  proof -
    show "contents (delete_entry r u d tab) r' k = (if r' = r \<and> k = getTranscriptEntryKey (fst d) (snd d) then None else contents tab r' k)"
      unfolding delete_entry_def using that
      by (subst contents_filter [where p = "\<not> (r' = r \<and> k = getTranscriptEntryKey (fst d) (snd d))"]) (auto simp: owned_def list_all_iff)
    show "owned (delete_entry r u d tab) r u" using that by (auto simp: delete_entry_def owned_def list_all_iff)
  qed
  show "contents (fold (delete_entry r u) ds tab) r' k
      = (if r' = r \<and> k \<in> (\<lambda>d. getTranscriptEntryKey (fst d) (snd d)) ` set ds then None else contents tab r' k)"
    using assms by (induction ds arbitrary: tab) (auto simp: one)
  show "owned (fold (delete_entry r u) ds tab) r u"
    using assms by (induction ds arbitrary: tab) (auto simp: one)
qed

lemma apply_changes_contents:
  assumes "owned tab r u" "list_all upsert_ok (cs_upserts cs)" "distinct (map upsert_key (cs_upserts cs))"
  shows "contents (fst (applyTranscriptChangeSet tab live r u cs now)) r' k
      = (if r' = r then (case map_of (map (\<lambda>e. (upsert_key e, content_of (eu_payload e))) (cs_upserts cs)) k of Some c \<Rightarrow> Some c
          | None \<Rightarrow> if k \<in> (\<lambda>d. getTranscriptEntryKey (fst d) (snd d)) ` set (cs_deletes cs) then None else contents tab r k)
         else contents tab r' k)"
    "owned (fst (applyTranscriptChangeSet tab live r u cs now)) r u"
  using fold_upsert_contents [OF assms(2,3)] fold_delete_contents [OF assms(1)]
  by (auto simp: applyTranscriptChangeSet_def split: option.splits)

section \<open>Pending changes\<close>

definition tkey :: "transcript_kind \<Rightarrow> ident \<Rightarrow> string" where
  "tkey k i = getTranscriptEntryKey k i"

lemma tkey_eq [simp]: "tkey k i = tkey k' i' \<longleftrightarrow> k = k' \<and> i = i'"
  by (simp add: tkey_def)

definition change_content :: "versioned_change \<Rightarrow> (timestamp \<times> transcript_payload option) option" where
  "change_content c = (if vc_deleted c then None else map_option (\<lambda>e. content_of (eu_payload e)) (vc_entry c))"

definition change_ok :: "nat \<Rightarrow> string \<times> versioned_change \<Rightarrow> bool" where
  "change_ok n kc \<longleftrightarrow> (\<exists>k i. fst kc = tkey k i \<and> vc_version (snd kc) \<le> n
     \<and> (if vc_deleted (snd kc) then vc_entry (snd kc) = None
        else (\<exists>e. vc_entry (snd kc) = Some e \<and> upsert_ok e \<and> eu_kind e = k \<and> eu_id e = i)))"

definition tracker_ok :: "change_tracker \<Rightarrow> bool" where
  "tracker_ok t \<longleftrightarrow> amap_wf (tk_changes t) \<and> list_all (change_ok (tk_nextVersion t)) (tk_changes t)"

text \<open>A later state of the tracker: a change is the old one or has a new version.\<close>

definition extends :: "change_tracker \<Rightarrow> change_tracker \<Rightarrow> bool" where
  "extends t t' \<longleftrightarrow> tk_nextVersion t \<le> tk_nextVersion t'
     \<and> (\<forall>k. amap_get (tk_changes t') k = amap_get (tk_changes t) k \<or> (\<exists>c. amap_get (tk_changes t') k = Some c \<and> tk_nextVersion t < vc_version c))"

lemma extends_refl: "extends t t"
  by (simp add: extends_def)

lemma extends_trans:
  assumes "extends a b" "extends b c"
  shows "extends a c"
  unfolding extends_def
proof (intro conjI allI)
  show "tk_nextVersion a \<le> tk_nextVersion c" using assms by (auto simp: extends_def)
  fix k
  from assms(2) consider "amap_get (tk_changes c) k = amap_get (tk_changes b) k"
    | x where "amap_get (tk_changes c) k = Some x" "tk_nextVersion b < vc_version x" by (auto simp: extends_def)
  then show "amap_get (tk_changes c) k = amap_get (tk_changes a) k \<or> (\<exists>x. amap_get (tk_changes c) k = Some x \<and> tk_nextVersion a < vc_version x)"
  proof cases
    case 1
    then show ?thesis using assms(1) by (simp add: extends_def)
  next
    case 2
    then show ?thesis using assms(1) by (simp add: extends_def)
  qed
qed

lemma amap_set_entries: "amap_wf m \<Longrightarrow> (k', v') \<in> set (amap_set m k v) \<longleftrightarrow> (if k' = k then v' = v else (k', v') \<in> set m)"
proof -
  assume w: "amap_wf m"
  have "(k', v') \<in> set (amap_set m k v) \<longleftrightarrow> amap_get (amap_set m k v) k' = Some v'"
    by (rule amap_get_iff_mem [OF amap_wf_set [OF w], symmetric])
  also have "\<dots> \<longleftrightarrow> (if k' = k then v' = v else amap_get m k' = Some v')" by auto
  finally show ?thesis by (simp only: amap_get_iff_mem [OF w])
qed

lemma change_ok_mono: "change_ok n c \<Longrightarrow> n \<le> n' \<Longrightarrow> change_ok n' c"
  unfolding change_ok_def by (meson order_trans)

lemma set_change_ok:
  assumes "tracker_ok t" "change_ok (tk_nextVersion t + 1) (k, c)"
  shows "tracker_ok (t\<lparr>tk_nextVersion := tk_nextVersion t + 1, tk_changes := amap_set (tk_changes t) k c\<rparr>)"
proof -
  have w: "amap_wf (tk_changes t)" using assms(1) by (simp add: tracker_ok_def)
  have "change_ok (tk_nextVersion t + 1) (k', c')" if "(k', c') \<in> set (amap_set (tk_changes t) k c)" for k' c'
  proof (cases "k' = k")
    case True
    then show ?thesis using that w assms(2) by (simp add: amap_set_entries)
  next
    case False
    then have "(k', c') \<in> set (tk_changes t)" using that w by (simp add: amap_set_entries)
    then have "change_ok (tk_nextVersion t) (k', c')" using assms(1) by (auto simp: tracker_ok_def list_all_iff)
    then show ?thesis by (rule change_ok_mono) simp
  qed
  then have "list_all (change_ok (tk_nextVersion t + 1)) (amap_set (tk_changes t) k c)" by (auto simp: list_all_iff)
  then show ?thesis using w by (simp add: tracker_ok_def amap_wf_set)
qed

lemma record_ok:
  assumes "tracker_ok t"
  shows "tracker_ok (recordUpsert p t)" "tracker_ok (recordDelete k i t)"
proof -
  show "tracker_ok (recordUpsert p t)"
    unfolding recordUpsert_def Let_def by (rule set_change_ok [OF assms]) (auto simp: change_ok_def upsert_ok_def tkey_def)
  show "tracker_ok (recordDelete k i t)"
    unfolding recordDelete_def Let_def by (rule set_change_ok [OF assms]) (auto simp: change_ok_def tkey_def)
qed

lemma record_extends: "extends t (recordUpsert p t)" "extends t (recordDelete k i t)"
  by (auto simp: extends_def recordUpsert_def recordDelete_def Let_def)

lemma record_get:
  "amap_get (tk_changes (recordUpsert p t)) (tkey k i) = (if k = payload_kind p \<and> i = payload_id p
     then Some \<lparr>vc_version = tk_nextVersion t + 1, vc_entry = Some \<lparr>eu_id = payload_id p, eu_kind = payload_kind p,
       eu_timestamp = payload_timestamp p, eu_payload = p, eu_sequence = None\<rparr>, vc_deleted = False\<rparr>
     else amap_get (tk_changes t) (tkey k i))"
  "amap_get (tk_changes (recordDelete k' i' t)) (tkey k i) = (if k = k' \<and> i = i'
     then Some \<lparr>vc_version = tk_nextVersion t + 1, vc_entry = None, vc_deleted = True\<rparr> else amap_get (tk_changes t) (tkey k i))"
  by (auto simp: recordUpsert_def recordDelete_def Let_def tkey_def)

text \<open>The table with the pending changes laid over it.\<close>

definition overlay :: "change_tracker \<Rightarrow> transcript_table \<Rightarrow> ident \<Rightarrow> transcript_kind \<Rightarrow> ident \<Rightarrow> (timestamp \<times> transcript_payload option) option" where
  "overlay t tab r k i = (case amap_get (tk_changes t) (tkey k i) of None \<Rightarrow> contents tab r (tkey k i) | Some c \<Rightarrow> change_content c)"

lemma overlay_record:
  "overlay (recordUpsert p t) tab r k i = (if k = payload_kind p \<and> i = payload_id p then Some (content_of p) else overlay t tab r k i)"
  "overlay (recordDelete k' i' t) tab r k i = (if k = k' \<and> i = i' then None else overlay t tab r k i)"
  by (simp_all add: overlay_def record_get change_content_def)

lemma evictions:
  "overlay (recordEvictions k' is t) tab r k i = (if k = k' \<and> i \<in> set is then None else overlay t tab r k i)"
  "extends t (recordEvictions k' is t)" "tracker_ok t \<Longrightarrow> tracker_ok (recordEvictions k' is t)"
proof -
  show "overlay (recordEvictions k' is t) tab r k i = (if k = k' \<and> i \<in> set is then None else overlay t tab r k i)"
    unfolding recordEvictions_def by (induction "is" arbitrary: t) (auto simp: overlay_record)
  show "extends t (recordEvictions k' is t)"
    unfolding recordEvictions_def
  proof (induction "is" arbitrary: t)
    case (Cons i "is")
    show ?case using extends_trans [OF record_extends(2) Cons.IH] by simp
  qed (simp add: extends_refl)
  show "tracker_ok t \<Longrightarrow> tracker_ok (recordEvictions k' is t)"
    unfolding recordEvictions_def by (induction "is" arbitrary: t) (auto simp: record_ok)
qed

section \<open>Collections and their changes\<close>

lemma find_None: "find P xs = None \<longleftrightarrow> (\<forall>x \<in> set xs. \<not> P x)"
  by (auto simp: find_None_iff)

lemma find_absent: "i \<notin> key ` set xs \<Longrightarrow> find (\<lambda>x. key x = i) xs = None"
  by (induction xs) auto

lemma find_snoc: "i \<notin> key ` set xs \<Longrightarrow> find (\<lambda>x. key x = i) (xs @ [e]) = (if key e = i then Some e else None)"
  by (induction xs) auto

lemma find_other: "key e \<noteq> i \<Longrightarrow> find (\<lambda>x. key x = i) (xs @ [e]) = find (\<lambda>x. key x = i) xs"
  by (induction xs) auto

lemma find_append: "find P (xs @ ys) = (case find P xs of None \<Rightarrow> find P ys | r \<Rightarrow> r)"
  by (induction xs) auto

text \<open>What a list finds after an insertion: the new entry, nothing for an evicted one, and the old entries.\<close>

lemma list_upsert_find:
  assumes u: "list_upsert key cap e xs = (ev, b, ys)" and d: "distinct (map key xs)" and c: "\<And>c. cap = Some c \<Longrightarrow> length xs \<le> c"
  shows "find (\<lambda>x. key x = i) ys = (if i = key e \<and> i \<in> key ` set ys then Some e
    else if i \<in> key ` set ev then None else find (\<lambda>x. key x = i) xs)"
    "key e \<in> key ` set ys \<or> key e \<in> key ` set ev"
proof -
  consider (old) "key e \<in> key ` set xs" "ev = []" "ys = map (\<lambda>x. if key x = key e then e else x) xs"
    | (zero) "key e \<notin> key ` set xs" "cap = Some 0" "ev = [e]" "ys = xs" "xs = []"
    | (full) r rs where "key e \<notin> key ` set xs" "xs = r # rs" "ev = [r]" "ys = rs @ [e]"
    | (free) "key e \<notin> key ` set xs" "ev = []" "ys = xs @ [e]"
    using u c [of 0] by (cases xs) (auto simp: list_upsert_def split: if_splits)
  then have "find (\<lambda>x. key x = i) ys = (if i = key e \<and> i \<in> key ` set ys then Some e
      else if i \<in> key ` set ev then None else find (\<lambda>x. key x = i) xs) \<and> (key e \<in> key ` set ys \<or> key e \<in> key ` set ev)"
  proof cases
    case old
    have "find (\<lambda>x. key x = i) (map (\<lambda>x. if key x = key e then e else x) xs)
        = (if i = key e \<and> key e \<in> key ` set xs then Some e else find (\<lambda>x. key x = i) xs)"
      by (induction xs) auto
    moreover have "key ` set ys = key ` set xs" using map_key_update [of key e xs] old(3) by (metis list.set_map)
    ultimately show ?thesis using old by simp
  next
    case full
    then have n: "key r \<notin> key ` set rs" "key e \<notin> key ` set rs" "key e \<noteq> key r" using d by auto
    consider "i = key e" | "i = key r" | "i \<noteq> key e" "i \<noteq> key r" by blast
    then show ?thesis
    proof cases
      case 1
      then show ?thesis using full n by (simp add: find_snoc)
    next
      case 2
      then show ?thesis using full n by (simp add: find_snoc)
    next
      case 3
      then show ?thesis using full by (simp add: find_other)
    qed
  next
    case free
    then show ?thesis by (cases "i = key e") (simp_all add: find_snoc find_other)
  qed simp
  then show "find (\<lambda>x. key x = i) ys = (if i = key e \<and> i \<in> key ` set ys then Some e
    else if i \<in> key ` set ev then None else find (\<lambda>x. key x = i) xs)"
    "key e \<in> key ` set ys \<or> key e \<in> key ` set ev" by simp_all
qed

definition collection_ok :: "('a \<Rightarrow> ident) \<Rightarrow> 'a memory_index \<Rightarrow> bool" where
  "collection_ok key m \<longleftrightarrow> index_ok key m"

lemma values_in_capacity: "index_ok key m \<Longrightarrow> mi_capacity m = Some c \<Longrightarrow> length (index_values m) \<le> c"
  using index_values_ring(2) [of m c] by (auto simp: index_ok_def ring_shape_def)

text \<open>The kinds of entries share one contract: each is wrapped into a payload that carries its kind and its id.\<close>

locale stored_kind =
  fixes key :: "'a \<Rightarrow> ident" and wrap :: "'a \<Rightarrow> transcript_payload" and kind :: transcript_kind
  assumes kind: "payload_kind (wrap x) = kind" and id: "payload_id (wrap x) = key x"
begin

definition held :: "'a memory_index \<Rightarrow> ident \<Rightarrow> (timestamp \<times> transcript_payload option) option" where
  "held m i = map_option (\<lambda>x. content_of (wrap x)) (find (\<lambda>x. key x = i) (index_values m))"

lemma put_overlay:
  assumes ok: "index_ok key m" and t: "tracker_ok t" and p: "put_payload key wrap x m t = (m', t')"
    and inv: "\<And>i. overlay t tab r kind i = held m i"
  shows "index_ok key m'" "tracker_ok t'" "extends t t'" "overlay t' tab r kind i = held m' i"
    "k \<noteq> kind \<Longrightarrow> overlay t' tab r k i = overlay t tab r k i"
proof -
  obtain ev b where u: "index_upsert key x m = (ev, b, m')" using p by (auto simp: put_payload_def Let_def split: prod.splits)
  note ref = index_upsert_refines [OF ok u]
  show ok': "index_ok key m'" by (rule ref(1))
  let ?t = "recordEvictions kind (map key ev) t"
  have t': "t' = (if key x \<in> key ` set (index_values m') then recordUpsert (wrap x) ?t else ?t)"
    using p u index_has_iff [OF ok'] by (auto simp: put_payload_def Let_def kind)
  show "tracker_ok t'" unfolding t' using t by (simp add: record_ok evictions(3))
  show "extends t t'" unfolding t' using extends_trans [OF evictions(2) record_extends(1)] by (simp add: evictions(2))
  show "k \<noteq> kind \<Longrightarrow> overlay t' tab r k i = overlay t tab r k i"
    unfolding t' by (simp add: overlay_record evictions(1) kind)
  have d: "distinct (map key (index_values m))" using ok by (simp add: index_ok_def)
  have f: "find (\<lambda>y. key y = i) (index_values m') = (if i = key x \<and> i \<in> key ` set (index_values m') then Some x
      else if i \<in> key ` set ev then None else find (\<lambda>y. key y = i) (index_values m))"
    by (rule list_upsert_find(1) [OF ref(3) [symmetric] d values_in_capacity [OF ok]])
  have o: "overlay t' tab r kind i = (if i = key x \<and> i \<in> key ` set (index_values m') then Some (content_of (wrap x))
      else if i \<in> key ` set ev then None else overlay t tab r kind i)"
    unfolding t' by (auto simp: overlay_record evictions(1) kind id)
  show "overlay t' tab r kind i = held m' i"
  proof (cases "i = key x \<and> i \<in> key ` set (index_values m')")
    case True
    show ?thesis unfolding o held_def f if_P [OF True] by simp
  next
    case False
    show ?thesis unfolding o held_def f if_not_P [OF False]
      by (cases "i \<in> key ` set ev") (simp_all add: inv [unfolded held_def])
  qed
qed

end

interpretation messages: stored_kind msg_id PMessage KindMessage
  by unfold_locales simp_all

interpretation tools: stored_kind tool_id PTool KindTool
  by unfold_locales simp_all

interpretation logs: stored_kind log_id PLog KindLog
  by unfold_locales simp_all

section \<open>The transcript in memory\<close>

definition memory :: "transcript_state \<Rightarrow> transcript_kind \<Rightarrow> ident \<Rightarrow> (timestamp \<times> transcript_payload option) option" where
  "memory s k i = (case k of
       KindMessage \<Rightarrow> map_option (\<lambda>x. content_of (PMessage x)) (find (\<lambda>x. msg_id x = i) (ts_messages s))
     | KindTool \<Rightarrow> map_option (\<lambda>x. content_of (PTool x)) (find (\<lambda>x. tool_id x = i) (ts_toolCalls s))
     | KindLog \<Rightarrow> map_option (\<lambda>x. content_of (PLog x)) (find (\<lambda>x. log_id x = i) (ts_logs s)))"

lemma memory_projection:
  "memory (projection_state p) KindMessage i = messages.held (pj_messages p) i"
  "memory (projection_state p) KindTool i = tools.held (pj_tools p) i"
  "memory (projection_state p) KindLog i = logs.held (pj_logs p) i"
  by (simp_all add: memory_def projection_state_def messages.held_def tools.held_def logs.held_def)

definition projection_ok :: "projection \<Rightarrow> bool" where
  "projection_ok p \<longleftrightarrow> index_ok msg_id (pj_messages p) \<and> index_ok tool_id (pj_tools p) \<and> index_ok log_id (pj_logs p) \<and> tracker_ok (pj_changes p)"

definition in_step :: "transcript_table \<Rightarrow> ident \<Rightarrow> projection \<Rightarrow> bool" where
  "in_step tab r p \<longleftrightarrow> projection_ok p \<and> (\<forall>k i. overlay (pj_changes p) tab r k i = memory (projection_state p) k i)"

lemma in_step_kinds:
  "in_step tab r p \<longleftrightarrow> projection_ok p
     \<and> (\<forall>i. overlay (pj_changes p) tab r KindMessage i = messages.held (pj_messages p) i)
     \<and> (\<forall>i. overlay (pj_changes p) tab r KindTool i = tools.held (pj_tools p) i)
     \<and> (\<forall>i. overlay (pj_changes p) tab r KindLog i = logs.held (pj_logs p) i)"
proof -
  have "(\<forall>k. P k) \<longleftrightarrow> P KindMessage \<and> P KindTool \<and> P KindLog" for P by (metis transcript_kind.exhaust)
  then show ?thesis unfolding in_step_def by (simp add: memory_projection)
qed

lemma in_step_put_message:
  assumes "in_step tab r p" and p: "put_payload msg_id PMessage x (pj_messages p) (pj_changes p) = (ms, t)"
  shows "in_step tab r (advance (p\<lparr>pj_messages := ms, pj_changes := t\<rparr>)) \<and> extends (pj_changes p) t"
proof -
  note a = messages.put_overlay [where tab = tab and r = r, OF _ _ p]
  from assms(1) show ?thesis unfolding in_step_kinds using a by (simp add: advance_def projection_ok_def)
qed

lemma in_step_message:
  assumes "in_step tab r p"
  shows "in_step tab r (upsertMessage x p) \<and> extends (pj_changes p) (pj_changes (upsertMessage x p))"
  using in_step_put_message [OF assms] by (auto simp: upsertMessage_def Let_def advance_def split: prod.splits)

lemma in_step_put_log:
  assumes "in_step tab r p" and p: "put_payload log_id PLog x (pj_logs p) (pj_changes p) = (ms, t)"
  shows "in_step tab r (advance (p\<lparr>pj_logs := ms, pj_changes := t\<rparr>)) \<and> extends (pj_changes p) t"
proof -
  note a = logs.put_overlay [where tab = tab and r = r, OF _ _ p]
  from assms(1) show ?thesis unfolding in_step_kinds using a by (simp add: advance_def projection_ok_def)
qed

lemma in_step_log:
  assumes "in_step tab r p"
  shows "in_step tab r (upsertLog x p) \<and> extends (pj_changes p) (pj_changes (upsertLog x p))"
  using in_step_put_log [OF assms] by (auto simp: upsertLog_def advance_def split: prod.splits)

lemma in_step_put_tool:
  assumes "in_step tab r p" and p: "put_payload tool_id PTool x (pj_tools p) (pj_changes p) = (ms, t)"
  shows "in_step tab r (advance (p\<lparr>pj_tools := ms, pj_changes := t\<rparr>)) \<and> extends (pj_changes p) t"
proof -
  note a = tools.put_overlay [where tab = tab and r = r, OF _ _ p]
  from assms(1) show ?thesis unfolding in_step_kinds using a by (simp add: advance_def projection_ok_def)
qed

lemma in_step_tool:
  assumes "in_step tab r p"
  shows "in_step tab r (upsertToolCall x p) \<and> extends (pj_changes p) (pj_changes (upsertToolCall x p))"
  using in_step_put_tool [OF assms] by (auto simp: upsertToolCall_def Let_def advance_def split: prod.splits)

lemma in_step_delta:
  assumes "in_step tab r p"
  shows "in_step tab r (upsertMessageDelta i role b d ts p) \<and> extends (pj_changes p) (pj_changes (upsertMessageDelta i role b d ts p))"
  unfolding upsertMessageDelta_def Let_def by (rule in_step_message [OF assms])

lemma in_step_tools:
  "in_step tab r p \<Longrightarrow> in_step tab r (fold upsertToolCall cs p) \<and> extends (pj_changes p) (pj_changes (fold upsertToolCall cs p))"
proof (induction cs arbitrary: p)
  case (Cons c cs)
  note one = in_step_tool [OF Cons.prems, of c]
  note rest = Cons.IH [OF conjunct1 [OF one]]
  from rest extends_trans [OF conjunct2 [OF one] conjunct2 [OF rest]] show ?case by simp
qed (simp add: extends_refl)

lemma in_step_finalize:
  assumes "in_step tab r p"
  shows "in_step tab r (snd (finalizeInFlightToolCalls now out p)) \<and> extends (pj_changes p) (pj_changes (snd (finalizeInFlightToolCalls now out p)))"
  using in_step_tools [OF assms] by (simp add: finalizeInFlightToolCalls_def Let_def)

text \<open>Changing an entry that exists evicts nothing.\<close>

lemma put_existing:
  assumes ok: "index_ok key m" and g: "index_get m i = Some y" and k: "key x = i"
  shows "put_payload key wrap x m t = (snd (snd (index_upsert key x m)), recordUpsert (wrap x) t)"
proof -
  obtain ev b m' where u: "index_upsert key x m = (ev, b, m')" by (metis prod_cases3)
  note ref = index_upsert_refines [OF ok u]
  have "i \<in> key ` set (index_values m)" using g index_get_find [OF ok, of i] by (auto simp: find_Some_iff)
  then have l: "ev = []" "index_values m' = map (\<lambda>y. if key y = key x then x else y) (index_values m)" "i \<in> key ` set (index_values m)"
    using ref(3) k by (simp_all add: list_upsert_def)
  have "key ` set (index_values m') = key ` set (index_values m)"
    using map_key_update [of key x "index_values m"] l(2) by (metis list.set_map)
  then have "index_has m' (key x)" using l(3) k index_has_iff [OF ref(1)] by simp
  then show ?thesis using u l(1) by (simp add: put_payload_def recordEvictions_def)
qed

lemma in_step_extra:
  assumes "in_step tab r p"
  shows "in_step tab r (snd (upsertToolCallExtra_of i e p)) \<and> extends (pj_changes p) (pj_changes (snd (upsertToolCallExtra_of i e p)))"
proof (cases "index_get (pj_tools p) i")
  case None
  then show ?thesis using assms by (simp add: upsertToolCallExtra_of_def extends_refl)
next
  case (Some c)
  let ?c = "c\<lparr>tool_extras := Some (upsertToolCallExtra (tool_extras c) e)\<rparr>"
  have ok: "index_ok tool_id (pj_tools p)" using assms by (simp add: in_step_def projection_ok_def)
  have "tool_id ?c = i" using Some index_get_find [OF ok, of i] by (auto simp: find_Some_iff)
  from in_step_put_tool [OF assms put_existing [OF ok Some this]] Some show ?thesis
    by (simp add: upsertToolCallExtra_of_def Let_def advance_def)
qed

section \<open>Snapshots and acknowledgements\<close>

lemma split_tkey [simp]: "split_key (tkey k i) = (k, i)"
  by (cases k) (simp_all add: split_key_def tkey_def getTranscriptEntryKey_def kind_of_name_def)

lemma snapshot_upserts:
  assumes "list_all (change_ok n) m" "amap_wf m"
  defines "us \<equiv> List.map_filter (\<lambda>c. if vc_deleted (snd c) then None else vc_entry (snd c)) m"
  shows "list_all upsert_ok us" "distinct (map upsert_key us)" "upsert_key ` set us \<subseteq> fst ` set m"
    "map_of (map (\<lambda>e. (upsert_key e, content_of (eu_payload e))) us) K
      = (case amap_get m K of None \<Rightarrow> None | Some c \<Rightarrow> change_content c)"
proof -
  have "list_all upsert_ok us \<and> distinct (map upsert_key us) \<and> upsert_key ` set us \<subseteq> fst ` set m
    \<and> map_of (map (\<lambda>e. (upsert_key e, content_of (eu_payload e))) us) K = (case amap_get m K of None \<Rightarrow> None | Some c \<Rightarrow> change_content c)"
    unfolding us_def using assms(1,2)
  proof (induction m)
    case (Cons kc m)
    obtain k c where kc: "kc = (k, c)" by (cases kc)
    let ?us = "List.map_filter (\<lambda>c. if vc_deleted (snd c) then None else vc_entry (snd c)) m"
    from Cons have IH: "list_all upsert_ok ?us" "distinct (map upsert_key ?us)" "upsert_key ` set ?us \<subseteq> fst ` set m"
      "map_of (map (\<lambda>e. (upsert_key e, content_of (eu_payload e))) ?us) K = (case amap_get m K of None \<Rightarrow> None | Some c \<Rightarrow> change_content c)"
      by (simp_all add: amap_wf_def)
    have k: "k \<notin> fst ` set m" using Cons.prems(2) by (simp add: kc amap_wf_def)
    have n: "amap_get m k = None" using k by (simp add: amap_get_def map_of_eq_None_iff)
    show ?case
    proof (cases "vc_deleted c")
      case True
      then show ?thesis using IH n by (auto simp: kc List.map_filter_simps amap_get_def change_content_def split: option.splits if_splits)
    next
      case False
      with Cons.prems(1) obtain e where e: "vc_entry c = Some e" "upsert_ok e" "k = upsert_key e"
        by (auto simp: kc change_ok_def upsert_key_def tkey_def)
      then show ?thesis using IH k False by (auto simp: kc List.map_filter_simps amap_get_def change_content_def)
    qed
  qed (simp add: List.map_filter_simps)
  then show "list_all upsert_ok us" "distinct (map upsert_key us)" "upsert_key ` set us \<subseteq> fst ` set m"
    "map_of (map (\<lambda>e. (upsert_key e, content_of (eu_payload e))) us) K = (case amap_get m K of None \<Rightarrow> None | Some c \<Rightarrow> change_content c)"
    by simp_all
qed

lemma snapshot_deletes:
  assumes "tracker_ok t"
  shows "tkey k i \<in> (\<lambda>d. getTranscriptEntryKey (fst d) (snd d)) ` set (cs_deletes (sn_changes (tracker_snapshot s t)))
    \<longleftrightarrow> (\<exists>c. amap_get (tk_changes t) (tkey k i) = Some c \<and> vc_deleted c)"
proof -
  have w: "amap_wf (tk_changes t)" using assms by (simp add: tracker_ok_def)
  have f: "fst x = tkey (fst (split_key (fst x))) (snd (split_key (fst x)))" if "x \<in> set (tk_changes t)" for x
    using assms that by (auto simp: tracker_ok_def list_all_iff change_ok_def)
  have "tkey k i \<in> (\<lambda>d. getTranscriptEntryKey (fst d) (snd d)) ` set (cs_deletes (sn_changes (tracker_snapshot s t)))
    \<longleftrightarrow> (\<exists>x \<in> set (tk_changes t). vc_deleted (snd x) \<and> fst x = tkey k i)"
  proof -
    have d: "cs_deletes (sn_changes (tracker_snapshot s t)) = map (split_key \<circ> fst) (filter (\<lambda>c. vc_deleted (snd c)) (tk_changes t))"
      by (simp add: tracker_snapshot_def createTranscriptChangeSet_def)
    have "(\<lambda>d. getTranscriptEntryKey (fst d) (snd d)) ` set (cs_deletes (sn_changes (tracker_snapshot s t)))
      = (\<lambda>x. tkey (fst (split_key (fst x))) (snd (split_key (fst x)))) ` {x \<in> set (tk_changes t). vc_deleted (snd x)}"
      unfolding d by (simp add: image_image tkey_def)
    also have "\<dots> = fst ` {x \<in> set (tk_changes t). vc_deleted (snd x)}"
      by (rule image_cong) (use f in auto)
    finally have k: "(\<lambda>d. getTranscriptEntryKey (fst d) (snd d)) ` set (cs_deletes (sn_changes (tracker_snapshot s t)))
      = fst ` {x \<in> set (tk_changes t). vc_deleted (snd x)}" .
    show ?thesis unfolding k by force
  qed
  also have "\<dots> \<longleftrightarrow> (\<exists>c. amap_get (tk_changes t) (tkey k i) = Some c \<and> vc_deleted c)"
    by (auto simp: amap_get_iff_mem [OF w] Bex_def)
  finally show ?thesis .
qed

text \<open>Writing the snapshot of all changes makes the table the overlay.\<close>

lemma snapshot_written:
  assumes "tracker_ok t" "owned tab r u"
  shows "contents (fst (applyTranscriptChangeSet tab live r u (sn_changes (tracker_snapshot s t)) now)) r (tkey k i) = overlay t tab r k i"
    "owned (fst (applyTranscriptChangeSet tab live r u (sn_changes (tracker_snapshot s t)) now)) r u"
proof -
  let ?cs = "sn_changes (tracker_snapshot s t)"
  have ok: "list_all (change_ok (tk_nextVersion t)) (tk_changes t)" "amap_wf (tk_changes t)" using assms(1) by (simp_all add: tracker_ok_def)
  note us = snapshot_upserts [OF ok]
  have cs: "cs_upserts ?cs = List.map_filter (\<lambda>c. if vc_deleted (snd c) then None else vc_entry (snd c)) (tk_changes t)"
    by (simp add: tracker_snapshot_def createTranscriptChangeSet_def)
  note a = apply_changes_contents [OF assms(2), of ?cs, unfolded cs, OF us(1,2)]
  show "owned (fst (applyTranscriptChangeSet tab live r u ?cs now)) r u" by (rule a(2))
  have some: "change_content c \<noteq> None" if "amap_get (tk_changes t) K = Some c" "\<not> vc_deleted c" for K c
  proof -
    have "(K, c) \<in> set (tk_changes t)" using that ok(2) by (simp add: amap_get_iff_mem)
    with ok(1) have "change_ok (tk_nextVersion t) (K, c)" by (auto simp: list_all_iff)
    with that(2) show ?thesis by (auto simp: change_ok_def change_content_def)
  qed
  show "contents (fst (applyTranscriptChangeSet tab live r u ?cs now)) r (tkey k i) = overlay t tab r k i"
  proof (cases "amap_get (tk_changes t) (tkey k i)")
    case None
    then show ?thesis unfolding a(1) us(4) by (simp add: snapshot_deletes [OF assms(1)] overlay_def)
  next
    case (Some c)
    then show ?thesis unfolding a(1) us(4) using some [OF Some]
      by (cases "vc_deleted c") (auto simp: snapshot_deletes [OF assms(1)] overlay_def change_content_def)
  qed
qed

definition acknowledge_one :: "string \<times> nat \<Rightarrow> (string, versioned_change) amap \<Rightarrow> (string, versioned_change) amap" where
  "acknowledge_one kv m = (case amap_get m (fst kv) of Some c \<Rightarrow> if vc_version c = snd kv then amap_delete m (fst kv) else m | None \<Rightarrow> m)"

lemma acknowledge_fold: "tk_changes (tracker_acknowledge sn t) = fold acknowledge_one (sn_versions sn) (tk_changes t)"
proof -
  have "(\<lambda>(k, v) m. case amap_get m k of Some c \<Rightarrow> if vc_version c = v then amap_delete m k else m | None \<Rightarrow> m) = acknowledge_one"
  proof (intro ext)
    fix kv m
    show "(case kv of (k, v) \<Rightarrow> \<lambda>m. case amap_get m k of Some c \<Rightarrow> if vc_version c = v then amap_delete m k else m | None \<Rightarrow> m) m = acknowledge_one kv m"
      by (cases kv) (simp add: acknowledge_one_def cong: if_cong option.case_cong)
  qed
  then show ?thesis by (simp add: tracker_acknowledge_def)
qed

lemma acknowledge_get:
  "amap_get (tk_changes (tracker_acknowledge sn t)) K = (case amap_get (tk_changes t) K of None \<Rightarrow> None
     | Some c \<Rightarrow> if (K, vc_version c) \<in> set (sn_versions sn) then None else Some c)"
proof -
  have "amap_get (fold acknowledge_one vs m) K = (case amap_get m K of None \<Rightarrow> None
     | Some c \<Rightarrow> if (K, vc_version c) \<in> set vs then None else Some c)" for vs m
  proof (induction vs arbitrary: m)
    case (Cons kv vs)
    have "amap_get (acknowledge_one kv m) K = (case amap_get m K of None \<Rightarrow> None | Some c \<Rightarrow> if kv = (K, vc_version c) then None else Some c)"
      by (cases kv) (auto simp: acknowledge_one_def split: option.splits)
    with Cons.IH show ?case by (auto split: option.splits)
  qed (simp split: option.splits)
  then show ?thesis by (simp add: acknowledge_fold)
qed

lemma acknowledge_ok: "tracker_ok t \<Longrightarrow> tracker_ok (tracker_acknowledge sn t)"
proof -
  assume ok: "tracker_ok t"
  have one: "amap_wf m \<and> list_all P m \<Longrightarrow> amap_wf (acknowledge_one kv m) \<and> list_all P (acknowledge_one kv m)" for kv P and m :: "(string, versioned_change) amap"
    by (auto simp: acknowledge_one_def amap_wf_filter amap_delete_def list_all_iff split: option.splits)
  have "amap_wf m \<and> list_all P m \<Longrightarrow> amap_wf (fold acknowledge_one vs m) \<and> list_all P (fold acknowledge_one vs m)" for vs P m
  proof (induction vs arbitrary: m)
    case (Cons kv vs)
    from Cons.IH [OF one [OF Cons.prems]] show ?case by simp
  qed simp
  moreover have "tk_nextVersion (tracker_acknowledge sn t) = tk_nextVersion t" by (simp add: tracker_acknowledge_def)
  ultimately show ?thesis using ok unfolding tracker_ok_def acknowledge_fold by metis
qed

section \<open>Nothing is lost\<close>

text \<open>While a write is on its way, the changes it took and that are still the newest are in the table.\<close>

definition saving_ok :: "live_stream \<Rightarrow> bool" where
  "saving_ok s \<longleftrightarrow> (case sv_snapshot (ls_saving s) of None \<Rightarrow> True
     | Some (sn, v, b) \<Rightarrow> sv_saved (ls_saving s) \<longrightarrow> (\<forall>(K, n) \<in> set (sn_versions sn).
         n \<le> tk_nextVersion (pj_changes (ls_projection s))
         \<and> (\<forall>c. amap_get (tk_changes (pj_changes (ls_projection s))) K = Some c \<and> vc_version c = n
               \<longrightarrow> contents (ls_table s) (ls_resource s) K = change_content c)))"

definition stream_ok :: "live_stream \<Rightarrow> bool" where
  "stream_ok s \<longleftrightarrow> owned (ls_table s) (ls_resource s) (ls_user s) \<and> in_step (ls_table s) (ls_resource s) (ls_projection s) \<and> saving_ok s"

lemma on_projection_ok:
  assumes "stream_ok s"
    and f: "in_step (ls_table s) (ls_resource s) (f (ls_projection s)) \<and> extends (pj_changes (ls_projection s)) (pj_changes (f (ls_projection s)))"
  shows "stream_ok (on_projection f s)"
proof -
  let ?t = "pj_changes (ls_projection s)" and ?t' = "pj_changes (f (ls_projection s))"
  have "saving_ok (on_projection f s)"
    unfolding saving_ok_def
  proof (cases "sv_snapshot (ls_saving s)")
    case (Some x)
    obtain sn v b where x: "x = (sn, v, b)" by (cases x)
    have "n \<le> tk_nextVersion ?t' \<and> (\<forall>c. amap_get (tk_changes ?t') K = Some c \<and> vc_version c = n \<longrightarrow> contents (ls_table s) (ls_resource s) K = change_content c)"
      if sv: "sv_saved (ls_saving s)" and kn: "(K, n) \<in> set (sn_versions sn)" for K n
    proof -
      have o: "n \<le> tk_nextVersion ?t" "\<And>c. amap_get (tk_changes ?t) K = Some c \<Longrightarrow> vc_version c = n \<Longrightarrow> contents (ls_table s) (ls_resource s) K = change_content c"
        using assms(1) sv kn by (auto simp: stream_ok_def saving_ok_def Some x)
      have e: "tk_nextVersion ?t \<le> tk_nextVersion ?t'"
        "amap_get (tk_changes ?t') K = amap_get (tk_changes ?t) K \<or> (\<exists>c. amap_get (tk_changes ?t') K = Some c \<and> tk_nextVersion ?t < vc_version c)"
        using f by (simp_all add: extends_def)
      show ?thesis
      proof (intro conjI allI impI)
        show "n \<le> tk_nextVersion ?t'" using o(1) e(1) by simp
        fix c assume c: "amap_get (tk_changes ?t') K = Some c \<and> vc_version c = n"
        with e(2) o(1) have "amap_get (tk_changes ?t) K = Some c" by auto
        with o(2) c show "contents (ls_table s) (ls_resource s) K = change_content c" by simp
      qed
    qed
    then show "case sv_snapshot (ls_saving (on_projection f s)) of None \<Rightarrow> True
     | Some (sn, v, b) \<Rightarrow> sv_saved (ls_saving (on_projection f s)) \<longrightarrow> (\<forall>(K, n) \<in> set (sn_versions sn).
         n \<le> tk_nextVersion (pj_changes (ls_projection (on_projection f s)))
         \<and> (\<forall>c. amap_get (tk_changes (pj_changes (ls_projection (on_projection f s)))) K = Some c \<and> vc_version c = n
               \<longrightarrow> contents (ls_table (on_projection f s)) (ls_resource (on_projection f s)) K = change_content c))"
      by (auto simp: on_projection_def Some x)
  qed (simp add: on_projection_def)
  then show ?thesis using assms by (simp add: stream_ok_def on_projection_def)
qed

lemma snapshot_versions_mem:
  assumes "tracker_ok t" "(K, n) \<in> set (sn_versions (tracker_snapshot st t))"
  shows "\<exists>c. amap_get (tk_changes t) K = Some c \<and> vc_version c = n \<and> n \<le> tk_nextVersion t \<and> (\<exists>k i. K = tkey k i)"
proof -
  from assms(2) obtain c where c: "(K, c) \<in> set (tk_changes t)" "n = vc_version c" by (auto simp: tracker_snapshot_def)
  then have "change_ok (tk_nextVersion t) (K, c)" "amap_get (tk_changes t) K = Some c"
    using assms(1) by (auto simp: tracker_ok_def list_all_iff amap_get_iff_mem)
  with c(2) show ?thesis by (auto simp: change_ok_def)
qed

lemma begin_ok:
  assumes "stream_ok s"
  shows "stream_ok (persist_begin now ok s)"
proof -
  let ?p = "ls_projection s" and ?r = "ls_resource s"
  let ?sn = "tracker_snapshot (projection_state ?p) (pj_changes ?p)"
  have own: "owned (ls_table s) ?r (ls_user s)" and st: "in_step (ls_table s) ?r ?p" and tk: "tracker_ok (pj_changes ?p)"
    using assms by (auto simp: stream_ok_def in_step_def projection_ok_def)
  note w = snapshot_written [OF tk own, where s = "projection_state ?p" and live = "ls_live s" and now = now]
  obtain tab live where ap: "applyTranscriptChangeSet (ls_table s) (ls_live s) ?r (ls_user s) (sn_changes ?sn) now = (tab, live)" by (metis surj_pair)
  have tab: "contents tab ?r (tkey k i) = overlay (pj_changes ?p) (ls_table s) ?r k i" "owned tab ?r (ls_user s)" for k i
    using w(1) [where k = k and i = i] w(2) by (simp_all add: ap)
  have "overlay (pj_changes ?p) tab ?r k i = overlay (pj_changes ?p) (ls_table s) ?r k i" for k i
    using tab(1) [of k i] by (simp add: overlay_def split: option.splits)
  then have st': "in_step tab ?r ?p" using st by (simp add: in_step_def)
  have ver: "n \<le> tk_nextVersion (pj_changes ?p) \<and> (\<forall>c. amap_get (tk_changes (pj_changes ?p)) K = Some c \<and> vc_version c = n \<longrightarrow> contents tab ?r K = change_content c)"
    if "(K, n) \<in> set (sn_versions ?sn)" for K n
    using snapshot_versions_mem [OF tk that] tab(1) by (auto simp: overlay_def)
  show ?thesis
    using own st st' tab(2) ver by (auto simp: persist_begin_def Let_def ap stream_ok_def saving_ok_def)
qed

lemma end_ok:
  assumes "stream_ok s" "sv_saved (ls_saving s)"
  shows "stream_ok (persist_end now s)"
proof (cases "sv_snapshot (ls_saving s)")
  case (Some x)
  obtain sn v b where x: "x = (sn, v, b)" by (cases x)
  let ?p = "ls_projection s" and ?r = "ls_resource s"
  let ?t = "pj_changes ?p"
  let ?t' = "tracker_acknowledge sn ?t"
  have own: "owned (ls_table s) ?r (ls_user s)" and st: "in_step (ls_table s) ?r ?p"
    and sv: "\<And>K n c. (K, n) \<in> set (sn_versions sn) \<Longrightarrow> n \<le> tk_nextVersion ?t \<and> (amap_get (tk_changes ?t) K = Some c \<and> vc_version c = n \<longrightarrow> contents (ls_table s) ?r K = change_content c)"
    using assms by (auto simp: stream_ok_def saving_ok_def Some x)
  have "overlay ?t' (ls_table s) ?r k i = overlay ?t (ls_table s) ?r k i" for k i
    using sv [of "tkey k i"] by (auto simp: overlay_def acknowledge_get split: option.splits)
  then have st': "in_step (ls_table s) ?r (?p\<lparr>pj_changes := ?t'\<rparr>)"
    using st acknowledge_ok [of ?t sn] by (auto simp: in_step_def projection_ok_def projection_state_def)
  have n: "tk_nextVersion ?t' = tk_nextVersion ?t" by (simp add: tracker_acknowledge_def)
  have "saving_ok (persist_end now s)"
    using sv by (fastforce simp: saving_ok_def persist_end_def Some x n acknowledge_get split: option.splits if_splits)
  then show ?thesis using own st' by (simp add: stream_ok_def persist_end_def Some x)
qed (use assms in \<open>simp add: persist_end_def\<close>)

lemma queue_ok [simp]: "stream_ok (s\<lparr>ls_queue := q\<rparr>) = stream_ok s" "stream_ok (s\<lparr>ls_policy := c\<rparr>) = stream_ok s"
  by (cases "sv_snapshot (ls_saving s)"; auto simp: stream_ok_def saving_ok_def)+

lemma step_ok:
  assumes "stream_ok s"
  shows "stream_ok (stream_step x s)"
proof -
  have st: "in_step (ls_table s) (ls_resource s) (ls_projection s)" using assms by (simp add: stream_ok_def)
  show ?thesis
  proof (cases x)
    case (StreamMessage m)
    then show ?thesis using on_projection_ok [OF assms, where f = "upsertMessage m", OF in_step_message [OF st]] by simp
  next
    case (StreamLog l)
    then show ?thesis using on_projection_ok [OF assms, where f = "upsertLog l", OF in_step_log [OF st]] by simp
  next
    case (StreamTool c)
    then show ?thesis using on_projection_ok [OF assms, where f = "upsertToolCall c", OF in_step_tool [OF st]] by simp
  next
    case (StreamExtra i e)
    then show ?thesis using on_projection_ok [OF assms, where f = "\<lambda>p. snd (upsertToolCallExtra_of i e p)", OF in_step_extra [OF st]] by simp
  next
    case (StreamDelta i role b d ts)
    then show ?thesis using on_projection_ok [OF assms, where f = "upsertMessageDelta i role b d ts", OF in_step_delta [OF st]] by simp
  next
    case (StreamFinalizeTools now out)
    then show ?thesis using on_projection_ok [OF assms, where f = "\<lambda>p. snd (finalizeInFlightToolCalls now out p)", OF in_step_finalize [OF st]] by simp
  next
    case (StreamRequest now ok)
    then show ?thesis using assms begin_ok by (simp add: request_checkpoint_def Let_def)
  next
    case (StreamResume now ok)
    then show ?thesis using assms begin_ok end_ok by (simp add: resume_drain_def Let_def)
  qed (use assms in simp_all)
qed

text \<open>The stream starts in step: the table holds the transcript, and the collections are not over their capacities.\<close>

definition fits :: "transcript_state \<Rightarrow> projection_limits \<Rightarrow> bool" where
  "fits s l \<longleftrightarrow> distinct_ids s \<and> (\<forall>c. pl_maxMessages l = Some c \<longrightarrow> length (ts_messages s) \<le> c)
     \<and> (\<forall>c. pl_maxLogs l = Some c \<longrightarrow> length (ts_logs s) \<le> c) \<and> (\<forall>c. pl_maxToolCalls l = Some c \<longrightarrow> length (ts_toolCalls s) \<le> c)"

definition stored_as :: "transcript_table \<Rightarrow> ident \<Rightarrow> transcript_state \<Rightarrow> bool" where
  "stored_as tab r s \<longleftrightarrow> (\<forall>k i. contents tab r (getTranscriptEntryKey k i) = memory s k i)"

lemma new_values:
  assumes "distinct (map key xs)" "\<And>c. cap = Some c \<Longrightarrow> length xs \<le> c"
  shows "index_values (index_new key xs cap) = xs"
  using index_new_ok(3) [OF assms(1), of cap] assms(2) by (cases cap) auto

lemma projection_new_state: "fits s l \<Longrightarrow> projection_state (projection_new s l) = s"
  by (cases s) (simp add: projection_state_def projection_new_def new_values fits_def distinct_ids_def)

lemma stream_new_ok:
  assumes "fits s l" "owned tab r u" "stored_as tab r s"
  shows "stream_ok (stream_new now r u s l dirty tab live)"
proof -
  let ?p = "projection_new s l"
  have d: "distinct (map msg_id (ts_messages s))" "distinct (map tool_id (ts_toolCalls s))" "distinct (map log_id (ts_logs s))"
    using assms(1) by (simp_all add: fits_def distinct_ids_def)
  have "projection_ok ?p" using index_new_ok(1) [OF d(1)] index_new_ok(1) [OF d(2)] index_new_ok(1) [OF d(3)]
    by (simp add: projection_ok_def projection_new_def tracker_ok_def)
  moreover have "overlay (pj_changes ?p) tab r k i = memory (projection_state ?p) k i" for k i
    unfolding projection_new_state [OF assms(1)] using assms(3) by (simp add: overlay_def projection_new_def stored_as_def tkey_def)
  ultimately show ?thesis using assms(2) by (simp add: stream_ok_def stream_new_def saving_ok_def in_step_def)
qed

interpretation stream: transitions stream_step .

lemma stream_run_ok: "stream_ok s \<Longrightarrow> stream_ok (fold stream_step xs s)"
  by (rule stream.run_invariant [where ok = "\<lambda>_. True"]) (simp_all add: step_ok list_all_iff)

section \<open>A request is honoured\<close>

text \<open>
  The changes up to a version are covered: another round is asked for, or the write on its way took those that are
  pending, or none of them is pending.
\<close>

definition pending_after :: "nat \<Rightarrow> live_stream \<Rightarrow> bool" where
  "pending_after v s \<longleftrightarrow> (\<forall>K c. amap_get (tk_changes (pj_changes (ls_projection s))) K = Some c \<longrightarrow> v < vc_version c)"

definition taken :: "nat \<Rightarrow> live_stream \<Rightarrow> bool" where
  "taken v s \<longleftrightarrow> (\<exists>sn n b. sv_snapshot (ls_saving s) = Some (sn, n, b)
     \<and> (\<forall>K c. amap_get (tk_changes (pj_changes (ls_projection s))) K = Some c \<and> vc_version c \<le> v \<longrightarrow> (K, vc_version c) \<in> set (sn_versions sn)))"

definition covers :: "nat \<Rightarrow> live_stream \<Rightarrow> bool" where
  "covers v s \<longleftrightarrow> v \<le> tk_nextVersion (pj_changes (ls_projection s)) \<and> sv_saved (ls_saving s)
     \<and> (pending_after v s \<or> pq_inFlight (ls_queue s) \<and> (pq_requested (ls_queue s) \<or> taken v s))"

fun accepted :: "stream_event \<Rightarrow> bool" where
  "accepted (StreamRequest now ok) = ok"
| "accepted (StreamResume now ok) = ok"
| "accepted x = True"

lemma covers_mutation:
  assumes "covers v s" and e: "extends (pj_changes (ls_projection s)) (pj_changes (f (ls_projection s)))"
  shows "covers v (on_projection f s)"
proof -
  let ?t = "pj_changes (ls_projection s)" and ?t' = "pj_changes (f (ls_projection s))"
  have v: "v \<le> tk_nextVersion ?t" using assms(1) by (simp add: covers_def)
  have old: "amap_get (tk_changes ?t) K = Some c" if "amap_get (tk_changes ?t') K = Some c" "vc_version c \<le> v" for K c
  proof -
    from e have "amap_get (tk_changes ?t') K = amap_get (tk_changes ?t) K \<or> (\<exists>c. amap_get (tk_changes ?t') K = Some c \<and> tk_nextVersion ?t < vc_version c)"
      by (simp add: extends_def)
    with that v show ?thesis by auto
  qed
  have "pending_after v (on_projection f s)" if "pending_after v s"
    unfolding pending_after_def
  proof (intro allI impI)
    fix K c assume "amap_get (tk_changes (pj_changes (ls_projection (on_projection f s)))) K = Some c"
    then have a: "amap_get (tk_changes ?t') K = Some c" by (simp add: on_projection_def)
    show "v < vc_version c"
    proof (rule ccontr)
      assume n: "\<not> v < vc_version c"
      with old [OF a] that show False by (simp add: pending_after_def)
    qed
  qed
  moreover have "taken v (on_projection f s)" if t: "taken v s"
  proof -
    from t obtain sn n b where sn: "sv_snapshot (ls_saving s) = Some (sn, n, b)"
      "\<And>K c. amap_get (tk_changes ?t) K = Some c \<Longrightarrow> vc_version c \<le> v \<Longrightarrow> (K, vc_version c) \<in> set (sn_versions sn)"
      by (auto simp: taken_def)
    have "(K, vc_version c) \<in> set (sn_versions sn)" if "amap_get (tk_changes ?t') K = Some c" "vc_version c \<le> v" for K c
      by (rule sn(2) [OF old [OF that] that(2)])
    then show ?thesis using sn(1) by (simp add: taken_def on_projection_def)
  qed
  moreover have "v \<le> tk_nextVersion ?t'" using v e by (auto simp: extends_def)
  ultimately show ?thesis using assms(1) by (auto simp: covers_def on_projection_def)
qed

text \<open>A round that begins takes every pending change, or finds none.\<close>

lemma begin_takes:
  assumes "stream_ok s"
  shows "taken v (persist_begin now True s) \<or> pending_after v (persist_begin now True s)"
    and "sv_saved (ls_saving (persist_begin now True s))"
    and "pj_changes (ls_projection (persist_begin now True s)) = pj_changes (ls_projection s)"
    and "ls_queue (persist_begin now True s) = (ls_queue s)\<lparr>pq_requested := False\<rparr>"
proof -
  let ?t = "pj_changes (ls_projection s)"
  let ?sn = "tracker_snapshot (projection_state (ls_projection s)) ?t"
  have ok: "tracker_ok ?t" using assms by (simp add: stream_ok_def in_step_def projection_ok_def)
  obtain tab live where ap: "applyTranscriptChangeSet (ls_table s) (ls_live s) (ls_resource s) (ls_user s) (sn_changes ?sn) now = (tab, live)"
    by (metis surj_pair)
  show "sv_saved (ls_saving (persist_begin now True s))" "pj_changes (ls_projection (persist_begin now True s)) = ?t"
    "ls_queue (persist_begin now True s) = (ls_queue s)\<lparr>pq_requested := False\<rparr>"
    by (simp_all add: persist_begin_def Let_def ap)
  have mem: "(K, vc_version c) \<in> set (sn_versions ?sn)" if "amap_get (tk_changes ?t) K = Some c" for K c
    using that ok by (force simp: tracker_snapshot_def tracker_ok_def amap_get_iff_mem)
  have "tk_changes ?t = []" if e: "cs_upserts (sn_changes ?sn) = []" "cs_deletes (sn_changes ?sn) = []"
  proof (rule ccontr)
    assume "tk_changes ?t \<noteq> []"
    then obtain K c where kc: "(K, c) \<in> set (tk_changes ?t)" by (cases "tk_changes ?t") auto
    with ok have "change_ok (tk_nextVersion ?t) (K, c)" by (auto simp: tracker_ok_def list_all_iff)
    then have n: "\<not> vc_deleted c \<Longrightarrow> \<exists>x. vc_entry c = Some x" by (auto simp: change_ok_def)
    show False
    proof (cases "vc_deleted c")
      case True
      then show False using kc e(2) by (auto simp: tracker_snapshot_def createTranscriptChangeSet_def filter_empty_conv)
    next
      case False
      with n obtain x where "vc_entry c = Some x" by blast
      with False kc have "x \<in> set (List.map_filter (\<lambda>c. if vc_deleted (snd c) then None else vc_entry (snd c)) (tk_changes ?t))"
        by (force simp: List.map_filter_def)
      then show False using e(1) by (simp add: tracker_snapshot_def createTranscriptChangeSet_def)
    qed
  qed
  then show "taken v (persist_begin now True s) \<or> pending_after v (persist_begin now True s)"
    using mem by (auto simp: persist_begin_def Let_def ap taken_def pending_after_def)
qed

lemma pending_queue [simp]:
  "pending_after v (s\<lparr>ls_queue := q\<rparr>) = pending_after v s" "taken v (s\<lparr>ls_queue := q\<rparr>) = taken v s"
  "pending_after v (s\<lparr>ls_policy := c\<rparr>) = pending_after v s" "taken v (s\<lparr>ls_policy := c\<rparr>) = taken v s"
  by (simp_all add: pending_after_def taken_def)

lemma covers_begin:
  assumes "stream_ok s" "v \<le> tk_nextVersion (pj_changes (ls_projection s))" "pq_inFlight (ls_queue s)"
  shows "covers v (persist_begin now True s)"
  using begin_takes(1) [OF assms(1), where v = v and now = now] begin_takes(2-4) [OF assms(1), where now = now] assms(2,3) by (auto simp: covers_def)

lemma covers_end:
  assumes "covers v s" "pq_inFlight (ls_queue s)"
  shows "pending_after v (persist_end now s) \<or> pq_requested (ls_queue (persist_end now s))"
    and "v \<le> tk_nextVersion (pj_changes (ls_projection (persist_end now s)))" "sv_saved (ls_saving (persist_end now s))"
    and "pq_inFlight (ls_queue (persist_end now s))"
proof -
  have "pending_after v (persist_end now s)" if "pending_after v s"
    using that by (auto simp: pending_after_def persist_end_def acknowledge_get split: option.splits if_splits)
  moreover have "pending_after v (persist_end now s)" if "taken v s"
    using that by (fastforce simp: pending_after_def taken_def persist_end_def acknowledge_get not_less split: option.splits if_splits)
  moreover have "pq_requested (ls_queue (persist_end now s))" if "pq_requested (ls_queue s)"
    using that by (auto simp: persist_end_def acknowledgeOperationalPersistence_def split: option.splits)
  ultimately show "pending_after v (persist_end now s) \<or> pq_requested (ls_queue (persist_end now s))"
    using assms by (auto simp: covers_def)
  show "v \<le> tk_nextVersion (pj_changes (ls_projection (persist_end now s)))" "sv_saved (ls_saving (persist_end now s))"
    "pq_inFlight (ls_queue (persist_end now s))"
    using assms by (auto simp: covers_def persist_end_def tracker_acknowledge_def acknowledgeOperationalPersistence_def split: option.splits)
qed

lemma covers_step:
  assumes ok: "stream_ok s" and c: "covers v s" and x: "accepted x"
  shows "covers v (stream_step x s)"
proof -
  have st: "in_step (ls_table s) (ls_resource s) (ls_projection s)" using ok by (simp add: stream_ok_def)
  show ?thesis
  proof (cases x)
    case (StreamMessage m)
    then show ?thesis using covers_mutation [OF c, where f = "upsertMessage m", OF conjunct2 [OF in_step_message [OF st]]] by simp
  next
    case (StreamLog l)
    then show ?thesis using covers_mutation [OF c, where f = "upsertLog l", OF conjunct2 [OF in_step_log [OF st]]] by simp
  next
    case (StreamTool c')
    then show ?thesis using covers_mutation [OF c, where f = "upsertToolCall c'", OF conjunct2 [OF in_step_tool [OF st]]] by simp
  next
    case (StreamExtra i e)
    then show ?thesis using covers_mutation [OF c, where f = "\<lambda>p. snd (upsertToolCallExtra_of i e p)", OF conjunct2 [OF in_step_extra [OF st]]] by simp
  next
    case (StreamDelta i role b d ts)
    then show ?thesis using covers_mutation [OF c, where f = "upsertMessageDelta i role b d ts", OF conjunct2 [OF in_step_delta [OF st]]] by simp
  next
    case (StreamFinalizeTools now out)
    then show ?thesis using covers_mutation [OF c, where f = "\<lambda>p. snd (finalizeInFlightToolCalls now out p)", OF conjunct2 [OF in_step_finalize [OF st]]] by simp
  next
    case (StreamText now n)
    then show ?thesis using c by (simp add: covers_def)
  next
    case StreamDirty
    then show ?thesis using c by (auto simp: covers_def markOperationalPersistenceDirty_def)
  next
    case (StreamRequest now ok')
    then have t: "ok' = True" using x by simp
    show ?thesis
    proof (cases "pq_inFlight (ls_queue s)")
      case True
      then show ?thesis using c StreamRequest by (auto simp: covers_def request_checkpoint_def Let_def)
    next
      case False
      define q where "q = (ls_queue s)\<lparr>pq_requested := True, pq_inFlight := True\<rparr>"
      have "covers v (persist_begin now True (s\<lparr>ls_queue := q\<rparr>))"
        by (rule covers_begin) (use ok c in \<open>simp_all add: covers_def q_def\<close>)
      with False StreamRequest t show ?thesis by (simp add: request_checkpoint_def Let_def q_def)
    qed
  next
    case (StreamResume now ok')
    then have t: "ok' = True" using x by simp
    show ?thesis
    proof (cases "pq_inFlight (ls_queue s)")
      case False
      then show ?thesis using c StreamResume by (simp add: resume_drain_def)
    next
      case True
      note e = covers_end [OF c True, of now]
      have sv: "sv_saved (ls_saving s)" using c by (simp add: covers_def)
      have ok': "stream_ok (persist_end now s)" by (rule end_ok [OF ok sv])
      show ?thesis
      proof (cases "pq_requested (ls_queue (persist_end now s))")
        case r: True
        with covers_begin [OF ok' e(2,4)] sv True StreamResume t show ?thesis by (simp add: resume_drain_def Let_def)
      next
        case False
        with e sv True StreamResume show ?thesis by (simp add: resume_drain_def Let_def covers_def)
      qed
    qed
  qed
qed

lemma request_covers:
  assumes ok: "stream_ok s" and sv: "pq_inFlight (ls_queue s) \<Longrightarrow> sv_saved (ls_saving s)"
  shows "covers (tk_nextVersion (pj_changes (ls_projection s))) (stream_step (StreamRequest now True) s)"
proof (cases "pq_inFlight (ls_queue s)")
  case True
  then show ?thesis using sv by (simp add: covers_def request_checkpoint_def Let_def)
next
  case False
  define q where "q = (ls_queue s)\<lparr>pq_requested := True, pq_inFlight := True\<rparr>"
  have "covers (tk_nextVersion (pj_changes (ls_projection s))) (persist_begin now True (s\<lparr>ls_queue := q\<rparr>))"
    by (rule covers_begin) (use ok in \<open>simp_all add: q_def\<close>)
  with False show ?thesis by (simp add: request_checkpoint_def Let_def q_def)
qed

lemma covers_run: "stream_ok s \<Longrightarrow> covers v s \<Longrightarrow> list_all accepted xs \<Longrightarrow> covers v (fold stream_step xs s)"
  by (induction xs arbitrary: s) (simp_all add: covers_step step_ok)

section \<open>Two rounds are enough\<close>

text \<open>A round that nothing disturbs writes everything and leaves the queue idle.\<close>

lemma round_settles:
  assumes ok: "stream_ok s" and q: "pq_inFlight (ls_queue s)"
    and s'_def: "s' = resume_drain now' ok' (persist_begin now True s)"
  shows "\<not> pq_inFlight (ls_queue s')" "\<not> pq_dirty (ls_queue s')" "tk_changes (pj_changes (ls_projection s')) = []"
proof -
  let ?t = "pj_changes (ls_projection s)"
  let ?sn = "tracker_snapshot (projection_state (ls_projection s)) ?t"
  let ?b = "persist_begin now True s"
  have t: "tracker_ok ?t" using ok by (simp add: stream_ok_def in_step_def projection_ok_def)
  obtain tab live where ap: "applyTranscriptChangeSet (ls_table s) (ls_live s) (ls_resource s) (ls_user s) (sn_changes ?sn) now = (tab, live)"
    by (metis surj_pair)
  have empty: "m = []" if "amap_wf m" "\<And>K. amap_get m K = None" for m :: "(string, versioned_change) amap"
  proof (cases m)
    case (Cons x m')
    then have "amap_get m (fst x) = Some (snd x)" by (cases x) (simp add: amap_get_def)
    with that(2) show ?thesis by simp
  qed simp
  have "\<not> pq_inFlight (ls_queue s') \<and> \<not> pq_dirty (ls_queue s') \<and> tk_changes (pj_changes (ls_projection s')) = []"
  proof (cases "\<not> pq_dirty (ls_queue s) \<and> cs_upserts (sn_changes ?sn) = [] \<and> cs_deletes (sn_changes ?sn) = []")
    case True
    then have n: "sv_snapshot (ls_saving ?b) = None" "\<not> pq_dirty (ls_queue ?b)" by (simp_all add: persist_begin_def Let_def)
    have "pending_after v ?b" for v using begin_takes(1) [OF ok, where v = v and now = now] n(1) by (simp add: taken_def)
    then have "amap_get (tk_changes ?t) K = None" for K
      using begin_takes(3) [OF ok, of now] by (auto simp: pending_after_def) (metis less_irrefl not_None_eq)
    with empty t have "tk_changes ?t = []" by (simp add: tracker_ok_def)
    with n q begin_takes(2-4) [OF ok, of now] show ?thesis by (simp add: s'_def resume_drain_def persist_end_def Let_def)
  next
    case False
    then have b: "?b = s\<lparr>ls_queue := (ls_queue s)\<lparr>pq_requested := False\<rparr>, ls_saving := \<lparr>sv_snapshot = Some (?sn, pq_version (ls_queue s), cp_pendingTextBytes (ls_policy s)), sv_saved = True\<rparr>,
        ls_table := tab, ls_live := live\<rparr>"
      by (auto simp: persist_begin_def Let_def ap)
    have "amap_get (tk_changes (tracker_acknowledge ?sn ?t)) K = None" for K
      using t by (auto simp: acknowledge_get tracker_snapshot_def tracker_ok_def amap_get_iff_mem image_iff split: option.splits)
    with empty acknowledge_ok [OF t, of ?sn] have "tk_changes (tracker_acknowledge ?sn ?t) = []" by (simp add: tracker_ok_def)
    then show ?thesis using q by (simp add: s'_def b resume_drain_def persist_end_def Let_def acknowledgeOperationalPersistence_def)
  qed
  then show "\<not> pq_inFlight (ls_queue s')" "\<not> pq_dirty (ls_queue s')" "tk_changes (pj_changes (ls_projection s')) = []" by simp_all
qed

lemma two_rounds:
  assumes ok: "stream_ok s" and sv: "pq_inFlight (ls_queue s) \<Longrightarrow> sv_saved (ls_saving s)"
    and s'_def: "s' = fold stream_step [StreamRequest t1 True, StreamResume t2 True, StreamResume t3 True] s"
  shows "\<not> pq_inFlight (ls_queue s') \<and> \<not> pq_dirty (ls_queue s') \<and> tk_changes (pj_changes (ls_projection s')) = []"
proof (cases "pq_inFlight (ls_queue s)")
  case False
  define q where "q = (ls_queue s)\<lparr>pq_requested := True, pq_inFlight := True\<rparr>"
  have s1: "stream_step (StreamRequest t1 True) s = persist_begin t1 True (s\<lparr>ls_queue := q\<rparr>)"
    using False by (simp add: request_checkpoint_def Let_def q_def)
  note r = round_settles [where s = "s\<lparr>ls_queue := q\<rparr>" and now' = t2 and ok' = True and now = t1, unfolded queue_ok, OF ok _ refl]
  have q': "pq_inFlight (ls_queue (s\<lparr>ls_queue := q\<rparr>))" by (simp add: q_def)
  have s2: "\<not> pq_inFlight (ls_queue (resume_drain t2 True (persist_begin t1 True (s\<lparr>ls_queue := q\<rparr>))))" by (rule r(1) [OF q'])
  have "s' = resume_drain t2 True (persist_begin t1 True (s\<lparr>ls_queue := q\<rparr>))"
    unfolding s'_def using s2 by (simp add: s1 resume_drain_def [of t3] del: stream_step.simps(9))
  then show ?thesis using r [OF q'] by simp
next
  case True
  let ?q = "s\<lparr>ls_queue := (ls_queue s)\<lparr>pq_requested := True\<rparr>\<rparr>"
  have e: "stream_ok (persist_end t2 ?q)" by (rule end_ok) (use ok sv True in simp_all)
  have p: "pq_requested (ls_queue (persist_end t2 ?q))" "pq_inFlight (ls_queue (persist_end t2 ?q))" using True
    by (simp_all add: persist_end_def acknowledgeOperationalPersistence_def split: option.splits)
  have "s' = resume_drain t3 True (persist_begin t2 True (persist_end t2 ?q))"
    unfolding s'_def using True sv p by (simp add: request_checkpoint_def resume_drain_def [of t2] Let_def)
  then show ?thesis using round_settles [OF e p(2) refl, of t3 True t2] by simp
qed

section \<open>The rows of other resources\<close>

lemma step_stable:
  "ls_resource (stream_step x s) = ls_resource s" "ls_user (stream_step x s) = ls_user s"
proof -
  have b: "ls_resource (persist_begin now ok s) = ls_resource s \<and> ls_user (persist_begin now ok s) = ls_user s" for now ok s
    by (simp add: persist_begin_def Let_def split: prod.splits)
  have e: "ls_resource (persist_end now s) = ls_resource s \<and> ls_user (persist_end now s) = ls_user s" for now s
    by (simp add: persist_end_def split: option.splits prod.splits)
  show "ls_resource (stream_step x s) = ls_resource s" "ls_user (stream_step x s) = ls_user s"
    by (cases x; simp add: on_projection_def request_checkpoint_def resume_drain_def Let_def b e)+
qed

lemma run_stable: "ls_resource (fold stream_step xs s) = ls_resource s \<and> ls_user (fold stream_step xs s) = ls_user s"
  by (induction xs arbitrary: s) (simp_all add: step_stable)

lemma begin_foreign:
  assumes "stream_ok s" "r' \<noteq> ls_resource s"
  shows "contents (ls_table (persist_begin now ok s)) r' K = contents (ls_table s) r' K"
proof -
  let ?sn = "tracker_snapshot (projection_state (ls_projection s)) (pj_changes (ls_projection s))"
  have t: "list_all (change_ok (tk_nextVersion (pj_changes (ls_projection s)))) (tk_changes (pj_changes (ls_projection s)))"
    "amap_wf (tk_changes (pj_changes (ls_projection s)))" and own: "owned (ls_table s) (ls_resource s) (ls_user s)"
    using assms(1) by (simp_all add: stream_ok_def in_step_def projection_ok_def tracker_ok_def)
  have cs: "cs_upserts (sn_changes ?sn) = List.map_filter (\<lambda>c. if vc_deleted (snd c) then None else vc_entry (snd c)) (tk_changes (pj_changes (ls_projection s)))"
    by (simp add: tracker_snapshot_def createTranscriptChangeSet_def)
  have "contents (fst (applyTranscriptChangeSet (ls_table s) (ls_live s) (ls_resource s) (ls_user s) (sn_changes ?sn) now)) r' K = contents (ls_table s) r' K"
    using apply_changes_contents(1) [OF own, of "sn_changes ?sn", unfolded cs, OF snapshot_upserts(1,2) [OF t]] assms(2) by simp
  then show ?thesis by (auto simp: persist_begin_def Let_def split: prod.splits)
qed

lemma end_table: "ls_table (persist_end now s) = ls_table s"
  by (simp add: persist_end_def split: option.splits prod.splits)

lemma step_foreign:
  assumes "stream_ok s" "r' \<noteq> ls_resource s"
  shows "contents (ls_table (stream_step x s)) r' K = contents (ls_table s) r' K"
proof (cases x)
  case (StreamRequest now ok)
  then show ?thesis using assms by (simp add: request_checkpoint_def Let_def begin_foreign)
next
  case (StreamResume now ok)
  show ?thesis
  proof (cases "pq_inFlight (ls_queue s) \<and> sv_saved (ls_saving s)")
    case True
    then have e: "stream_ok (persist_end now s)" using end_ok [OF assms(1)] by simp
    have "ls_resource (persist_end now s) = ls_resource s" by (simp add: persist_end_def split: option.splits prod.splits)
    with begin_foreign [OF e] assms(2) True StreamResume show ?thesis by (simp add: resume_drain_def Let_def end_table)
  qed (use StreamResume in \<open>auto simp: resume_drain_def\<close>)
qed (simp_all add: on_projection_def)

lemma run_foreign:
  "stream_ok s \<Longrightarrow> r' \<noteq> ls_resource s \<Longrightarrow> contents (ls_table (fold stream_step xs s)) r' K = contents (ls_table s) r' K"
  by (induction xs arbitrary: s) (simp_all add: step_ok step_stable step_foreign)

section \<open>Properties\<close>

text \<open>The list a collection stands for after a run of insertions.\<close>

definition index_run :: "('a \<Rightarrow> ident) \<Rightarrow> 'a list \<Rightarrow> 'a memory_index \<Rightarrow> 'a memory_index" where
  "index_run key es m = fold (\<lambda>e m. snd (snd (index_upsert key e m))) es m"

definition list_run :: "('a \<Rightarrow> ident) \<Rightarrow> nat option \<Rightarrow> 'a list \<Rightarrow> 'a list \<Rightarrow> 'a list" where
  "list_run key cap es xs = fold (\<lambda>e xs. snd (snd (list_upsert key cap e xs))) es xs"

lemma index_run_refines:
  "index_ok key m \<Longrightarrow> index_ok key (index_run key es m) \<and> mi_capacity (index_run key es m) = mi_capacity m
    \<and> index_values (index_run key es m) = list_run key (mi_capacity m) es (index_values m)"
proof (induction es arbitrary: m)
  case (Cons e es)
  obtain ev b m' where u: "index_upsert key e m = (ev, b, m')" by (metis prod_cases3)
  note ref = index_upsert_refines [OF Cons.prems u]
  have "list_run key (mi_capacity m) (e # es) (index_values m) = list_run key (mi_capacity m) es (index_values m')"
    using ref(3) [symmetric] by (simp add: list_run_def)
  with Cons.IH [OF ref(1)] ref(2) u show ?case by (simp add: index_run_def)
qed (simp add: index_run_def list_run_def)

text \<open>
  C37. The collection of a live transcript, an array or a ring buffer with a map from ids to slots, is a list without
  repeated ids: after any run of insertions its entries, in order, are those of the list that replaces an entry with the
  same id in place and else appends it, dropping the oldest entry when the capacity is reached; a lookup finds exactly what
  the list holds; and an insertion evicts exactly what the list drops and says whether the id was new.
\<close>

theorem memory_index_refines_list:
  fixes key :: "'a \<Rightarrow> ident" and es :: "'a list" and cap :: "nat option"
  assumes "distinct (map key xs)"
  defines "m \<equiv> index_run key es (index_new key xs cap)"
    and "ys \<equiv> list_run key cap es (case cap of None \<Rightarrow> xs | Some c \<Rightarrow> drop (length xs - c) xs)"
  shows "index_values m = ys \<and> index_get m i = find (\<lambda>x. key x = i) ys \<and> (index_has m i \<longleftrightarrow> i \<in> key ` set ys)
    \<and> fst (index_upsert key e m) = fst (list_upsert key cap e ys) \<and> fst (snd (index_upsert key e m)) = fst (snd (list_upsert key cap e ys))"
proof -
  note new = index_new_ok [OF assms(1), of cap]
  have m: "index_ok key m" "mi_capacity m = cap" "index_values m = ys"
    using index_run_refines [OF new(1), of es] new(2,3) by (simp_all add: m_def ys_def)
  obtain ev b m' where u: "index_upsert key e m = (ev, b, m')" by (metis prod_cases3)
  have r: "(ev, b, index_values m') = list_upsert key cap e ys" using index_upsert_refines(3) [OF m(1) u] m(2,3) by simp
  show ?thesis using m index_get_find [OF m(1), of i] index_has_iff [OF m(1), of i] u r [symmetric] by simp
qed

theorem memory_index_refines_list_witness:
  "index_values (index_run id [''c'', ''a'', ''d'', ''d''] (index_new id [''z'', ''a'', ''b''] (Some 2))) = [''a'', ''d'']"
  using memory_index_refines_list [of id "[''z'', ''a'', ''b'']" "[''c'', ''a'', ''d'', ''d'']" "Some 2"]
  by (simp add: list_run_def list_upsert_def)

text \<open>
  C35. No mutation of a live transcript is lost. However messages, log lines, tool calls, checkpoints, writes that fail and
  writes that succeed after the transcript has moved on interleave, the table with the changes that are still pending laid
  over it is the transcript in memory; so once nothing is pending the table holds exactly the transcript in memory. The
  rows of other resources never change.
\<close>

theorem checkpoints_lose_nothing:
  fixes es :: "stream_event list" and now :: timestamp and dirty :: bool and live :: nat
  assumes "fits s l" "owned tab r u" "stored_as tab r s"
  defines "st \<equiv> fold stream_step es (stream_new now r u s l dirty tab live)"
  shows "(\<forall>k i. overlay (pj_changes (ls_projection st)) (ls_table st) r k i = memory (projection_state (ls_projection st)) k i)
    \<and> (\<not> hasPendingChanges (pj_changes (ls_projection st)) \<longrightarrow> stored_as (ls_table st) r (projection_state (ls_projection st)))
    \<and> (\<forall>r' K. r' \<noteq> r \<longrightarrow> contents (ls_table st) r' K = contents tab r' K)"
proof -
  let ?n = "stream_new now r u s l dirty tab live"
  have n: "stream_ok ?n" by (rule stream_new_ok [OF assms(1-3)])
  have r: "ls_resource ?n = r" "ls_table ?n = tab" by (simp_all add: stream_new_def)
  have "in_step (ls_table st) r (ls_projection st)"
    using stream_run_ok [OF n, of es] run_stable [of es ?n] r by (simp add: st_def stream_ok_def)
  then have o: "overlay (pj_changes (ls_projection st)) (ls_table st) r k i = memory (projection_state (ls_projection st)) k i" for k i
    by (simp add: in_step_def)
  moreover have "stored_as (ls_table st) r (projection_state (ls_projection st))" if "\<not> hasPendingChanges (pj_changes (ls_projection st))"
    using o that by (simp add: stored_as_def overlay_def hasPendingChanges_def tkey_def)
  moreover have "contents (ls_table st) r' K = contents tab r' K" if "r' \<noteq> r" for r' K
    using run_foreign [OF n, of r' es K] r that by (simp add: st_def)
  ultimately show ?thesis by blast
qed

text \<open>A transcript of at most one message: the second message evicts the first while the first is being written.\<close>

definition sample_message :: "ident \<Rightarrow> persisted_message" where
  "sample_message i = \<lparr>msg_id = i, msg_role = RoleAssistant, msg_content = ''text'', msg_attachments = None, msg_timestamp = 1, msg_question = None\<rparr>"

definition sample_limits :: projection_limits where
  "sample_limits = \<lparr>pl_maxMessages = Some 1, pl_maxLogs = Some 1, pl_maxToolCalls = Some 1\<rparr>"

definition sample_start :: live_stream where
  "sample_start = stream_new 0 ''run'' ''user'' \<lparr>ts_messages = [], ts_logs = [], ts_toolCalls = []\<rparr> sample_limits False [] 0"

definition sample_stream :: live_stream where
  "sample_stream = fold stream_step [StreamMessage (sample_message ''a''), StreamRequest 2 True, StreamMessage (sample_message ''b''), StreamResume 3 True] sample_start"

lemma sample_fits:
  "fits \<lparr>ts_messages = [], ts_logs = [], ts_toolCalls = []\<rparr> sample_limits" "owned [] r u"
  "stored_as [] r \<lparr>ts_messages = [], ts_logs = [], ts_toolCalls = []\<rparr>"
proof -
  show "fits \<lparr>ts_messages = [], ts_logs = [], ts_toolCalls = []\<rparr> sample_limits" by (simp add: fits_def sample_limits_def distinct_ids_def)
  show "owned [] r u" by (simp add: owned_def)
  have "memory \<lparr>ts_messages = [], ts_logs = [], ts_toolCalls = []\<rparr> k i = None" for k i by (cases k) (simp_all add: memory_def)
  then show "stored_as [] r \<lparr>ts_messages = [], ts_logs = [], ts_toolCalls = []\<rparr>" by (simp add: stored_as_def contents_def row_lookup_def)
qed

theorem checkpoints_lose_nothing_witness:
  "hasPendingChanges (pj_changes (ls_projection sample_stream))
    \<and> overlay (pj_changes (ls_projection sample_stream)) (ls_table sample_stream) ''run'' KindMessage ''a'' = None"
proof -
  have "memory (projection_state (ls_projection sample_stream)) KindMessage ''a'' = None" "hasPendingChanges (pj_changes (ls_projection sample_stream))"
    by code_simp+
  moreover have "overlay (pj_changes (ls_projection sample_stream)) (ls_table sample_stream) ''run'' KindMessage ''a''
      = memory (projection_state (ls_projection sample_stream)) KindMessage ''a''"
    using checkpoints_lose_nothing [OF sample_fits, where es = "[StreamMessage (sample_message ''a''), StreamRequest 2 True, StreamMessage (sample_message ''b''), StreamResume 3 True]"
        and r = "''run''" and u = "''user''" and now = 0 and dirty = False and live = 0]
    by (simp only: sample_stream_def sample_start_def)
  ultimately show ?thesis by simp
qed



end
