(* ===== verification/AgentModel.thy ===== *)
theory AgentModel
  imports AgentSchedule TaskRows
begin

text \<open>
  The records of \<open>shared/agent.ts\<close> and their rows in SQLite (\<open>persistence/agents/helpers.ts\<close>). A row has one field per
  column, typed by what \<open>agentToRow\<close> and \<open>agentRunToRow\<close> write; a text column may be empty, and a column of JSON text may
  be unreadable. The mode of an agent is a constant and has no field. A permission request is kept as its text.
\<close>

section \<open>Agents and runs\<close>

datatype agent_status = AgentEnabled | AgentPaused | AgentRunning | AgentError

record agent_error =
  ae_message :: string
  ae_timestamp :: instant
  ae_code :: "string option"

record agent_config_snapshot =
  as_name :: string
  as_workspaceId :: ident
  as_directory :: string
  as_prompt :: string
  as_code :: "string option"
  as_model :: model_config
  as_baseBranch :: "string option"
  as_useWorktree :: bool
  as_schedule :: agent_schedule

record agent_config = agent_config_snapshot +
  ag_id :: ident
  ag_enabled :: bool
  ag_createdAt :: instant
  ag_updatedAt :: instant
  ag_generationChatId :: "ident option"
  ag_isPrivate :: "bool option"

record agent_state =
  ags_id :: ident
  ags_status :: agent_status
  ags_lastRunAt :: "instant option"
  ags_nextRunAt :: "instant option"
  ags_lastSkippedAt :: "instant option"
  ags_lastError :: "agent_error option"
  ags_activeRunId :: "ident option"

record agent =
  a_config :: agent_config
  a_state :: agent_state

datatype run_status = RunScheduled | RunStarting | RunRunning | RunCompleted | RunFailed | RunSkipped | RunCancelled | RunInterrupted

datatype run_trigger = TriggerSchedule | TriggerManual

record chat_worktree =
  wt_originalBranch :: string
  wt_workingBranch :: string
  wt_worktreePath :: "string option"

record agent_run =
  run_id :: ident
  run_agentId :: ident
  run_chatId :: "ident option"
  run_status :: run_status
  run_trigger :: run_trigger
  run_scheduledFor :: instant
  run_startedAt :: "instant option"
  run_completedAt :: "instant option"
  run_skipReason :: "string option"
  run_error :: "agent_error option"
  run_session :: "session_info option"
  run_usage :: "string option"
  run_worktree :: "chat_worktree option"
  run_transcript :: transcript_state
  run_pendingPermissionRequests :: "string list"
  run_attachments :: "message_attachment list"
  run_configSnapshot :: agent_config_snapshot
  run_createdAt :: instant
  run_updatedAt :: instant

definition createInitialAgentState :: "ident \<Rightarrow> instant option \<Rightarrow> agent_state" where
  "createInitialAgentState i next = \<lparr>ags_id = i, ags_status = AgentEnabled, ags_lastRunAt = None, ags_nextRunAt = next,
     ags_lastSkippedAt = None, ags_lastError = None, ags_activeRunId = None\<rparr>"

definition isAgentRunActiveStatus :: "run_status \<Rightarrow> bool" where
  "isAgentRunActiveStatus s = (s = RunScheduled \<or> s = RunStarting \<or> s = RunRunning)"

definition isAgentCodeEnabled :: "'z agent_config_snapshot_scheme \<Rightarrow> bool" where
  "isAgentCodeEnabled c = (case as_code c of None \<Rightarrow> False | Some s \<Rightarrow> js_trim s \<noteq> [])"

definition empty_transcript :: transcript_state where
  "empty_transcript = \<lparr>ts_messages = [], ts_logs = [], ts_toolCalls = []\<rparr>"

section \<open>Failures\<close>

text \<open>What the operations on agents throw: a domain error with its code, an unreadable row, a schedule without a next run, a violated foreign key, the interruption of a run, and the errors of other services.\<close>

datatype agent_failure =
  DomainFailure string string
| InvalidAgentRow string
| InvalidSchedule schedule_error
| ForeignKeyFailure
| RunInterruptedError
| FinalizationFailure
| ServiceFailure string

fun failure_code :: "agent_failure \<Rightarrow> string option" where
  "failure_code (DomainFailure c m) = Some c"
| "failure_code _ = None"

fun failure_text :: "agent_failure \<Rightarrow> string" where
  "failure_text (DomainFailure c m) = m"
| "failure_text (InvalidAgentRow c) = ''Error: Invalid agent row: '' @ c @ '' is required''"
| "failure_text (InvalidSchedule x) = ''Error: invalid schedule''"
| "failure_text ForeignKeyFailure = ''SQLiteError: FOREIGN KEY constraint failed''"
| "failure_text RunInterruptedError = ''Error: Agent run interrupted''"
| "failure_text FinalizationFailure = ''Error: Failed to persist the final agent-run state''"
| "failure_text (ServiceFailure s) = s"

section \<open>Rows of agents\<close>

record agent_row =
  ar_id :: ident
  ar_user_id :: ident
  ar_name :: string
  ar_workspace_id :: ident
  ar_directory :: string
  ar_prompt :: string
  ar_code :: "string option"
  ar_generation_chat_id :: "ident option"
  ar_model_provider_id :: string
  ar_model_model_id :: string
  ar_model_variant :: "string option"
  ar_base_branch :: "string option"
  ar_use_worktree :: nat
  ar_schedule_start_at_local :: string
  ar_schedule_timezone :: string
  ar_schedule_interval_value :: nat
  ar_schedule_interval_unit :: interval_unit
  ar_schedule_next_run_at :: instant
  ar_enabled :: nat
  ar_created_at :: instant
  ar_updated_at :: instant
  ar_is_private :: nat
  ar_status :: agent_status
  ar_last_run_at :: "instant option"
  ar_next_run_at :: "instant option"
  ar_last_skipped_at :: "instant option"
  ar_last_error_message :: "string option"
  ar_last_error_timestamp :: "instant option"
  ar_last_error_code :: "string option"
  ar_active_run_id :: "ident option"

definition number :: "bool \<Rightarrow> nat" where
  "number b = (if b then 1 else 0)"

definition agentToRow :: "ident \<Rightarrow> agent \<Rightarrow> agent_row" where
  "agentToRow u a = (let c = a_config a; s = a_state a in
     \<lparr>ar_id = ag_id c, ar_user_id = u, ar_name = as_name c, ar_workspace_id = as_workspaceId c, ar_directory = as_directory c,
      ar_prompt = as_prompt c, ar_code = as_code c, ar_generation_chat_id = ag_generationChatId c,
      ar_model_provider_id = providerID (as_model c), ar_model_model_id = modelID (as_model c),
      ar_model_variant = Some (model_variant (as_model c)), ar_base_branch = as_baseBranch c,
      ar_use_worktree = number (as_useWorktree c), ar_schedule_start_at_local = sc_startAtLocal (as_schedule c),
      ar_schedule_timezone = sc_timezone (as_schedule c), ar_schedule_interval_value = iv_value (sc_interval (as_schedule c)),
      ar_schedule_interval_unit = iv_unit (sc_interval (as_schedule c)), ar_schedule_next_run_at = sc_nextRunAt (as_schedule c),
      ar_enabled = number (ag_enabled c), ar_created_at = ag_createdAt c, ar_updated_at = ag_updatedAt c,
      ar_is_private = number (ag_isPrivate c = Some True), ar_status = ags_status s, ar_last_run_at = ags_lastRunAt s,
      ar_next_run_at = ags_nextRunAt s, ar_last_skipped_at = ags_lastSkippedAt s,
      ar_last_error_message = map_option ae_message (ags_lastError s),
      ar_last_error_timestamp = map_option ae_timestamp (ags_lastError s),
      ar_last_error_code = Option.bind (ags_lastError s) ae_code, ar_active_run_id = ags_activeRunId s\<rparr>)"

text \<open>\<open>requireString\<close> on the columns that need it, in the order they are read.\<close>

definition requireString :: "(string \<times> string) list \<Rightarrow> agent_failure option" where
  "requireString cs = map_option (InvalidAgentRow \<circ> fst) (find (\<lambda>c. snd c = []) cs)"

definition agent_required :: "agent_row \<Rightarrow> (string \<times> string) list" where
  "agent_required r = [(''id'', ar_id r), (''name'', ar_name r), (''workspace_id'', ar_workspace_id r), (''directory'', ar_directory r),
     (''prompt'', ar_prompt r), (''model_provider_id'', ar_model_provider_id r), (''model_model_id'', ar_model_model_id r),
     (''schedule_start_at_local'', ar_schedule_start_at_local r), (''schedule_timezone'', ar_schedule_timezone r)]"

definition row_agent_error :: "string option \<Rightarrow> instant option \<Rightarrow> string option \<Rightarrow> agent_error option" where
  "row_agent_error m t c = map_option (\<lambda>m. \<lparr>ae_message = m, ae_timestamp = (case t of None \<Rightarrow> 0 | Some t \<Rightarrow> t), ae_code = c\<rparr>) m"

definition row_agent :: "agent_row \<Rightarrow> agent" where
  "row_agent r = \<lparr>a_config = \<lparr>as_name = ar_name r, as_workspaceId = ar_workspace_id r, as_directory = ar_directory r,
       as_prompt = ar_prompt r, as_code = (case ar_code r of None \<Rightarrow> None | Some s \<Rightarrow> if js_trim s \<noteq> [] then Some s else None),
       as_model = \<lparr>providerID = ar_model_provider_id r, modelID = ar_model_model_id r,
         model_variant = (case ar_model_variant r of None \<Rightarrow> [] | Some v \<Rightarrow> v)\<rparr>,
       as_baseBranch = ar_base_branch r, as_useWorktree = (ar_use_worktree r = 1),
       as_schedule = \<lparr>sc_startAtLocal = ar_schedule_start_at_local r, sc_timezone = ar_schedule_timezone r,
         sc_interval = \<lparr>iv_value = ar_schedule_interval_value r, iv_unit = ar_schedule_interval_unit r\<rparr>,
         sc_nextRunAt = ar_schedule_next_run_at r\<rparr>,
       ag_id = ar_id r, ag_enabled = (ar_enabled r = 1), ag_createdAt = ar_created_at r, ag_updatedAt = ar_updated_at r,
       ag_generationChatId = ar_generation_chat_id r, ag_isPrivate = Some (ar_is_private r = 1)\<rparr>,
     a_state = \<lparr>ags_id = ar_id r, ags_status = ar_status r, ags_lastRunAt = ar_last_run_at r, ags_nextRunAt = ar_next_run_at r,
       ags_lastSkippedAt = ar_last_skipped_at r,
       ags_lastError = row_agent_error (ar_last_error_message r) (ar_last_error_timestamp r) (ar_last_error_code r),
       ags_activeRunId = ar_active_run_id r\<rparr>\<rparr>"

definition rowToAgent :: "agent_row \<Rightarrow> agent_failure + agent" where
  "rowToAgent r = (case requireString (agent_required r) of Some x \<Rightarrow> Inl x | None \<Rightarrow> Inr (row_agent r))"

section \<open>Rows of runs\<close>

record run_row =
  rr_id :: ident
  rr_user_id :: ident
  rr_agent_id :: ident
  rr_chat_id :: "ident option"
  rr_status :: run_status
  rr_trigger :: run_trigger
  rr_scheduled_for :: instant
  rr_started_at :: "instant option"
  rr_completed_at :: "instant option"
  rr_skip_reason :: "string option"
  rr_error_message :: "string option"
  rr_error_timestamp :: "instant option"
  rr_error_code :: "string option"
  rr_session_id :: "ident option"
  rr_session_server_url :: "string option"
  rr_worktree_original_branch :: "string option"
  rr_worktree_working_branch :: "string option"
  rr_worktree_path :: "string option"
  rr_pending_permission_requests :: "string list json"
  rr_attachments :: "message_attachment list json"
  rr_config_snapshot :: "agent_config_snapshot json"
  rr_created_at :: instant
  rr_updated_at :: instant
  rr_usage_json :: sql_value

text \<open>The usage is written by another operation; a row that is inserted has none.\<close>

definition agentRunToRow :: "ident \<Rightarrow> agent_run \<Rightarrow> run_row" where
  "agentRunToRow u r =
     \<lparr>rr_id = run_id r, rr_user_id = u, rr_agent_id = run_agentId r, rr_chat_id = run_chatId r, rr_status = run_status r,
      rr_trigger = run_trigger r, rr_scheduled_for = run_scheduledFor r, rr_started_at = run_startedAt r,
      rr_completed_at = run_completedAt r, rr_skip_reason = run_skipReason r,
      rr_error_message = map_option ae_message (run_error r), rr_error_timestamp = map_option ae_timestamp (run_error r),
      rr_error_code = Option.bind (run_error r) ae_code,
      rr_session_id = map_option session_id (run_session r), rr_session_server_url = Option.bind (run_session r) session_serverUrl,
      rr_worktree_original_branch = map_option wt_originalBranch (run_worktree r),
      rr_worktree_working_branch = map_option wt_workingBranch (run_worktree r),
      rr_worktree_path = Option.bind (run_worktree r) wt_worktreePath,
      rr_pending_permission_requests = JsonText (run_pendingPermissionRequests r), rr_attachments = JsonText (run_attachments r),
      rr_config_snapshot = JsonText (run_configSnapshot r), rr_created_at = run_createdAt r, rr_updated_at = run_updatedAt r,
      rr_usage_json = SNull\<rparr>"

definition snapshotFallback :: agent_config_snapshot where
  "snapshotFallback = \<lparr>as_name = ''Unknown agent'', as_workspaceId = [], as_directory = [], as_prompt = [], as_code = None,
     as_model = \<lparr>providerID = ''unknown'', modelID = ''not-configured'', model_variant = []\<rparr>, as_baseBranch = None, as_useWorktree = True,
     as_schedule = \<lparr>sc_startAtLocal = ''1970-01-01T00:00:00.000Z'', sc_timezone = ''UTC'',
       sc_interval = \<lparr>iv_value = 1, iv_unit = UnitHours\<rparr>, sc_nextRunAt = 0\<rparr>\<rparr>"

text \<open>A run of the list views: \<open>AGENT_RUN_METADATA_COLUMNS\<close> leaves the attachments out.\<close>

definition row_run :: "bool \<Rightarrow> run_row \<Rightarrow> agent_run" where
  "row_run attachments r =
     \<lparr>run_id = rr_id r, run_agentId = rr_agent_id r, run_chatId = rr_chat_id r, run_status = rr_status r, run_trigger = rr_trigger r,
      run_scheduledFor = rr_scheduled_for r, run_startedAt = rr_started_at r, run_completedAt = rr_completed_at r,
      run_skipReason = rr_skip_reason r, run_error = row_agent_error (rr_error_message r) (rr_error_timestamp r) (rr_error_code r),
      run_session = map_option (\<lambda>i. \<lparr>session_id = i, session_serverUrl = rr_session_server_url r, session_binding = NoBinding\<rparr>) (rr_session_id r),
      run_usage = parseStoredTokenUsage (rr_usage_json r),
      run_worktree = (case (rr_worktree_original_branch r, rr_worktree_working_branch r) of
         (Some b, Some w) \<Rightarrow> Some \<lparr>wt_originalBranch = b, wt_workingBranch = w, wt_worktreePath = rr_worktree_path r\<rparr> | _ \<Rightarrow> None),
      run_transcript = empty_transcript,
      run_pendingPermissionRequests = safeJsonParse (rr_pending_permission_requests r) [],
      run_attachments = (if attachments then safeJsonParse (rr_attachments r) [] else []),
      run_configSnapshot = safeJsonParse (rr_config_snapshot r) snapshotFallback,
      run_createdAt = rr_created_at r, run_updatedAt = rr_updated_at r\<rparr>"

definition run_required :: "run_row \<Rightarrow> (string \<times> string) list" where
  "run_required r = [(''id'', rr_id r), (''agent_id'', rr_agent_id r)]"

definition rowToAgentRun :: "bool \<Rightarrow> run_row \<Rightarrow> agent_failure + agent_run" where
  "rowToAgentRun attachments r = (case requireString (run_required r) of Some x \<Rightarrow> Inl x | None \<Rightarrow> Inr (row_run attachments r))"

section \<open>Round trips\<close>

lemma requireString_ok: "requireString cs = None \<longleftrightarrow> (\<forall>c \<in> set cs. snd c \<noteq> [])"
  by (auto simp: requireString_def find_None_iff)

text \<open>Whether a row can be read, and what the trip through a row changes.\<close>

definition readable :: "agent \<Rightarrow> bool" where
  "readable a = (let c = a_config a in list_all (\<lambda>s. s \<noteq> []) [ag_id c, as_name c, as_workspaceId c, as_directory c, as_prompt c,
     providerID (as_model c), modelID (as_model c), sc_startAtLocal (as_schedule c), sc_timezone (as_schedule c)])"

definition stored_agent :: "agent \<Rightarrow> agent" where
  "stored_agent a = a\<lparr>a_config := (a_config a)\<lparr>as_code := (if isAgentCodeEnabled (a_config a) then as_code (a_config a) else None),
       ag_isPrivate := Some (ag_isPrivate (a_config a) = Some True)\<rparr>,
     a_state := (a_state a)\<lparr>ags_id := ag_id (a_config a)\<rparr>\<rparr>"

lemma number_1 [simp]: "number b = 1 \<longleftrightarrow> b" "number b = Suc 0 \<longleftrightarrow> b"
  by (simp_all add: number_def)

lemma row_error_of [simp]: "row_agent_error (map_option ae_message x) (map_option ae_timestamp x) (Option.bind x ae_code) = x"
  by (cases x) (simp_all add: row_agent_error_def)

lemma row_agent_of: "row_agent (agentToRow u a) = stored_agent a"
proof -
  obtain c s where a: "a = \<lparr>a_config = c, a_state = s\<rparr>" by (cases a)
  have "row_agent (agentToRow u a) = \<lparr>a_config = c\<lparr>as_code := (if isAgentCodeEnabled c then as_code c else None),
       ag_isPrivate := Some (ag_isPrivate c = Some True)\<rparr>, a_state = s\<lparr>ags_id := ag_id c\<rparr>\<rparr>"
    unfolding a row_agent_def agentToRow_def
    by (cases c, cases s) (auto simp: Let_def isAgentCodeEnabled_def split: option.splits)
  then show ?thesis by (simp add: stored_agent_def a)
qed

lemma readable_required: "requireString (agent_required (agentToRow u a)) = None \<longleftrightarrow> readable a"
  by (simp add: requireString_ok agent_required_def readable_def agentToRow_def Let_def)

lemma rowToAgent_of: "readable a \<Longrightarrow> rowToAgent (agentToRow u a) = Inr (stored_agent a)"
  by (simp add: rowToAgent_def readable_required [THEN iffD2] row_agent_of)

lemma rowToAgent_unreadable: "\<not> readable a \<Longrightarrow> \<exists>c. rowToAgent (agentToRow u a) = Inl (InvalidAgentRow c)"
  using readable_required [of u a] by (auto simp: rowToAgent_def requireString_def split: option.splits)

definition stored_run :: "agent_run \<Rightarrow> agent_run" where
  "stored_run r = r\<lparr>run_session := map_option (\<lambda>s. s\<lparr>session_binding := NoBinding\<rparr>) (run_session r), run_usage := None,
     run_transcript := empty_transcript\<rparr>"

lemma row_run_of: "row_run True (agentRunToRow u r) = stored_run r"
proof -
  have "map_option (\<lambda>i. \<lparr>session_id = i, session_serverUrl = Option.bind s session_serverUrl, session_binding = NoBinding\<rparr>) (map_option session_id s)
      = map_option (\<lambda>s. s\<lparr>session_binding := NoBinding\<rparr>) s" for s :: "session_info option"
    by (cases s) simp_all
  then show ?thesis by (cases r) (simp add: row_run_def agentRunToRow_def stored_run_def split: option.splits)
qed

end
