(* ===== verification/AgentStore.thy ===== *)
theory AgentStore
  imports AgentModel
begin

text \<open>
  The tables of agents and of their runs (\<open>persistence/agents/crud.ts\<close>), with the foreign keys of the schema: an agent
  belongs to a workspace, a run to an agent, a transcript entry to a run, and deleting the parent deletes the children.
  Rows of equal creation time are listed in the order of the table. The user of the calls is an argument.
\<close>

record workspace =
  wk_id :: ident
  wk_user_id :: ident
  wk_directory :: string
  wk_git :: bool
  wk_allowWorktrees :: "bool option"
  wk_updated_at :: instant

record agent_db =
  ad_workspaces :: "workspace list"
  ad_agents :: "agent_row list"
  ad_runs :: "run_row list"
  ad_transcripts :: transcript_table
  ad_live :: nat

definition query :: "('s \<Rightarrow> 'e + 'a) \<Rightarrow> ('s, 'e, 'a) op" where
  "query f db = (f db, db)"

fun traverse :: "('a \<Rightarrow> 'e + 'b) \<Rightarrow> 'a list \<Rightarrow> 'e + 'b list" where
  "traverse f [] = Inr []"
| "traverse f (x # xs) = (case f x of Inl e \<Rightarrow> Inl e
     | Inr y \<Rightarrow> (case traverse f xs of Inl e \<Rightarrow> Inl e | Inr ys \<Rightarrow> Inr (y # ys)))"

text \<open>\<open>INSERT ... ON CONFLICT(id) DO UPDATE ... WHERE user_id = excluded.user_id\<close>\<close>

definition upsert :: "('r \<Rightarrow> ident) \<Rightarrow> ('r \<Rightarrow> ident) \<Rightarrow> ('r \<Rightarrow> 'r \<Rightarrow> 'r) \<Rightarrow> 'r \<Rightarrow> 'r list \<Rightarrow> 'r list" where
  "upsert key owner merge r rs =
     (if list_ex (\<lambda>x. key x = key r) rs then map (\<lambda>x. if key x = key r \<and> owner x = owner r then merge x r else x) rs else rs @ [r])"

definition row_exists :: "('r \<Rightarrow> ident) \<Rightarrow> ident \<Rightarrow> 'r list \<Rightarrow> bool" where
  "row_exists key i rs = list_ex (\<lambda>x. key x = i) rs"

text \<open>The row has another owner, so that the statement changes nothing.\<close>

definition foreign_row :: "('r \<Rightarrow> ident) \<Rightarrow> ('r \<Rightarrow> ident) \<Rightarrow> 'r \<Rightarrow> 'r list \<Rightarrow> bool" where
  "foreign_row key owner r rs = list_ex (\<lambda>x. key x = key r \<and> owner x \<noteq> owner r) rs"

section \<open>Workspaces\<close>

definition getWorkspace :: "ident \<Rightarrow> ident \<Rightarrow> ('z agent_db_scheme, agent_failure, workspace option) op" where
  "getWorkspace u i = query (\<lambda>db. Inr (find (\<lambda>w. wk_id w = i \<and> wk_user_id w = u) (ad_workspaces db)))"

definition touchWorkspace :: "ident \<Rightarrow> instant \<Rightarrow> ident \<Rightarrow> ('z agent_db_scheme, agent_failure, unit) op" where
  "touchWorkspace u now i = modify (\<lambda>db. db\<lparr>ad_workspaces :=
     map (\<lambda>w. if wk_id w = i \<and> wk_user_id w = u then w\<lparr>wk_updated_at := now\<rparr> else w) (ad_workspaces db)\<rparr>)"

definition isGitBackedWorkspace :: "workspace \<Rightarrow> bool" where
  "isGitBackedWorkspace w = wk_git w"

definition assertGitBackedWorkspace :: "workspace \<Rightarrow> ('s, agent_failure, unit) op" where
  "assertGitBackedWorkspace w = (if isGitBackedWorkspace w then ret ()
     else throw (DomainFailure ''workspace_git_required'' ''Directory workspaces do not support branches or worktrees.''))"

definition assertWorktreesAllowed :: "workspace \<Rightarrow> ('s, agent_failure, unit) op" where
  "assertWorktreesAllowed w = (if wk_allowWorktrees w \<noteq> Some False then ret ()
     else throw (DomainFailure ''workspace_worktrees_disabled'' ''Worktrees are disabled for this workspace.''))"

section \<open>Agents\<close>

definition replace_agent :: "agent_row \<Rightarrow> agent_row list \<Rightarrow> agent_row list" where
  "replace_agent = upsert ar_id ar_user_id (\<lambda>_ r. r)"

definition saveAgent :: "ident \<Rightarrow> agent \<Rightarrow> ('z agent_db_scheme, agent_failure, unit) op" where
  "saveAgent u a db = (let r = agentToRow u a in
     if \<not> foreign_row ar_id ar_user_id r (ad_agents db) \<and> \<not> row_exists wk_id (ar_workspace_id r) (ad_workspaces db)
     then (Inl ForeignKeyFailure, db) else (Inr (), db\<lparr>ad_agents := replace_agent r (ad_agents db)\<rparr>))"

definition select_agents :: "(agent_row \<Rightarrow> bool) \<Rightarrow> (agent_row \<Rightarrow> instant) \<Rightarrow> 'z agent_db_scheme \<Rightarrow> agent_row list" where
  "select_agents P order db = sort_key order (filter P (ad_agents db))"

definition loadAgent :: "ident \<Rightarrow> ident \<Rightarrow> ('z agent_db_scheme, agent_failure, agent option) op" where
  "loadAgent u i = query (\<lambda>db. case find (\<lambda>r. ar_id r = i \<and> ar_user_id r = u) (ad_agents db) of
     None \<Rightarrow> Inr None | Some r \<Rightarrow> (case rowToAgent r of Inl x \<Rightarrow> Inl x | Inr a \<Rightarrow> Inr (Some a)))"

text \<open>\<open>ws\<close> is the workspace the caller is confined to, if any.\<close>

definition in_scope :: "ident option \<Rightarrow> agent_row \<Rightarrow> bool" where
  "in_scope ws r = (case ws of None \<Rightarrow> True | Some w \<Rightarrow> ar_workspace_id r = w)"

definition listAgents :: "ident \<Rightarrow> ident option \<Rightarrow> ('z agent_db_scheme, agent_failure, agent list) op" where
  "listAgents u ws = query (\<lambda>db. traverse rowToAgent
     (select_agents (\<lambda>r. ar_user_id r = u \<and> in_scope ws r) (\<lambda>r. - ar_created_at r) db))"

definition listAgentsByWorkspace :: "ident \<Rightarrow> ident \<Rightarrow> ('z agent_db_scheme, agent_failure, agent list) op" where
  "listAgentsByWorkspace u w = query (\<lambda>db. traverse rowToAgent
     (select_agents (\<lambda>r. ar_workspace_id r = w \<and> ar_user_id r = u) (\<lambda>r. - ar_created_at r) db))"

definition due :: "ident \<Rightarrow> ident option \<Rightarrow> instant \<Rightarrow> agent_row \<Rightarrow> bool" where
  "due u ws now r = (ar_enabled r = 1 \<and> (case ar_next_run_at r of None \<Rightarrow> False | Some t \<Rightarrow> t \<le> now)
     \<and> ar_user_id r = u \<and> in_scope ws r)"

definition next_run_order :: "agent_row \<Rightarrow> instant" where
  "next_run_order r = (case ar_next_run_at r of None \<Rightarrow> 0 | Some t \<Rightarrow> t)"

definition listDueAgents :: "ident \<Rightarrow> ident option \<Rightarrow> instant \<Rightarrow> ('z agent_db_scheme, agent_failure, agent list) op" where
  "listDueAgents u ws now = query (\<lambda>db. traverse rowToAgent (select_agents (due u ws now) next_run_order db))"

section \<open>Deleting runs and agents\<close>

definition delete_runs :: "(run_row \<Rightarrow> bool) \<Rightarrow> 'z agent_db_scheme \<Rightarrow> 'z agent_db_scheme" where
  "delete_runs P db = db\<lparr>ad_runs := filter (\<lambda>r. \<not> P r) (ad_runs db),
     ad_transcripts := filter (\<lambda>e. \<not> list_ex (\<lambda>r. P r \<and> rr_id r = tr_resource e) (ad_runs db)) (ad_transcripts db)\<rparr>"

definition deleteAgent :: "ident \<Rightarrow> ident \<Rightarrow> ('z agent_db_scheme, agent_failure, bool) op" where
  "deleteAgent u i db = (if list_ex (\<lambda>r. ar_id r = i \<and> ar_user_id r = u) (ad_agents db)
     then (Inr True, delete_runs (\<lambda>r. rr_agent_id r = i)
       (db\<lparr>ad_agents := filter (\<lambda>r. \<not> (ar_id r = i \<and> ar_user_id r = u)) (ad_agents db)\<rparr>))
     else (Inr False, db))"

definition deleteAgentRun :: "ident \<Rightarrow> ident \<Rightarrow> ('z agent_db_scheme, agent_failure, bool) op" where
  "deleteAgentRun u i db = (Inr (list_ex (\<lambda>r. rr_id r = i \<and> rr_user_id r = u) (ad_runs db)),
     delete_runs (\<lambda>r. rr_id r = i \<and> rr_user_id r = u) db)"

definition DELETE_AGENT_RUN_BATCH_SIZE :: nat where "DELETE_AGENT_RUN_BATCH_SIZE = 500"

function delete_batches :: "ident \<Rightarrow> ident list \<Rightarrow> 'z agent_db_scheme \<Rightarrow> 'z agent_db_scheme" where
  "delete_batches u is db = (if is = [] then db
     else delete_batches u (drop DELETE_AGENT_RUN_BATCH_SIZE is)
       (delete_runs (\<lambda>r. rr_user_id r = u \<and> rr_id r \<in> set (take DELETE_AGENT_RUN_BATCH_SIZE is)) db))"
  by pat_completeness auto
termination
  by (relation "measure (\<lambda>(u, is, db). length is)") (auto simp: DELETE_AGENT_RUN_BATCH_SIZE_def)

declare delete_batches.simps [simp del]

definition deleteAgentRuns :: "ident \<Rightarrow> ident \<Rightarrow> instant option \<Rightarrow> run_status list \<Rightarrow> ('z agent_db_scheme, agent_failure, ident list) op" where
  "deleteAgentRuns u i before statuses db =
     (let is = map rr_id (filter (\<lambda>r. rr_agent_id r = i \<and> rr_user_id r = u \<and> (case before of None \<Rightarrow> True | Some t \<Rightarrow> rr_created_at r < t)
            \<and> (statuses = [] \<or> rr_status r \<in> set statuses)) (ad_runs db))
      in (Inr is, delete_batches u is db))"

section \<open>Runs\<close>

definition replace_run :: "run_row \<Rightarrow> run_row list \<Rightarrow> run_row list" where
  "replace_run = upsert rr_id rr_user_id (\<lambda>x r. r\<lparr>rr_usage_json := rr_usage_json x\<rparr>)"

text \<open>The transcript entries are written as a change set, or as the difference from a previous state.\<close>

definition write_transcript :: "ident \<Rightarrow> instant \<Rightarrow> agent_run \<Rightarrow> transcript_state option \<Rightarrow> change_set option \<Rightarrow> 'z agent_db_scheme \<Rightarrow> 'z agent_db_scheme" where
  "write_transcript u now run prev chg db = (case chg of
       Some cs \<Rightarrow> (let (tab, live) = applyTranscriptChangeSet (ad_transcripts db) (ad_live db) (run_id run) u cs (nat now)
         in db\<lparr>ad_transcripts := tab, ad_live := live\<rparr>)
     | None \<Rightarrow> (let p = (case prev of Some s \<Rightarrow> s | None \<Rightarrow> hydrateTranscriptStateForUser (ad_transcripts db) (run_id run) u)
         in db\<lparr>ad_transcripts := syncTranscriptEntries (ad_transcripts db) (run_id run) u p (run_transcript run) (\<lambda>_. True) (nat now)\<rparr>))"

definition saveAgentRun :: "ident \<Rightarrow> instant \<Rightarrow> agent_run \<Rightarrow> transcript_state option \<Rightarrow> change_set option
    \<Rightarrow> ('z agent_db_scheme, agent_failure, unit) op" where
  "saveAgentRun u now run prev chg db = (let r = agentRunToRow u run in
     if \<not> foreign_row rr_id rr_user_id r (ad_runs db) \<and> \<not> row_exists ar_id (rr_agent_id r) (ad_agents db)
     then (Inl ForeignKeyFailure, db)
     else (Inr (), write_transcript u now run prev chg (db\<lparr>ad_runs := replace_run r (ad_runs db)\<rparr>)))"

definition hydrate_run :: "ident \<Rightarrow> 'z agent_db_scheme \<Rightarrow> run_row \<Rightarrow> agent_failure + agent_run" where
  "hydrate_run u db r = (case rowToAgentRun True r of Inl x \<Rightarrow> Inl x
     | Inr run \<Rightarrow> Inr (run\<lparr>run_transcript := hydrateTranscriptStateForUser (ad_transcripts db) (rr_id r) u\<rparr>))"

definition read_run :: "(run_row \<Rightarrow> agent_failure + agent_run) \<Rightarrow> run_row option \<Rightarrow> agent_failure + agent_run option" where
  "read_run f r = (case r of None \<Rightarrow> Inr None | Some r \<Rightarrow> (case f r of Inl x \<Rightarrow> Inl x | Inr run \<Rightarrow> Inr (Some run)))"

definition loadAgentRun :: "ident \<Rightarrow> ident \<Rightarrow> ('z agent_db_scheme, agent_failure, agent_run option) op" where
  "loadAgentRun u i = query (\<lambda>db. read_run (hydrate_run u db) (find (\<lambda>r. rr_id r = i \<and> rr_user_id r = u) (ad_runs db)))"

definition loadAgentRunSummary :: "ident \<Rightarrow> ident \<Rightarrow> ('z agent_db_scheme, agent_failure, agent_run option) op" where
  "loadAgentRunSummary u i = query (\<lambda>db. read_run (rowToAgentRun False) (find (\<lambda>r. rr_id r = i \<and> rr_user_id r = u) (ad_runs db)))"

definition select_runs :: "(run_row \<Rightarrow> bool) \<Rightarrow> 'z agent_db_scheme \<Rightarrow> run_row list" where
  "select_runs P db = sort_key (\<lambda>r. - rr_created_at r) (filter P (ad_runs db))"

definition loadAgentRunSummaryByChatId :: "ident \<Rightarrow> ident \<Rightarrow> ('z agent_db_scheme, agent_failure, agent_run option) op" where
  "loadAgentRunSummaryByChatId u c = query (\<lambda>db. read_run (rowToAgentRun False)
     (case select_runs (\<lambda>r. rr_chat_id r = Some c \<and> rr_user_id r = u) db of [] \<Rightarrow> None | r # _ \<Rightarrow> Some r))"

definition listAgentRuns :: "ident \<Rightarrow> ident \<Rightarrow> nat option \<Rightarrow> nat option \<Rightarrow> ('z agent_db_scheme, agent_failure, agent_run list) op" where
  "listAgentRuns u i limit offset = query (\<lambda>db. traverse (rowToAgentRun False)
     (take (case limit of None \<Rightarrow> 50 | Some n \<Rightarrow> n) (drop (case offset of None \<Rightarrow> 0 | Some n \<Rightarrow> n)
       (select_runs (\<lambda>r. rr_agent_id r = i \<and> rr_user_id r = u) db))))"

definition listActiveAgentRuns :: "ident \<Rightarrow> ident \<Rightarrow> ('z agent_db_scheme, agent_failure, agent_run list) op" where
  "listActiveAgentRuns u i = query (\<lambda>db. traverse (hydrate_run u db)
     (select_runs (\<lambda>r. rr_agent_id r = i \<and> rr_user_id r = u \<and> rr_status r \<in> {RunScheduled, RunStarting, RunRunning}) db))"

end
