(* ===== verification/AgentRunner.thy ===== *)
theory AgentRunner
  imports AgentStore TranscriptStream
begin

text \<open>
  Running an agent (\<open>core/agent-runner.ts\<close>, with the state of \<open>core/agent-run-stream-persistence.ts\<close>): the run row, the
  chat that does the work, the transcript that is kept while it streams, and the agent's state before and after. The
  state of the server is the database together with the runner's maps. Chats belong to another service: what it answers
  is an argument, and so is what the rest of the server does to the state while a run waits for it. Calls of the store
  that follow each other are one step; the checkpoints that a stream schedules by itself are a step of their own
  (\<open>checkpoint_stream\<close>), whose own interleaving is \<open>TranscriptStream\<close>'s.
\<close>

section \<open>The state of the server\<close>

datatype agent_event =
  AgentCreated agent
| AgentUpdated agent
| AgentDeleted ident
| AgentRunScheduled ident ident
| AgentRunStarted ident ident
| AgentRunStatus ident ident run_status
| AgentRunSkipped ident ident string
| AgentRunCompleted ident ident
| AgentRunFailed ident ident string
| AgentRunInterrupted ident ident
| AgentRunDeleted ident ident
| AgentRunsPurged ident "ident list"

text \<open>The run whose transcript is streaming; its transcript is what the projection holds.\<close>

record run_stream =
  rs_run :: agent_run
  rs_projection :: projection
  rs_dirty :: bool

text \<open>\<open>aw_controllers\<close> tells whether the controller of a run is aborted; \<open>aw_active\<close> are the runs with a promise.\<close>

record agent_world = agent_db +
  aw_controllers :: "(ident, bool) amap"
  aw_streams :: "(ident, run_stream) amap"
  aw_active :: "ident list"
  aw_events :: "agent_event list"

type_synonym 'a agent_op = "(agent_world, agent_failure, 'a) op"

definition emit_agent :: "agent_event \<Rightarrow> unit agent_op" where
  "emit_agent ev = modify (\<lambda>w. w\<lparr>aw_events := aw_events w @ [ev]\<rparr>)"

definition put_stream :: "ident \<Rightarrow> run_stream \<Rightarrow> unit agent_op" where
  "put_stream i st = modify (\<lambda>w. w\<lparr>aw_streams := amap_set (aw_streams w) i st\<rparr>)"

definition aborted :: "ident \<Rightarrow> agent_world \<Rightarrow> bool" where
  "aborted i w = (amap_get (aw_controllers w) i = Some True)"

section \<open>The stream of a run\<close>

definition stream_of :: "agent_run \<Rightarrow> run_stream" where
  "stream_of run = \<lparr>rs_run = run, rs_projection = projection_new (run_transcript run) persisted_limits, rs_dirty = True\<rparr>"

datatype chat_event =
  ChatUpdated "string list" "session_info option" "chat_worktree option" instant
| ChatMessage persisted_message
| ChatMessageDelta ident message_role nat string timestamp
| ChatLog task_log_entry
| ChatToolCall tool_call_record
| ChatErrorEvent string "string option" instant
| ChatInterruptedEvent instant
| ChatStatusEvent instant

definition with_projection :: "instant \<Rightarrow> projection \<Rightarrow> run_stream \<Rightarrow> run_stream" where
  "with_projection now p st = st\<lparr>rs_projection := p,
     rs_run := (rs_run st)\<lparr>run_transcript := projection_state p, run_updatedAt := now\<rparr>\<rparr>"

definition operational :: "agent_run \<Rightarrow> run_stream \<Rightarrow> run_stream" where
  "operational run st = st\<lparr>rs_run := run, rs_dirty := True\<rparr>"

fun handleChatEvent :: "chat_event \<Rightarrow> run_stream \<Rightarrow> run_stream" where
  "handleChatEvent (ChatUpdated ps s wt now) st = operational
     ((rs_run st)\<lparr>run_pendingPermissionRequests := ps, run_session := s, run_worktree := wt, run_updatedAt := now\<rparr>) st"
| "handleChatEvent (ChatMessage m) st = with_projection (int (msg_timestamp m)) (upsertMessage m (rs_projection st)) st"
| "handleChatEvent (ChatMessageDelta i role b d ts) st = with_projection
     (int (case index_get (pj_messages (rs_projection st)) i of None \<Rightarrow> ts | Some m \<Rightarrow> msg_timestamp m))
     (upsertMessageDelta i role b d ts (rs_projection st)) st"
| "handleChatEvent (ChatLog l) st = with_projection (int (log_timestamp l)) (upsertLog l (rs_projection st)) st"
| "handleChatEvent (ChatToolCall c) st = with_projection (int (tool_timestamp c)) (upsertToolCall c (rs_projection st)) st"
| "handleChatEvent (ChatErrorEvent m c now) st = operational
     ((rs_run st)\<lparr>run_status := RunFailed, run_completedAt := Some now,
        run_error := Some \<lparr>ae_message = m, ae_timestamp = now, ae_code = c\<rparr>, run_updatedAt := now\<rparr>) st"
| "handleChatEvent (ChatInterruptedEvent now) st = operational
     ((rs_run st)\<lparr>run_status := RunInterrupted, run_completedAt := Some now, run_updatedAt := now\<rparr>) st"
| "handleChatEvent (ChatStatusEvent now) st = operational ((rs_run st)\<lparr>run_updatedAt := now\<rparr>) st"

definition checkpoint_stream :: "ident \<Rightarrow> instant \<Rightarrow> ident \<Rightarrow> unit agent_op" where
  "checkpoint_stream u now i w = (case amap_get (aw_streams w) i of
       None \<Rightarrow> (Inr (), w)
     | Some st \<Rightarrow> (let p = rs_projection st; sn = tracker_snapshot (projection_state p) (pj_changes p) in
         if \<not> rs_dirty st \<and> cs_upserts (sn_changes sn) = [] \<and> cs_deletes (sn_changes sn) = [] then (Inr (), w)
         else seq (saveAgentRun u now (rs_run st) None (Some (sn_changes sn)))
                (put_stream i (st\<lparr>rs_projection := p\<lparr>pj_changes := tracker_acknowledge sn (pj_changes p)\<rparr>, rs_dirty := False\<rparr>)) w))"

definition persistForFinalization :: "ident \<Rightarrow> instant \<Rightarrow> ident \<Rightarrow> unit agent_op" where
  "persistForFinalization u now i = catching (checkpoint_stream u now i)
     (\<lambda>_. catching (checkpoint_stream u now i) (\<lambda>_. throw FinalizationFailure))"

definition reconcile_run :: "transcript_state \<Rightarrow> projection \<Rightarrow> change_tracker" where
  "reconcile_run next p =
     reconcileTranscript tool_id PTool KindTool (index_values (pj_tools p)) (ts_toolCalls next)
       (reconcileTranscript log_id PLog KindLog (index_values (pj_logs p)) (ts_logs next)
         (reconcileTranscript msg_id PMessage KindMessage (index_values (pj_messages p)) (ts_messages next) (pj_changes p)))"

definition replace_stream :: "agent_run \<Rightarrow> run_stream \<Rightarrow> run_stream" where
  "replace_stream run st = (let p = rs_projection st in
     \<lparr>rs_run = run, rs_projection = projection_replace (run_transcript run) (p\<lparr>pj_changes := reconcile_run (run_transcript run) p\<rparr>), rs_dirty = True\<rparr>)"

definition adoptRun :: "ident \<Rightarrow> instant \<Rightarrow> ident \<Rightarrow> agent_run \<Rightarrow> unit agent_op" where
  "adoptRun u now i run = seq (persistForFinalization u now i)
     (seq (modify (\<lambda>w. case amap_get (aw_streams w) i of None \<Rightarrow> w
        | Some st \<Rightarrow> w\<lparr>aw_streams := amap_set (aw_streams w) i (replace_stream run st)\<rparr>))
     (persistForFinalization u now i))"

section \<open>Runs\<close>

definition config_snapshot :: "agent_config \<Rightarrow> agent_config_snapshot" where
  "config_snapshot c = \<lparr>as_name = as_name c, as_workspaceId = as_workspaceId c, as_directory = as_directory c, as_prompt = as_prompt c,
     as_code = as_code c, as_model = as_model c, as_baseBranch = as_baseBranch c, as_useWorktree = as_useWorktree c,
     as_schedule = as_schedule c\<rparr>"

definition createRunFromAgent :: "ident \<Rightarrow> instant \<Rightarrow> agent \<Rightarrow> run_trigger \<Rightarrow> instant \<Rightarrow> message_attachment list \<Rightarrow> agent_run" where
  "createRunFromAgent i now a trigger scheduledFor attachments =
     \<lparr>run_id = i, run_agentId = ag_id (a_config a), run_chatId = None, run_status = RunScheduled, run_trigger = trigger,
      run_scheduledFor = scheduledFor, run_startedAt = None, run_completedAt = None, run_skipReason = None, run_error = None,
      run_session = None, run_usage = None, run_worktree = None, run_transcript = empty_transcript,
      run_pendingPermissionRequests = [], run_attachments = attachments, run_configSnapshot = config_snapshot (a_config a),
      run_createdAt = now, run_updatedAt = now\<rparr>"

text \<open>A map keeps the place of a key that is set again.\<close>

fun set_by_id :: "task_log_entry \<Rightarrow> task_log_entry list \<Rightarrow> task_log_entry list" where
  "set_by_id e [] = [e]"
| "set_by_id e (x # xs) = (if log_id x = log_id e then e # xs else x # set_by_id e xs)"

definition mergeRunLogs :: "task_log_entry list \<Rightarrow> task_log_entry list \<Rightarrow> task_log_entry list" where
  "mergeRunLogs chatLogs outputLogs = (let es = sort_key log_timestamp (fold set_by_id (chatLogs @ outputLogs) [])
     in drop (length es - MAX_PERSISTED_LOGS) es)"

definition no_changes :: "agent_run \<Rightarrow> change_set" where
  "no_changes run = createTranscriptChangeSet (run_transcript run) [] []"

definition save_plain :: "ident \<Rightarrow> instant \<Rightarrow> agent_run \<Rightarrow> ('z agent_db_scheme, agent_failure, unit) op" where
  "save_plain u now run = saveAgentRun u now run None (Some (no_changes run))"

definition setAgentRunning :: "ident \<Rightarrow> instant \<Rightarrow> agent \<Rightarrow> ident \<Rightarrow> ('z agent_db_scheme, agent_failure, unit) op" where
  "setAgentRunning u now a runId = bind (loadAgent u (ag_id (a_config a))) (\<lambda>current.
     let source = (case current of Some c \<Rightarrow> c | None \<Rightarrow> a) in
     saveAgent u (source\<lparr>a_config := (a_config source)\<lparr>ag_updatedAt := now\<rparr>,
       a_state := (a_state source)\<lparr>ags_status := AgentRunning, ags_activeRunId := Some runId, ags_lastRunAt := Some now, ags_lastError := None\<rparr>\<rparr>))"

definition cleared_agent :: "instant \<Rightarrow> agent_run \<Rightarrow> agent \<Rightarrow> agent" where
  "cleared_agent now run a = a\<lparr>a_config := (a_config a)\<lparr>ag_updatedAt := now\<rparr>,
     a_state := (a_state a)\<lparr>ags_status := (if ag_enabled (a_config a) then (if run_status run = RunFailed then AgentError else AgentEnabled) else AgentPaused),
       ags_activeRunId := (if ags_activeRunId (a_state a) = Some (run_id run) then None else ags_activeRunId (a_state a)),
       ags_lastError := (if run_status run = RunFailed then run_error run else None)\<rparr>\<rparr>"

definition clearAgentRunning :: "ident \<Rightarrow> instant \<Rightarrow> ident \<Rightarrow> agent_run \<Rightarrow> ('z agent_db_scheme, agent_failure, unit) op" where
  "clearAgentRunning u now agentId run = bind (loadAgent u agentId) (\<lambda>current. case current of None \<Rightarrow> ret ()
     | Some a \<Rightarrow> saveAgent u (cleared_agent now run a))"

text \<open>\<open>startAgentRun\<close> up to the call of \<open>executeRun\<close>, whose promise joins \<open>activeRuns\<close>.\<close>

definition startAgentRun :: "ident \<Rightarrow> instant \<Rightarrow> ident \<Rightarrow> agent \<Rightarrow> run_trigger \<Rightarrow> instant option \<Rightarrow> message_attachment list \<Rightarrow> agent_run agent_op" where
  "startAgentRun u now i a trigger scheduledFor attachments =
     seq (if as_useWorktree (a_config a)
        then bind (getWorkspace u (as_workspaceId (a_config a))) (\<lambda>ws. case ws of
            None \<Rightarrow> throw (DomainFailure ''workspace_not_found'' ''Workspace not found'') | Some x \<Rightarrow> assertWorktreesAllowed x)
        else ret ())
     (let run = createRunFromAgent i now a trigger (case scheduledFor of Some t \<Rightarrow> t | None \<Rightarrow> now) attachments in
      seq (saveAgentRun u now run None (Some (no_changes run)))
      (seq (emit_agent (AgentRunScheduled (ag_id (a_config a)) i))
      (seq (modify (\<lambda>w. w\<lparr>aw_active := i # aw_active w\<rparr>))
      (ret run))))"

definition recordStartFailure :: "ident \<Rightarrow> instant \<Rightarrow> ident \<Rightarrow> agent \<Rightarrow> run_trigger \<Rightarrow> instant option \<Rightarrow> agent_failure \<Rightarrow> agent_run agent_op" where
  "recordStartFailure u now i a trigger scheduledFor x =
     (let run = createRunFromAgent i now a trigger (case scheduledFor of Some t \<Rightarrow> t | None \<Rightarrow> now) [];
          failed = run\<lparr>run_status := RunFailed, run_completedAt := Some now,
            run_error := Some \<lparr>ae_message = failure_text x, ae_timestamp = now,
              ae_code = (case failure_code x of Some c \<Rightarrow> Some c | None \<Rightarrow> Some ''agent_run_start_failed'')\<rparr>\<rparr>
      in seq (saveAgentRun u now failed None (Some (no_changes failed)))
         (seq (emit_agent (AgentRunFailed (ag_id (a_config a)) i (failure_text x)))
         (seq (emit_agent (AgentRunStatus (ag_id (a_config a)) i RunFailed))
         (seq (clearAgentRunning u now (ag_id (a_config a)) failed) (ret failed)))))"

section \<open>Executing a run\<close>

text \<open>What the chat service answers about a chat.\<close>

record chat_info =
  ci_id :: ident
  ci_failed :: bool
  ci_error :: "agent_error option"
  ci_session :: "session_info option"
  ci_worktree :: "chat_worktree option"
  ci_transcript :: transcript_state
  ci_pending :: "string list"

text \<open>
  The answers a run gets, the output of its code, its clock, and what happens to the state while it waits for the chat to be
  created, for the chat of an aborted run to be deleted, and for the work to be done.
\<close>

record run_env =
  xe_create :: "agent_failure + chat_info"
  xe_delete :: "agent_failure + unit"
  xe_work :: "agent_failure + unit"
  xe_output :: "task_log_entry list"
  xe_idle :: "agent_failure + chat_info"
  xe_creating :: "agent_world \<Rightarrow> agent_world"
  xe_deleting :: "agent_world \<Rightarrow> agent_world"
  xe_working :: "agent_world \<Rightarrow> agent_world"
  xe_settling :: "agent_world \<Rightarrow> agent_world"
  xe_begin :: instant
  xe_started :: instant
  xe_end :: instant

definition awaiting :: "(agent_world \<Rightarrow> agent_world) \<Rightarrow> (agent_failure + 'a) \<Rightarrow> 'a agent_op" where
  "awaiting f r w = (r, f w)"

text \<open>\<open>m\<close> followed by \<open>k\<close> inside the \<open>try\<close>, whose handler for an error of \<open>m\<close> is \<open>h\<close>.\<close>

definition guarded :: "('s, 'e, 'a) op \<Rightarrow> ('e \<Rightarrow> ('s, 'e, 'b) op) \<Rightarrow> ('a \<Rightarrow> ('s, 'e, 'b) op) \<Rightarrow> ('s, 'e, 'b) op" where
  "guarded m h k s = (case m s of (Inl x, s') \<Rightarrow> h x s' | (Inr y, s') \<Rightarrow> k y s')"

definition check_aborted :: "ident \<Rightarrow> unit agent_op" where
  "check_aborted i w = (if aborted i w then (Inl RunInterruptedError, w) else (Inr (), w))"

text \<open>The chat of a run that was aborted meanwhile is deleted.\<close>

definition drop_aborted :: "run_env \<Rightarrow> ident \<Rightarrow> unit agent_op" where
  "drop_aborted E i w = (if aborted i w then seq (awaiting (xe_deleting E) (xe_delete E)) (throw RunInterruptedError) w else (Inr (), w))"

definition store_final :: "ident \<Rightarrow> instant \<Rightarrow> bool \<Rightarrow> agent_run \<Rightarrow> unit agent_op" where
  "store_final u now streamed run = (if streamed then adoptRun u now (run_id run) run else save_plain u now run)"

definition failed_run :: "instant \<Rightarrow> bool \<Rightarrow> agent_failure \<Rightarrow> agent_run \<Rightarrow> agent_run" where
  "failed_run now ab x run = run\<lparr>run_status := (if ab then RunInterrupted else RunFailed), run_completedAt := Some now,
     run_error := Some \<lparr>ae_message = (if ab then ''Agent run interrupted'' else failure_text x), ae_timestamp = now,
       ae_code = (if ab then Some ''interrupted'' else None)\<rparr>, run_updatedAt := now\<rparr>"

definition execute_fail :: "ident \<Rightarrow> instant \<Rightarrow> ident \<Rightarrow> agent_run \<Rightarrow> bool \<Rightarrow> agent_failure \<Rightarrow> agent_run agent_op" where
  "execute_fail u now agentId current streamed x w =
     (let run = failed_run now (aborted (run_id current) w) x current in
      seq (store_final u now streamed run)
      (seq (if run_status run = RunInterrupted then emit_agent (AgentRunInterrupted agentId (run_id run))
            else emit_agent (AgentRunFailed agentId (run_id run) (case run_error run of Some e \<Rightarrow> ae_message e | None \<Rightarrow> ''Agent run failed'')))
      (seq (emit_agent (AgentRunStatus agentId (run_id run) (run_status run)))
      (seq (clearAgentRunning u now agentId run) (ret run)))) w)"

definition completed_run :: "instant \<Rightarrow> bool \<Rightarrow> chat_info \<Rightarrow> agent_run \<Rightarrow> agent_run" where
  "completed_run now ab c run =
     (let interrupted = (ab \<or> Option.bind (ci_error c) ae_code = Some ''interrupted'');
          failed = (\<not> interrupted \<and> (ci_failed c \<or> ci_error c \<noteq> None))
      in run\<lparr>run_status := (if interrupted then RunInterrupted else if failed then RunFailed else RunCompleted),
           run_completedAt := Some now, run_error := ci_error c, run_session := ci_session c, run_worktree := ci_worktree c,
           run_transcript := (ci_transcript c)\<lparr>ts_logs := (if isAgentCodeEnabled (run_configSnapshot run)
             then mergeRunLogs (ts_logs (ci_transcript c)) (ts_logs (run_transcript run)) else ts_logs (ci_transcript c))\<rparr>,
           run_pendingPermissionRequests := ci_pending c, run_updatedAt := now\<rparr>)"

definition final_event :: "ident \<Rightarrow> agent_run \<Rightarrow> agent_event" where
  "final_event agentId run = (if run_status run = RunInterrupted then AgentRunInterrupted agentId (run_id run)
     else if run_status run = RunFailed then AgentRunFailed agentId (run_id run) (case run_error run of Some e \<Rightarrow> ae_message e | None \<Rightarrow> ''Agent run failed'')
     else AgentRunCompleted agentId (run_id run))"

definition execute_finish :: "ident \<Rightarrow> instant \<Rightarrow> ident \<Rightarrow> agent_run \<Rightarrow> chat_info \<Rightarrow> agent_run agent_op" where
  "execute_finish u now agentId current c w =
     (let run = completed_run now (aborted (run_id current) w) c current in
      seq (store_final u now True run)
      (seq (emit_agent (final_event agentId run))
      (seq (emit_agent (AgentRunStatus agentId (run_id run) (run_status run)))
      (seq (clearAgentRunning u now agentId run) (ret run)))) w)"

definition starting_run :: "instant \<Rightarrow> agent_run \<Rightarrow> agent_run" where
  "starting_run now run = run\<lparr>run_status := RunStarting, run_startedAt := Some now, run_updatedAt := now\<rparr>"

definition running_run :: "instant \<Rightarrow> chat_info \<Rightarrow> agent_run \<Rightarrow> agent_run" where
  "running_run now c run = run\<lparr>run_chatId := Some (ci_id c), run_status := RunRunning, run_session := ci_session c,
     run_worktree := ci_worktree c, run_updatedAt := now\<rparr>"

text \<open>The output of the code of an agent is appended to the logs of its run.\<close>

definition with_output :: "task_log_entry list \<Rightarrow> agent_run \<Rightarrow> agent_run" where
  "with_output out run = (if isAgentCodeEnabled (run_configSnapshot run) then
     run\<lparr>run_transcript := (run_transcript run)\<lparr>ts_logs := (let ls = ts_logs (run_transcript run) @ out in drop (length ls - MAX_PERSISTED_LOGS) ls)\<rparr>\<rparr>
   else run)"

definition announce_started :: "ident \<Rightarrow> agent_run \<Rightarrow> unit agent_op" where
  "announce_started agentId run = seq (emit_agent (AgentRunStarted agentId (run_id run))) (emit_agent (AgentRunStatus agentId (run_id run) (run_status run)))"

text \<open>The \<open>try\<close> of \<open>executeRun\<close> once its chat exists, and from its start.\<close>

definition execute_work :: "ident \<Rightarrow> run_env \<Rightarrow> ident \<Rightarrow> agent_run \<Rightarrow> agent_run agent_op" where
  "execute_work u E agentId run =
     (let fail = execute_fail u (xe_end E) agentId; worked = with_output (xe_output E) run in
      seq (put_stream (run_id run) (stream_of run))
      (guarded (seq (checkpoint_stream u (xe_started E) (run_id run)) (check_aborted (run_id run))) (fail run True) (\<lambda>_.
       seq (announce_started agentId run)
       (guarded (check_aborted (run_id run)) (fail run True) (\<lambda>_.
        guarded (awaiting (xe_working E) (xe_work E)) (fail worked True) (\<lambda>_.
        guarded (awaiting (xe_settling E) (xe_idle E)) (fail worked True) (\<lambda>c.
        guarded (execute_finish u (xe_end E) agentId worked c) (fail worked True) ret)))))))"

definition execute_body :: "ident \<Rightarrow> run_env \<Rightarrow> ident \<Rightarrow> agent_run \<Rightarrow> agent_run agent_op" where
  "execute_body u E agentId run =
     (let fail = execute_fail u (xe_end E) agentId run False in
      guarded (check_aborted (run_id run)) fail (\<lambda>_.
      guarded (awaiting (xe_creating E) (xe_create E)) fail (\<lambda>c.
      guarded (drop_aborted E (run_id run)) fail (\<lambda>_.
      execute_work u E agentId (running_run (xe_started E) c run)))))"

definition release_run :: "ident \<Rightarrow> agent_world \<Rightarrow> agent_world" where
  "release_run i w = w\<lparr>aw_controllers := amap_delete (aw_controllers w) i, aw_streams := amap_delete (aw_streams w) i\<rparr>"

definition executeRun :: "ident \<Rightarrow> run_env \<Rightarrow> agent \<Rightarrow> agent_run \<Rightarrow> agent_run agent_op" where
  "executeRun u E a run =
     seq (modify (\<lambda>w. w\<lparr>aw_controllers := amap_set (aw_controllers w) (run_id run) False\<rparr>))
     (seq (setAgentRunning u (xe_begin E) a (run_id run))
     (let current = starting_run (xe_begin E) run in
      seq (save_plain u (xe_begin E) current)
      (ensuring (execute_body u E (ag_id (a_config a)) current) (release_run (run_id run)))))"

text \<open>The promise in \<open>activeRuns\<close> is removed when it settles, whatever it settles with.\<close>

definition run_to_end :: "ident \<Rightarrow> run_env \<Rightarrow> agent \<Rightarrow> agent_run \<Rightarrow> agent_run agent_op" where
  "run_to_end u E a run = ensuring (executeRun u E a run) (\<lambda>w. w\<lparr>aw_active := filter (\<lambda>i. i \<noteq> run_id run) (aw_active w)\<rparr>)"

section \<open>Interrupting a run\<close>

text \<open>
  \<open>chat\<close> is what \<open>interruptChat\<close> answers for a run that has a chat, and \<open>f\<close> what happens meanwhile; the abort comes first.
\<close>

definition interruptRun :: "ident \<Rightarrow> instant \<Rightarrow> string \<Rightarrow> (agent_failure + chat_info option) \<Rightarrow> (agent_world \<Rightarrow> agent_world) \<Rightarrow> agent_run \<Rightarrow> agent_run agent_op" where
  "interruptRun u now reason chat f run =
     seq (modify (\<lambda>w. if amap_has (aw_controllers w) (run_id run) then w\<lparr>aw_controllers := amap_set (aw_controllers w) (run_id run) True\<rparr> else w))
     (let stopped = run\<lparr>run_status := RunInterrupted, run_completedAt := Some now,
            run_error := Some \<lparr>ae_message = reason, ae_timestamp = now, ae_code = Some ''interrupted''\<rparr>, run_updatedAt := now\<rparr>
      in case run_chatId run of
        None \<Rightarrow> (\<lambda>w. if amap_has (aw_controllers w) (run_id run) then seq (save_plain u now stopped) (ret stopped) w
          else (Inl (DomainFailure ''agent_run_not_ready'' ''Agent run cannot be interrupted because its chat has not been created yet''), w))
      | Some _ \<Rightarrow> bind (awaiting f chat) (\<lambda>c. case c of
          None \<Rightarrow> throw (DomainFailure ''agent_chat_not_found'' ''Agent run chat was not found'')
        | Some c \<Rightarrow> (\<lambda>w. let st = amap_get (aw_streams w) (run_id run);
              updated = stopped\<lparr>run_transcript := (ci_transcript c)\<lparr>ts_logs := (if isAgentCodeEnabled (run_configSnapshot run)
                  then (case st of Some s \<Rightarrow> ts_logs (run_transcript (rs_run s)) | None \<Rightarrow> ts_logs (run_transcript run))
                  else ts_logs (ci_transcript c))\<rparr>,
                run_pendingPermissionRequests := ci_pending c,
                run_session := (case ci_session c of Some s \<Rightarrow> Some s | None \<Rightarrow> run_session run),
                run_worktree := (case ci_worktree c of Some x \<Rightarrow> Some x | None \<Rightarrow> run_worktree run)\<rparr>
            in seq (if st \<noteq> None then adoptRun u now (run_id run) updated else save_plain u now updated) (ret updated) w)))"

end
