(* ===== verification/AgentManager.thy ===== *)
theory AgentManager
  imports AgentRunner
begin

text \<open>
  The service behind the routes of agents (\<open>core/agent-manager.ts\<close>) and the scheduler (\<open>core/agent-scheduler.ts\<close>). The user of
  a call is an argument, and so are the identifiers that are drawn. Chats, credentials and files of an execution host are
  other services: each call of them is a pair of what it answers and of what happens to the state meanwhile.
\<close>

text \<open>The zones of the schedule, and what the check of the code of an agent finds wrong.\<close>

record agent_env =
  av_zone :: zone_env
  av_diagnostics :: "string \<Rightarrow> string list"

type_synonym 'a service = "(agent_world \<Rightarrow> agent_world) \<times> (agent_failure + 'a)"

definition calling :: "'a service \<Rightarrow> 'a agent_op" where
  "calling s = awaiting (fst s) (snd s)"

fun for_each :: "('a \<Rightarrow> unit agent_op) \<Rightarrow> 'a list \<Rightarrow> unit agent_op" where
  "for_each f [] = ret ()"
| "for_each f (x # xs) = seq (f x) (for_each f xs)"

definition next_run :: "agent_env \<Rightarrow> agent_schedule \<Rightarrow> instant \<Rightarrow> instant agent_op" where
  "next_run E sc now = (case calculateNextRunAt (av_zone E) sc now of Inl x \<Rightarrow> throw (InvalidSchedule x) | Inr t \<Rightarrow> ret t)"

section \<open>Creating and updating agents\<close>

record schedule_input =
  si_startAtLocal :: string
  si_timezone :: string
  si_interval :: schedule_interval
  si_nextRunAt :: "instant option"

record create_options =
  co_name :: string
  co_workspaceId :: ident
  co_prompt :: string
  co_code :: "string option"
  co_model :: model_config
  co_baseBranch :: "string option"
  co_useWorktree :: bool
  co_schedule :: schedule_input
  co_enabled :: "bool option"

text \<open>A field of an update that is not given is \<open>None\<close>; the code and the base branch may be given as \<open>null\<close>.\<close>

record update_options =
  uo_name :: "string option"
  uo_prompt :: "string option"
  uo_code :: "string option option"
  uo_model :: "model_config option"
  uo_baseBranch :: "string option option"
  uo_useWorktree :: "bool option"
  uo_schedule :: "schedule_input option"
  uo_enabled :: "bool option"
  uo_isPrivate :: "bool option"

definition schedule_of :: "schedule_input \<Rightarrow> instant \<Rightarrow> agent_schedule" where
  "schedule_of s next = \<lparr>sc_startAtLocal = si_startAtLocal s, sc_timezone = si_timezone s, sc_interval = si_interval s, sc_nextRunAt = next\<rparr>"

definition input_next_run :: "agent_env \<Rightarrow> schedule_input \<Rightarrow> instant \<Rightarrow> instant agent_op" where
  "input_next_run E s now = (case si_nextRunAt s of Some t \<Rightarrow> ret t | None \<Rightarrow> next_run E (schedule_of s 0) now)"

definition normalizeAgentCode :: "string option \<Rightarrow> string option" where
  "normalizeAgentCode c = (case c of None \<Rightarrow> None | Some s \<Rightarrow> if js_trim s = [] then None else Some s)"

definition check_code :: "agent_env \<Rightarrow> string option \<Rightarrow> unit agent_op" where
  "check_code E c = (case c of None \<Rightarrow> ret () | Some s \<Rightarrow>
     if av_diagnostics E s \<noteq> [] then throw (DomainFailure ''agent_code_invalid'' ''Agent code is invalid'') else ret ())"

definition nullish :: "'a option \<Rightarrow> 'a \<Rightarrow> 'a" where
  "nullish x d = (case x of Some v \<Rightarrow> v | None \<Rightarrow> d)"

definition created_agent :: "instant \<Rightarrow> ident \<Rightarrow> workspace \<Rightarrow> create_options \<Rightarrow> instant \<Rightarrow> agent" where
  "created_agent now i ws opts next = (let enabled = nullish (co_enabled opts) True in
     \<lparr>a_config = \<lparr>as_name = js_trim (co_name opts), as_workspaceId = co_workspaceId opts, as_directory = wk_directory ws, as_prompt = co_prompt opts,
        as_code = normalizeAgentCode (co_code opts), as_model = co_model opts,
        as_baseBranch = (if isGitBackedWorkspace ws then co_baseBranch opts else None),
        as_useWorktree = (isGitBackedWorkspace ws \<and> co_useWorktree opts), as_schedule = schedule_of (co_schedule opts) next,
        ag_id = i, ag_enabled = enabled, ag_createdAt = now, ag_updatedAt = now, ag_generationChatId = None, ag_isPrivate = None\<rparr>,
      a_state = (createInitialAgentState i (if enabled then Some next else None))\<lparr>ags_status := (if enabled then AgentEnabled else AgentPaused)\<rparr>\<rparr>)"

definition createAgent :: "agent_env \<Rightarrow> ident \<Rightarrow> instant \<Rightarrow> ident \<Rightarrow> create_options \<Rightarrow> agent agent_op" where
  "createAgent E u now i opts = bind (getWorkspace u (co_workspaceId opts)) (\<lambda>ws. case ws of
       None \<Rightarrow> throw (DomainFailure ''workspace_not_found'' ''Workspace not found'')
     | Some ws \<Rightarrow>
         seq (if \<not> isGitBackedWorkspace ws \<and> (co_useWorktree opts \<or> co_baseBranch opts \<noteq> None) then assertGitBackedWorkspace ws else ret ())
         (seq (if co_useWorktree opts then assertWorktreesAllowed ws else ret ())
         (bind (input_next_run E (co_schedule opts) now) (\<lambda>next.
          seq (check_code E (normalizeAgentCode (co_code opts)))
          (let a = created_agent now i ws opts next in
           seq (saveAgent u a) (seq (touchWorkspace u now (co_workspaceId opts)) (seq (emit_agent (AgentCreated a)) (ret a))))))))"

definition updated_agent :: "instant \<Rightarrow> workspace option \<Rightarrow> update_options \<Rightarrow> agent_schedule \<Rightarrow> string option \<Rightarrow> agent \<Rightarrow> agent" where
  "updated_agent now ws upd sched code a = (let c = a_config a; s = a_state a; enabled = nullish (uo_enabled upd) (ag_enabled c);
       directory = (case ws of None \<Rightarrow> False | Some x \<Rightarrow> \<not> isGitBackedWorkspace x) in
     a\<lparr>a_config := c\<lparr>as_name := (case uo_name upd of None \<Rightarrow> as_name c | Some n \<Rightarrow> js_trim n), as_prompt := nullish (uo_prompt upd) (as_prompt c),
         as_code := code, as_model := nullish (uo_model upd) (as_model c),
         as_baseBranch := (if directory then None else (case uo_baseBranch upd of Some b \<Rightarrow> b | None \<Rightarrow> as_baseBranch c)),
         as_useWorktree := (if directory then False else nullish (uo_useWorktree upd) (as_useWorktree c)),
         as_schedule := sched, ag_enabled := enabled,
         ag_isPrivate := (case uo_isPrivate upd of Some b \<Rightarrow> Some b | None \<Rightarrow> ag_isPrivate c), ag_updatedAt := now\<rparr>,
       a_state := s\<lparr>ags_status := (if ags_activeRunId s \<noteq> None then AgentRunning else if enabled then AgentEnabled else AgentPaused),
         ags_nextRunAt := (if enabled then Some (sc_nextRunAt sched) else None)\<rparr>\<rparr>)"

text \<open>\<open>updateAgent\<close> up to the synchronisation of the generation draft, and from there.\<close>

definition updateAgent_prepare :: "agent_env \<Rightarrow> ident \<Rightarrow> instant \<Rightarrow> ident \<Rightarrow> update_options \<Rightarrow> agent option agent_op" where
  "updateAgent_prepare E u now i upd = bind (loadAgent u i) (\<lambda>a. case a of None \<Rightarrow> ret None
     | Some a \<Rightarrow> bind (getWorkspace u (as_workspaceId (a_config a))) (\<lambda>ws.
         let checks = (case ws of None \<Rightarrow> ret ()
           | Some x \<Rightarrow> seq (if \<not> isGitBackedWorkspace x \<and> (uo_useWorktree upd = Some True \<or> (\<exists>b. uo_baseBranch upd = Some (Some b)))
                 then assertGitBackedWorkspace x else ret ())
               (if uo_useWorktree upd = Some True \<and> \<not> as_useWorktree (a_config a) then assertWorktreesAllowed x else ret ()))
         in seq checks (bind (case uo_schedule upd of None \<Rightarrow> ret (as_schedule (a_config a))
              | Some s \<Rightarrow> bind (input_next_run E s now) (\<lambda>next. ret (schedule_of s next))) (\<lambda>sched.
            let code = (case uo_code upd of None \<Rightarrow> as_code (a_config a) | Some c \<Rightarrow> normalizeAgentCode c)
            in seq (check_code E code) (ret (Some (updated_agent now ws upd sched code a)))))))"

definition updateAgent_finish :: "ident \<Rightarrow> agent \<Rightarrow> agent agent_op" where
  "updateAgent_finish u a = seq (saveAgent u a) (seq (emit_agent (AgentUpdated a)) (ret a))"

definition updateAgent :: "agent_env \<Rightarrow> ident \<Rightarrow> instant \<Rightarrow> unit service \<Rightarrow> ident \<Rightarrow> update_options \<Rightarrow> agent option agent_op" where
  "updateAgent E u now sync i upd = bind (updateAgent_prepare E u now i upd) (\<lambda>a. case a of None \<Rightarrow> ret None
     | Some a \<Rightarrow> seq (if uo_code upd \<noteq> None then calling sync else ret ()) (bind (updateAgent_finish u a) (\<lambda>a. ret (Some a))))"

definition no_updates :: update_options where
  "no_updates = \<lparr>uo_name = None, uo_prompt = None, uo_code = None, uo_model = None, uo_baseBranch = None, uo_useWorktree = None,
     uo_schedule = None, uo_enabled = None, uo_isPrivate = None\<rparr>"

definition pauseAgent :: "agent_env \<Rightarrow> ident \<Rightarrow> instant \<Rightarrow> ident \<Rightarrow> agent option agent_op" where
  "pauseAgent E u now i = updateAgent E u now (id, Inr ()) i (no_updates\<lparr>uo_enabled := Some False\<rparr>)"

definition resumeAgent :: "agent_env \<Rightarrow> ident \<Rightarrow> instant \<Rightarrow> ident \<Rightarrow> agent option agent_op" where
  "resumeAgent E u now i = bind (loadAgent u i) (\<lambda>a. case a of None \<Rightarrow> ret None
     | Some a \<Rightarrow> (let sc = as_schedule (a_config a) in bind (next_run E sc now) (\<lambda>next.
         updateAgent E u now (id, Inr ()) i (no_updates\<lparr>uo_enabled := Some True,
           uo_schedule := Some \<lparr>si_startAtLocal = sc_startAtLocal sc, si_timezone = sc_timezone sc, si_interval = sc_interval sc, si_nextRunAt = Some next\<rparr>\<rparr>))))"

section \<open>The generation chat\<close>

definition getGenerationChat :: "ident \<Rightarrow> instant \<Rightarrow> chat_info option service \<Rightarrow> ident \<Rightarrow> chat_info option agent_op" where
  "getGenerationChat u now chat i = bind (loadAgent u i) (\<lambda>a. case a of None \<Rightarrow> ret None
     | Some a \<Rightarrow> if ag_generationChatId (a_config a) = None then ret None
         else bind (calling chat) (\<lambda>c. case c of Some c \<Rightarrow> ret (Some c)
           | None \<Rightarrow> (let b = a\<lparr>a_config := (a_config a)\<lparr>ag_generationChatId := None, ag_updatedAt := now\<rparr>\<rparr>
               in seq (saveAgent u b) (seq (emit_agent (AgentUpdated b)) (ret None)))))"

text \<open>\<open>cleanup\<close> is the removal of the previous chat and its files, \<open>create\<close> the new chat, \<open>undo\<close> its deletion when the agent cannot be saved.\<close>

definition resetGenerationChat :: "ident \<Rightarrow> instant \<Rightarrow> unit service \<Rightarrow> chat_info service \<Rightarrow> unit service \<Rightarrow> ident \<Rightarrow> chat_info agent_op" where
  "resetGenerationChat u now cleanup create undo i = bind (loadAgent u i) (\<lambda>a. case a of
       None \<Rightarrow> throw (DomainFailure ''agent_not_found'' ''Agent not found'')
     | Some a \<Rightarrow> seq (if ag_generationChatId (a_config a) \<noteq> None then calling cleanup else ret ())
         (bind (calling create) (\<lambda>c.
          let b = a\<lparr>a_config := (a_config a)\<lparr>ag_generationChatId := Some (ci_id c), ag_updatedAt := now\<rparr>\<rparr>
          in seq (catching (saveAgent u b) (\<lambda>x. seq (calling undo) (throw x))) (seq (emit_agent (AgentUpdated b)) (ret c)))))"

section \<open>Running and interrupting\<close>

definition runNow :: "ident \<Rightarrow> instant \<Rightarrow> ident \<Rightarrow> message_attachment list \<Rightarrow> ident \<Rightarrow> agent_run agent_op" where
  "runNow u now rid attachments i = bind (loadAgent u i) (\<lambda>a. case a of
       None \<Rightarrow> throw (DomainFailure ''agent_not_found'' ''Agent not found'')
     | Some a \<Rightarrow> bind (listActiveAgentRuns u i) (\<lambda>rs.
         if rs \<noteq> [] \<or> ags_activeRunId (a_state a) \<noteq> None then throw (DomainFailure ''agent_already_running'' ''Agent already has an active run'')
         else startAgentRun u now rid a TriggerManual None attachments))"

text \<open>\<open>waitForInterruptibleRun\<close>: what happens between two looks at the run, as long as its deadline allows.\<close>

definition interruptible :: "agent_run option \<Rightarrow> agent_run option" where
  "interruptible r = (case r of None \<Rightarrow> None | Some run \<Rightarrow> if isAgentRunActiveStatus (run_status run) then Some run else None)"

fun waitForInterruptibleRun :: "ident \<Rightarrow> (agent_world \<Rightarrow> agent_world) list \<Rightarrow> ident \<Rightarrow> agent_run option agent_op" where
  "waitForInterruptibleRun u [] i = bind (loadAgentRun u i) (\<lambda>r. ret (interruptible r))"
| "waitForInterruptibleRun u (f # fs) i = bind (loadAgentRun u i) (\<lambda>r. case interruptible r of None \<Rightarrow> ret None
     | Some run \<Rightarrow> if run_chatId run \<noteq> None then ret (Some run) else seq (awaiting f (Inr ())) (waitForInterruptibleRun u fs i))"

definition interruptAgent :: "ident \<Rightarrow> instant \<Rightarrow> string option \<Rightarrow> (agent_world \<Rightarrow> agent_world) list \<Rightarrow> chat_info option service \<Rightarrow> ident \<Rightarrow> agent_run option agent_op" where
  "interruptAgent u now reason waits chat i = bind (loadAgent u i) (\<lambda>a. case a of None \<Rightarrow> ret None
     | Some a \<Rightarrow> (case ags_activeRunId (a_state a) of None \<Rightarrow> ret None
       | Some rid \<Rightarrow> bind (waitForInterruptibleRun u waits rid) (\<lambda>r. case r of None \<Rightarrow> ret None
         | Some run \<Rightarrow> bind (interruptRun u now (nullish reason ''Agent run interrupted'') (snd chat) (fst chat) run) (\<lambda>stopped.
             seq (saveAgent u (a\<lparr>a_config := (a_config a)\<lparr>ag_updatedAt := now\<rparr>,
               a_state := (a_state a)\<lparr>ags_status := (if ag_enabled (a_config a) then AgentEnabled else AgentPaused), ags_activeRunId := None\<rparr>\<rparr>))
             (seq (emit_agent (AgentRunInterrupted i (run_id stopped))) (ret (Some stopped)))))))"

section \<open>Deleting runs and agents\<close>

text \<open>\<open>cleanup\<close> revokes the credentials of a run and deletes its chat.\<close>

definition deleteRun :: "ident \<Rightarrow> unit service \<Rightarrow> ident \<Rightarrow> bool agent_op" where
  "deleteRun u cleanup rid = bind (loadAgentRun u rid) (\<lambda>r. case r of None \<Rightarrow> ret False
     | Some run \<Rightarrow> seq (calling cleanup) (bind (deleteAgentRun u rid) (\<lambda>deleted.
         seq (if deleted then emit_agent (AgentRunDeleted (run_agentId run) rid) else ret ()) (ret deleted))))"

definition purgeable :: "instant option \<Rightarrow> run_status list \<Rightarrow> agent_run \<Rightarrow> bool" where
  "purgeable before statuses run = ((case before of None \<Rightarrow> True | Some t \<Rightarrow> run_createdAt run < t)
     \<and> (statuses = [] \<or> run_status run \<in> set statuses) \<and> run_status run \<notin> {RunStarting, RunRunning, RunScheduled})"

definition purgeRuns :: "ident \<Rightarrow> (agent_run \<Rightarrow> unit service) \<Rightarrow> instant option \<Rightarrow> run_status list \<Rightarrow> ident \<Rightarrow> ident list agent_op" where
  "purgeRuns u cleanup before statuses i = bind (listAgentRuns u i (Some 10000) (Some 0)) (\<lambda>runs.
     seq (for_each (\<lambda>r. calling (cleanup r)) (filter (purgeable before statuses) runs))
     (bind (deleteAgentRuns u i before statuses) (\<lambda>deleted.
      seq (if deleted \<noteq> [] then emit_agent (AgentRunsPurged i deleted) else ret ()) (ret deleted))))"

text \<open>\<open>chat\<close> is what interrupting the chat of an active run answers, \<open>generation\<close> the removal of the generation chat.\<close>

definition deleteAgent_run :: "ident \<Rightarrow> instant \<Rightarrow> (agent_run \<Rightarrow> chat_info option service) \<Rightarrow> (agent_run \<Rightarrow> unit service) \<Rightarrow> agent_run \<Rightarrow> unit agent_op" where
  "deleteAgent_run u now chat cleanup run =
     seq (if run_status run \<in> {RunStarting, RunRunning, RunScheduled}
       then bind (interruptRun u now ''Agent deleted'' (snd (chat run)) (fst (chat run)) run) (\<lambda>_. ret ()) else ret ())
     (calling (cleanup run))"

definition remove_agent :: "ident \<Rightarrow> instant \<Rightarrow> (agent_run \<Rightarrow> chat_info option service) \<Rightarrow> (agent_run \<Rightarrow> unit service) \<Rightarrow> unit service \<Rightarrow> ident \<Rightarrow> bool agent_op" where
  "remove_agent u now chat cleanup generation i = bind (loadAgent u i) (\<lambda>a. case a of None \<Rightarrow> ret False
     | Some a \<Rightarrow> bind (listAgentRuns u i (Some 10000) (Some 0)) (\<lambda>runs.
         seq (for_each (deleteAgent_run u now chat cleanup) runs)
         (seq (if ag_generationChatId (a_config a) \<noteq> None then calling generation else ret ())
         (bind (deleteAgent u i) (\<lambda>deleted. seq (if deleted then emit_agent (AgentDeleted i) else ret ()) (ret deleted))))))"

section \<open>The scheduler\<close>

definition createSkippedRun :: "ident \<Rightarrow> instant \<Rightarrow> agent \<Rightarrow> instant \<Rightarrow> string \<Rightarrow> agent_run" where
  "createSkippedRun i now a scheduledFor reason =
     \<lparr>run_id = i, run_agentId = ag_id (a_config a), run_chatId = None, run_status = RunSkipped, run_trigger = TriggerSchedule,
      run_scheduledFor = scheduledFor, run_startedAt = None, run_completedAt = Some now, run_skipReason = Some reason, run_error = None,
      run_session = None, run_usage = None, run_worktree = None, run_transcript = empty_transcript,
      run_pendingPermissionRequests = [], run_attachments = [], run_configSnapshot = (config_snapshot (a_config a))\<lparr>as_code := None\<rparr>,
      run_createdAt = now, run_updatedAt = now\<rparr>"

definition rescheduled :: "instant \<Rightarrow> instant \<Rightarrow> agent \<Rightarrow> agent" where
  "rescheduled now next a = a\<lparr>a_config := (a_config a)\<lparr>as_schedule := (as_schedule (a_config a))\<lparr>sc_nextRunAt := next\<rparr>, ag_updatedAt := now\<rparr>,
     a_state := (a_state a)\<lparr>ags_nextRunAt := Some next\<rparr>\<rparr>"

text \<open>The identifiers are the ones drawn for the run, and for its record when it cannot be started.\<close>

definition processDueAgent :: "agent_env \<Rightarrow> ident \<Rightarrow> instant \<Rightarrow> ident \<times> ident \<Rightarrow> agent \<Rightarrow> unit agent_op" where
  "processDueAgent E u now ids a = (let slot = sc_nextRunAt (as_schedule (a_config a)) in
     bind (next_run E (as_schedule (a_config a)) now) (\<lambda>next.
     bind (loadAgent u (ag_id (a_config a))) (\<lambda>latest. case latest of None \<Rightarrow> ret ()
     | Some b \<Rightarrow> if \<not> ag_enabled (a_config b) then ret ()
         else bind (listActiveAgentRuns u (ag_id (a_config a))) (\<lambda>active.
           if active \<noteq> [] \<or> ags_activeRunId (a_state b) \<noteq> None
           then (let skipped = createSkippedRun (fst ids) now b slot ''Previous agent run is still active'' in
             seq (saveAgentRun u now skipped None None)
             (seq (emit_agent (AgentRunSkipped (ag_id (a_config b)) (fst ids) ''Previous agent run is still active''))
             (let c = rescheduled now next b in saveAgent u (c\<lparr>a_state := (a_state c)\<lparr>ags_lastSkippedAt := Some now\<rparr>\<rparr>))))
           else seq (saveAgent u (rescheduled now next b))
             (bind (catching (startAgentRun u now (fst ids) b TriggerSchedule (Some slot) [])
                (\<lambda>x. recordStartFailure u now (snd ids) b TriggerSchedule (Some slot) x)) (\<lambda>_. ret ()))))))"

text \<open>\<open>runForEachActiveUser\<close>; a tick logs the error that ends it.\<close>

definition tick :: "agent_env \<Rightarrow> ident list \<Rightarrow> instant \<Rightarrow> (ident \<Rightarrow> ident \<times> ident) \<Rightarrow> unit agent_op" where
  "tick E users now ids = catching
     (for_each (\<lambda>u. bind (listDueAgents u None now) (for_each (\<lambda>a. processDueAgent E u now (ids (ag_id (a_config a))) a))) users)
     (\<lambda>_. ret ())"

definition restart_error :: "instant \<Rightarrow> agent_error" where
  "restart_error now = \<lparr>ae_message = ''Agent run was interrupted by server restart'', ae_timestamp = now, ae_code = Some ''server_restart''\<rparr>"

definition fail_stale_run :: "ident \<Rightarrow> instant \<Rightarrow> agent_run \<Rightarrow> unit agent_op" where
  "fail_stale_run u now run = saveAgentRun u now (run\<lparr>run_status := RunFailed, run_completedAt := Some now,
     run_error := Some (restart_error now), run_updatedAt := now\<rparr>) None None"

definition reconcile_agent :: "ident \<Rightarrow> instant \<Rightarrow> agent \<Rightarrow> unit agent_op" where
  "reconcile_agent u now a = bind (listActiveAgentRuns u (ag_id (a_config a))) (\<lambda>active.
     if active = [] \<and> ags_activeRunId (a_state a) = None then ret ()
     else seq (for_each (fail_stale_run u now) active)
       (saveAgent u (a\<lparr>a_config := (a_config a)\<lparr>ag_updatedAt := now\<rparr>,
          a_state := (a_state a)\<lparr>ags_status := (if ag_enabled (a_config a) then AgentEnabled else AgentPaused), ags_activeRunId := None,
            ags_lastError := (if active \<noteq> [] then Some (restart_error now) else ags_lastError (a_state a))\<rparr>\<rparr>)))"

definition reconcileStaleRuns :: "ident \<Rightarrow> instant \<Rightarrow> unit agent_op" where
  "reconcileStaleRuns u now = bind (listAgents u None) (for_each (reconcile_agent u now))"

text \<open>\<open>start\<close>: the stale runs of every active user, then the first tick, unless the reconciliation failed.\<close>

definition start_scheduler :: "agent_env \<Rightarrow> ident list \<Rightarrow> instant \<Rightarrow> (ident \<Rightarrow> ident \<times> ident) \<Rightarrow> unit agent_op" where
  "start_scheduler E users now ids = catching (seq (for_each (\<lambda>u. reconcileStaleRuns u now) users) (tick E users now ids)) (\<lambda>_. ret ())"

end
