(* ===== verification/Spec2Isabelle.thy ===== *)
theory Spec2Isabelle
  imports Prelude TaskStatus OperationQueue TaskModel TranscriptStore TaskRows TaskStore
    PromiseMarkers EngineInputs TaskEngine EngineLoop EngineLimits EngineInvariants LifecycleProps RunProps
    AuthProps TicketProps FileSystemLocks ScheduleProps StreamProps AgentManager
begin

text \<open>
  Clanky runs coding agents on behalf of its users. A user writes a task; the server keeps it in SQLite, starts
  an engine that sends prompts to an agent until the task is done, and lets the user follow up, review, accept,
  merge or delete the result. Around the tasks are accounts and credentials, and access to files of execution
  hosts. This development models the core of the server, in TypeScript under \<open>src/src/\<close>, and proves what makes
  each part correct. File names below are relative to that directory.

  How to read the model. A stored value is a record or a datatype with the fields and constructors of the
  TypeScript type; a property that may be missing is an \<open>option\<close>. A function that changes state takes the state
  and returns it; one that throws returns a sum, or is an operation of \<open>Prelude\<close>, which keeps the changes made
  before the throw. An asynchronous function whose awaits matter is cut at them into steps, and the properties
  hold for every order of steps. Times are numbers: the code compares ISO texts of one width. Random draws, the
  clock, and the answers of agents, Git, the WebAuthn, JOSE and URL libraries are arguments.

  \<^bold>\<open>Shared.\<close> \<open>Prelude\<close>: insertion-ordered maps (JavaScript's \<open>Map\<close>), operations that may throw, and the locale
  \<open>op_relation\<close>: an operation respects a reflexive and transitive relation of states when its parts do. \<open>Runs\<close>:
  invariants along sequences of calls (\<open>transitions\<close>), and the contract of a credential that can be redeemed once
  (\<open>one_use\<close>, \<open>credential_table\<close>).

  \<^bold>\<open>Tasks.\<close> \<open>TaskStatus\<close> is \<open>core/task-state-machine.ts\<close>, \<open>utils/task-status.ts\<close> and the provisioning machine of
  \<open>core/provisioning/state-machine.ts\<close>: tables of transitions, and the predicates of the user interface.
  \<open>OperationQueue\<close> is \<open>utils/keyed-operation-queue.ts\<close> with the deferred cleanup of
  \<open>core/task/task-lifecycle-operations.ts\<close>; its safety rests on the locale \<open>fifo_order\<close>. \<open>TaskModel\<close> has the records of
  \<open>shared/task.ts\<close>; \<open>TaskRows\<close> maps them to the columns of the table and back (\<open>persistence/tasks/helpers.ts\<close>);
  \<open>TranscriptStore\<close> keeps messages, tool calls and logs (\<open>persistence/transcripts/\<close>); \<open>TaskStore\<close> is the store
  (\<open>crud.ts\<close>, \<open>updates.ts\<close>, \<open>queries.ts\<close> of \<open>persistence/tasks\<close>). \<open>PromiseMarkers\<close> is \<open>utils/promise-markers.ts\<close>,
  by which an answer tells that the task is complete, blocked or planned.

  \<^bold>\<open>The engine.\<close> \<open>EngineInputs\<close> is \<open>core/engine/engine-inputs.ts\<close> and \<open>core/harness-input-ledger.ts\<close>: the input a
  user leaves for a task, delivered once. \<open>TaskEngine\<close> is \<open>core/engine/engine-core.ts\<close>. What the environment does
  during an iteration is one \<open>turn\<close>: the calls that arrive, the agent's answer and the results of Git; \<open>run_loop\<close>
  consumes a list of turns and returns \<open>None\<close> when the list ends before the loop does. \<open>EngineLoop\<close> shows that the loop
  refines a machine that keeps only status, iteration and error counter; \<open>EngineLimits\<close> reads the limits off that
  machine: with finite limits the loop returns within \<open>maxConsecutiveErrors\<close> turns per remaining iteration, so
  that many turns are enough fuel. \<open>EngineInvariants\<close> shows what holds of every run, through the locales
  \<open>engine_relation\<close> and \<open>restart_relation\<close>.

  \<^bold>\<open>Transcript streams.\<close> \<open>TranscriptIndex\<close> is \<open>core/transcript-memory-index.ts\<close>, the bounded collection of a live
  transcript, and shows that it refines a list. \<open>TranscriptStream\<close> is the live transcript of a task or an agent run: the
  collections (\<open>core/transcript-stream-projection.ts\<close>), the changes that are not written yet (\<open>core/transcript-change-tracker.ts\<close>)
  and the checkpoints that write them (\<open>core/memory-first-persistence-queue.ts\<close>, \<open>persistCurrentState\<close> of
  \<open>core/engine/engine-persistence.ts\<close> and \<open>core/agent-run-stream-persistence.ts\<close>), cut at their awaits. \<open>StreamProps\<close> shows that
  nothing is lost between memory and the table, through the locale \<open>stored_kind\<close> that the three kinds of entries share.

  \<^bold>\<open>The task manager.\<close> \<open>TaskRepository\<close> states what its operations rely on of the store, as the locales
  \<open>task_repository\<close> and \<open>reviving_repository\<close>, and shows that \<open>TaskStore\<close> provides it. \<open>TaskLifecycle\<close> has accepting,
  merging, closing, deleting, purging, resetting and the deferred cleanup (\<open>core/task/task-lifecycle.ts\<close> and the files it
  calls); \<open>TaskRuns\<close> has starting, drafts, plan mode, jumpstarts, revival, follow-ups and feedback
  (\<open>task-execution.ts\<close>, \<open>task-jumpstart.ts\<close>, \<open>task-follow-up.ts\<close>, \<open>task-plan-mode.ts\<close>, \<open>task-review.ts\<close>, \<open>review-engine.ts\<close>).
  \<open>LifecycleProps\<close> and \<open>RunProps\<close> show that they move stored tasks along edges of the status machine only, whatever
  the environment answers, and what each leaves behind when it fails.

  \<^bold>\<open>Accounts.\<close> \<open>AccountStore\<close> is \<open>persistence/accounts/sqlite-store.ts\<close> on lists of rows with the unique keys and the
  cascades of the schema. \<open>AccountRuns\<close> and \<open>AccountCredentials\<close> hold what stays true under any sequence of its calls;
  refresh tokens, device codes and setup links are interpretations of \<open>credential_table\<close>. \<open>DeviceAuth\<close> is users, API
  keys and device authorization (\<open>users.ts\<close>, \<open>api-keys.ts\<close>, \<open>device-auth.ts\<close> of \<open>platform/server/auth\<close>), \<open>ClientTickets\<close> is
  \<open>client-tickets.ts\<close>, \<open>BrowserAuth\<close> is \<open>passkeys.ts\<close> and \<open>platform/server/authentication.ts\<close>. \<open>AuthProps\<close> and \<open>TicketProps\<close>
  state what the credentials guarantee: they are redeemed once, a replay ends its family, a disabled user is
  locked out, and a request is authorized only by a credential that is live in the store.

  \<^bold>\<open>Files.\<close> \<open>ExecutionPath\<close> is \<open>core/execution-path.ts\<close> over the functions of \<open>node:path\<close>; \<open>FileSystemLocks\<close> is
  \<open>core/file-system-locks.ts\<close> and the checks of \<open>core/file-system-service.ts\<close> that every WebDAV write passes.

  \<^bold>\<open>Agents.\<close> \<open>AgentSchedule\<close> is \<open>core/agent-schedule.ts\<close>, which computes the next run of an agent from a local time, a time zone
  and an interval, over the civil calendar of \<open>CalendarTime\<close>; the offsets of a zone are a parameter. \<open>ScheduleProps\<close> shows that the
  next run is found and where it lies, and what a change of the offset does to the runs after it.

  \<^bold>\<open>Bounds.\<close> The capacities are those of the code: 128 calls of a key and 1000 in all for the queue, 999 receipts
  in the input ledger, ten iterations of history, 4096 client tickets and 128 of a session, 2048 locks and 256
  of a file system, 2000 messages and 5000 log lines and tool calls of a transcript in memory. Recursion is structural but for decimal numerals and the like, whose measures decrease.

  \<^bold>\<open>Not modelled.\<close> Agents' processes and their protocols, Git, terminals, the mesh, previews and voice are network and
  process code whose answers are arguments here. HTTP routes parse requests and call the services; schemas are
  calls of a validation library; components and hooks are React. Of the account store, schema creation,
  migrations and OAuth clients are left out; of the transcript store, cursors, paging and the revision row; of
  the task manager, pull request flows and the recovery of native engines. Chats repeat the patterns of tasks
  and are not modelled.
\<close>

end
